(* ===== verification/Prelude.thy ===== *)
theory Prelude
  imports Complex_Main "HOL-Library.Sublist"
begin

text \<open>
  Shared vocabulary of the development.

  \<^item> The JavaScript string operations the program uses (\<open>trim\<close>, \<open>split\<close>, \<open>join\<close>,
    \<open>startsWith\<close>, \<open>includes\<close>, \<open>toLowerCase\<close>, decimal digit tests and conversion). A
    \<^typ>\<open>string\<close> is a list of code units below 256; the white space set and the case
    mapping are those of ECMAScript restricted to that range.
  \<^item> Table operations with the meaning of the Prisma calls the services make: a table is a
    list of rows, \<open>updateMany\<close> maps the rows that satisfy the \<open>where\<close> clause and
    \<open>deleteMany\<close> filters them out.
  \<^item> Instants are integers (milliseconds since the epoch), as \<open>Date.getTime\<close> returns.
\<close>

named_theorems table_simps \<open>equations of the table operations\<close>
named_theorems str_simps \<open>equations of the string operations\<close>

type_synonym instant = int

text \<open>\<open>Number.MAX_SAFE_INTEGER\<close>.\<close>

definition max_safe_integer :: int where
  "max_safe_integer = 9007199254740991"

section \<open>Characters\<close>

abbreviation code_of :: "char \<Rightarrow> nat" where
  "code_of c \<equiv> of_char c"

definition is_js_space :: "char \<Rightarrow> bool" where
  "is_js_space c \<longleftrightarrow> code_of c \<in> {9, 10, 11, 12, 13, 32, 160}"

definition is_digit :: "char \<Rightarrow> bool" where
  "is_digit c \<longleftrightarrow> 48 \<le> code_of c \<and> code_of c \<le> 57"

definition digit_val :: "char \<Rightarrow> nat" where
  "digit_val c = code_of c - 48"

definition digit_char :: "nat \<Rightarrow> char" where
  "digit_char d = char_of (48 + d)"

text \<open>\<open>toLowerCase\<close> below 256: ASCII capitals and the Latin-1 capitals but the
  multiplication sign.\<close>

definition lower_char :: "char \<Rightarrow> char" where
  "lower_char c =
     (let n = code_of c in
      if (65 \<le> n \<and> n \<le> 90) \<or> (192 \<le> n \<and> n \<le> 222 \<and> n \<noteq> 215) then char_of (n + 32) else c)"

lemma code_of_less [simp]: "code_of c < 256"
  by (rule nat_of_char_less_256)

lemma digit_char_is_digit [simp]: "d < 10 \<Longrightarrow> is_digit (digit_char d)"
  by (simp add: is_digit_def digit_char_def)

lemma digit_val_char [simp]: "d < 10 \<Longrightarrow> digit_val (digit_char d) = d"
  by (simp add: digit_val_def digit_char_def)

lemma digit_char_val [simp]: "is_digit c \<Longrightarrow> digit_char (digit_val c) = c"
  by (simp add: is_digit_def digit_val_def digit_char_def)

lemma digit_val_less [simp]: "is_digit c \<Longrightarrow> digit_val c < 10"
  by (auto simp: is_digit_def digit_val_def)

lemma digit_not_space [simp]: "is_digit c \<Longrightarrow> \<not> is_js_space c"
  by (auto simp: is_digit_def is_js_space_def)

lemma lower_char_idem [simp]: "lower_char (lower_char c) = lower_char c"
proof (cases "(65 \<le> code_of c \<and> code_of c \<le> 90) \<or>
    (192 \<le> code_of c \<and> code_of c \<le> 222 \<and> code_of c \<noteq> 215)")
  case True
  then have "code_of (char_of (code_of c + 32) :: char) = code_of c + 32"
    by auto
  with True show ?thesis
    by (auto simp: lower_char_def Let_def)
next
  case False
  then have "lower_char c = c" by (auto simp: lower_char_def Let_def)
  then show ?thesis by simp
qed

section \<open>Strings\<close>

definition js_trim_start :: "string \<Rightarrow> string" where
  "js_trim_start s = dropWhile is_js_space s"

definition js_trim :: "string \<Rightarrow> string" where
  "js_trim s = rev (js_trim_start (rev (js_trim_start s)))"

definition js_lower :: "string \<Rightarrow> string" where
  "js_lower s = map lower_char s"

definition starts_with :: "string \<Rightarrow> string \<Rightarrow> bool" where
  "starts_with p s \<longleftrightarrow> take (length p) s = p"

definition ends_with :: "string \<Rightarrow> string \<Rightarrow> bool" where
  "ends_with p s \<longleftrightarrow> starts_with (rev p) (rev s)"

fun str_includes :: "string \<Rightarrow> string \<Rightarrow> bool" where
  "str_includes p [] = (p = [])"
| "str_includes p (c # s) = (starts_with p (c # s) \<or> str_includes p s)"

text \<open>\<open>s.split(c)\<close> for a one-character separator: never empty.\<close>

fun split_on :: "char \<Rightarrow> string \<Rightarrow> string list" where
  "split_on c [] = [[]]"
| "split_on c (x # xs) =
     (if x = c then [] # split_on c xs
      else (case split_on c xs of [] \<Rightarrow> [[x]] | p # ps \<Rightarrow> (x # p) # ps))"

fun join_with :: "string \<Rightarrow> string list \<Rightarrow> string" where
  "join_with sep [] = []"
| "join_with sep [x] = x"
| "join_with sep (x # y # ys) = x @ sep @ join_with sep (y # ys)"

definition all_digits :: "string \<Rightarrow> bool" where
  "all_digits s \<longleftrightarrow> s \<noteq> [] \<and> list_all is_digit s"

definition digits_val :: "string \<Rightarrow> nat" where
  "digits_val s = foldl (\<lambda>n c. 10 * n + digit_val c) 0 s"

fun show_nat :: "nat \<Rightarrow> string" where
  "show_nat n = (if n < 10 then [digit_char n] else show_nat (n div 10) @ [digit_char (n mod 10)])"

declare show_nat.simps [simp del]

definition show_int :: "int \<Rightarrow> string" where
  "show_int i = (if i < 0 then ''-'' @ show_nat (nat (- i)) else show_nat (nat i))"

lemma starts_with_append [simp]: "starts_with p (p @ s)"
  by (simp add: starts_with_def)

lemma starts_with_prefix: "starts_with p s \<longleftrightarrow> prefix p s"
  by (metis append_take_drop_id prefixI prefixE starts_with_append starts_with_def)

lemma str_includes_sublist: "str_includes p s \<longleftrightarrow> sublist p s"
  by (induction s) (auto simp: starts_with_prefix sublist_Cons_right)

lemma split_on_nonempty [simp]: "split_on c s \<noteq> []"
  by (induction s) (auto split: list.splits)

lemma join_split [simp]: "join_with [c] (split_on c s) = s"
proof (induction s)
  case (Cons x s)
  then show ?case
    by (cases "split_on c s"; cases "tl (split_on c s)") (auto split: list.splits)
qed simp

lemma split_on_no_sep: "c \<notin> set s \<Longrightarrow> split_on c s = [s]"
  by (induction s) auto

lemma split_on_append: "c \<notin> set p \<Longrightarrow> split_on c (p @ c # s) = p # split_on c s"
  by (induction p) auto

lemma split_join: "ps \<noteq> [] \<Longrightarrow> \<forall>p \<in> set ps. c \<notin> set p \<Longrightarrow> split_on c (join_with [c] ps) = ps"
  by (induction "[c]" ps rule: join_with.induct) (auto simp: split_on_no_sep split_on_append)

lemma split_on_parts: "p \<in> set (split_on c s) \<Longrightarrow> c \<notin> set p"
  by (induction s arbitrary: p) (auto split: if_splits list.splits)

lemma digits_val_snoc [simp]: "digits_val (s @ [c]) = 10 * digits_val s + digit_val c"
  by (simp add: digits_val_def)

lemma digits_val_Nil [simp]: "digits_val [] = 0"
  by (simp add: digits_val_def)

lemma show_nat_nonempty [simp]: "show_nat n \<noteq> []"
  by (subst show_nat.simps) simp

lemma show_nat_digits [simp]: "list_all is_digit (show_nat n)"
proof (induction n rule: show_nat.induct)
  case (1 n)
  then show ?case by (subst show_nat.simps) simp
qed

lemma all_digits_show_nat [simp]: "all_digits (show_nat n)"
  by (simp add: all_digits_def)

lemma digits_val_show_nat [simp]: "digits_val (show_nat n) = n"
proof (induction n rule: show_nat.induct)
  case (1 n)
  show ?case
  proof (cases "n < 10")
    case True
    then show ?thesis by (subst show_nat.simps) (simp add: digits_val_def)
  next
    case False
    with 1 show ?thesis by (subst show_nat.simps) simp
  qed
qed

lemma show_nat_inj: "show_nat m = show_nat n \<longleftrightarrow> m = n"
  by (metis digits_val_show_nat)

text \<open>A decimal numeral without a superfluous leading zero is the one \<^const>\<open>show_nat\<close> prints.\<close>

lemma digits_val_Cons: "digits_val (c # s) = digit_val c * 10 ^ length s + digits_val s"
proof (induction s rule: rev_induct)
  case (snoc x s)
  have "digits_val (c # s @ [x]) = digits_val ((c # s) @ [x])" by simp
  also have "\<dots> = 10 * digits_val (c # s) + digit_val x" by (simp only: digits_val_snoc)
  finally show ?case using snoc by (simp add: algebra_simps)
qed (simp add: digits_val_def)

lemma show_digits_val:
  assumes "all_digits s" and "length s > 1 \<longrightarrow> hd s \<noteq> CHR ''0''"
  shows "show_nat (digits_val s) = s"
  using assms
proof (induction s rule: rev_induct)
  case Nil
  then show ?case by (simp add: all_digits_def)
next
  case (snoc c s)
  from snoc.prems have c: "is_digit c" and s: "list_all is_digit s"
    by (simp_all add: all_digits_def)
  show ?case
  proof (cases "s = []")
    case True
    with c show ?thesis by (subst show_nat.simps) (simp add: digits_val_def)
  next
    case False
    then obtain d t where st: "s = d # t" by (cases s) auto
    with snoc.prems s have d: "d \<noteq> CHR ''0''" "is_digit d" by auto
    have "digit_val d \<noteq> 0"
    proof
      assume "digit_val d = 0"
      with d(2) have "code_of d = 48"
        by (simp add: is_digit_def digit_val_def)
      also have "48 = code_of CHR ''0''" by simp
      finally have "d = CHR ''0''" by (simp only: of_char_eq_iff)
      with d(1) show False by contradiction
    qed
    then have pos: "0 < digits_val s" by (simp add: st digits_val_Cons)
    from False s snoc.prems(2) have IH: "show_nat (digits_val s) = s"
      by (intro snoc.IH) (auto simp: all_digits_def st)
    from pos have "\<not> digits_val (s @ [c]) < 10" by simp
    with c IH show ?thesis
      by (subst show_nat.simps) simp
  qed
qed

lemma js_trim_start_no_space: "list_all (Not \<circ> is_js_space) s \<Longrightarrow> js_trim_start s = s"
  by (cases s) (auto simp: js_trim_start_def)

lemma js_trim_no_space: "list_all (Not \<circ> is_js_space) s \<Longrightarrow> js_trim s = s"
  by (simp add: js_trim_def js_trim_start_no_space)

lemma js_trim_Nil [simp]: "js_trim [] = []"
  by (simp add: js_trim_def js_trim_start_def)

lemma dropWhile_id: "xs = [] \<or> \<not> P (hd xs) \<Longrightarrow> dropWhile P xs = xs"
  by (cases xs) auto

lemma dropWhile_hd: "dropWhile P xs = [] \<or> \<not> P (hd (dropWhile P xs))"
  by (metis hd_dropWhile)

lemma js_trim_last: "js_trim s = [] \<or> \<not> is_js_space (last (js_trim s))"
  unfolding js_trim_def js_trim_start_def last_rev
  using dropWhile_hd [of is_js_space "rev (dropWhile is_js_space s)"] by auto

lemma js_trim_hd: "js_trim s = [] \<or> \<not> is_js_space (hd (js_trim s))"
proof -
  let ?t = "dropWhile is_js_space s"
  have "prefix (js_trim s) ?t"
    using suffix_dropWhile [of is_js_space "rev ?t"]
    by (simp add: js_trim_def js_trim_start_def suffix_to_prefix)
  then have "js_trim s = [] \<or> hd (js_trim s) = hd ?t"
    by (metis hd_append2 prefixE)
  moreover have "js_trim s = []" if "?t = []"
    by (simp only: js_trim_def js_trim_start_def that rev.simps dropWhile.simps)
  ultimately show ?thesis
    using dropWhile_hd [of is_js_space s] by auto
qed

lemma js_trim_idem [simp]: "js_trim (js_trim s) = js_trim s"
proof -
  have "dropWhile is_js_space (js_trim s) = js_trim s"
    using js_trim_hd [of s] by (rule dropWhile_id)
  moreover have "dropWhile is_js_space (rev (js_trim s)) = rev (js_trim s)"
    by (rule dropWhile_id) (use js_trim_last [of s] in \<open>auto simp: hd_rev\<close>)
  ultimately show ?thesis
    by (simp add: js_trim_def [of "js_trim s"] js_trim_start_def)
qed

lemma js_lower_idem [simp]: "js_lower (js_lower s) = js_lower s"
  by (simp add: js_lower_def)

section \<open>Tables\<close>

definition upd_where :: "('r \<Rightarrow> bool) \<Rightarrow> ('r \<Rightarrow> 'r) \<Rightarrow> 'r list \<Rightarrow> 'r list" where
  "upd_where p f rows = map (\<lambda>r. if p r then f r else r) rows"

definition del_where :: "('r \<Rightarrow> bool) \<Rightarrow> 'r list \<Rightarrow> 'r list" where
  "del_where p rows = filter (\<lambda>r. \<not> p r) rows"

definition count_where :: "('r \<Rightarrow> bool) \<Rightarrow> 'r list \<Rightarrow> nat" where
  "count_where p rows = length (filter p rows)"

lemma upd_where_Nil [simp]: "upd_where p f [] = []"
  by (simp add: upd_where_def)

lemma upd_where_Cons [simp]: "upd_where p f (r # rs) = (if p r then f r else r) # upd_where p f rs"
  by (simp add: upd_where_def)

lemma set_upd_where: "set (upd_where p f rows) = (\<lambda>r. if p r then f r else r) ` set rows"
  by (simp add: upd_where_def)

lemma length_upd_where [simp]: "length (upd_where p f rows) = length rows"
  by (simp add: upd_where_def)

lemma upd_where_none: "\<forall>r \<in> set rows. \<not> p r \<Longrightarrow> upd_where p f rows = rows"
  by (induction rows) auto

lemma count_where_0: "count_where p rows = 0 \<longleftrightarrow> (\<forall>r \<in> set rows. \<not> p r)"
  by (auto simp: count_where_def filter_empty_conv)

lemma set_del_where: "set (del_where p rows) = {r \<in> set rows. \<not> p r}"
  by (auto simp: del_where_def)

lemma upd_where_map_key: "(\<And>r. p r \<Longrightarrow> k (f r) = k r) \<Longrightarrow> map k (upd_where p f rows) = map k rows"
  by (induction rows) auto

lemmas table_defs = upd_where_def del_where_def count_where_def

declare set_upd_where [table_simps] set_del_where [table_simps]

lemma find_SomeD: "find P xs = Some x \<Longrightarrow> x \<in> set xs \<and> P x"
  by (metis find_Some_iff nth_mem)

text \<open>Keep-first duplicate removal: the element order of a JavaScript \<open>Set\<close> or \<open>Map\<close>.\<close>

fun uniq :: "'a list \<Rightarrow> 'a list" where
  "uniq [] = []"
| "uniq (x # xs) = x # filter (\<lambda>y. y \<noteq> x) (uniq xs)"

lemma set_uniq [simp]: "set (uniq xs) = set xs"
  by (induction xs) auto

lemma distinct_uniq [simp]: "distinct (uniq xs)"
  by (induction xs) auto

lemma uniq_distinct: "distinct xs \<Longrightarrow> uniq xs = xs"
proof (induction xs)
  case (Cons x xs)
  then have "filter (\<lambda>y. y \<noteq> x) xs = xs" by (auto intro: filter_True)
  with Cons show ?case by simp
qed simp

lemma length_uniq_le: "length (uniq xs) \<le> length xs"
  by (metis card_length distinct_card distinct_uniq set_uniq)

section \<open>Ordered choice\<close>

text \<open>The row that \<open>findFirst\<close> returns under an ascending or a descending \<open>orderBy\<close>.\<close>

fun first_by :: "('a \<Rightarrow> 'k::linorder) \<Rightarrow> 'a list \<Rightarrow> 'a option" where
  "first_by k [] = None"
| "first_by k (x # xs) =
     (case first_by k xs of None \<Rightarrow> Some x | Some y \<Rightarrow> Some (if k x \<le> k y then x else y))"

lemma first_by_None [simp]: "first_by k xs = None \<longleftrightarrow> xs = []"
  by (cases xs) (auto split: option.splits)

lemma first_by_Some: "first_by k xs = Some x \<Longrightarrow> x \<in> set xs \<and> (\<forall>y \<in> set xs. k x \<le> k y)"
  by (induction xs arbitrary: x) (auto split: option.splits if_splits intro: order_trans)

fun last_by :: "('a \<Rightarrow> 'k::linorder) \<Rightarrow> 'a list \<Rightarrow> 'a option" where
  "last_by k [] = None"
| "last_by k (x # xs) =
     (case last_by k xs of None \<Rightarrow> Some x | Some y \<Rightarrow> Some (if k y \<le> k x then x else y))"

lemma last_by_None [simp]: "last_by k xs = None \<longleftrightarrow> xs = []"
  by (cases xs) (auto split: option.splits)

lemma last_by_Some: "last_by k xs = Some x \<Longrightarrow> x \<in> set xs \<and> (\<forall>y \<in> set xs. k y \<le> k x)"
  by (induction xs arbitrary: x) (auto split: option.splits if_splits intro: order_trans)

end
