(* ===== verification/Database.thy ===== *)
theory Database
  imports Prelude "HOL-Library.Word"
begin

text \<open>
  The tables of \<open>packages/db/prisma/schema.prisma\<close> that the services read and write. A table
  is a list of rows in insertion order; a nullable column is an \<open>option\<close>; a column of type
  \<open>DateTime\<close> is an \<^typ>\<open>instant\<close>. Column defaults that the database fills in (row ids,
  \<open>createdAt\<close>, \<open>updatedAt\<close>) are arguments of the operations that insert or update.
  JSON values are the columns of type \<open>Json\<close> and the payloads GitLab returns.
\<close>

section \<open>JSON values\<close>

datatype json =
    JNull
  | JBool bool
  | JNum rat
  | JStr string
  | JArr "json list"
  | JObj "(string \<times> json) list"

section \<open>Enumerations\<close>

datatype user_role = Admin | Tech_Lead | Developer

datatype user_status = User_Active | User_Deactivated

datatype email_source = Gitlab_Primary | Gitlab_Secondary | User_Alias

datatype email_verification = Gitlab_Verified | Gitlab_Unverified | User_Unverified

datatype connection_status = Conn_Active | Conn_Invalid | Conn_Superseded | Conn_Deleted

datatype credential_status = Cred_Active | Cred_Invalid | Cred_Superseded | Cred_Revoked

datatype invalidation_reason =
  Gitlab_Unauthorized | Expired | User_Revoked | User_Deleted | Connection_Deleted

datatype job_status = Pending | Running | Completed | Failed | Sync_Blocked

datatype kpi_rule_status = Rule_Active | Rule_Inactive

section \<open>Rows\<close>

record user_row =
  u_id :: string
  u_email :: string
  u_norm :: string
  u_pw_hash :: string
  u_role :: user_role
  u_status :: user_status
  u_created_by :: "string option"
  u_invited_at :: "instant option"
  u_created_at :: instant
  u_last_login :: "instant option"
  u_failed :: nat
  u_locked_until :: "instant option"

record email_row =
  e_id :: string
  e_user :: string
  e_email :: string
  e_norm :: string
  e_source :: email_source
  e_verif :: email_verification
  e_primary :: bool
  e_created_at :: instant

record instance_row =
  gi_id :: string
  gi_base_url :: string
  gi_label :: "string option"
  gi_internal :: bool
  gi_created_at :: instant

record connection_row =
  cn_id :: string
  cn_user :: string
  cn_instance :: string
  cn_gl_user :: string
  cn_gl_name :: string
  cn_status :: connection_status
  cn_validated :: "instant option"
  cn_created_at :: instant
  cn_updated_at :: instant

record credential_row =
  cr_id :: string
  cr_conn :: string
  cr_ciphertext :: "8 word list"
  cr_auth_tag :: "8 word list"
  cr_env_version :: int
  cr_key_version :: int
  cr_nonce :: "8 word list"
  cr_hint :: string
  cr_status :: credential_status
  cr_reason :: "invalidation_reason option"
  cr_revoked_at :: "instant option"
  cr_created_at :: instant

record session_row =
  s_id :: string
  s_user :: string
  s_token_hash :: string
  s_created_at :: instant
  s_expires_at :: instant
  s_last_seen :: instant
  s_rotated_from :: "string option"
  s_revoked_at :: "instant option"
  s_ua_hash :: "string option"
  s_ip_hash :: "string option"

record allow_row =
  al_id :: string
  al_instance :: string
  al_project :: string
  al_path :: "string option"
  al_created_at :: instant

record enable_row =
  en_user :: string
  en_instance :: string
  en_project :: string
  en_at :: instant

record membership_row =
  mb_user :: string
  mb_instance :: string
  mb_project :: string
  mb_allowed :: bool
  mb_checked_at :: instant
  mb_expires_at :: instant

record commit_row =
  cc_instance :: string
  cc_project :: string
  cc_sha :: string
  cc_email :: "string option"
  cc_norm :: "string option"
  cc_authored_at :: instant
  cc_title :: "string option"
  cc_url :: "string option"
  cc_raw_at :: instant

record mr_row =
  mr_instance :: string
  mr_project :: string
  mr_iid :: int
  mr_title :: "string option"
  mr_state :: "string option"
  mr_email :: "string option"
  mr_norm :: "string option"
  mr_head_sha :: "string option"
  mr_url :: "string option"
  mr_updated_at :: instant

record commit_state_row =
  cs_instance :: string
  cs_project :: string
  cs_watermark :: "instant option"
  cs_window_start :: "instant option"
  cs_window_end :: "instant option"
  cs_branch_cursor :: "string option"

record mr_state_row =
  ms_instance :: string
  ms_project :: string
  ms_updated_after :: "instant option"

record job_row =
  j_id :: string
  j_type :: string
  j_instance :: "string option"
  j_project :: "string option"
  j_status :: job_status
  j_attempts :: nat
  j_last_error :: "string option"
  j_run_after :: instant
  j_claimed_by :: "string option"
  j_claimed_at :: "instant option"
  j_created_at :: instant
  j_updated_at :: instant

record audit_row =
  au_actor :: "string option"
  au_action :: string
  au_meta :: json

record kpi_rule_row =
  kr_key :: string
  kr_min :: "rat option"
  kr_max :: "rat option"
  kr_unit :: "string option"
  kr_detection :: "string option"
  kr_status :: kpi_rule_status

record kpi_ruleset_row =
  ks_id :: string
  ks_role :: string
  ks_version :: string
  ks_rules :: "kpi_rule_row list"

record snapshot_row =
  sn_user :: string
  sn_scope :: string
  sn_metric :: string
  sn_value :: "rat option"
  sn_unit :: "string option"
  sn_verification :: "string option"
  sn_rule_version :: string
  sn_source :: string
  sn_detection :: "string option"
  sn_calculated_at :: instant
  sn_window_start :: instant
  sn_window_end :: instant
  sn_status :: string

section \<open>The database\<close>

record database =
  t_users :: "user_row list"
  t_emails :: "email_row list"
  t_instances :: "instance_row list"
  t_connections :: "connection_row list"
  t_credentials :: "credential_row list"
  t_sessions :: "session_row list"
  t_allowlist :: "allow_row list"
  t_enables :: "enable_row list"
  t_memberships :: "membership_row list"
  t_commits :: "commit_row list"
  t_mrs :: "mr_row list"
  t_commit_states :: "commit_state_row list"
  t_mr_states :: "mr_state_row list"
  t_jobs :: "job_row list"
  t_audit :: "audit_row list"
  t_rulesets :: "kpi_ruleset_row list"
  t_snapshots :: "snapshot_row list"

definition empty_db :: database where
  "empty_db = \<lparr>t_users = [], t_emails = [], t_instances = [], t_connections = [],
     t_credentials = [], t_sessions = [], t_allowlist = [], t_enables = [], t_memberships = [],
     t_commits = [], t_mrs = [], t_commit_states = [], t_mr_states = [], t_jobs = [],
     t_audit = [], t_rulesets = [], t_snapshots = []\<rparr>"

section \<open>Project references\<close>

text \<open>\<open>ProjectRef\<close> of \<open>packages/domain/src/types.ts\<close>.\<close>

record project_ref =
  pr_instance :: string
  pr_project :: string

definition job_for :: "project_ref \<Rightarrow> job_row \<Rightarrow> bool" where
  "job_for p j \<longleftrightarrow> j_instance j = Some (pr_instance p) \<and> j_project j = Some (pr_project p)"

lemma project_ref_eq_iff:
  "(p :: project_ref) = q \<longleftrightarrow> pr_instance p = pr_instance q \<and> pr_project p = pr_project q"
  by auto

lemma job_for_unique: "job_for p j \<Longrightarrow> job_for q j \<Longrightarrow> p = q"
  by (simp add: job_for_def project_ref_eq_iff)

end
