(* ===== verification/JobQueue.thy ===== *)
theory JobQueue
  imports Database "HOL-Library.List_Lexorder" "HOL-Library.Char_ord"
begin

text \<open>
  The sync job queue of \<open>packages/domain/src/job-queue.ts\<close>: one definition per method of
  \<open>PostgresJobQueue\<close>, each a function on the rows of \<open>sync_jobs\<close>. Every SQL statement is one
  atomic step. \<open>FOR UPDATE SKIP LOCKED\<close> appears as the set of row ids that other transactions
  hold locked while \<open>claim\<close> runs. Row lemmas come first, then the per-operation facts that the
  protocol theory, the scheduler and the worker use.
\<close>

section \<open>Constants and conversions\<close>

definition project_sync_job_type :: string where
  "project_sync_job_type = ''project_sync''"

definition max_sync_job_attempts :: nat where
  "max_sync_job_attempts = 5"

definition max_safe_job_error_length :: nat where
  "max_safe_job_error_length = 120"

datatype error_category = Cat_Failed | Cat_Blocked | Cat_Stale

definition stale_claim_message :: string where
  "stale_claim_message = ''Worker claim expired''"

text \<open>\<open>sanitizeJobError\<close> ignores the error it is given.\<close>

definition sanitize_job_error :: "string \<Rightarrow> error_category \<Rightarrow> string" where
  "sanitize_job_error err cat =
     take max_safe_job_error_length
       (case cat of Cat_Blocked \<Rightarrow> ''Project sync blocked''
        | Cat_Stale \<Rightarrow> stale_claim_message
        | Cat_Failed \<Rightarrow> ''Job execution failed'')"

datatype queue_error = Invalid_Queue_Row | Worker_Id_Required | Bad_Stale_Claim_Seconds

record sync_job =
  sj_id :: string
  sj_instance :: string
  sj_project :: string
  sj_status :: job_status
  sj_attempts :: nat
  sj_last_error :: "string option"
  sj_run_after :: instant
  sj_claimed_by :: "string option"
  sj_claimed_at :: "instant option"

definition to_sync_job :: "job_row \<Rightarrow> queue_error + sync_job" where
  "to_sync_job j =
     (if j_type j \<noteq> project_sync_job_type then Inl Invalid_Queue_Row
      else case (j_instance j, j_project j) of
        (Some i, Some p) \<Rightarrow>
          Inr \<lparr>sj_id = j_id j, sj_instance = i, sj_project = p, sj_status = j_status j,
               sj_attempts = j_attempts j, sj_last_error = j_last_error j,
               sj_run_after = j_run_after j, sj_claimed_by = j_claimed_by j,
               sj_claimed_at = j_claimed_at j\<rparr>
      | _ \<Rightarrow> Inl Invalid_Queue_Row)"

text \<open>The constructor's check of \<open>staleClaimSeconds\<close> (default 300).\<close>

definition new_job_queue :: "int option \<Rightarrow> queue_error + int" where
  "new_job_queue stale =
     (let s = (case stale of None \<Rightarrow> 300 | Some v \<Rightarrow> v) in
      if s \<le> 0 \<or> max_safe_integer < s then Inl Bad_Stale_Claim_Seconds else Inr s)"

section \<open>Order of claims\<close>

text \<open>\<open>ORDER BY run_after ASC, created_at ASC, id ASC\<close>.\<close>

datatype claim_key = Claim_Key instant instant string

instantiation claim_key :: linorder
begin

fun less_eq_claim_key :: "claim_key \<Rightarrow> claim_key \<Rightarrow> bool" where
  "less_eq_claim_key (Claim_Key r c i) (Claim_Key r' c' i') \<longleftrightarrow>
     r < r' \<or> (r = r' \<and> (c < c' \<or> (c = c' \<and> i \<le> i')))"

definition less_claim_key :: "claim_key \<Rightarrow> claim_key \<Rightarrow> bool" where
  "less_claim_key a b \<longleftrightarrow> a \<le> b \<and> \<not> b \<le> a"

instance
proof
  fix a b c :: claim_key
  show "a < b \<longleftrightarrow> a \<le> b \<and> \<not> b \<le> a" by (rule less_claim_key_def)
  show "a \<le> a" by (cases a) simp
  show "a \<le> b \<Longrightarrow> b \<le> c \<Longrightarrow> a \<le> c" by (cases a; cases b; cases c) auto
  show "a \<le> b \<Longrightarrow> b \<le> a \<Longrightarrow> a = b" by (cases a; cases b) auto
  show "a \<le> b \<or> b \<le> a" by (cases a; cases b) auto
qed

end

definition claim_key_of :: "job_row \<Rightarrow> claim_key" where
  "claim_key_of j = Claim_Key (j_run_after j) (j_created_at j) (j_id j)"

section \<open>Operations\<close>

definition is_active :: "job_row \<Rightarrow> bool" where
  "is_active j \<longleftrightarrow> j_status j \<in> {Pending, Running}"

definition active_for :: "project_ref \<Rightarrow> job_row \<Rightarrow> bool" where
  "active_for p j \<longleftrightarrow> j_type j = project_sync_job_type \<and> job_for p j \<and> is_active j"

definition new_job :: "string \<Rightarrow> project_ref \<Rightarrow> instant \<Rightarrow> instant \<Rightarrow> job_row" where
  "new_job jid p run_after now =
     \<lparr>j_id = jid, j_type = project_sync_job_type, j_instance = Some (pr_instance p),
      j_project = Some (pr_project p), j_status = Pending, j_attempts = 0, j_last_error = None,
      j_run_after = run_after, j_claimed_by = None, j_claimed_at = None,
      j_created_at = now, j_updated_at = now\<rparr>"

text \<open>\<open>enqueue\<close>: under the advisory lock, look for an active job of the project and create
  one when there is none.\<close>

definition enqueue ::
    "string \<Rightarrow> instant \<Rightarrow> project_ref \<Rightarrow> instant option \<Rightarrow> job_row list \<Rightarrow> job_row list" where
  "enqueue jid now p run_after jobs =
     (case find (active_for p) jobs of
        Some _ \<Rightarrow> jobs
      | None \<Rightarrow> jobs @ [new_job jid p (case run_after of None \<Rightarrow> now | Some r \<Rightarrow> r) now])"

definition claimable :: "instant \<Rightarrow> string set \<Rightarrow> job_row \<Rightarrow> bool" where
  "claimable now locked j \<longleftrightarrow>
     j_status j = Pending \<and> j_type j = project_sync_job_type \<and>
     j_attempts j < max_sync_job_attempts \<and> j_run_after j \<le> now \<and> j_id j \<notin> locked"

definition claim_row :: "instant \<Rightarrow> string \<Rightarrow> job_row \<Rightarrow> job_row" where
  "claim_row now w j =
     j\<lparr>j_status := Running, j_attempts := j_attempts j + 1, j_claimed_by := Some w,
       j_claimed_at := Some now, j_last_error := None, j_updated_at := now\<rparr>"

definition claim ::
    "instant \<Rightarrow> string set \<Rightarrow> string \<Rightarrow> job_row list
       \<Rightarrow> (queue_error + sync_job option) \<times> job_row list" where
  "claim now locked w jobs =
     (if js_trim w = [] then (Inl Worker_Id_Required, jobs)
      else case first_by claim_key_of (filter (claimable now locked) jobs) of
        None \<Rightarrow> (Inr None, jobs)
      | Some c \<Rightarrow>
          ((case to_sync_job (claim_row now w c) of Inl e \<Rightarrow> Inl e | Inr s \<Rightarrow> Inr (Some s)),
           upd_where (\<lambda>j. j_id j = j_id c) (claim_row now w) jobs))"

text \<open>The \<open>where\<close> clause shared by the operations of the claiming worker.\<close>

definition owned :: "string \<Rightarrow> string \<Rightarrow> job_row \<Rightarrow> bool" where
  "owned jid w j \<longleftrightarrow> j_id j = jid \<and> j_status j = Running \<and> j_claimed_by j = Some w"

definition own_update ::
    "string \<Rightarrow> string \<Rightarrow> (job_row \<Rightarrow> job_row) \<Rightarrow> job_row list \<Rightarrow> bool \<times> job_row list" where
  "own_update jid w f jobs =
     (0 < count_where (owned jid w) jobs, upd_where (owned jid w) f jobs)"

definition complete_row :: "instant \<Rightarrow> job_row \<Rightarrow> job_row" where
  "complete_row now j =
     j\<lparr>j_status := Completed, j_claimed_by := None, j_claimed_at := None, j_last_error := None,
       j_updated_at := now\<rparr>"

definition complete :: "instant \<Rightarrow> string \<Rightarrow> string \<Rightarrow> job_row list \<Rightarrow> bool \<times> job_row list" where
  "complete now jid w = own_update jid w (complete_row now)"

definition fail_row :: "instant \<Rightarrow> string \<Rightarrow> instant option \<Rightarrow> job_row \<Rightarrow> job_row" where
  "fail_row now safe_error retry_at j =
     (let retry = (retry_at \<noteq> None \<and> j_attempts j < max_sync_job_attempts) in
      j\<lparr>j_status := (if retry then Pending else Failed),
        j_run_after := (case retry_at of Some r \<Rightarrow> if retry then r else j_run_after j
                                       | None \<Rightarrow> j_run_after j),
        j_last_error := Some safe_error, j_claimed_by := None, j_claimed_at := None,
        j_updated_at := now\<rparr>)"

definition fail ::
    "instant \<Rightarrow> string \<Rightarrow> string \<Rightarrow> string \<Rightarrow> instant option \<Rightarrow> job_row list
       \<Rightarrow> bool \<times> job_row list" where
  "fail now jid w err retry_at =
     own_update jid w (fail_row now (sanitize_job_error err Cat_Failed) retry_at)"

text \<open>\<open>GREATEST(attempts - 1, 0)\<close> is subtraction on \<^typ>\<open>nat\<close>.\<close>

definition reschedule_row :: "instant \<Rightarrow> instant \<Rightarrow> job_row \<Rightarrow> job_row" where
  "reschedule_row now run_after j =
     j\<lparr>j_status := Pending, j_attempts := j_attempts j - 1, j_run_after := run_after,
       j_claimed_by := None, j_claimed_at := None, j_last_error := None, j_updated_at := now\<rparr>"

definition reschedule ::
    "instant \<Rightarrow> string \<Rightarrow> string \<Rightarrow> instant \<Rightarrow> job_row list \<Rightarrow> bool \<times> job_row list" where
  "reschedule now jid w run_after = own_update jid w (reschedule_row now run_after)"

definition blocked_row :: "instant \<Rightarrow> string \<Rightarrow> job_row \<Rightarrow> job_row" where
  "blocked_row now msg j =
     j\<lparr>j_status := Sync_Blocked, j_claimed_by := None, j_claimed_at := None,
       j_last_error := Some msg, j_updated_at := now\<rparr>"

definition sync_blocked ::
    "instant \<Rightarrow> string \<Rightarrow> string \<Rightarrow> string \<Rightarrow> job_row list \<Rightarrow> bool \<times> job_row list" where
  "sync_blocked now jid w err =
     own_update jid w (blocked_row now (sanitize_job_error err Cat_Blocked))"

definition heartbeat_row :: "instant \<Rightarrow> job_row \<Rightarrow> job_row" where
  "heartbeat_row now j = j\<lparr>j_claimed_at := Some now, j_updated_at := now\<rparr>"

definition heartbeat :: "instant \<Rightarrow> string \<Rightarrow> string \<Rightarrow> job_row list \<Rightarrow> bool \<times> job_row list" where
  "heartbeat now jid w = own_update jid w (heartbeat_row now)"

definition stale_claim :: "instant \<Rightarrow> int \<Rightarrow> job_row \<Rightarrow> bool" where
  "stale_claim now stale_seconds j \<longleftrightarrow>
     j_type j = project_sync_job_type \<and> j_status j = Running \<and>
     (case j_claimed_at j of None \<Rightarrow> True | Some t \<Rightarrow> t < now - stale_seconds * 1000)"

definition recover_row :: "instant \<Rightarrow> job_row \<Rightarrow> job_row" where
  "recover_row now j =
     (let retry = (j_attempts j < max_sync_job_attempts) in
      j\<lparr>j_status := (if retry then Pending else Failed),
        j_run_after := (if retry then now else j_run_after j),
        j_claimed_by := None, j_claimed_at := None, j_last_error := Some stale_claim_message,
        j_updated_at := now\<rparr>)"

definition recover_stale_claims ::
    "instant \<Rightarrow> int \<Rightarrow> job_row list \<Rightarrow> nat \<times> job_row list" where
  "recover_stale_claims now stale_seconds jobs =
     (count_where (stale_claim now stale_seconds) jobs,
      upd_where (stale_claim now stale_seconds) (recover_row now) jobs)"

lemmas job_row_defs =
  claim_row_def complete_row_def fail_row_def reschedule_row_def blocked_row_def
  heartbeat_row_def recover_row_def

lemmas own_ops = complete_def fail_def reschedule_def sync_blocked_def heartbeat_def

section \<open>Row invariant\<close>

text \<open>
  What every row of the queue satisfies: a pending row can still be claimed (it has attempts
  left), exactly the running rows carry a claim, and a claim counts as one attempt.
\<close>

definition row_ok :: "job_row \<Rightarrow> bool" where
  "row_ok j \<longleftrightarrow>
     j_type j = project_sync_job_type \<and> j_instance j \<noteq> None \<and> j_project j \<noteq> None \<and>
     j_attempts j \<le> max_sync_job_attempts \<and>
     (j_status j = Pending \<longrightarrow> j_attempts j < max_sync_job_attempts) \<and>
     (j_status j = Running \<longleftrightarrow> j_claimed_by j \<noteq> None) \<and>
     (j_status j = Running \<longrightarrow> 1 \<le> j_attempts j \<and> j_claimed_at j \<noteq> None)"

definition single_active :: "job_row list \<Rightarrow> bool" where
  "single_active jobs \<longleftrightarrow> (\<forall>p. count_where (active_for p) jobs \<le> 1)"

definition jobs_ok :: "job_row list \<Rightarrow> bool" where
  "jobs_ok jobs \<longleftrightarrow>
     distinct (map j_id jobs) \<and> list_all row_ok jobs \<and> single_active jobs"

named_theorems row_keep \<open>columns a row update leaves alone\<close>

lemma row_ok_new_job: "row_ok (new_job jid p r now)"
  by (simp add: row_ok_def new_job_def max_sync_job_attempts_def)

lemma row_ok_claim_row: "row_ok j \<Longrightarrow> claimable now locked j \<Longrightarrow> row_ok (claim_row t w j)"
  by (auto simp: row_ok_def claimable_def claim_row_def)

lemma row_ok_complete_row: "row_ok j \<Longrightarrow> row_ok (complete_row now j)"
  by (auto simp: row_ok_def complete_row_def)

lemma row_ok_fail_row: "row_ok j \<Longrightarrow> row_ok (fail_row now e r j)"
  by (auto simp: row_ok_def fail_row_def Let_def)

lemma row_ok_reschedule_row:
  "row_ok j \<Longrightarrow> j_status j = Running \<Longrightarrow> row_ok (reschedule_row now r j)"
  by (auto simp: row_ok_def reschedule_row_def)

lemma row_ok_blocked_row: "row_ok j \<Longrightarrow> row_ok (blocked_row now m j)"
  by (auto simp: row_ok_def blocked_row_def)

lemma row_ok_heartbeat_row: "row_ok j \<Longrightarrow> row_ok (heartbeat_row now j)"
  by (auto simp: row_ok_def heartbeat_row_def)

lemma row_ok_recover_row: "row_ok j \<Longrightarrow> row_ok (recover_row now j)"
  by (auto simp: row_ok_def recover_row_def Let_def)

lemmas row_ok_rows =
  row_ok_complete_row row_ok_fail_row row_ok_blocked_row row_ok_heartbeat_row row_ok_recover_row

text \<open>No update changes a row's identity or its project.\<close>

definition keeps_identity :: "(job_row \<Rightarrow> job_row) \<Rightarrow> bool" where
  "keeps_identity f \<longleftrightarrow>
     (\<forall>j. j_id (f j) = j_id j \<and> j_type (f j) = j_type j \<and> j_instance (f j) = j_instance j \<and>
          j_project (f j) = j_project j)"

lemma keeps_identity_rows [row_keep]:
  "keeps_identity (claim_row now w)" "keeps_identity (complete_row now)"
  "keeps_identity (fail_row now e r)" "keeps_identity (reschedule_row now ra)"
  "keeps_identity (blocked_row now m)" "keeps_identity (heartbeat_row now)"
  "keeps_identity (recover_row now)"
  by (simp_all add: keeps_identity_def job_row_defs Let_def)

lemma keeps_identityD:
  assumes "keeps_identity f"
  shows "j_id (f j) = j_id j" "j_type (f j) = j_type j"
    "j_instance (f j) = j_instance j" "j_project (f j) = j_project j" "job_for p (f j) = job_for p j"
  using assms by (simp_all add: keeps_identity_def job_for_def)

lemma count_upd_le:
  assumes "\<And>r. P r \<Longrightarrow> Q (f r) \<Longrightarrow> Q r"
  shows "count_where Q (upd_where P f rows) \<le> count_where Q rows"
  by (induction rows) (use assms in \<open>auto simp: count_where_def\<close>)

text \<open>An update of active rows that keeps their identity keeps the queue well formed.\<close>

lemma jobs_ok_upd_where:
  assumes ok: "jobs_ok jobs" and f: "keeps_identity f"
    and act: "\<And>j. P j \<Longrightarrow> is_active (f j) \<Longrightarrow> is_active j"
    and row: "\<And>j. j \<in> set jobs \<Longrightarrow> row_ok j \<Longrightarrow> P j \<Longrightarrow> row_ok (f j)"
  shows "jobs_ok (upd_where P f jobs)"
proof -
  have "map j_id (upd_where P f jobs) = map j_id jobs"
    using f by (simp add: upd_where_map_key keeps_identityD)
  moreover have "list_all row_ok (upd_where P f jobs)"
    using ok row by (auto simp: jobs_ok_def list_all_iff set_upd_where)
  moreover have "single_active (upd_where P f jobs)"
    unfolding single_active_def
  proof
    fix p
    have "count_where (active_for p) (upd_where P f jobs) \<le> count_where (active_for p) jobs"
      using act f by (intro count_upd_le) (auto simp: active_for_def keeps_identityD)
    also have "\<dots> \<le> 1" using ok by (simp add: jobs_ok_def single_active_def)
    finally show "count_where (active_for p) (upd_where P f jobs) \<le> 1" .
  qed
  ultimately show ?thesis using ok by (simp add: jobs_ok_def)
qed

lemma jobs_ok_enqueue:
  assumes ok: "jobs_ok jobs" and fresh: "jid \<notin> j_id ` set jobs"
    and none: "\<forall>j \<in> set jobs. \<not> active_for p j"
  shows "jobs_ok (jobs @ [new_job jid p r now])"
proof -
  have "single_active (jobs @ [new_job jid p r now])"
    unfolding single_active_def
  proof
    fix q
    show "count_where (active_for q) (jobs @ [new_job jid p r now]) \<le> 1"
    proof (cases "p = q")
      case True
      with none show ?thesis
        by (auto simp: count_where_def filter_empty_conv)
    next
      case False
      then have "\<not> active_for q (new_job jid p r now)"
        by (auto simp: active_for_def job_for_def new_job_def)
      with ok show ?thesis
        by (simp add: count_where_def jobs_ok_def single_active_def)
    qed
  qed
  moreover have "j_id (new_job jid p r now) = jid"
    by (simp add: new_job_def)
  ultimately show ?thesis
    using ok fresh by (auto simp: jobs_ok_def row_ok_new_job)
qed

lemma jobs_ok_enqueue_op:
  assumes "jobs_ok jobs" and "jid \<notin> j_id ` set jobs"
  shows "jobs_ok (enqueue jid now p r jobs)"
proof (cases "find (active_for p) jobs")
  case None
  then have "\<forall>j \<in> set jobs. \<not> active_for p j" by (auto simp: find_None_iff)
  with None show ?thesis
    using jobs_ok_enqueue [OF assms] by (simp add: enqueue_def)
next
  case (Some j)
  with assms(1) show ?thesis by (simp add: enqueue_def)
qed

section \<open>Rows by id\<close>

definition row_of :: "job_row list \<Rightarrow> string \<Rightarrow> job_row option" where
  "row_of jobs jid = find (\<lambda>j. j_id j = jid) jobs"

lemma row_of_Some:
  "distinct (map j_id jobs) \<Longrightarrow> row_of jobs jid = Some j \<longleftrightarrow> j \<in> set jobs \<and> j_id j = jid"
  by (induction jobs) (auto simp: row_of_def)

lemma row_of_None: "row_of jobs jid = None \<longleftrightarrow> (\<forall>j \<in> set jobs. j_id j \<noteq> jid)"
  by (auto simp: row_of_def find_None_iff)

lemma row_of_id: "row_of jobs jid = Some j \<Longrightarrow> j_id j = jid"
  by (auto simp: row_of_def find_Some_iff)

lemma row_of_upd_where:
  assumes "keeps_identity f"
  shows "row_of (upd_where P f jobs) k = map_option (\<lambda>j. if P j then f j else j) (row_of jobs k)"
  using assms by (induction jobs) (auto simp: row_of_def keeps_identityD)

lemma count_owned:
  assumes "distinct (map j_id jobs)"
  shows "0 < count_where (owned jid w) jobs \<longleftrightarrow>
    (\<exists>j. row_of jobs jid = Some j \<and> owned jid w j)"
  using count_where_0 [of "owned jid w" jobs] row_of_Some [OF assms, of jid]
  by (auto simp: owned_def)

section \<open>The contract of an operation by the claiming worker\<close>

text \<open>
  \<open>complete\<close>, \<open>fail\<close>, \<open>reschedule\<close>, \<open>syncBlocked\<close> and \<open>heartbeat\<close> share one contract: the
  call reports whether the worker holds the claim, changes that one row if so, and changes
  nothing otherwise.
\<close>

locale owner_op =
  fixes row :: "'q \<Rightarrow> string \<Rightarrow> job_row option"
    and invar :: "'q \<Rightarrow> bool"
    and oper :: "string \<Rightarrow> string \<Rightarrow> 'q \<Rightarrow> bool \<times> 'q"
    and change :: "job_row \<Rightarrow> job_row"
  assumes oper_result: "invar q \<Longrightarrow>
      fst (oper jid w q) \<longleftrightarrow> (\<exists>j. row q jid = Some j \<and> owned jid w j)"
    and oper_row: "invar q \<Longrightarrow> row (snd (oper jid w q)) k =
      (if k = jid \<and> fst (oper jid w q) then map_option change (row q k) else row q k)"
    and oper_invar: "invar q \<Longrightarrow> invar (snd (oper jid w q))"
begin

lemma refused_no_effect:
  "invar q \<Longrightarrow> \<not> fst (oper jid w q) \<Longrightarrow> row (snd (oper jid w q)) = row q"
  by (auto simp: oper_row)

lemma accepted_row:
  assumes "invar q" and "fst (oper jid w q)"
  shows "\<exists>j. row q jid = Some j \<and> owned jid w j \<and> row (snd (oper jid w q)) jid = Some (change j)"
  using assms by (auto simp: oper_result oper_row)

lemma other_rows: "invar q \<Longrightarrow> k \<noteq> jid \<Longrightarrow> row (snd (oper jid w q)) k = row q k"
  by (simp add: oper_row)

lemma single_owner:
  "invar q \<Longrightarrow> fst (oper jid w q) \<Longrightarrow> fst (oper jid v q) \<Longrightarrow> v = w"
  by (auto simp: oper_result owned_def)

end

text \<open>An operation that ends the claim: nobody holds it afterwards.\<close>

locale releasing_op = owner_op +
  assumes releases: "j_status (change j) \<noteq> Running"
begin

lemma released:
  assumes "invar q" and "fst (oper jid w q)"
  shows "\<not> fst (oper jid v (snd (oper jid w q)))"
proof
  assume "fst (oper jid v (snd (oper jid w q)))"
  then obtain j where "row (snd (oper jid w q)) jid = Some j" and run: "j_status j = Running"
    using assms(1) by (auto simp: oper_result oper_invar owned_def)
  moreover obtain i where "row (snd (oper jid w q)) jid = Some (change i)"
    using accepted_row [OF assms] by blast
  ultimately show False using releases [of i] by auto
qed

end

lemma own_update_contract:
  assumes f: "keeps_identity f"
    and row: "\<And>j. row_ok j \<Longrightarrow> j_status j = Running \<Longrightarrow> row_ok (f j)"
  shows "owner_op row_of jobs_ok (\<lambda>jid w. own_update jid w f) f"
proof
  fix q jid w k
  assume q: "jobs_ok q"
  show res: "fst (own_update jid w f q) \<longleftrightarrow> (\<exists>j. row_of q jid = Some j \<and> owned jid w j)"
    using q by (simp add: own_update_def count_owned jobs_ok_def)
  show "row_of (snd (own_update jid w f q)) k =
      (if k = jid \<and> fst (own_update jid w f q) then map_option f (row_of q k) else row_of q k)"
    unfolding res using f
    by (cases "row_of q k") (auto simp: own_update_def row_of_upd_where owned_def dest: row_of_id)
  have "is_active j" if "owned jid w j" for j
    using that by (simp add: owned_def is_active_def)
  then show "jobs_ok (snd (own_update jid w f q))"
    unfolding own_update_def snd_conv
    using f row by (intro jobs_ok_upd_where [OF q]) (auto simp: owned_def)
qed

interpretation complete_q: releasing_op row_of jobs_ok "complete now" "complete_row now" for now
proof (intro releasing_op.intro releasing_op_axioms.intro)
  show "owner_op row_of jobs_ok (complete now) (complete_row now)"
    using own_update_contract [of "complete_row now"]
    by (simp add: complete_def [abs_def] row_keep row_ok_complete_row)
qed (simp add: complete_row_def)

interpretation fail_q: releasing_op row_of jobs_ok
    "\<lambda>jid w. fail now jid w err r" "fail_row now (sanitize_job_error err Cat_Failed) r" for now err r
proof (intro releasing_op.intro releasing_op_axioms.intro)
  show "owner_op row_of jobs_ok (\<lambda>jid w. fail now jid w err r)
      (fail_row now (sanitize_job_error err Cat_Failed) r)"
    using own_update_contract [of "fail_row now (sanitize_job_error err Cat_Failed) r"]
    by (simp add: fail_def [abs_def] row_keep row_ok_fail_row)
qed (simp add: fail_row_def Let_def)

interpretation reschedule_q: releasing_op row_of jobs_ok
    "\<lambda>jid w. reschedule now jid w r" "reschedule_row now r" for now r
proof (intro releasing_op.intro releasing_op_axioms.intro)
  show "owner_op row_of jobs_ok (\<lambda>jid w. reschedule now jid w r) (reschedule_row now r)"
    using own_update_contract [of "reschedule_row now r"]
    by (simp add: reschedule_def [abs_def] row_keep row_ok_reschedule_row)
qed (simp add: reschedule_row_def)

interpretation blocked_q: releasing_op row_of jobs_ok
    "\<lambda>jid w. sync_blocked now jid w err" "blocked_row now (sanitize_job_error err Cat_Blocked)"
    for now err
proof (intro releasing_op.intro releasing_op_axioms.intro)
  show "owner_op row_of jobs_ok (\<lambda>jid w. sync_blocked now jid w err)
      (blocked_row now (sanitize_job_error err Cat_Blocked))"
    using own_update_contract [of "blocked_row now (sanitize_job_error err Cat_Blocked)"]
    by (simp add: sync_blocked_def [abs_def] row_keep row_ok_blocked_row)
qed (simp add: blocked_row_def)

interpretation heartbeat_q: owner_op row_of jobs_ok "heartbeat now" "heartbeat_row now" for now
  using own_update_contract [of "heartbeat_row now"]
  by (simp add: heartbeat_def [abs_def] row_keep row_ok_heartbeat_row)

end
