(* ===== verification/QueueProtocol.thy ===== *)
theory QueueProtocol
  imports JobQueue
begin

text \<open>
  The queue as a concurrent system. Workers, the scheduler, direct \<open>enqueue\<close> calls and the
  allowlist administration run interleaved transactions over \<open>sync_jobs\<close>. The insert path is
  split where the database can interleave it: a transaction first takes the advisory lock of the
  project and finds no active job, later inserts its row and releases the lock at commit. All
  other statements are single atomic updates. The theory shows that every reachable queue keeps
  \<^const>\<open>jobs_ok\<close>, and derives the facts about claims from it.
\<close>

section \<open>Claims\<close>

lemma to_sync_job_ok: "row_ok j \<Longrightarrow> \<exists>s. to_sync_job j = Inr s \<and> sj_id s = j_id j"
  by (auto simp: to_sync_job_def row_ok_def)

lemma to_sync_job_Inr:
  "to_sync_job j = Inr s \<Longrightarrow>
     sj_id s = j_id j \<and> sj_attempts s = j_attempts j \<and> sj_status s = j_status j \<and>
     j_instance j = Some (sj_instance s) \<and> j_project j = Some (sj_project s) \<and>
     sj_claimed_by s = j_claimed_by j"
  by (auto simp: to_sync_job_def split: if_splits option.splits)

definition earliest :: "instant \<Rightarrow> string set \<Rightarrow> job_row list \<Rightarrow> job_row \<Rightarrow> bool" where
  "earliest now locked jobs j \<longleftrightarrow>
     j \<in> set jobs \<and> claimable now locked j \<and>
     (\<forall>k \<in> set jobs. claimable now locked k \<longrightarrow> claim_key_of j \<le> claim_key_of k)"

lemma claim_cases:
  assumes "jobs_ok jobs" and "js_trim w \<noteq> []"
  obtains (none) "claim now locked w jobs = (Inr None, jobs)"
      "\<forall>j \<in> set jobs. \<not> claimable now locked j"
    | (some) j s where
      "claim now locked w jobs =
         (Inr (Some s), upd_where (\<lambda>k. j_id k = j_id j) (claim_row now w) jobs)"
      "earliest now locked jobs j" "to_sync_job (claim_row now w j) = Inr s"
proof (cases "first_by claim_key_of (filter (claimable now locked) jobs)")
  case None
  with assms(2) show ?thesis
    by (intro none) (auto simp: claim_def filter_empty_conv)
next
  case (Some j)
  from first_by_Some [OF this] have j: "earliest now locked jobs j"
    by (auto simp: earliest_def)
  with assms(1) have "row_ok (claim_row now w j)"
    by (auto simp: earliest_def jobs_ok_def list_all_iff intro: row_ok_claim_row)
  from to_sync_job_ok [OF this] obtain s where s: "to_sync_job (claim_row now w j) = Inr s"
    by blast
  with Some assms(2) j show ?thesis
    by (intro some [of s j]) (simp_all add: claim_def)
qed

lemma jobs_ok_claim:
  assumes "jobs_ok jobs"
  shows "jobs_ok (snd (claim now locked w jobs))"
proof (cases "js_trim w = []")
  case True
  with assms show ?thesis by (simp add: claim_def)
next
  case False
  show ?thesis
  proof (rule claim_cases [OF assms False, of now locked])
    assume "claim now locked w jobs = (Inr None, jobs)"
    with assms show ?thesis by simp
  next
    fix j s
    assume eq: "claim now locked w jobs =
        (Inr (Some s), upd_where (\<lambda>k. j_id k = j_id j) (claim_row now w) jobs)"
      and j: "earliest now locked jobs j"
    have same: "k = j" if "k \<in> set jobs" "j_id k = j_id j" for k
      using that j assms by (auto simp: earliest_def jobs_ok_def distinct_map inj_on_def)
    have "upd_where (\<lambda>k. j_id k = j_id j) (claim_row now w) jobs =
        upd_where (\<lambda>k. j_id k = j_id j \<and> claimable now locked k) (claim_row now w) jobs"
      using same j by (auto simp: upd_where_def earliest_def)
    moreover have "jobs_ok \<dots>"
      by (rule jobs_ok_upd_where [OF assms])
        (auto simp: row_keep claimable_def is_active_def intro: row_ok_claim_row)
    ultimately show ?thesis by (simp add: eq)
  qed
qed

lemma jobs_ok_recover: "jobs_ok jobs \<Longrightarrow> jobs_ok (snd (recover_stale_claims now ss jobs))"
  unfolding recover_stale_claims_def snd_conv
  by (rule jobs_ok_upd_where)
    (auto simp: row_keep row_ok_recover_row stale_claim_def is_active_def)

text \<open>
  The claim picks the earliest due pending row that no other transaction has locked, and
  reports no work only when there is none.
\<close>

lemma claim_row_of:
  assumes "jobs_ok jobs" and "claim now locked w jobs = (Inr (Some s), jobs')"
  shows "\<exists>j. earliest now locked jobs j \<and> to_sync_job (claim_row now w j) = Inr s \<and>
    row_of jobs' = (row_of jobs)(j_id j \<mapsto> claim_row now w j)"
proof -
  have w: "js_trim w \<noteq> []" using assms(2) by (auto simp: claim_def)
  show ?thesis
  proof (rule claim_cases [OF assms(1) w, of now locked])
    assume "claim now locked w jobs = (Inr None, jobs)"
    with assms(2) show ?thesis by simp
  next
    fix j t
    assume eq: "claim now locked w jobs =
        (Inr (Some t), upd_where (\<lambda>k. j_id k = j_id j) (claim_row now w) jobs)"
      and j: "earliest now locked jobs j" and t: "to_sync_job (claim_row now w j) = Inr t"
    have "row_of jobs (j_id j) = Some j"
      using j assms(1) by (subst row_of_Some) (auto simp: jobs_ok_def earliest_def)
    then have "row_of (upd_where (\<lambda>k. j_id k = j_id j) (claim_row now w) jobs) k =
        ((row_of jobs)(j_id j \<mapsto> claim_row now w j)) k" for k
      by (cases "row_of jobs k") (auto simp: row_of_upd_where row_keep dest: row_of_id)
    then have "row_of jobs' = (row_of jobs)(j_id j \<mapsto> claim_row now w j)"
      using eq assms(2) by (simp add: fun_eq_iff)
    with j t eq assms(2) show ?thesis by auto
  qed
qed

section \<open>Jobs blocked by the allowlist administration\<close>

text \<open>The \<open>syncJob.updateMany\<close> calls of \<open>removeProject\<close> and \<open>removeInstance\<close>
  (\<open>packages/domain/src/allowlist-admin.ts\<close>).\<close>

definition block_project_jobs ::
    "instant \<Rightarrow> string \<Rightarrow> string \<Rightarrow> job_row list \<Rightarrow> job_row list" where
  "block_project_jobs now inst proj =
     upd_where (\<lambda>j. j_type j = project_sync_job_type \<and> j_instance j = Some inst \<and>
                    j_project j = Some proj \<and> is_active j)
       (blocked_row now ''Project removed from allowlist'')"

definition block_instance_jobs :: "instant \<Rightarrow> string \<Rightarrow> job_row list \<Rightarrow> job_row list" where
  "block_instance_jobs now inst =
     upd_where (\<lambda>j. j_type j = project_sync_job_type \<and> j_instance j = Some inst \<and> is_active j)
       (blocked_row now ''GitLab instance removed from allowlist'')"

lemma jobs_ok_block_project: "jobs_ok jobs \<Longrightarrow> jobs_ok (block_project_jobs now i p jobs)"
  unfolding block_project_jobs_def
  by (rule jobs_ok_upd_where) (auto simp: row_keep row_ok_blocked_row)

lemma jobs_ok_block_instance: "jobs_ok jobs \<Longrightarrow> jobs_ok (block_instance_jobs now i jobs)"
  unfolding block_instance_jobs_def
  by (rule jobs_ok_upd_where) (auto simp: row_keep row_ok_blocked_row)

section \<open>The step relation\<close>

text \<open>\<open>qs_locks\<close> maps a project to the transaction that holds its advisory lock after having
  found no active job; the value is the \<open>run_after\<close> of the row it is about to insert.\<close>

record queue_sys =
  qs_jobs :: "job_row list"
  qs_locks :: "project_ref \<Rightarrow> instant option"

definition init_queue :: queue_sys where
  "init_queue = \<lparr>qs_jobs = [], qs_locks = (\<lambda>_. None)\<rparr>"

inductive queue_step :: "queue_sys \<Rightarrow> queue_sys \<Rightarrow> bool" where
  insert_begin:
    "qs_locks s p = None \<Longrightarrow> find (active_for p) (qs_jobs s) = None \<Longrightarrow>
     queue_step s (s\<lparr>qs_locks := (qs_locks s)(p \<mapsto> run_after)\<rparr>)"
| insert_commit:
    "qs_locks s p = Some run_after \<Longrightarrow> jid \<notin> j_id ` set (qs_jobs s) \<Longrightarrow>
     queue_step s (s\<lparr>qs_jobs := qs_jobs s @ [new_job jid p run_after now],
                     qs_locks := (qs_locks s)(p := None)\<rparr>)"
| insert_abort:
    "qs_locks s p = Some run_after \<Longrightarrow> queue_step s (s\<lparr>qs_locks := (qs_locks s)(p := None)\<rparr>)"
| claim_step:
    "queue_step s (s\<lparr>qs_jobs := snd (claim now locked w (qs_jobs s))\<rparr>)"
| complete_step:
    "queue_step s (s\<lparr>qs_jobs := snd (complete now jid w (qs_jobs s))\<rparr>)"
| fail_step:
    "queue_step s (s\<lparr>qs_jobs := snd (fail now jid w err retry_at (qs_jobs s))\<rparr>)"
| reschedule_step:
    "queue_step s (s\<lparr>qs_jobs := snd (reschedule now jid w run_after (qs_jobs s))\<rparr>)"
| blocked_step:
    "queue_step s (s\<lparr>qs_jobs := snd (sync_blocked now jid w err (qs_jobs s))\<rparr>)"
| heartbeat_step:
    "queue_step s (s\<lparr>qs_jobs := snd (heartbeat now jid w (qs_jobs s))\<rparr>)"
| recover_step:
    "queue_step s (s\<lparr>qs_jobs := snd (recover_stale_claims now stale_seconds (qs_jobs s))\<rparr>)"
| remove_project_step:
    "queue_step s (s\<lparr>qs_jobs := block_project_jobs now inst proj (qs_jobs s)\<rparr>)"
| remove_instance_step:
    "queue_step s (s\<lparr>qs_jobs := block_instance_jobs now inst (qs_jobs s)\<rparr>)"

inductive queue_reachable :: "queue_sys \<Rightarrow> bool" where
  start: "queue_reachable init_queue"
| step: "queue_reachable s \<Longrightarrow> queue_step s t \<Longrightarrow> queue_reachable t"

inductive_cases queue_stepE: "queue_step s t"

section \<open>The invariant\<close>

text \<open>Besides a well-formed table: while a project's lock is held, it has no active job.\<close>

definition queue_inv :: "queue_sys \<Rightarrow> bool" where
  "queue_inv s \<longleftrightarrow>
     jobs_ok (qs_jobs s) \<and>
     (\<forall>p r. qs_locks s p = Some r \<longrightarrow> (\<forall>j \<in> set (qs_jobs s). \<not> active_for p j))"

text \<open>An update that activates no row keeps every project without active jobs so.\<close>

definition no_new_active :: "job_row list \<Rightarrow> job_row list \<Rightarrow> bool" where
  "no_new_active js js' \<longleftrightarrow>
     (\<forall>p. (\<forall>j \<in> set js. \<not> active_for p j) \<longrightarrow> (\<forall>j \<in> set js'. \<not> active_for p j))"

lemma no_new_active_upd:
  assumes "keeps_identity f" and "\<And>j. P j \<Longrightarrow> is_active (f j) \<Longrightarrow> is_active j"
  shows "no_new_active js (upd_where P f js)"
  using assms by (auto simp: no_new_active_def set_upd_where active_for_def keeps_identityD)

lemma no_new_active_refl [simp]: "no_new_active js js"
  by (simp add: no_new_active_def)

lemma no_new_active_own:
  "keeps_identity f \<Longrightarrow> no_new_active js (snd (own_update jid w f js))"
  unfolding own_update_def snd_conv
  by (rule no_new_active_upd) (auto simp: owned_def is_active_def)

lemma no_new_active_claim:
  assumes "jobs_ok js"
  shows "no_new_active js (snd (claim now locked w js))"
proof (cases "js_trim w = []")
  case True
  then show ?thesis by (simp add: claim_def)
next
  case False
  show ?thesis
  proof (rule claim_cases [OF assms False, of now locked])
    fix j s
    assume eq: "claim now locked w js =
        (Inr (Some s), upd_where (\<lambda>k. j_id k = j_id j) (claim_row now w) js)"
      and j: "earliest now locked js j"
    have "\<forall>k \<in> set js. j_id k = j_id j \<longrightarrow> is_active k"
      using j assms
      by (auto simp: earliest_def jobs_ok_def distinct_map inj_on_def claimable_def is_active_def)
    then show ?thesis
      unfolding eq snd_conv no_new_active_def
      by (auto simp: set_upd_where active_for_def keeps_identityD [OF keeps_identity_rows(1)])
  qed simp
qed

lemma no_new_active_ops:
  "no_new_active js (snd (complete now jid w js))"
  "no_new_active js (snd (fail now jid w err r js))"
  "no_new_active js (snd (reschedule now jid w ra js))"
  "no_new_active js (snd (sync_blocked now jid w err js))"
  "no_new_active js (snd (heartbeat now jid w js))"
  by (simp_all add: own_ops no_new_active_own row_keep)

lemma queue_inv_update:
  assumes "queue_inv s" and "jobs_ok js" and "no_new_active (qs_jobs s) js"
  shows "queue_inv (s\<lparr>qs_jobs := js\<rparr>)"
  using assms by (auto simp: queue_inv_def no_new_active_def)

lemma queue_inv_insert:
  assumes inv: "queue_inv s" and lock: "qs_locks s p = Some r" and fresh: "jid \<notin> j_id ` set (qs_jobs s)"
  shows "queue_inv (s\<lparr>qs_jobs := qs_jobs s @ [new_job jid p r now], qs_locks := (qs_locks s)(p := None)\<rparr>)"
proof -
  have none: "\<forall>j \<in> set (qs_jobs s). \<not> active_for p j"
    using inv lock by (auto simp: queue_inv_def)
  moreover have "\<not> active_for q (new_job jid p r now)" if "q \<noteq> p" for q
    using that by (auto simp: active_for_def job_for_def new_job_def)
  ultimately show ?thesis
    using inv jobs_ok_enqueue [OF _ fresh none] by (auto simp: queue_inv_def)
qed

lemma queue_step_inv: "queue_step s t \<Longrightarrow> queue_inv s \<Longrightarrow> queue_inv t"
proof (induction rule: queue_step.induct)
  case (insert_begin s p run_after)
  then show ?case by (auto simp: queue_inv_def find_None_iff)
next
  case (insert_commit s p run_after jid now)
  then show ?case by (intro queue_inv_insert)
next
  case (insert_abort s p run_after)
  then show ?case by (auto simp: queue_inv_def)
next
  case (claim_step s now locked w)
  then show ?case
    by (intro queue_inv_update) (simp_all add: queue_inv_def jobs_ok_claim no_new_active_claim)
next
  case (complete_step s now jid w)
  then show ?case
    by (intro queue_inv_update)
      (simp_all add: queue_inv_def complete_q.oper_invar no_new_active_ops)
next
  case (fail_step s now jid w err retry_at)
  then show ?case
    by (intro queue_inv_update)
      (simp_all add: queue_inv_def fail_q.oper_invar no_new_active_ops)
next
  case (reschedule_step s now jid w run_after)
  then show ?case
    by (intro queue_inv_update)
      (simp_all add: queue_inv_def reschedule_q.oper_invar no_new_active_ops)
next
  case (blocked_step s now jid w err)
  then show ?case
    by (intro queue_inv_update)
      (simp_all add: queue_inv_def blocked_q.oper_invar no_new_active_ops)
next
  case (heartbeat_step s now jid w)
  then show ?case
    by (intro queue_inv_update)
      (simp_all add: queue_inv_def heartbeat_q.oper_invar no_new_active_ops)
next
  case (recover_step s now stale_seconds)
  then have "no_new_active (qs_jobs s) (snd (recover_stale_claims now stale_seconds (qs_jobs s)))"
    unfolding recover_stale_claims_def snd_conv
    by (intro no_new_active_upd) (auto simp: row_keep stale_claim_def is_active_def)
  with recover_step show ?case
    by (intro queue_inv_update) (simp_all add: queue_inv_def jobs_ok_recover)
next
  case (remove_project_step s now inst proj)
  have "no_new_active (qs_jobs s) (block_project_jobs now inst proj (qs_jobs s))"
    unfolding block_project_jobs_def by (intro no_new_active_upd) (auto simp: row_keep)
  with remove_project_step show ?case
    by (intro queue_inv_update) (simp_all add: queue_inv_def jobs_ok_block_project)
next
  case (remove_instance_step s now inst)
  have "no_new_active (qs_jobs s) (block_instance_jobs now inst (qs_jobs s))"
    unfolding block_instance_jobs_def by (intro no_new_active_upd) (auto simp: row_keep)
  with remove_instance_step show ?case
    by (intro queue_inv_update) (simp_all add: queue_inv_def jobs_ok_block_instance)
qed

lemma reachable_queue_inv: "queue_reachable s \<Longrightarrow> queue_inv s"
proof (induction rule: queue_reachable.induct)
  case start
  show ?case by (simp add: queue_inv_def init_queue_def jobs_ok_def single_active_def count_where_def)
next
  case (step s t)
  then show ?case by (blast intro: queue_step_inv)
qed

section \<open>Draining the queue\<close>

fun claim_times :: "nat \<Rightarrow> instant \<Rightarrow> string \<Rightarrow> job_row list \<Rightarrow> job_row list" where
  "claim_times 0 now w js = js"
| "claim_times (Suc n) now w js = claim_times n now w (snd (claim now {} w js))"

lemma claimed_not_claimable: "\<not> claimable t locked (claim_row now w j)"
  by (simp add: claimable_def claim_row_def)

lemma count_where_upd_le:
  "(\<And>r. r \<in> set rows \<Longrightarrow> P r \<Longrightarrow> \<not> Q (f r)) \<Longrightarrow>
     count_where Q (upd_where P f rows) \<le> count_where Q rows"
  by (induction rows) (auto simp: count_where_def upd_where_def intro: le_SucI)

lemma count_where_upd_less:
  assumes "x \<in> set rows" "P x" "Q x" "\<And>r. r \<in> set rows \<Longrightarrow> P r \<Longrightarrow> \<not> Q (f r)"
  shows "count_where Q (upd_where P f rows) < count_where Q rows"
  using assms
proof (induction rows)
  case (Cons r rows)
  have le: "count_where Q (upd_where P f rows) \<le> count_where Q rows"
    using Cons.prems(4) by (intro count_where_upd_le) auto
  show ?case
  proof (cases "x = r")
    case True
    with Cons.prems le show ?thesis by (auto simp: count_where_def)
  next
    case False
    with Cons.prems have "count_where Q (upd_where P f rows) < count_where Q rows"
      by (intro Cons.IH) auto
    with Cons.prems show ?thesis by (auto simp: count_where_def)
  qed
qed simp

lemma claim_decreases:
  assumes "jobs_ok js" "js_trim w \<noteq> []" "j \<in> set js" "claimable now {} j"
  shows "count_where (claimable now {}) (snd (claim now {} w js)) < count_where (claimable now {}) js"
proof (rule claim_cases [OF assms(1,2), of now "{}"])
  assume "\<forall>j \<in> set js. \<not> claimable now {} j"
  with assms(3,4) show ?thesis by blast
next
  fix i s
  assume eq: "claim now {} w js =
      (Inr (Some s), upd_where (\<lambda>k. j_id k = j_id i) (claim_row now w) js)"
    and i: "earliest now {} js i"
  show ?thesis
    unfolding eq snd_conv
    by (rule count_where_upd_less [of i]) (use i in \<open>auto simp: earliest_def claimed_not_claimable\<close>)
qed

lemma claim_times_drains:
  assumes "jobs_ok js" "js_trim w \<noteq> []" "count_where (claimable now {}) js \<le> n"
  shows "\<forall>j \<in> set (claim_times n now w js). \<not> claimable now {} j"
  using assms
proof (induction n arbitrary: js)
  case 0
  then show ?case using count_where_0 [of "claimable now {}" js] by simp
next
  case (Suc n)
  show ?case
  proof (cases "\<exists>j \<in> set js. claimable now {} j")
    case True
    with claim_decreases [OF Suc.prems(1,2)] Suc.prems(3)
    have "count_where (claimable now {}) (snd (claim now {} w js)) \<le> n" by fastforce
    from Suc.IH [OF jobs_ok_claim [OF Suc.prems(1)] Suc.prems(2) this] show ?thesis by simp
  next
    case False
    then have "count_where (claimable now {}) js = 0" by (simp add: count_where_0)
    then have none: "count_where (claimable now {}) js \<le> n" by simp
    have "filter (claimable now {}) js = []" using False by (auto simp: filter_empty_conv)
    then have "snd (claim now {} w js) = js" by (simp add: claim_def)
    with Suc.IH [OF Suc.prems(1,2) none] show ?thesis by simp
  qed
qed

section \<open>Samples\<close>

definition sample_project :: project_ref where
  "sample_project = \<lparr>pr_instance = ''gi1'', pr_project = ''42''\<rparr>"

definition sample_queue :: queue_sys where
  "sample_queue = \<lparr>qs_jobs = [new_job ''j1'' sample_project 5 5], qs_locks = (\<lambda>_. None)\<rparr>"

lemma sample_reachable: "queue_reachable sample_queue"
proof -
  let ?s1 = "init_queue\<lparr>qs_locks := (qs_locks init_queue)(sample_project \<mapsto> 5)\<rparr>"
  have "queue_step init_queue ?s1"
    by (rule queue_step.insert_begin) (simp_all add: init_queue_def)
  then have r1: "queue_reachable ?s1" by (rule queue_reachable.step [OF queue_reachable.start])
  have "queue_step ?s1 (?s1\<lparr>qs_jobs := qs_jobs ?s1 @ [new_job ''j1'' sample_project 5 5],
      qs_locks := (qs_locks ?s1)(sample_project := None)\<rparr>)"
    by (rule queue_step.insert_commit) (simp_all add: init_queue_def)
  moreover have "?s1\<lparr>qs_jobs := qs_jobs ?s1 @ [new_job ''j1'' sample_project 5 5],
      qs_locks := (qs_locks ?s1)(sample_project := None)\<rparr> = sample_queue"
    by (simp add: sample_queue_def init_queue_def fun_eq_iff)
  ultimately show ?thesis using queue_reachable.step [OF r1] by simp
qed

definition sample_running :: queue_sys where
  "sample_running = sample_queue\<lparr>qs_jobs := snd (claim 9 {} ''w1'' (qs_jobs sample_queue))\<rparr>"

lemma sample_running_reachable: "queue_reachable sample_running"
  unfolding sample_running_def
  by (rule queue_reachable.step [OF sample_reachable queue_step.claim_step])

lemma js_trim_w1: "js_trim ''w1'' = ''w1''" "js_trim ''w2'' = ''w2''"
  by (simp_all add: js_trim_def js_trim_start_def is_js_space_def)

lemma sample_claim:
  "claim 9 {} ''w1'' (qs_jobs sample_queue) =
     (Inr (Some \<lparr>sj_id = ''j1'', sj_instance = ''gi1'', sj_project = ''42'', sj_status = Running,
        sj_attempts = 1, sj_last_error = None, sj_run_after = 5, sj_claimed_by = Some ''w1'',
        sj_claimed_at = Some 9\<rparr>),
      [claim_row 9 ''w1'' (new_job ''j1'' sample_project 5 5)])"
  by (simp add: claim_def js_trim_w1 sample_queue_def sample_project_def new_job_def claimable_def
      max_sync_job_attempts_def to_sync_job_def claim_row_def)

section \<open>Properties\<close>

text \<open>C1. In every reachable state of the queue, whatever the interleaving of workers, scheduler,
  direct enqueues and allowlist administration, a project has at most one pending or running job,
  and none at all while a transaction that is about to insert one holds the project's lock.\<close>

theorem reachable_single_active:
  assumes "queue_reachable s"
  shows "count_where (active_for p) (qs_jobs s) \<le> 1 \<and>
    (qs_locks s p \<noteq> None \<longrightarrow> count_where (active_for p) (qs_jobs s) = 0)"
  using reachable_queue_inv [OF assms]
  by (auto simp: queue_inv_def jobs_ok_def single_active_def count_where_0)

theorem reachable_single_active_witness:
  "count_where (active_for sample_project) (qs_jobs sample_running) \<le> 1"
  using reachable_single_active [OF sample_running_reachable, of sample_project] by simp

text \<open>In every reachable state each job row has at most five attempts, a pending row has fewer
  than five (so it can still be claimed), exactly the running rows are claimed, and row ids are
  distinct.\<close>

theorem reachable_rows_ok:
  assumes "queue_reachable s" and "j \<in> set (qs_jobs s)"
  shows "j_attempts j \<le> 5 \<and> (j_status j = Pending \<longrightarrow> j_attempts j < 5) \<and>
    (j_status j = Running \<longleftrightarrow> j_claimed_by j \<noteq> None) \<and>
    (j_status j = Running \<longrightarrow> 1 \<le> j_attempts j \<and> j_claimed_at j \<noteq> None) \<and>
    distinct (map j_id (qs_jobs s))"
  using reachable_queue_inv [OF assms(1)] assms(2)
  by (auto simp: queue_inv_def jobs_ok_def list_all_iff row_ok_def max_sync_job_attempts_def)

theorem reachable_rows_ok_witness:
  "j_attempts (claim_row 9 ''w1'' (new_job ''j1'' sample_project 5 5)) \<le> 5"
proof -
  have "claim_row 9 ''w1'' (new_job ''j1'' sample_project 5 5) \<in> set (qs_jobs sample_running)"
    by (simp add: sample_running_def sample_claim)
  from reachable_rows_ok [OF sample_running_reachable this] show ?thesis by blast
qed

text \<open>C2. A claim by a worker with a non-blank id never fails. It reports no work exactly when no
  due, unlocked, pending row with attempts left exists; otherwise it takes the earliest such row by
  (run_after, created_at, id), marks it running for this worker with one more attempt, and changes
  no other row.\<close>

theorem claim_takes_earliest:
  assumes "queue_reachable s" and "js_trim w \<noteq> []"
  shows "case claim now locked w (qs_jobs s) of
      (Inl e, js) \<Rightarrow> False
    | (Inr None, js) \<Rightarrow> js = qs_jobs s \<and> (\<forall>j \<in> set (qs_jobs s). \<not> claimable now locked j)
    | (Inr (Some t), js) \<Rightarrow>
        \<exists>j. earliest now locked (qs_jobs s) j \<and> sj_id t = j_id j \<and>
            sj_attempts t = j_attempts j + 1 \<and> sj_claimed_by t = Some w \<and>
            row_of js = (row_of (qs_jobs s))(j_id j \<mapsto> claim_row now w j)"
proof -
  have ok: "jobs_ok (qs_jobs s)"
    using reachable_queue_inv [OF assms(1)] by (simp add: queue_inv_def)
  show ?thesis
  proof (rule claim_cases [OF ok assms(2), of now locked])
    fix j t
    assume eq: "claim now locked w (qs_jobs s) =
        (Inr (Some t), upd_where (\<lambda>k. j_id k = j_id j) (claim_row now w) (qs_jobs s))"
    from claim_row_of [OF ok eq] obtain i where
      i: "earliest now locked (qs_jobs s) i" "to_sync_job (claim_row now w i) = Inr t"
        "row_of (upd_where (\<lambda>k. j_id k = j_id j) (claim_row now w) (qs_jobs s)) =
          (row_of (qs_jobs s))(j_id i \<mapsto> claim_row now w i)" by blast
    with to_sync_job_Inr [OF i(2)] show ?thesis
      by (auto simp: eq claim_row_def intro!: exI [of _ i])
  qed auto
qed

theorem claim_takes_earliest_witness:
  "\<exists>j. earliest 9 {} (qs_jobs sample_queue) j \<and> j_id j = ''j1''"
proof -
  have "js_trim ''w1'' \<noteq> []" by (simp add: js_trim_w1)
  from claim_takes_earliest [OF sample_reachable this, of 9 "{}"] show ?thesis
    by (auto simp: sample_claim)
qed

text \<open>C4. A worker that does not hold the claim of a job (it never had it, or the claim was recovered
  or taken over) cannot complete, fail, reschedule, block or renew the job: each call reports
  false and leaves every row as it was.\<close>

theorem non_owner_has_no_effect:
  assumes "queue_reachable s"
    and "\<forall>j. row_of (qs_jobs s) jid = Some j \<longrightarrow> \<not> owned jid w j"
  shows "\<not> fst (complete now jid w (qs_jobs s)) \<and> \<not> fst (fail now jid w err r (qs_jobs s)) \<and>
    \<not> fst (reschedule now jid w ra (qs_jobs s)) \<and> \<not> fst (sync_blocked now jid w err (qs_jobs s)) \<and>
    \<not> fst (heartbeat now jid w (qs_jobs s)) \<and>
    row_of (snd (complete now jid w (qs_jobs s))) = row_of (qs_jobs s) \<and>
    row_of (snd (fail now jid w err r (qs_jobs s))) = row_of (qs_jobs s) \<and>
    row_of (snd (reschedule now jid w ra (qs_jobs s))) = row_of (qs_jobs s) \<and>
    row_of (snd (sync_blocked now jid w err (qs_jobs s))) = row_of (qs_jobs s) \<and>
    row_of (snd (heartbeat now jid w (qs_jobs s))) = row_of (qs_jobs s)"
proof -
  have ok: "jobs_ok (qs_jobs s)"
    using reachable_queue_inv [OF assms(1)] by (simp add: queue_inv_def)
  note res = complete_q.oper_result [OF ok] fail_q.oper_result [OF ok]
    reschedule_q.oper_result [OF ok] blocked_q.oper_result [OF ok] heartbeat_q.oper_result [OF ok]
  note unch = complete_q.refused_no_effect [OF ok] fail_q.refused_no_effect [OF ok]
    reschedule_q.refused_no_effect [OF ok] blocked_q.refused_no_effect [OF ok]
    heartbeat_q.refused_no_effect [OF ok]
  show ?thesis using assms(2) by (simp add: res unch)
qed

theorem non_owner_has_no_effect_witness:
  "\<not> fst (complete 10 ''j1'' ''w2'' (qs_jobs sample_running))"
proof -
  have "\<forall>j. row_of (qs_jobs sample_running) ''j1'' = Some j \<longrightarrow> \<not> owned ''j1'' ''w2'' j"
    by (auto simp: sample_running_def sample_claim row_of_def owned_def claim_row_def new_job_def)
  from non_owner_has_no_effect [OF sample_running_reachable this] show ?thesis by blast
qed

text \<open>Recovery of a crashed worker's claim: every running job whose claim is older than the stale
  threshold is released by recoverStaleClaims; it is pending and claimable at once when it has
  attempts left, and failed otherwise. The jobs with a live claim keep it.\<close>

theorem recover_releases_stale:
  assumes "queue_reachable s" and "row_of (qs_jobs s) jid = Some j"
  shows "row_of (snd (recover_stale_claims now stale (qs_jobs s))) jid =
      Some (if stale_claim now stale j then recover_row now j else j) \<and>
    (stale_claim now stale j \<longrightarrow>
      (if j_attempts j < 5 then claimable now {} (recover_row now j)
       else j_status (recover_row now j) = Failed) \<and>
      (\<forall>w. \<not> fst (complete now jid w (snd (recover_stale_claims now stale (qs_jobs s))))))"
proof -
  have ok: "jobs_ok (qs_jobs s)"
    using reachable_queue_inv [OF assms(1)] by (simp add: queue_inv_def)
  have row: "row_of (snd (recover_stale_claims now stale (qs_jobs s))) jid =
      Some (if stale_claim now stale j then recover_row now j else j)"
    using assms(2) by (simp add: recover_stale_claims_def row_of_upd_where row_keep)
  have st: "stale_claim now stale j \<Longrightarrow>
      (if j_attempts j < 5 then claimable now {} (recover_row now j)
       else j_status (recover_row now j) = Failed)"
    by (simp add: recover_row_def claimable_def stale_claim_def max_sync_job_attempts_def)
  have "j_status (recover_row now j) \<noteq> Running" by (simp add: recover_row_def Let_def)
  with row have "stale_claim now stale j \<Longrightarrow>
      \<not> fst (complete now jid w (snd (recover_stale_claims now stale (qs_jobs s))))" for w
    by (auto simp: complete_q.oper_result [OF jobs_ok_recover [OF ok]] owned_def)
  with row st show ?thesis by blast
qed

theorem recover_releases_stale_witness:
  "row_of (snd (recover_stale_claims 400000 300 (qs_jobs sample_running))) ''j1'' =
     Some (recover_row 400000 (claim_row 9 ''w1'' (new_job ''j1'' sample_project 5 5)))"
proof -
  let ?j = "claim_row 9 ''w1'' (new_job ''j1'' sample_project 5 5)"
  have row: "row_of (qs_jobs sample_running) ''j1'' = Some ?j"
    by (simp add: sample_running_def sample_claim row_of_def claim_row_def new_job_def)
  have "stale_claim 400000 300 ?j"
    by (simp add: stale_claim_def claim_row_def new_job_def)
  with recover_releases_stale [OF sample_running_reachable row, of 400000 300] show ?thesis
    by simp
qed

text \<open>C5. No pending job starves: a worker that claims as often as there are claimable rows leaves
  none of them unclaimed.\<close>

theorem claims_drain_queue:
  assumes "queue_reachable s" and "js_trim w \<noteq> []"
    and "count_where (claimable now {}) (qs_jobs s) \<le> n"
  shows "\<forall>j \<in> set (claim_times n now w (qs_jobs s)). \<not> claimable now {} j"
  using claim_times_drains [OF _ assms(2,3)] reachable_queue_inv [OF assms(1)]
  by (simp add: queue_inv_def)

theorem claims_drain_queue_witness:
  "list_all (\<lambda>j. \<not> claimable 9 {} j) (claim_times 1 9 ''w1'' (qs_jobs sample_queue))"
proof -
  have "count_where (claimable 9 {}) (qs_jobs sample_queue) \<le> 1"
    by (simp add: count_where_def sample_queue_def)
  then show ?thesis
    unfolding list_all_iff
    by (intro claims_drain_queue [OF sample_reachable]) (simp_all add: js_trim_w1)
qed

end
