(* ===== verification/Json.thy ===== *)
theory Json
  imports Database "HOL-Library.AList"
begin

text \<open>
  \<open>JSON.stringify\<close> and \<open>JSON.parse\<close> as the program uses them (the branch continuation and the
  advisory lock key of \<open>packages/domain\<close>, response bodies of \<open>packages/gitlab-client\<close>). The
  printer is for values whose numbers are integers, which is all the program prints. The parser
  is the JSON grammar by recursive descent, with a fuel that the length of the text bounds;
  numbers are exact rationals, and a \<open>\u\<close> escape above 255 is outside the character range of the
  model and rejected. The main lemma is the round trip.
\<close>

section \<open>Printing\<close>

definition hex_digit :: "nat \<Rightarrow> char" where
  "hex_digit d = (if d < 10 then char_of (48 + d) else char_of (87 + d))"

definition json_escape :: "char \<Rightarrow> string" where
  "json_escape c =
     (let n = code_of c in
      if n = 34 then [CHR 0x5C, CHR 0x22]
      else if n = 92 then [CHR 0x5C, CHR 0x5C]
      else if n = 8 then [CHR 0x5C, CHR ''b'']
      else if n = 9 then [CHR 0x5C, CHR ''t'']
      else if n = 10 then [CHR 0x5C, CHR ''n'']
      else if n = 12 then [CHR 0x5C, CHR ''f'']
      else if n = 13 then [CHR 0x5C, CHR ''r'']
      else if n < 32 then [CHR 0x5C, CHR ''u'', CHR ''0'', CHR ''0'', hex_digit (n div 16),
        hex_digit (n mod 16)]
      else [c])"

definition json_quote :: "string \<Rightarrow> string" where
  "json_quote s = CHR 0x22 # concat (map json_escape s) @ [CHR 0x22]"

fun json_stringify :: "json \<Rightarrow> string" where
  "json_stringify JNull = ''null''"
| "json_stringify (JBool b) = (if b then ''true'' else ''false'')"
| "json_stringify (JNum r) = show_int \<lfloor>r\<rfloor>"
| "json_stringify (JStr s) = json_quote s"
| "json_stringify (JArr vs) = ''['' @ join_with '','' (map json_stringify vs) @ '']''"
| "json_stringify (JObj kvs) =
     CHR ''{'' # join_with '','' (map (\<lambda>(k, v). json_quote k @ '':'' @ json_stringify v) kvs) @ ''}''"

section \<open>Parsing\<close>

definition json_ws :: "char \<Rightarrow> bool" where
  "json_ws c \<longleftrightarrow> code_of c \<in> {9, 10, 13, 32}"

definition skip_ws :: "string \<Rightarrow> string" where
  "skip_ws s = dropWhile json_ws s"

definition hex_val :: "char \<Rightarrow> nat option" where
  "hex_val c =
     (let n = code_of c in
      if 48 \<le> n \<and> n \<le> 57 then Some (n - 48)
      else if 97 \<le> n \<and> n \<le> 102 then Some (n - 87)
      else if 65 \<le> n \<and> n \<le> 70 then Some (n - 55)
      else None)"

definition hex4 :: "char \<Rightarrow> char \<Rightarrow> char \<Rightarrow> char \<Rightarrow> char option" where
  "hex4 a b c d =
     (case (hex_val a, hex_val b, hex_val c, hex_val d) of
        (Some w, Some x, Some y, Some z) \<Rightarrow>
          (let n = 4096 * w + 256 * x + 16 * y + z in if n < 256 then Some (char_of n) else None)
      | _ \<Rightarrow> None)"

definition unescape :: "char \<Rightarrow> char option" where
  "unescape c =
     (let n = code_of c in
      if n = 34 \<or> n = 92 \<or> n = 47 then Some c
      else if c = CHR ''b'' then Some (char_of (8::nat))
      else if c = CHR ''t'' then Some (char_of (9::nat))
      else if c = CHR ''n'' then Some (char_of (10::nat))
      else if c = CHR ''f'' then Some (char_of (12::nat))
      else if c = CHR ''r'' then Some (char_of (13::nat))
      else None)"

abbreviation cons_fst :: "'a \<Rightarrow> 'a list \<times> 'b \<Rightarrow> 'a list \<times> 'b" where
  "cons_fst x p \<equiv> (x # fst p, snd p)"

text \<open>The rest of a string literal after its opening quote.\<close>

fun p_chars :: "string \<Rightarrow> (string \<times> string) option" where
  "p_chars [] = None"
| "p_chars (c # cs) =
     (if c = CHR 0x22 then Some ([], cs)
      else if c = CHR 0x5C then
        (case cs of
           [] \<Rightarrow> None
         | e # es \<Rightarrow>
             if e = CHR ''u'' then
               (case es of
                  h1 # h2 # h3 # h4 # r \<Rightarrow>
                    (case hex4 h1 h2 h3 h4 of
                       None \<Rightarrow> None
                     | Some x \<Rightarrow> map_option (cons_fst x) (p_chars r))
                | _ \<Rightarrow> None)
             else (case unescape e of
                     None \<Rightarrow> None
                   | Some x \<Rightarrow> map_option (cons_fst x) (p_chars es)))
      else if code_of c < 32 then None
      else map_option (cons_fst c) (p_chars cs))"

definition p_digits :: "string \<Rightarrow> (string \<times> string) option" where
  "p_digits s =
     (let ds = takeWhile is_digit s in if ds = [] then None else Some (ds, dropWhile is_digit s))"

definition p_exponent :: "string \<Rightarrow> (int \<times> string) option" where
  "p_exponent s =
     (case s of
        e # r \<Rightarrow>
          if e = CHR ''e'' \<or> e = CHR ''E'' then
            (case r of
               CHR ''-'' # t \<Rightarrow> map_option (\<lambda>(ds, u). (- int (digits_val ds), u)) (p_digits t)
             | CHR ''+'' # t \<Rightarrow> map_option (\<lambda>(ds, u). (int (digits_val ds), u)) (p_digits t)
             | _ \<Rightarrow> map_option (\<lambda>(ds, u). (int (digits_val ds), u)) (p_digits r))
          else Some (0, s)
      | [] \<Rightarrow> Some (0, s))"

definition scale10 :: "rat \<Rightarrow> int \<Rightarrow> rat" where
  "scale10 m e = (if 0 \<le> e then m * 10 ^ nat e else m / 10 ^ nat (- e))"

definition p_fraction :: "string \<Rightarrow> (string \<times> string) option" where
  "p_fraction s = (case s of CHR ''.'' # r \<Rightarrow> p_digits r | _ \<Rightarrow> Some ([], s))"

definition p_number :: "string \<Rightarrow> (rat \<times> string) option" where
  "p_number s =
     (let (sign, s1) = (case s of CHR ''-'' # r \<Rightarrow> (-1, r) | _ \<Rightarrow> (1, s)) in
      case p_digits s1 of
        None \<Rightarrow> None
      | Some (ds, s2) \<Rightarrow>
          if hd ds = CHR ''0'' \<and> 1 < length ds then None
          else case p_fraction s2 of
            None \<Rightarrow> None
          | Some (fs, s3) \<Rightarrow>
              (case p_exponent s3 of
                 None \<Rightarrow> None
               | Some (e, s4) \<Rightarrow>
                   Some (sign * scale10 (of_nat (digits_val (ds @ fs))) (e - int (length fs)), s4)))"

definition p_literal :: "string \<Rightarrow> json \<Rightarrow> string \<Rightarrow> (json \<times> string) option" where
  "p_literal w v s = (if starts_with w s then Some (v, drop (length w) s) else None)"

text \<open>A repeated key keeps its place and takes the last value.\<close>

definition last_wins :: "(string \<times> 'v) list \<Rightarrow> (string \<times> 'v) list" where
  "last_wins kvs = fold (\<lambda>(k, v). AList.update k v) kvs []"

fun p_value :: "nat \<Rightarrow> string \<Rightarrow> (json \<times> string) option"
  and p_elems :: "nat \<Rightarrow> string \<Rightarrow> (json list \<times> string) option"
  and p_members :: "nat \<Rightarrow> string \<Rightarrow> ((string \<times> json) list \<times> string) option" where
  "p_value 0 s = None"
| "p_value (Suc n) s =
     (case skip_ws s of
        [] \<Rightarrow> None
      | c # cs \<Rightarrow>
          if c = CHR ''{'' then
            (if starts_with ''}'' (skip_ws cs) then Some (JObj [], tl (skip_ws cs))
             else map_option (\<lambda>(kvs, r). (JObj (last_wins kvs), r)) (p_members n cs))
          else if c = CHR ''['' then
            (if starts_with '']'' (skip_ws cs) then Some (JArr [], tl (skip_ws cs))
             else map_option (\<lambda>(vs, r). (JArr vs, r)) (p_elems n cs))
          else if c = CHR 0x22 then map_option (\<lambda>(t, r). (JStr t, r)) (p_chars cs)
          else if c = CHR ''n'' then p_literal ''null'' JNull (c # cs)
          else if c = CHR ''t'' then p_literal ''true'' (JBool True) (c # cs)
          else if c = CHR ''f'' then p_literal ''false'' (JBool False) (c # cs)
          else map_option (\<lambda>(x, r). (JNum x, r)) (p_number (c # cs)))"
| "p_elems 0 s = None"
| "p_elems (Suc n) s =
     (case p_value n s of
        None \<Rightarrow> None
      | Some (v, r) \<Rightarrow>
          (case skip_ws r of
             [] \<Rightarrow> None
           | c # cs \<Rightarrow>
               if c = CHR '','' then map_option (cons_fst v) (p_elems n cs)
               else if c = CHR '']'' then Some ([v], cs)
               else None))"
| "p_members 0 s = None"
| "p_members (Suc n) s =
     (case skip_ws s of
        [] \<Rightarrow> None
      | q # qs \<Rightarrow>
          if q \<noteq> CHR 0x22 then None
          else case p_chars qs of
            None \<Rightarrow> None
          | Some (k, r) \<Rightarrow>
              (case skip_ws r of
                 [] \<Rightarrow> None
               | d # ds \<Rightarrow>
                   if d \<noteq> CHR '':'' then None
                   else case p_value n ds of
                     None \<Rightarrow> None
                   | Some (v, t) \<Rightarrow>
                       (case skip_ws t of
                          [] \<Rightarrow> None
                        | c # cs \<Rightarrow>
                            if c = CHR '','' then map_option (cons_fst (k, v)) (p_members n cs)
                            else if c = CHR ''}'' then Some ([(k, v)], cs)
                            else None)))"

definition json_parse :: "string \<Rightarrow> json option" where
  "json_parse s =
     (case p_value (2 * length s + 2) s of
        None \<Rightarrow> None
      | Some (v, r) \<Rightarrow> if skip_ws r = [] then Some v else None)"

text \<open>\<open>Number.isSafeInteger\<close>.\<close>

definition safe_integer :: "rat \<Rightarrow> bool" where
  "safe_integer r \<longleftrightarrow> r = of_int \<lfloor>r\<rfloor> \<and> \<bar>\<lfloor>r\<rfloor>\<bar> \<le> max_safe_integer"

section \<open>Round trip\<close>

text \<open>Values that \<^const>\<open>json_stringify\<close> prints faithfully: integer numbers, no repeated keys.\<close>

fun printable :: "json \<Rightarrow> bool" where
  "printable (JNum r) \<longleftrightarrow> r = of_int \<lfloor>r\<rfloor>"
| "printable (JArr vs) \<longleftrightarrow> list_all printable vs"
| "printable (JObj kvs) \<longleftrightarrow> distinct (map fst kvs) \<and> list_all (\<lambda>(k, v). printable v) kvs"
| "printable _ \<longleftrightarrow> True"

lemma hex_val_digit: "d < 16 \<Longrightarrow> hex_val (hex_digit d) = Some d"
  by (auto simp: hex_val_def hex_digit_def Let_def)

lemma hex4_control: "code_of c < 32 \<Longrightarrow>
    hex4 CHR ''0'' CHR ''0'' (hex_digit (code_of c div 16)) (hex_digit (code_of c mod 16)) = Some c"
proof -
  assume "code_of c < 32"
  then have "code_of c div 16 < 16" "code_of c mod 16 < 16" by auto
  moreover have "hex_val CHR ''0'' = Some 0" by (simp add: hex_val_def)
  moreover have "16 * (code_of c div 16) + code_of c mod 16 = code_of c" by simp
  ultimately show ?thesis by (simp add: hex4_def hex_val_digit)
qed

lemma code_values:
  "code_of c = 34 \<longleftrightarrow> c = CHR 0x22" "code_of c = 92 \<longleftrightarrow> c = CHR 0x5C"
  "code_of c = 8 \<longleftrightarrow> c = CHR 0x08" "code_of c = 9 \<longleftrightarrow> c = CHR 0x09"
  "code_of c = 10 \<longleftrightarrow> c = CHR 0x0A" "code_of c = 12 \<longleftrightarrow> c = CHR 0x0C"
  "code_of c = 13 \<longleftrightarrow> c = CHR 0x0D"
  unfolding of_char_eq_iff [where 'a = nat, symmetric] by (simp_all del: of_char_eq_iff)

lemma char_values:
  "char_of (8::nat) = CHR 0x08" "char_of (9::nat) = CHR 0x09" "char_of (10::nat) = CHR 0x0A"
  "char_of (12::nat) = CHR 0x0C" "char_of (13::nat) = CHR 0x0D"
  by code_simp+

lemma p_chars_escape: "p_chars (json_escape c @ s) = map_option (cons_fst c) (p_chars s)"
proof -
  consider "c \<in> {CHR 0x22, CHR 0x5C, CHR 0x08, CHR 0x09, CHR 0x0A, CHR 0x0C, CHR 0x0D}"
    | "code_of c < 32" "code_of c \<notin> {34, 92, 8, 9, 10, 12, 13}"
    | "\<not> code_of c < 32" "code_of c \<notin> {34, 92}"
    by (auto simp: code_values)
  then show ?thesis
  proof cases
    case 1
    then show ?thesis
      by (elim insertE emptyE) (simp_all add: json_escape_def unescape_def Let_def char_values)
  next
    case 2
    then show ?thesis by (simp add: json_escape_def Let_def hex4_control)
  next
    case 3
    then show ?thesis by (auto simp: json_escape_def Let_def code_values)
  qed
qed

lemma p_chars_quote: "p_chars (concat (map json_escape s) @ CHR 0x22 # r) = Some (s, r)"
  by (induction s) (simp_all add: p_chars_escape)


lemma skip_ws_id: "s \<noteq> [] \<Longrightarrow> \<not> json_ws (hd s) \<Longrightarrow> skip_ws s = s"
  by (cases s) (simp_all add: skip_ws_def)

text \<open>What may follow a value: the end, a comma or a closing bracket.\<close>

definition value_stop :: "string \<Rightarrow> bool" where
  "value_stop r \<longleftrightarrow> r = [] \<or> hd r \<in> {CHR '','', CHR '']'', CHR ''}''}"

lemma takeWhile_digits: "list_all is_digit s \<Longrightarrow> r = [] \<or> \<not> is_digit (hd r) \<Longrightarrow>
    takeWhile is_digit (s @ r) = s \<and> dropWhile is_digit (s @ r) = r"
  by (induction s) (cases r; simp)+

lemma value_stop_cases:
  assumes "value_stop r"
  obtains "r = []" | t where "r = CHR '','' # t" | t where "r = CHR '']'' # t"
    | t where "r = CHR ''}'' # t"
  using assms by (cases r) (auto simp: value_stop_def)

lemma p_digits_show:
  assumes "value_stop r"
  shows "p_digits (show_nat n @ r) = Some (show_nat n, r)"
proof -
  have "r = [] \<or> \<not> is_digit (hd r)" using assms by (auto simp: value_stop_def is_digit_def)
  from takeWhile_digits [OF show_nat_digits this] show ?thesis by (simp add: p_digits_def Let_def)
qed

lemma show_nat_hd: "show_nat n = d # ds \<Longrightarrow> d = CHR ''0'' \<Longrightarrow> ds = []"
proof (induction n arbitrary: d ds rule: show_nat.induct)
  case (1 n)
  show ?case
  proof (cases "n < 10")
    case True
    with 1(2) show ?thesis by (subst (asm) show_nat.simps) simp
  next
    case False
    obtain e es where e: "show_nat (n div 10) = e # es"
      by (cases "show_nat (n div 10)") simp_all
    with 1(2) False have "e = d" by (subst (asm) show_nat.simps) simp
    with 1(1) [OF False e] 1(3) have "es = []" by simp
    with e have "digits_val (show_nat (n div 10)) = digit_val e" by (simp add: digits_val_def)
    with \<open>e = d\<close> 1(3) have "n div 10 = 0" by (simp add: digit_val_def)
    with False show ?thesis by simp
  qed
qed

lemma p_number_nat:
  assumes "value_stop r"
  shows "(case p_digits (show_nat n @ r) of
        None \<Rightarrow> None
      | Some (ds, s2) \<Rightarrow>
          if hd ds = CHR ''0'' \<and> 1 < length ds then None
          else case p_fraction s2 of
            None \<Rightarrow> None
          | Some (fs, s3) \<Rightarrow>
              (case p_exponent s3 of
                 None \<Rightarrow> None
               | Some (e, s4) \<Rightarrow>
                   Some (sg * scale10 (of_nat (digits_val (ds @ fs))) (e - int (length fs)), s4))) =
     Some (sg * of_nat n, r)"
proof -
  obtain d ds where d: "show_nat n = d # ds" by (cases "show_nat n") simp_all
  have ok: "\<not> (hd (show_nat n) = CHR ''0'' \<and> 1 < length (show_nat n))"
    using show_nat_hd [OF d] d by auto
  have "p_fraction r = Some ([], r)" "p_exponent r = Some (0, r)"
    using assms by (auto elim!: value_stop_cases simp: p_fraction_def p_exponent_def)
  with ok show ?thesis
    by (simp add: p_digits_show [OF assms] scale10_def)
qed

lemma show_nat_not_minus: "show_nat n \<noteq> CHR ''-'' # t"
proof
  assume "show_nat n = CHR ''-'' # t"
  with show_nat_digits [of n] show False by (simp add: is_digit_def)
qed

lemma p_number_int:
  assumes "value_stop r"
  shows "p_number (show_int i @ r) = Some (of_int i, r)"
proof (cases "i < 0")
  case True
  with p_number_nat [OF assms, where n = "nat (- i)" and sg = "-1"] show ?thesis
    by (simp add: p_number_def show_int_def)
next
  case False
  obtain d ds where d: "show_nat (nat i) = d # ds" by (cases "show_nat (nat i)") simp_all
  then have "d \<noteq> CHR ''-''" using show_nat_not_minus by blast
  then have "(case d # ds @ r of CHR ''-'' # t \<Rightarrow> (-1 :: rat, t) | _ \<Rightarrow> (1, d # ds @ r)) = (1, d # ds @ r)"
    by (auto split: char.splits bool.splits)
  moreover have "show_int i @ r = d # ds @ r" using False d by (simp add: show_int_def)
  ultimately show ?thesis
    using p_number_nat [OF assms, where n = "nat i" and sg = 1] False d by (simp add: p_number_def)
qed

text \<open>A printed value starts with none of the characters the parser treats as a separator.\<close>

lemma show_int_hd: "\<exists>d ds. show_int i = d # ds \<and> (is_digit d \<or> d = CHR ''-'')"
proof (cases "i < 0")
  case False
  obtain d ds where "show_nat (nat i) = d # ds" by (cases "show_nat (nat i)") simp_all
  with False show_nat_digits [of "nat i"] show ?thesis by (simp add: show_int_def)
qed (simp add: show_int_def)

lemma stringify_hd:
  "\<exists>c cs. json_stringify v = c # cs \<and> \<not> json_ws c \<and> c \<noteq> CHR '']'' \<and> c \<noteq> CHR ''}''"
proof (cases v)
  case (JNum r)
  with show_int_hd [of "\<lfloor>r\<rfloor>"] show ?thesis
    by (auto simp: json_ws_def is_digit_def)
qed (auto simp: json_ws_def json_quote_def)


lemma skip_stringify [simp]: "skip_ws (json_stringify v @ r) = json_stringify v @ r"
  using stringify_hd [of v] by (auto intro: skip_ws_id)

lemma skip_quote [simp]: "skip_ws (json_quote k @ r) = json_quote k @ r"
  by (rule skip_ws_id) (simp_all add: json_quote_def json_ws_def)

lemma skip_sep [simp]:
  "skip_ws (CHR '','' # s) = CHR '','' # s" "skip_ws (CHR '':'' # s) = CHR '':'' # s"
  "skip_ws (CHR '']'' # s) = CHR '']'' # s" "skip_ws (CHR ''}'' # s) = CHR ''}'' # s"
  by (simp_all add: skip_ws_id json_ws_def)

lemma stop_sep [simp]:
  "value_stop (CHR '','' # s)" "value_stop (CHR '']'' # s)" "value_stop (CHR ''}'' # s)"
  "value_stop []"
  by (simp_all add: value_stop_def)

lemma stringify_length: "1 \<le> length (json_stringify v)"
  using stringify_hd [of v] by auto

definition parses_back :: "json \<Rightarrow> bool" where
  "parses_back v \<longleftrightarrow> (\<forall>n r. value_stop r \<longrightarrow> 2 * length (json_stringify v) \<le> n \<longrightarrow>
     p_value n (json_stringify v @ r) = Some (v, r))"

lemma parses_backD:
  "parses_back v \<Longrightarrow> value_stop r \<Longrightarrow> 2 * length (json_stringify v) \<le> n \<Longrightarrow>
     p_value n (json_stringify v @ r) = Some (v, r)"
  by (simp add: parses_back_def)

lemma p_elems_join:
  "vs \<noteq> [] \<Longrightarrow> \<forall>v \<in> set vs. parses_back v \<Longrightarrow>
   2 * length (join_with '','' (map json_stringify vs)) < n \<Longrightarrow>
     p_elems n (join_with '','' (map json_stringify vs) @ CHR '']'' # r) = Some (vs, r)"
proof (induction vs arbitrary: n)
  case (Cons v vs)
  then obtain m where n: "n = Suc m" by (cases n) auto
  show ?case
  proof (cases vs)
    case Nil
    with Cons.prems n show ?thesis by (simp add: parses_backD)
  next
    case (Cons w ws)
    with Cons.prems n have "p_elems m (join_with '','' (map json_stringify vs) @ CHR '']'' # r) =
        Some (vs, r)"
      by (intro Cons.IH) auto
    with Cons.prems n Cons show ?thesis by (simp add: parses_backD)
  qed
qed simp

lemma p_members_join:
  "kvs \<noteq> [] \<Longrightarrow> \<forall>(k, v) \<in> set kvs. parses_back v \<Longrightarrow>
   2 * length (join_with '','' (map (\<lambda>(k, v). json_quote k @ '':'' @ json_stringify v) kvs)) < n \<Longrightarrow>
     p_members n (join_with '','' (map (\<lambda>(k, v). json_quote k @ '':'' @ json_stringify v) kvs) @
       CHR ''}'' # r) = Some (kvs, r)"
proof (induction kvs arbitrary: n)
  case (Cons p kvs)
  then obtain m where n: "n = Suc m" by (cases n) auto
  obtain k v where p: "p = (k, v)" by fastforce
  have quote: "json_quote k @ s = CHR 0x22 # concat (map json_escape k) @ CHR 0x22 # s" for s
    by (simp add: json_quote_def)
  show ?case
  proof (cases kvs)
    case Nil
    with Cons.prems n p show ?thesis
      by (simp add: quote skip_ws_id json_ws_def p_chars_quote parses_backD)
  next
    case (Cons q qs)
    with Cons.prems n p have "p_members m (join_with '',''
        (map (\<lambda>(k, v). json_quote k @ '':'' @ json_stringify v) kvs) @ CHR ''}'' # r) = Some (kvs, r)"
      by (intro Cons.IH) (auto simp: json_quote_def)
    with Cons.prems n p Cons show ?thesis
      by (simp add: quote skip_ws_id json_ws_def p_chars_quote parses_backD)
  qed
qed simp

lemma fold_update_distinct:
  "distinct (map fst (m @ kvs)) \<Longrightarrow> fold (\<lambda>(k, v). AList.update k v) kvs m = m @ kvs"
proof (induction kvs arbitrary: m)
  case (Cons p kvs)
  obtain k v where p: "p = (k, v)" by fastforce
  have "AList.update k v m = m @ [(k, v)]"
    using Cons.prems p by (induction m) auto
  with Cons p show ?case by simp
qed simp

lemma last_wins_distinct [simp]: "distinct (map fst kvs) \<Longrightarrow> last_wins kvs = kvs"
  by (simp add: last_wins_def fold_update_distinct)


lemma join_nonempty: "xs \<noteq> [] \<Longrightarrow> hd xs \<noteq> [] \<Longrightarrow>
    \<exists>t. join_with sep xs = hd xs @ t"
  by (cases xs; cases "tl xs") auto

lemma not_bracket:
  assumes "xs \<noteq> []" "hd xs \<noteq> []" "hd (hd xs) \<noteq> b" "\<not> json_ws (hd (hd xs))"
  shows "\<not> starts_with [b] (skip_ws (join_with sep xs @ r))"
proof -
  obtain t where t: "join_with sep xs = hd xs @ t" using join_nonempty [OF assms(1,2)] by blast
  with assms have "skip_ws (join_with sep xs @ r) = hd xs @ t @ r"
    by (simp add: skip_ws_id)
  with assms(2,3) show ?thesis by (cases "hd xs") (auto simp: starts_with_def)
qed

lemma p_value_num:
  assumes "value_stop r"
  shows "p_value (Suc n) (show_int i @ r) = Some (JNum (of_int i), r)"
proof -
  obtain d ds where d: "show_int i = d # ds" "is_digit d \<or> d = CHR ''-''"
    using show_int_hd by blast
  then have ne: "d \<notin> {CHR ''{'', CHR ''['', CHR 0x22, CHR ''n'', CHR ''t'', CHR ''f''}"
    and ws: "\<not> json_ws d"
    by (auto simp: is_digit_def json_ws_def)
  have "skip_ws (d # ds @ r) = d # ds @ r" using ws by (simp add: skip_ws_id)
  with ne p_number_int [OF assms, of i] show ?thesis by (simp add: d(1))
qed

lemma parses_back_printable: "printable v \<Longrightarrow> parses_back v"
proof (induction v)
  case (JNum x)
  then show ?case
    unfolding parses_back_def
  proof (intro allI impI)
    fix n r
    assume r: "value_stop r" and len: "2 * length (json_stringify (JNum x)) \<le> n"
    have "0 < n" using len stringify_length [of "JNum x"] by simp
    then obtain m where n: "n = Suc m" by (cases n) auto
    have "JNum (of_int \<lfloor>x\<rfloor>) = JNum x" using JNum by simp
    with p_value_num [OF r, of m "\<lfloor>x\<rfloor>"]
    show "p_value n (json_stringify (JNum x) @ r) = Some (JNum x, r)"
      by (simp only: n json_stringify.simps)
  qed
next
  case (JStr s)
  show ?case
    unfolding parses_back_def
    by (auto simp: json_quote_def p_chars_quote skip_ws_id json_ws_def numeral_2_eq_2
        dest!: Suc_le_D)
next
  case (JArr vs)
  show ?case
    unfolding parses_back_def
  proof (intro allI impI)
    fix n r
    assume r: "value_stop r" and len: "2 * length (json_stringify (JArr vs)) \<le> n"
    then obtain m where n: "n = Suc m" by (cases n) auto
    show "p_value n (json_stringify (JArr vs) @ r) = Some (JArr vs, r)"
    proof (cases "vs = []")
      case True
      with n show ?thesis by (simp add: skip_ws_id json_ws_def starts_with_def)
    next
      case False
      have "p_elems m (join_with '','' (map json_stringify vs) @ CHR '']'' # r) = Some (vs, r)"
        using False len n JArr by (intro p_elems_join) (auto simp: list_all_iff)
      moreover have "\<not> starts_with '']'' (skip_ws (join_with '','' (map json_stringify vs) @ CHR '']'' # r))"
        using False stringify_hd [of "hd vs"] by (intro not_bracket) (auto simp: hd_map)
      ultimately show ?thesis using n by (simp add: skip_ws_id json_ws_def)
    qed
  qed
next
  case (JObj kvs)
  let ?f = "\<lambda>(k, v). json_quote k @ '':'' @ json_stringify v"
  show ?case
    unfolding parses_back_def
  proof (intro allI impI)
    fix n r
    assume r: "value_stop r" and len: "2 * length (json_stringify (JObj kvs)) \<le> n"
    then obtain m where n: "n = Suc m" by (cases n) auto
    show "p_value n (json_stringify (JObj kvs) @ r) = Some (JObj kvs, r)"
    proof (cases "kvs = []")
      case True
      with n show ?thesis by (simp add: skip_ws_id json_ws_def starts_with_def)
    next
      case False
      have "p_members m (join_with '','' (map ?f kvs) @ CHR ''}'' # r) = Some (kvs, r)"
        using False len n JObj by (intro p_members_join) (fastforce simp: list_all_iff)+
      moreover have "\<not> starts_with ''}'' (skip_ws (join_with '','' (map ?f kvs) @ CHR ''}'' # r))"
        using False
        by (intro not_bracket) (auto simp: hd_map json_quote_def json_ws_def split: prod.splits)
      ultimately show ?thesis using n JObj.prems by (simp add: skip_ws_id json_ws_def)
    qed
  qed
qed (auto simp: parses_back_def p_literal_def starts_with_def skip_ws_id json_ws_def
    numeral_2_eq_2 dest!: Suc_le_D)

lemma json_roundtrip: "printable v \<Longrightarrow> json_parse (json_stringify v) = Some v"
  using parses_backD [OF parses_back_printable, of v "[]" "2 * length (json_stringify v) + 2"]
  by (simp add: json_parse_def skip_ws_def)

lemma json_stringify_inj:
  "printable v \<Longrightarrow> printable w \<Longrightarrow> json_stringify v = json_stringify w \<Longrightarrow> v = w"
  by (metis json_roundtrip option.inject)

end
