(* ===== verification/IpAddress.thy ===== *)
theory IpAddress
  imports Json
begin

text \<open>
  Address classification of \<open>packages/gitlab-client/src/ip.ts\<close>: the strict parsers of IPv4 and
  IPv6 literals and the category of an address, which the egress guard of \<open>Ssrf\<close> decides on.
  Bytes are natural numbers below 256, as the code's number arrays.
\<close>

unbundle bit_operations_syntax

datatype ip_category =
    Ip_Public | Ip_Private | Ip_Loopback | Ip_Link_Local | Ip_Metadata | Ip_Unspecified
  | Ip_Multicast | Ip_Reserved | Ip_Unknown

record ip_class =
  ic_category :: ip_category
  ic_family :: nat
  ic_normalized :: string

definition ip_unknown :: ip_class where
  "ip_unknown = \<lparr>ic_category = Ip_Unknown, ic_family = 0, ic_normalized = []\<rparr>"

section \<open>Parsing\<close>

definition octet_of :: "string \<Rightarrow> nat option" where
  "octet_of part =
     (if \<not> all_digits part \<or> 3 < length part then None
      else if 1 < length part \<and> hd part = CHR ''0'' then None
      else if 255 < digits_val part then None
      else Some (digits_val part))"

definition parse_ipv4 :: "string \<Rightarrow> nat list option" where
  "parse_ipv4 s =
     (let parts = split_on CHR ''.'' s in
      if length parts \<noteq> 4 then None else those (map octet_of parts))"

text \<open>\<open>head.split("::")\<close>.\<close>

fun split_dcolon :: "string \<Rightarrow> string list" where
  "split_dcolon [] = [[]]"
| "split_dcolon [c] = [[c]]"
| "split_dcolon (c # d # r) =
     (if c = CHR '':'' \<and> d = CHR '':'' then [] # split_dcolon r
      else (case split_dcolon (d # r) of [] \<Rightarrow> [[c]] | p # ps \<Rightarrow> (c # p) # ps))"

definition after_last_colon :: "string \<Rightarrow> string" where
  "after_last_colon s = rev (takeWhile (\<lambda>c. c \<noteq> CHR '':'') (rev s))"

definition upto_last_colon :: "string \<Rightarrow> string" where
  "upto_last_colon s = rev (dropWhile (\<lambda>c. c \<noteq> CHR '':'') (rev s))"

definition colon_groups :: "string \<Rightarrow> string list" where
  "colon_groups s = (if s = [] then [] else split_on CHR '':'' s)"

definition expand_groups :: "string \<Rightarrow> string list option" where
  "expand_groups h =
     (case split_dcolon h of
        [_] \<Rightarrow> Some (split_on CHR '':'' h)
      | [left, right] \<Rightarrow>
          (let l = colon_groups left; r = colon_groups right in
           if 8 \<le> length l + length r then None
           else Some (l @ replicate (8 - length l - length r) ''0'' @ r))
      | _ \<Rightarrow> None)"

definition group_bytes :: "string \<Rightarrow> nat list option" where
  "group_bytes g =
     (if g = [] \<or> 4 < length g then None
      else case those (map hex_val g) of
        None \<Rightarrow> None
      | Some ds \<Rightarrow> (let v = foldl (\<lambda>n d. 16 * n + d) 0 ds in Some [v div 256, v mod 256]))"

definition hex_groups :: "string \<Rightarrow> nat list option" where
  "hex_groups h =
     (case expand_groups h of
        None \<Rightarrow> None
      | Some gs \<Rightarrow> if length gs \<noteq> 8 then None else map_option concat (those (map group_bytes gs)))"

definition parse_ipv6 :: "string \<Rightarrow> nat list option" where
  "parse_ipv6 s =
     (if CHR ''%'' \<in> set s \<or> s = [] then None
      else if CHR '':'' \<in> set s \<and> CHR ''.'' \<in> set (after_last_colon s) then
        (case parse_ipv4 (after_last_colon s) of
           None \<Rightarrow> None
         | Some v4 \<Rightarrow> map_option (\<lambda>bs. take 12 bs @ v4) (hex_groups (upto_last_colon s @ ''0:0'')))
      else hex_groups s)"

section \<open>Classification\<close>

fun classify_ipv4 :: "nat list \<Rightarrow> ip_category" where
  "classify_ipv4 [a, b, c, d] =
     (if a = 169 \<and> b = 254 \<and> c = 169 \<and> d = 254 then Ip_Metadata
      else if a = 100 \<and> b = 100 \<and> c = 100 \<and> d = 200 then Ip_Metadata
      else if a = 127 then Ip_Loopback
      else if a = 0 then Ip_Unspecified
      else if a = 169 \<and> b = 254 then Ip_Link_Local
      else if a = 10 then Ip_Private
      else if a = 172 \<and> 16 \<le> b \<and> b \<le> 31 then Ip_Private
      else if a = 192 \<and> b = 168 then Ip_Private
      else if a = 100 \<and> 64 \<le> b \<and> b \<le> 127 then Ip_Private
      else if 224 \<le> a \<and> a \<le> 239 then Ip_Multicast
      else if a = 192 \<and> b = 0 \<and> c = 0 then Ip_Reserved
      else if a = 192 \<and> b = 0 \<and> c = 2 then Ip_Reserved
      else if a = 198 \<and> (b = 18 \<or> b = 19) then Ip_Reserved
      else if a = 198 \<and> b = 51 \<and> c = 100 then Ip_Reserved
      else if a = 203 \<and> b = 0 \<and> c = 113 then Ip_Reserved
      else if 240 \<le> a then Ip_Reserved
      else Ip_Public)"
| "classify_ipv4 _ = Ip_Unknown"

definition zeros :: "nat list \<Rightarrow> bool" where
  "zeros bs = list_all (\<lambda>b. b = 0) bs"

definition classify_ipv6_bytes :: "nat list \<Rightarrow> ip_category" where
  "classify_ipv6_bytes bs =
     (let b0 = bs ! 0; b1 = bs ! 1 in
      if zeros bs then Ip_Unspecified
      else if zeros (take 15 bs) \<and> bs ! 15 = 1 then Ip_Loopback
      else if b0 = 0xFD \<and> b1 = 0 \<and> bs ! 2 = 0x0E \<and> bs ! 3 = 0xC2 \<and> zeros (take 10 (drop 4 bs)) \<and>
        bs ! 14 = 0x02 \<and> bs ! 15 = 0x54 then Ip_Metadata
      else if b0 = 0xFF then Ip_Multicast
      else if b0 = 0xFE \<and> (b1 AND 0xC0) = 0x80 then Ip_Link_Local
      else if (b0 AND 0xFE) = 0xFC then Ip_Private
      else if b0 = 0x20 \<and> b1 = 0x01 \<and> bs ! 2 = 0x0D \<and> bs ! 3 = 0xB8 then Ip_Reserved
      else if b0 = 0x20 \<and> b1 = 0x02 then Ip_Reserved
      else if b0 = 0x20 \<and> b1 = 0x01 \<and> bs ! 2 = 0 \<and> bs ! 3 = 0 then Ip_Reserved
      else Ip_Public)"

definition is_ipv4_mapped :: "nat list \<Rightarrow> bool" where
  "is_ipv4_mapped bs \<longleftrightarrow> zeros (take 10 bs) \<and> bs ! 10 = 0xFF \<and> bs ! 11 = 0xFF"

definition show_ipv4 :: "nat list \<Rightarrow> string" where
  "show_ipv4 octets = join_with ''.'' (map show_nat octets)"

definition bracketless :: "string \<Rightarrow> string" where
  "bracketless raw =
     (if starts_with ''['' raw \<and> ends_with '']'' raw then butlast (tl raw) else raw)"

definition classify_ip_address :: "string \<Rightarrow> ip_class" where
  "classify_ip_address input =
     (let raw = js_trim input; bare = bracketless raw in
      if raw = [] then ip_unknown
      else case parse_ipv4 bare of
        Some v4 \<Rightarrow> \<lparr>ic_category = classify_ipv4 v4, ic_family = 4, ic_normalized = show_ipv4 v4\<rparr>
      | None \<Rightarrow>
          (case parse_ipv6 bare of
             None \<Rightarrow> ip_unknown
           | Some v6 \<Rightarrow>
               if is_ipv4_mapped v6 then
                 \<lparr>ic_category = classify_ipv4 (drop 12 v6), ic_family = 4,
                  ic_normalized = show_ipv4 (drop 12 v6)\<rparr>
               else \<lparr>ic_category = classify_ipv6_bytes v6, ic_family = 6, ic_normalized = js_lower bare\<rparr>))"

definition is_ip_literal :: "string \<Rightarrow> bool" where
  "is_ip_literal host \<longleftrightarrow> ic_family (classify_ip_address host) \<noteq> 0"

section \<open>Dotted quads\<close>

definition quad :: "nat list \<Rightarrow> bool" where
  "quad v \<longleftrightarrow> length v = 4 \<and> list_all (\<lambda>n. n \<le> 255) v"

lemma quad_cases:
  assumes "quad v"
  obtains a b c d where "v = [a, b, c, d]"
proof -
  have "length v = Suc (Suc (Suc (Suc 0)))" using assms by (simp add: quad_def)
  then show thesis using that by (auto simp: length_Suc_conv)
qed

lemma those_Some: "those xs = Some ys \<longleftrightarrow> xs = map Some ys"
proof (induction xs arbitrary: ys)
  case (Cons x xs)
  then show ?case by (cases x; cases ys) auto
qed auto

lemma show_nat_octet: "n \<le> 255 \<Longrightarrow> length (show_nat n) \<le> 3"
proof -
  assume "n \<le> 255"
  then have "n div 10 div 10 < 10" by simp
  then show ?thesis
    by (subst show_nat.simps, subst show_nat.simps, subst show_nat.simps) simp
qed

lemma show_nat_no_zero: "1 < length (show_nat n) \<Longrightarrow> hd (show_nat n) \<noteq> CHR ''0''"
proof (induction n rule: show_nat.induct)
  case (1 n)
  have digit: "digit_char d \<noteq> CHR ''0''" if "0 < d" "d < 10" for d
  proof
    assume "digit_char d = CHR ''0''"
    then have "digit_val (digit_char d) = digit_val CHR ''0''" by (rule arg_cong)
    moreover have "digit_val CHR ''0'' = 0" by (simp add: digit_val_def)
    ultimately show False using that by simp
  qed
  show ?case
  proof (cases "n < 10")
    case True
    with 1 show ?thesis by (subst (asm) show_nat.simps) simp
  next
    case False
    then have n: "show_nat n = show_nat (n div 10) @ [digit_char (n mod 10)]"
      by (subst show_nat.simps) simp
    show ?thesis
    proof (cases "n div 10 < 10")
      case True
      then have "show_nat (n div 10) = [digit_char (n div 10)]" by (subst show_nat.simps) simp
      with n digit [of "n div 10"] True False show ?thesis by simp
    next
      case b: False
      then have "1 < length (show_nat (n div 10))"
        by (subst show_nat.simps) (simp add: Suc_lessI)
      with 1(1) [OF False] n show ?thesis by simp
    qed
  qed
qed

lemma octet_of_show [simp]: "n \<le> 255 \<Longrightarrow> octet_of (show_nat n) = Some n"
  using show_nat_octet [of n] show_nat_no_zero [of n] by (auto simp: octet_of_def)

lemma octet_of_Some: "octet_of p = Some n \<Longrightarrow> n \<le> 255 \<and> p = show_nat n"
  using show_digits_val [of p] by (auto simp: octet_of_def split: if_splits)

lemma parse_ipv4_Some: "parse_ipv4 s = Some v \<Longrightarrow> quad v \<and> s = show_ipv4 v"
proof -
  assume "parse_ipv4 s = Some v"
  then have len: "length (split_on CHR ''.'' s) = 4" and
    parts: "map octet_of (split_on CHR ''.'' s) = map Some v"
    by (auto simp: parse_ipv4_def Let_def those_Some split: if_splits)
  have octets: "ps = map show_nat v \<and> list_all (\<lambda>n. n \<le> 255) v"
    if "map octet_of ps = map Some v" for ps v
    using that
  proof (induction ps arbitrary: v)
    case (Cons q ps)
    then show ?case using octet_of_Some by (cases v) auto
  qed simp
  from octets [OF parts] show ?thesis
    using len join_split [of "CHR ''.''" s] by (simp add: quad_def show_ipv4_def)
qed

lemma parse_show_ipv4: "quad v \<Longrightarrow> parse_ipv4 (show_ipv4 v) = Some v"
proof -
  assume v: "quad v"
  have dot: "CHR ''.'' \<notin> set (show_nat n)" for n
    using show_nat_digits [of n] by (auto simp: list_all_iff is_digit_def)
  have "split_on CHR ''.'' (show_ipv4 v) = map show_nat v"
    unfolding show_ipv4_def using v dot by (intro split_join) (auto simp: quad_def)
  moreover have "map octet_of (map show_nat v) = map Some v"
    using v by (auto simp: quad_def list_all_iff)
  ultimately show ?thesis
    using v by (simp add: parse_ipv4_def quad_def those_Some del: map_map)
qed

lemma set_show_ipv4: "c \<in> set (show_ipv4 v) \<Longrightarrow> is_digit c \<or> c = CHR ''.''"
proof -
  have "c \<in> set (join_with sep ps) \<Longrightarrow> c \<in> set sep \<or> (\<exists>p \<in> set ps. c \<in> set p)" for sep ps
    by (induction sep ps rule: join_with.induct) auto
  then show "c \<in> set (show_ipv4 v) \<Longrightarrow> is_digit c \<or> c = CHR ''.''"
    using show_nat_digits by (fastforce simp: show_ipv4_def list_all_iff)
qed

section \<open>Characters of an IPv6 literal\<close>

definition v6_char :: "char \<Rightarrow> bool" where
  "v6_char c \<longleftrightarrow> hex_val c \<noteq> None \<or> c = CHR '':'' \<or> c = CHR ''.''"

lemma set_split_on: "c \<in> set s \<Longrightarrow> c = sep \<or> (\<exists>p \<in> set (split_on sep s). c \<in> set p)"
  by (induction s) (auto split: list.splits)

lemma split_dcolon_nonempty [simp]: "split_dcolon s \<noteq> []"
  by (induction s rule: split_dcolon.induct) (auto split: list.splits)

lemma set_split_dcolon: "c \<in> set s \<Longrightarrow> c = CHR '':'' \<or> (\<exists>p \<in> set (split_dcolon s). c \<in> set p)"
  by (induction s rule: split_dcolon.induct) (auto split: list.splits if_splits)

lemma group_bytes_Some:
  assumes "group_bytes g = Some bs"
  shows "length bs = 2 \<and> list_all (\<lambda>n. n \<le> 255) bs \<and> (\<forall>c \<in> set g. hex_val c \<noteq> None)"
proof -
  obtain ds where ds: "map hex_val g = map Some ds" and g: "length g \<le> 4"
    and bs: "bs = [foldl (\<lambda>n d. 16 * n + d) 0 ds div 256, foldl (\<lambda>n d. 16 * n + d) 0 ds mod 256]"
    using assms by (auto simp: group_bytes_def Let_def those_Some split: if_splits option.splits)
  have d: "d < 16" if "d \<in> set ds" for d
  proof -
    from that ds have "Some d \<in> set (map hex_val g)" by simp
    then obtain c where "hex_val c = Some d" by auto
    then show ?thesis by (auto simp: hex_val_def Let_def split: if_splits)
  qed
  have "foldl (\<lambda>n d. 16 * n + d) a ds < (a + 1) * 16 ^ length ds" if "list_all (\<lambda>d. d < 16) ds" for a and ds :: "nat list"
    using that
  proof (induction ds arbitrary: a)
    case (Cons x ds)
    then have "foldl (\<lambda>n d. 16 * n + d) (16 * a + x) ds < (16 * a + x + 1) * 16 ^ length ds" by simp
    also have "\<dots> \<le> (16 * (a + 1)) * 16 ^ length ds" using Cons.prems by (intro mult_right_mono) auto
    finally show ?case by (simp add: algebra_simps)
  qed simp
  from this [of ds 0] d have "foldl (\<lambda>n d. 16 * n + d) 0 ds < 16 ^ length ds" by (simp add: list_all_iff)
  also have "\<dots> \<le> 16 ^ 4"
    using arg_cong [OF ds, of length] g by (intro power_increasing) auto
  finally have "foldl (\<lambda>n d. 16 * n + d) 0 ds div 256 \<le> 255" by simp
  moreover have "\<forall>c \<in> set g. hex_val c \<noteq> None"
    using ds by (metis (no_types, lifting) imageE image_eqI list.set_map option.distinct(1))
  ultimately show ?thesis by (simp add: bs)
qed

lemma hex_groups_Some:
  assumes "hex_groups h = Some bs"
  shows "length bs = 16 \<and> list_all (\<lambda>n. n \<le> 255) bs \<and>
    (\<forall>c \<in> set h. hex_val c \<noteq> None \<or> c = CHR '':'') \<and> CHR '':'' \<in> set h"
proof -
  obtain gs bss where gs: "expand_groups h = Some gs" "length gs = 8"
    and bss: "map group_bytes gs = map Some bss" "bs = concat bss"
    using assms by (auto simp: hex_groups_def those_Some split: option.splits if_splits)
  have grp: "\<forall>g \<in> set gs. \<exists>b. group_bytes g = Some b"
    using bss(1) by (metis imageE image_eqI list.set_map)
  have "\<forall>b \<in> set bss. \<exists>g. group_bytes g = Some b"
    using bss(1) by (metis imageE image_eqI list.set_map)
  then have b: "\<forall>b \<in> set bss. length b = 2 \<and> list_all (\<lambda>n. n \<le> 255) b"
    using group_bytes_Some by blast
  have "length (concat xs) = 2 * length xs" if "\<forall>b \<in> set xs. length b = 2" for xs :: "nat list list"
    using that by (induction xs) auto
  with b have "length bs = 2 * length bss" using bss(2) by simp
  moreover have "length bss = 8" using arg_cong [OF bss(1), of length] gs(2) by simp
  moreover have "list_all (\<lambda>n. n \<le> 255) bs" using b bss(2) by (auto simp: list_all_iff)
  moreover have "hex_val c \<noteq> None \<or> c = CHR '':''" if c: "c \<in> set h" for c
  proof -
    have hex: "c \<in> set g \<Longrightarrow> g \<in> set gs \<Longrightarrow> hex_val c \<noteq> None" for g
      using grp group_bytes_Some by blast
    have side: "c = CHR '':'' \<or> (\<exists>g \<in> set gs. c \<in> set g)"
      if "c \<in> set x" "set (colon_groups x) \<subseteq> set gs" for x
      using set_split_on [OF that(1), of "CHR '':''"] that by (auto simp: colon_groups_def split: if_splits)
    from set_split_dcolon [OF c] consider "c = CHR '':''" | p where "p \<in> set (split_dcolon h)" "c \<in> set p"
      by blast
    then show ?thesis
    proof cases
      case 2
      show ?thesis
      proof (cases "split_dcolon h" rule: remdups_adj.cases)
        case (2 x)
        then have "gs = split_on CHR '':'' h" using gs(1) by (simp add: expand_groups_def)
        with set_split_on [OF c, of "CHR '':''"] hex show ?thesis by blast
      next
        case (3 x y xs)
        then have "xs = []" using gs(1) by (auto simp: expand_groups_def split: list.splits)
        with 3 gs(1) have sub: "set (colon_groups x) \<subseteq> set gs" "set (colon_groups y) \<subseteq> set gs"
          by (auto simp: expand_groups_def Let_def split: if_splits)
        from \<open>p \<in> set (split_dcolon h)\<close> \<open>xs = []\<close> 3 have "p = x \<or> p = y" by auto
        with side [of p] sub \<open>c \<in> set p\<close> hex show ?thesis by blast
      qed simp
    qed simp
  qed
  moreover have "CHR '':'' \<in> set h"
  proof (rule ccontr)
    assume no: "CHR '':'' \<notin> set h"
    then have "split_dcolon h = [h]"
      by (induction h rule: split_dcolon.induct) auto
    with no gs show False by (auto simp: expand_groups_def split_on_no_sep)
  qed
  ultimately show ?thesis by simp
qed

lemma after_upto: "s = upto_last_colon s @ after_last_colon s"
  by (metis after_last_colon_def upto_last_colon_def rev_append rev_rev_ident takeWhile_dropWhile_id)

lemma parse_ipv6_Some:
  assumes "parse_ipv6 s = Some bs"
  shows "length bs = 16 \<and> list_all (\<lambda>n. n \<le> 255) bs \<and> list_all v6_char s \<and> CHR '':'' \<in> set s"
proof (cases "CHR '':'' \<in> set s \<and> CHR ''.'' \<in> set (after_last_colon s)")
  case True
  then obtain v4 hs where v4: "parse_ipv4 (after_last_colon s) = Some v4"
    and hs: "hex_groups (upto_last_colon s @ ''0:0'') = Some hs" and bs: "bs = take 12 hs @ v4"
    using assms by (auto simp: parse_ipv6_def split: if_splits option.splits)
  have hex: "hex_val c \<noteq> None" if "is_digit c" for c
    using that by (auto simp: is_digit_def hex_val_def Let_def)
  have "v6_char c" if "c \<in> set s" for c
  proof -
    from that after_upto [of s] have "c \<in> set (upto_last_colon s) \<or> c \<in> set (after_last_colon s)"
      by (metis Un_iff set_append)
    then show ?thesis
      using hex_groups_Some [OF hs] parse_ipv4_Some [OF v4] set_show_ipv4 [of c v4] hex [of c]
      by (auto simp: v6_char_def)
  qed
  then show ?thesis
    using hex_groups_Some [OF hs] parse_ipv4_Some [OF v4] bs True
    by (auto simp: quad_def list_all_iff dest: in_set_takeD)
next
  case False
  then have "hex_groups s = Some bs"
    using assms by (auto simp: parse_ipv6_def split: if_splits)
  from hex_groups_Some [OF this] show ?thesis by (auto simp: v6_char_def list_all_iff)
qed

section \<open>Lower case\<close>

lemma lower_char_eq_iff:
  assumes "\<not> (97 \<le> code_of x \<and> code_of x \<le> 122)" "code_of x < 192" "\<not> (65 \<le> code_of x \<and> code_of x \<le> 90)"
  shows "lower_char c = x \<longleftrightarrow> c = x"
proof (cases "lower_char c = c")
  case False
  then have "(65 \<le> code_of c \<and> code_of c \<le> 90) \<or> (192 \<le> code_of c \<and> code_of c \<le> 222 \<and> code_of c \<noteq> 215)"
    and low: "lower_char c = char_of (code_of c + 32)"
    by (auto simp: lower_char_def Let_def split: if_splits)
  moreover from this have "code_of (lower_char c) = code_of c + 32" by auto
  ultimately show ?thesis using assms False by auto
qed simp

lemma lower_seps [simp]:
  "lower_char c = CHR '':'' \<longleftrightarrow> c = CHR '':''" "lower_char c = CHR ''.'' \<longleftrightarrow> c = CHR ''.''"
  "lower_char c = CHR ''%'' \<longleftrightarrow> c = CHR ''%''"
  by (rule lower_char_eq_iff; simp)+

lemma hex_val_lower [simp]: "hex_val (lower_char c) = hex_val c"
proof (cases "lower_char c = c")
  case False
  then have r: "(65 \<le> code_of c \<and> code_of c \<le> 90) \<or> (192 \<le> code_of c \<and> code_of c \<le> 222 \<and> code_of c \<noteq> 215)"
    and "lower_char c = char_of (code_of c + 32)"
    by (auto simp: lower_char_def Let_def split: if_splits)
  then have "code_of (lower_char c) = code_of c + 32" by auto
  with r show ?thesis by (auto simp: hex_val_def Let_def)
qed simp

lemma is_digit_lower [simp]: "is_digit (lower_char c) = is_digit c"
proof (cases "lower_char c = c")
  case False
  then have r: "(65 \<le> code_of c \<and> code_of c \<le> 90) \<or> (192 \<le> code_of c \<and> code_of c \<le> 222 \<and> code_of c \<noteq> 215)"
    and "lower_char c = char_of (code_of c + 32)"
    by (auto simp: lower_char_def Let_def split: if_splits)
  then have "code_of (lower_char c) = code_of c + 32" by auto
  with r show ?thesis by (auto simp: is_digit_def)
qed simp

lemma split_on_lower:
  "(\<And>c. lower_char c = sep \<longleftrightarrow> c = sep) \<Longrightarrow> split_on sep (map lower_char s) = map (map lower_char) (split_on sep s)"
  by (induction s) (auto split: list.splits)

lemma split_dcolon_lower: "split_dcolon (map lower_char s) = map (map lower_char) (split_dcolon s)"
  by (induction s rule: split_dcolon.induct) (auto split: list.splits)

lemma octet_of_lower: "octet_of (map lower_char p) = octet_of p"
proof (cases "all_digits p")
  case True
  then have "map lower_char p = p"
    unfolding all_digits_def by (intro map_idI) (auto simp: list_all_iff is_digit_def lower_char_def Let_def)
  then show ?thesis by simp
next
  case False
  then have "\<not> all_digits (map lower_char p)" by (simp add: all_digits_def list_all_iff)
  with False show ?thesis by (simp add: octet_of_def)
qed

lemma parse_ipv4_lower: "parse_ipv4 (map lower_char s) = parse_ipv4 s"
  by (simp add: parse_ipv4_def Let_def split_on_lower octet_of_lower comp_def)

lemma hex_groups_lower: "hex_groups (map lower_char s) = hex_groups s"
proof -
  have g: "group_bytes (map lower_char g) = group_bytes g" for g
    by (simp add: group_bytes_def comp_def)
  have "expand_groups (map lower_char s) = map_option (map (map lower_char)) (expand_groups s)"
  proof -
    have zero: "lower_char CHR ''0'' = CHR ''0''" by (simp add: lower_char_def)
    have cg: "colon_groups (map lower_char x) = map (map lower_char) (colon_groups x)" for x
      by (simp add: colon_groups_def split_on_lower)
    show ?thesis
      by (simp add: expand_groups_def split_dcolon_lower split_on_lower cg zero Let_def split: list.splits)
  qed
  then show ?thesis
    by (simp add: hex_groups_def g comp_def split: option.splits)
qed

lemma last_colon_lower:
  "after_last_colon (map lower_char s) = map lower_char (after_last_colon s)"
  "upto_last_colon (map lower_char s) = map lower_char (upto_last_colon s)"
  by (simp_all add: after_last_colon_def upto_last_colon_def rev_map takeWhile_map dropWhile_map comp_def)

lemma parse_ipv6_lower: "parse_ipv6 (js_lower s) = parse_ipv6 s"
proof -
  have "map lower_char (u @ ''0:0'') = map lower_char u @ ''0:0''" for u
    by (simp add: lower_char_def)
  then have "hex_groups (map lower_char u @ ''0:0'') = hex_groups (u @ ''0:0'')" for u
    by (metis hex_groups_lower)
  moreover have "x \<in> set (map lower_char u) \<longleftrightarrow> x \<in> set u" if "\<And>c. lower_char c = x \<longleftrightarrow> c = x" for x u
    by (metis (mono_tags) imageE image_eqI list.set_map that)
  ultimately show ?thesis
    by (simp add: parse_ipv6_def js_lower_def last_colon_lower parse_ipv4_lower hex_groups_lower
        split: option.split)
qed

section \<open>The normal form\<close>

lemma v6_no_space: "v6_char c \<Longrightarrow> \<not> is_js_space c" and v6_no_bracket: "v6_char c \<Longrightarrow> c \<noteq> CHR ''[''"
  by (auto simp: v6_char_def hex_val_def Let_def is_js_space_def split: if_splits)

lemma plain_literal:
  assumes "list_all v6_char s" and "s \<noteq> []"
  shows "js_trim s = s" and "bracketless s = s"
proof -
  show "js_trim s = s"
    using assms(1) v6_no_space by (intro js_trim_no_space) (auto simp: list_all_iff)
  show "bracketless s = s"
    using assms v6_no_bracket by (cases s) (auto simp: bracketless_def starts_with_def)
qed

lemma show_ipv4_chars: "quad v \<Longrightarrow> list_all v6_char (show_ipv4 v) \<and> show_ipv4 v \<noteq> []"
proof -
  assume v: "quad v"
  have "v6_char c" if "is_digit c \<or> c = CHR ''.''" for c
    using that by (auto simp: v6_char_def is_digit_def hex_val_def Let_def)
  moreover have "show_ipv4 v \<noteq> []"
    using v by (rule quad_cases) (simp add: show_ipv4_def)
  ultimately show ?thesis using set_show_ipv4 by (auto simp: list_all_iff)
qed

lemma classify_show_ipv4:
  "quad v \<Longrightarrow> classify_ip_address (show_ipv4 v) =
     \<lparr>ic_category = classify_ipv4 v, ic_family = 4, ic_normalized = show_ipv4 v\<rparr>"
  using show_ipv4_chars [of v] plain_literal [of "show_ipv4 v"] parse_show_ipv4 [of v]
  by (simp add: classify_ip_address_def)

lemma colon_not_ipv4: "CHR '':'' \<in> set s \<Longrightarrow> parse_ipv4 s = None"
proof (rule ccontr)
  assume c: "CHR '':'' \<in> set s" and "parse_ipv4 s \<noteq> None"
  then obtain v where "parse_ipv4 s = Some v" by blast
  with parse_ipv4_Some have "s = show_ipv4 v" by blast
  with c set_show_ipv4 [of "CHR '':''" v] show False by (auto simp: is_digit_def)
qed

lemma mapped_quad:
  assumes "length bs = 16" and "list_all (\<lambda>n. n \<le> 255) bs"
  shows "quad (drop 12 bs)"
  using assms by (auto simp: quad_def list_all_iff dest: in_set_dropD)

text \<open>Classification depends on the normal form only, and it is a fixed point.\<close>

lemma classify_normalized:
  assumes "ic_family (classify_ip_address s) \<noteq> 0"
  shows "classify_ip_address (ic_normalized (classify_ip_address s)) = classify_ip_address s"
proof -
  let ?b = "bracketless (js_trim s)"
  consider v where "parse_ipv4 ?b = Some v" "js_trim s \<noteq> []"
    | v where "parse_ipv4 ?b = None" "parse_ipv6 ?b = Some v" "js_trim s \<noteq> []"
    using assms by (auto simp: classify_ip_address_def ip_unknown_def Let_def split: option.splits if_splits)
  then show ?thesis
  proof cases
    case 1
    then have "quad v" using parse_ipv4_Some by blast
    with 1 show ?thesis by (simp add: classify_ip_address_def [of s] classify_show_ipv4)
  next
    case 2
    note v6 = parse_ipv6_Some [OF 2(2)]
    show ?thesis
    proof (cases "is_ipv4_mapped v")
      case True
      with 2 mapped_quad [of v] v6 show ?thesis
        by (simp add: classify_ip_address_def [of s] classify_show_ipv4)
    next
      case False
      let ?l = "js_lower ?b"
      have l6: "parse_ipv6 ?l = Some v" using 2(2) by (simp add: parse_ipv6_lower)
      have l: "list_all v6_char ?l" "CHR '':'' \<in> set ?l" using parse_ipv6_Some [OF l6] by simp_all
      then have "?l \<noteq> []" by (cases ?l) auto
      have n: "ic_normalized (classify_ip_address s) = ?l" "classify_ip_address s =
          \<lparr>ic_category = classify_ipv6_bytes v, ic_family = 6, ic_normalized = ?l\<rparr>"
        using 2 False by (simp_all add: classify_ip_address_def)
      show ?thesis
        unfolding n using plain_literal [OF l(1) \<open>?l \<noteq> []\<close>] \<open>?l \<noteq> []\<close> l6 False colon_not_ipv4 [OF l(2)]
        by (simp add: classify_ip_address_def)
    qed
  qed
qed

lemma mapped_classification:
  assumes "quad v"
  shows "classify_ip_address (''::ffff:'' @ show_ipv4 v) = classify_ip_address (show_ipv4 v)"
proof -
  let ?w = "show_ipv4 v"
  have w: "CHR '':'' \<notin> set ?w" "CHR ''%'' \<notin> set ?w" "list_all v6_char ?w"
    using set_show_ipv4 [of "CHR '':''" v] set_show_ipv4 [of "CHR ''%''" v] show_ipv4_chars [OF assms]
    by (auto simp: is_digit_def)
  have lit: "list_all v6_char (''::ffff:'' @ ?w)"
    using w(3) by (simp add: v6_char_def hex_val_def)
  have "takeWhile (\<lambda>c. c \<noteq> CHR '':'') (rev ?w @ rev ''::ffff:'') = rev ?w"
    "dropWhile (\<lambda>c. c \<noteq> CHR '':'') (rev ?w @ rev ''::ffff:'') = rev ''::ffff:''"
    using w(1) by (simp_all add: takeWhile_append dropWhile_append)
  then have parts: "after_last_colon (''::ffff:'' @ ?w) = ?w" "upto_last_colon (''::ffff:'' @ ?w) = ''::ffff:''"
    by (simp_all add: after_last_colon_def upto_last_colon_def)
  have dot: "CHR ''.'' \<in> set ?w"
    using assms by (rule quad_cases) (simp add: show_ipv4_def)
  have expand: "expand_groups ''::ffff:0:0'' =
      Some [''0'', ''0'', ''0'', ''0'', ''0'', ''ffff'', ''0'', ''0'']"
    by (simp add: expand_groups_def colon_groups_def Let_def numeral_eq_Suc)
  have "group_bytes ''0'' = Some [0, 0]" "group_bytes ''ffff'' = Some [255, 255]"
    by (simp_all add: group_bytes_def hex_val_def Let_def)
  with expand have "hex_groups ''::ffff:0:0'' = Some [0, 0, 0, 0, 0, 0, 0, 0, 0, 0, 255, 255, 0, 0, 0, 0]"
    by (simp add: hex_groups_def)
  then have "parse_ipv6 (''::ffff:'' @ ?w) = Some ([0, 0, 0, 0, 0, 0, 0, 0, 0, 0, 255, 255] @ v)"
    using w dot parse_show_ipv4 [OF assms] unfolding parse_ipv6_def parts by simp
  moreover have "parse_ipv4 (''::ffff:'' @ ?w) = None" by (rule colon_not_ipv4) simp
  ultimately show ?thesis
    using plain_literal [OF lit] classify_show_ipv4 [OF assms]
    by (simp add: classify_ip_address_def is_ipv4_mapped_def zeros_def)
qed

end
