(* ===== verification/GitLabTypes.thy ===== *)
theory GitLabTypes
  imports Json
begin

text \<open>
  The data of \<open>packages/gitlab-client\<close> that its callers see: the error taxonomy (\<open>errors.ts\<close>), the
  DTOs and pages (\<open>types.ts\<close>, \<open>pagination.ts\<close>), the limits (\<open>limits.ts\<close>) and the mappers from
  GitLab's JSON to the DTOs (\<open>mappers.ts\<close>), which validate every required field. The free-form
  \<open>context\<close> of an error is left out.
\<close>

section \<open>Errors\<close>

datatype gitlab_error =
    Gl_Invalid_Config
  | Gl_Ssrf_Blocked
  | Gl_Redirect_Rejected
  | Gl_Unauthorized
  | Gl_Forbidden
  | Gl_Not_Found
  | Gl_Project_Forbidden
  | Gl_Project_Not_Found
  | Gl_Rate_Limited "int option"
  | Gl_Timeout
  | Gl_Aborted
  | Gl_Upstream_Unavailable "int option"
  | Gl_Unexpected_Status int
  | Gl_Malformed_Response
  | Gl_Response_Too_Large
  | Gl_Pagination_Limit

fun gitlab_error_code :: "gitlab_error \<Rightarrow> string" where
  "gitlab_error_code Gl_Invalid_Config = ''GITLAB_INVALID_CONFIG''"
| "gitlab_error_code Gl_Ssrf_Blocked = ''GITLAB_SSRF_BLOCKED''"
| "gitlab_error_code Gl_Redirect_Rejected = ''GITLAB_REDIRECT_REJECTED''"
| "gitlab_error_code Gl_Unauthorized = ''GITLAB_UNAUTHORIZED''"
| "gitlab_error_code Gl_Forbidden = ''GITLAB_FORBIDDEN''"
| "gitlab_error_code Gl_Not_Found = ''GITLAB_NOT_FOUND''"
| "gitlab_error_code Gl_Project_Forbidden = ''GITLAB_PROJECT_FORBIDDEN''"
| "gitlab_error_code Gl_Project_Not_Found = ''GITLAB_PROJECT_NOT_FOUND''"
| "gitlab_error_code (Gl_Rate_Limited r) = ''GITLAB_RATE_LIMITED''"
| "gitlab_error_code Gl_Timeout = ''GITLAB_TIMEOUT''"
| "gitlab_error_code Gl_Aborted = ''GITLAB_ABORTED''"
| "gitlab_error_code (Gl_Upstream_Unavailable r) = ''GITLAB_UPSTREAM_UNAVAILABLE''"
| "gitlab_error_code (Gl_Unexpected_Status s) = ''GITLAB_UNEXPECTED_STATUS''"
| "gitlab_error_code Gl_Malformed_Response = ''GITLAB_MALFORMED_RESPONSE''"
| "gitlab_error_code Gl_Response_Too_Large = ''GITLAB_RESPONSE_TOO_LARGE''"
| "gitlab_error_code Gl_Pagination_Limit = ''GITLAB_PAGINATION_LIMIT''"

section \<open>Limits\<close>

record client_limits =
  max_attempts :: nat
  attempt_timeout_ms :: int
  total_timeout_ms :: int
  backoff_base_ms :: int
  backoff_max_ms :: int
  max_response_bytes :: nat
  per_page_limit :: nat
  max_pages :: nat
  max_items :: nat

definition default_limits :: client_limits where
  "default_limits =
     \<lparr>max_attempts = 4, attempt_timeout_ms = 15000, total_timeout_ms = 45000, backoff_base_ms = 250,
      backoff_max_ms = 8000, max_response_bytes = 8 * 1024 * 1024, per_page_limit = 100,
      max_pages = 100, max_items = 10000\<rparr>"

section \<open>DTOs\<close>

record gl_user =
  gu_id :: int
  gu_username :: string
  gu_name :: "string option"
  gu_email :: "string option"

record gl_project =
  gp_id :: int
  gp_path :: string
  gp_name :: string
  gp_archived :: bool
  gp_default_branch :: "string option"
  gp_web_url :: "string option"
  gp_last_activity :: "string option"

record gl_branch =
  gb_name :: string
  gb_merged :: bool
  gb_protected :: bool
  gb_default :: bool

record gl_commit =
  gc_id :: string
  gc_short_id :: string
  gc_title :: string
  gc_message :: string
  gc_author_name :: "string option"
  gc_author_email :: "string option"
  gc_authored_date :: string
  gc_web_url :: "string option"

record gl_merge_request =
  gm_iid :: int
  gm_project_id :: int
  gm_title :: string
  gm_state :: string
  gm_author_username :: "string option"
  gm_author_email :: "string option"
  gm_updated_at :: string
  gm_web_url :: "string option"
  gm_sha :: "string option"

record page_cursor =
  pc_page :: nat
  pc_per_page :: nat

datatype 'a page = Page (items: "'a list") (next_page: "page_cursor option")

section \<open>Mappers\<close>

definition as_object :: "json \<Rightarrow> gitlab_error + (string \<times> json) list" where
  "as_object v = (case v of JObj kvs \<Rightarrow> Inr kvs | _ \<Rightarrow> Inl Gl_Malformed_Response)"

definition as_array :: "json \<Rightarrow> gitlab_error + json list" where
  "as_array v = (case v of JArr vs \<Rightarrow> Inr vs | _ \<Rightarrow> Inl Gl_Malformed_Response)"

definition require_string :: "(string \<times> json) list \<Rightarrow> string \<Rightarrow> gitlab_error + string" where
  "require_string src k =
     (case map_of src k of
        Some (JStr s) \<Rightarrow> if s = [] then Inl Gl_Malformed_Response else Inr s
      | _ \<Rightarrow> Inl Gl_Malformed_Response)"

definition optional_string :: "(string \<times> json) list \<Rightarrow> string \<Rightarrow> string option" where
  "optional_string src k =
     (case map_of src k of Some (JStr s) \<Rightarrow> if s = [] then None else Some s | _ \<Rightarrow> None)"

definition require_int :: "(string \<times> json) list \<Rightarrow> string \<Rightarrow> gitlab_error + int" where
  "require_int src k =
     (case map_of src k of
        Some (JNum r) \<Rightarrow> if safe_integer r then Inr \<lfloor>r\<rfloor> else Inl Gl_Malformed_Response
      | _ \<Rightarrow> Inl Gl_Malformed_Response)"

definition optional_bool :: "(string \<times> json) list \<Rightarrow> string \<Rightarrow> bool" where
  "optional_bool src k \<longleftrightarrow> map_of src k = Some (JBool True)"

abbreviation or_empty :: "string option \<Rightarrow> string" where
  "or_empty s \<equiv> (case s of None \<Rightarrow> [] | Some t \<Rightarrow> t)"

abbreviation bind_err :: "'e + 'a \<Rightarrow> ('a \<Rightarrow> 'e + 'b) \<Rightarrow> 'e + 'b" where
  "bind_err r f \<equiv> (case r of Inl e \<Rightarrow> Inl e | Inr x \<Rightarrow> f x)"

definition map_user :: "json \<Rightarrow> gitlab_error + gl_user" where
  "map_user v =
     bind_err (as_object v) (\<lambda>src.
     bind_err (require_int src ''id'') (\<lambda>i.
     bind_err (require_string src ''username'') (\<lambda>u.
     Inr \<lparr>gu_id = i, gu_username = u, gu_name = optional_string src ''name'',
       gu_email = optional_string src ''email''\<rparr>)))"

definition map_project :: "json \<Rightarrow> gitlab_error + gl_project" where
  "map_project v =
     bind_err (as_object v) (\<lambda>src.
     bind_err (require_int src ''id'') (\<lambda>i.
     bind_err (require_string src ''path_with_namespace'') (\<lambda>p.
     bind_err (require_string src ''name'') (\<lambda>n.
     Inr \<lparr>gp_id = i, gp_path = p, gp_name = n, gp_archived = optional_bool src ''archived'',
       gp_default_branch = optional_string src ''default_branch'',
       gp_web_url = optional_string src ''web_url'',
       gp_last_activity = optional_string src ''last_activity_at''\<rparr>))))"

definition map_branch :: "json \<Rightarrow> gitlab_error + gl_branch" where
  "map_branch v =
     bind_err (as_object v) (\<lambda>src.
     bind_err (require_string src ''name'') (\<lambda>n.
     Inr \<lparr>gb_name = n, gb_merged = optional_bool src ''merged'',
       gb_protected = optional_bool src ''protected'', gb_default = optional_bool src ''default''\<rparr>))"

definition map_commit :: "json \<Rightarrow> gitlab_error + gl_commit" where
  "map_commit v =
     bind_err (as_object v) (\<lambda>src.
     bind_err (require_string src ''id'') (\<lambda>i.
     bind_err (require_string src ''authored_date'') (\<lambda>d.
     Inr \<lparr>gc_id = i, gc_short_id = or_empty (optional_string src ''short_id''),
       gc_title = or_empty (optional_string src ''title''),
       gc_message = or_empty (optional_string src ''message''),
       gc_author_name = optional_string src ''author_name'',
       gc_author_email = optional_string src ''author_email'', gc_authored_date = d,
       gc_web_url = optional_string src ''web_url''\<rparr>)))"

definition map_merge_request :: "json \<Rightarrow> gitlab_error + gl_merge_request" where
  "map_merge_request v =
     bind_err (as_object v) (\<lambda>src.
     let author = (case map_of src ''author'' of Some (JObj kvs) \<Rightarrow> Some kvs | _ \<Rightarrow> None);
         from_author = (\<lambda>k. case author of None \<Rightarrow> None | Some kvs \<Rightarrow> optional_string kvs k)
     in
     bind_err (require_int src ''iid'') (\<lambda>i.
     bind_err (require_int src ''project_id'') (\<lambda>p.
     bind_err (require_string src ''state'') (\<lambda>st.
     bind_err (require_string src ''updated_at'') (\<lambda>u.
     Inr \<lparr>gm_iid = i, gm_project_id = p, gm_title = or_empty (optional_string src ''title''),
       gm_state = st, gm_author_username = from_author ''username'',
       gm_author_email = from_author ''email'', gm_updated_at = u,
       gm_web_url = optional_string src ''web_url'', gm_sha = optional_string src ''sha''\<rparr>)))))"

text \<open>A list is mapped element by element; the first error stops it.\<close>

fun map_all :: "('a \<Rightarrow> 'e + 'b) \<Rightarrow> 'a list \<Rightarrow> 'e + 'b list" where
  "map_all f [] = Inr []"
| "map_all f (x # xs) =
     bind_err (f x) (\<lambda>y. bind_err (map_all f xs) (\<lambda>ys. Inr (y # ys)))"

section \<open>Lemmas\<close>

lemma require_string_Inr: "require_string src k = Inr s \<longleftrightarrow> map_of src k = Some (JStr s) \<and> s \<noteq> []"
  by (auto simp: require_string_def split: option.splits json.splits)

lemma map_all_InrD: "map_all f xs = Inr ys \<Longrightarrow> list_all2 (\<lambda>x y. f x = Inr y) xs ys"
  by (induction xs arbitrary: ys) (auto split: sum.splits)

lemma map_all_InrI: "list_all2 (\<lambda>x y. f x = Inr y) xs ys \<Longrightarrow> map_all f xs = Inr ys"
  by (induction xs ys rule: list_all2_induct) auto

lemma map_all_Inl: "map_all f xs = Inl e \<Longrightarrow> \<exists>x \<in> set xs. f x = Inl e"
  by (induction xs) (auto split: sum.splits)

end
