(* ===== verification/Crypto.thy ===== *)
theory Crypto
  imports Json
begin

text \<open>
  The secret sealing of \<open>packages/crypto\<close>: key material and key version labels
  (\<open>key-loader.ts\<close>), the additional authenticated data that binds a secret to its row
  (\<open>aad.ts\<close>), and the AES-256-GCM envelope (\<open>envelope.ts\<close>). AES-GCM itself is Node's; it
  is the parameter \<open>gcm\<close> of the definitions, and \<open>aead_ok\<close> states what GCM guarantees:
  decryption undoes encryption, and a tag is accepted only when it is the one encryption
  computes. Bytes are 8-bit words; \<open>randomBytes\<close> is the \<open>nonce\<close> argument.
\<close>

type_synonym byte = "8 word"

datatype crypto_error =
    Invalid_Key_Material
  | Invalid_Key_Version
  | Key_Version_Mismatch
  | Unsupported_Envelope_Version
  | Malformed_Envelope
  | Invalid_Aad_Context
  | Decryption_Failed
  | Empty_Plaintext

section \<open>Text and bytes\<close>

text \<open>UTF-8 of the code units below 256. A decoder replaces what is not well formed, or outside
  the range, by the substitute character.\<close>

definition utf8_char :: "char \<Rightarrow> byte list" where
  "utf8_char c =
     (let n = code_of c in
      if n < 128 then [of_nat n] else [of_nat (192 + n div 64), of_nat (128 + n mod 64)])"

definition utf8_encode :: "string \<Rightarrow> byte list" where
  "utf8_encode s = concat (map utf8_char s)"

fun utf8_decode :: "byte list \<Rightarrow> string" where
  "utf8_decode [] = []"
| "utf8_decode (b # bs) =
     (if unat b < 128 then char_of (unat b) # utf8_decode bs
      else if unat b = 194 \<or> unat b = 195 then
        (case bs of
           [] \<Rightarrow> [CHR 0x1A]
         | c # cs \<Rightarrow>
             if 128 \<le> unat c \<and> unat c < 192
             then char_of (64 * (unat b - 192) + (unat c - 128)) # utf8_decode cs
             else CHR 0x1A # utf8_decode bs)
      else CHR 0x1A # utf8_decode bs)"

lemma unat_of_nat_byte: "n < 256 \<Longrightarrow> unat (of_nat n :: byte) = n"
  by (simp add: unat_of_nat)

lemma utf8_decode_char: "utf8_decode (utf8_char c @ bs) = c # utf8_decode bs"
proof (cases "code_of c < 128")
  case True
  then show ?thesis by (simp add: utf8_char_def unat_of_nat_byte)
next
  case False
  let ?n = "code_of c :: nat"
  have d: "?n div 64 = 2 \<or> ?n div 64 = 3" using False code_of_less [of c] by linarith
  have b: "unat (of_nat (192 + ?n div 64) :: byte) = 192 + ?n div 64"
    using d by (intro unat_of_nat_byte) auto
  have m: "?n mod 64 < 64" by simp
  then have c: "unat (of_nat (128 + ?n mod 64) :: byte) = 128 + ?n mod 64"
    by (intro unat_of_nat_byte) linarith
  have n: "char_of (64 * (?n div 64) + ?n mod 64) = c" by simp
  from False d m have "utf8_decode (utf8_char c @ bs) =
      char_of (64 * (?n div 64) + ?n mod 64) # utf8_decode bs"
    unfolding utf8_char_def Let_def by (auto simp: b c simp del: of_nat_add)
  then show ?thesis by (simp only: n)
qed

lemma utf8_roundtrip [simp]: "utf8_decode (utf8_encode s) = s"
  by (induction s) (simp_all add: utf8_encode_def utf8_decode_char)

lemma utf8_encode_inj: "utf8_encode s = utf8_encode t \<longleftrightarrow> s = t"
  by (metis utf8_roundtrip)

lemma utf8_encode_Nil [simp]: "utf8_encode s = [] \<longleftrightarrow> s = []"
  using utf8_encode_inj [of s "[]"] by (simp add: utf8_encode_def)

section \<open>Base64\<close>

definition b64_char :: "bool \<Rightarrow> nat \<Rightarrow> char" where
  "b64_char url i =
     (if i < 26 then char_of (65 + i)
      else if i < 52 then char_of (71 + i)
      else if i < 62 then char_of (i - 4)
      else if i = 62 then (if url then CHR ''-'' else CHR ''+'')
      else (if url then CHR ''_'' else CHR ''/''))"

text \<open>Node's decoder takes both alphabets.\<close>

definition b64_val :: "char \<Rightarrow> nat option" where
  "b64_val c =
     (let n = code_of c in
      if 65 \<le> n \<and> n \<le> 90 then Some (n - 65)
      else if 97 \<le> n \<and> n \<le> 122 then Some (n - 71)
      else if 48 \<le> n \<and> n \<le> 57 then Some (n + 4)
      else if c = CHR ''+'' \<or> c = CHR ''-'' then Some 62
      else if c = CHR ''/'' \<or> c = CHR ''_'' then Some 63
      else None)"

fun b64_sextets :: "byte list \<Rightarrow> nat list" where
  "b64_sextets [] = []"
| "b64_sextets [a] = [unat a div 4, unat a mod 4 * 16]"
| "b64_sextets [a, b] = [unat a div 4, unat a mod 4 * 16 + unat b div 16, unat b mod 16 * 4]"
| "b64_sextets (a # b # c # r) =
     [unat a div 4, unat a mod 4 * 16 + unat b div 16, unat b mod 16 * 4 + unat c div 64,
      unat c mod 64] @ b64_sextets r"

fun b64_bytes :: "nat list \<Rightarrow> byte list" where
  "b64_bytes (w # x # y # z # r) =
     [of_nat (w * 4 + x div 16), of_nat (x mod 16 * 16 + y div 4), of_nat (y mod 4 * 64 + z)] @
     b64_bytes r"
| "b64_bytes [w, x, y] = [of_nat (w * 4 + x div 16), of_nat (x mod 16 * 16 + y div 4)]"
| "b64_bytes [w, x] = [of_nat (w * 4 + x div 16)]"
| "b64_bytes _ = []"

text \<open>\<open>toString("base64")\<close> pads, \<open>toString("base64url")\<close> does not.\<close>

definition b64_encode :: "byte list \<Rightarrow> string" where
  "b64_encode bs =
     map (b64_char False) (b64_sextets bs) @ replicate ((3 - length bs mod 3) mod 3) CHR ''=''"

definition b64url_encode :: "byte list \<Rightarrow> string" where
  "b64url_encode bs = map (b64_char True) (b64_sextets bs)"

definition b64_decode :: "string \<Rightarrow> byte list" where
  "b64_decode s = b64_bytes (List.map_filter b64_val (takeWhile (\<lambda>c. c \<noteq> CHR ''='') s))"

lemma byte_less: "unat (b :: byte) < 256"
  using unsigned_less [of b] by simp

lemma b64_join:
  fixes a b c :: byte
  shows "(of_nat (unat a div 4 * 4 + (unat a mod 4 * 16) div 16) :: byte) = a"
    and "(of_nat (unat a div 4 * 4 + (unat a mod 4 * 16 + unat b div 16) div 16) :: byte) = a"
    and "(of_nat ((unat a mod 4 * 16 + unat b div 16) mod 16 * 16 + (unat b mod 16 * 4) div 4) :: byte) = b"
    and "(of_nat ((unat a mod 4 * 16 + unat b div 16) mod 16 * 16 +
      (unat b mod 16 * 4 + unat c div 64) div 4) :: byte) = b"
    and "(of_nat ((unat b mod 16 * 4 + unat c div 64) mod 4 * 64 + unat c mod 64) :: byte) = c"
proof -
  have b: "unat b div 16 < 16" and c: "unat c div 64 < 4"
    using byte_less [of b] byte_less [of c] by auto
  have "unat a div 4 * 4 + (unat a mod 4 * 16) div 16 = unat a"
    "unat a div 4 * 4 + (unat a mod 4 * 16 + unat b div 16) div 16 = unat a"
    "(unat a mod 4 * 16 + unat b div 16) mod 16 * 16 + (unat b mod 16 * 4) div 4 = unat b"
    "(unat a mod 4 * 16 + unat b div 16) mod 16 * 16 +
      (unat b mod 16 * 4 + unat c div 64) div 4 = unat b"
    "(unat b mod 16 * 4 + unat c div 64) mod 4 * 64 + unat c mod 64 = unat c"
    using b c by (simp_all add: mod_mult_self3)
  then show "(of_nat (unat a div 4 * 4 + (unat a mod 4 * 16) div 16) :: byte) = a"
    "(of_nat (unat a div 4 * 4 + (unat a mod 4 * 16 + unat b div 16) div 16) :: byte) = a"
    "(of_nat ((unat a mod 4 * 16 + unat b div 16) mod 16 * 16 + (unat b mod 16 * 4) div 4) :: byte) = b"
    "(of_nat ((unat a mod 4 * 16 + unat b div 16) mod 16 * 16 +
      (unat b mod 16 * 4 + unat c div 64) div 4) :: byte) = b"
    "(of_nat ((unat b mod 16 * 4 + unat c div 64) mod 4 * 64 + unat c mod 64) :: byte) = c"
    by simp_all
qed

lemma b64_bytes_sextets [simp]: "b64_bytes (b64_sextets bs) = bs"
  by (induction bs rule: b64_sextets.induct) (simp_all only: b64_sextets.simps b64_bytes.simps append.simps b64_join)

lemma b64_sextets_less: "i \<in> set (b64_sextets bs) \<Longrightarrow> i < 64"
proof (induction bs rule: b64_sextets.induct)
  case (4 a b c r)
  have "unat a div 4 < 64" "unat a mod 4 * 16 + unat b div 16 < 64"
    "unat b mod 16 * 4 + unat c div 64 < 64"
    using byte_less [of a] byte_less [of b] byte_less [of c] by linarith+
  with 4 show ?case by auto
next
  case (3 a b)
  have "unat a div 4 < 64" "unat a mod 4 * 16 + unat b div 16 < 64" "unat b mod 16 * 4 < 64"
    using byte_less [of a] byte_less [of b] by linarith+
  with 3 show ?case by auto
next
  case (2 a)
  have "unat a div 4 < 64" "unat a mod 4 * 16 < 64" using byte_less [of a] by linarith+
  with 2 show ?case by auto
qed simp

lemma b64_val_char: "i < 64 \<Longrightarrow> b64_val (b64_char url i) = Some i \<and> b64_char url i \<noteq> CHR ''=''"
proof -
  assume "i < 64"
  then consider "i < 26" | "26 \<le> i" "i < 52" | "52 \<le> i" "i < 62" | "i = 62" | "i = 63" by linarith
  then show ?thesis
  proof cases
    case 1
    then have "code_of (b64_char url i) = 65 + i" by (simp add: b64_char_def)
    with 1 show ?thesis by (auto simp: b64_val_def Let_def)
  next
    case 2
    then have "code_of (b64_char url i) = 71 + i" by (simp add: b64_char_def)
    with 2 show ?thesis by (auto simp: b64_val_def Let_def)
  next
    case 3
    then have "code_of (b64_char url i) = i - 4" by (simp add: b64_char_def)
    with 3 show ?thesis by (auto simp: b64_val_def Let_def)
  qed (auto simp: b64_char_def b64_val_def)
qed

lemma b64_decode_chars:
  "list_all (\<lambda>i. i < 64) is \<Longrightarrow>
     List.map_filter b64_val (takeWhile (\<lambda>c. c \<noteq> CHR ''='')
       (map (b64_char url) is @ replicate k CHR ''='')) = is"
proof (induction "is")
  case Nil
  then show ?case by (cases k) (simp_all add: map_filter_simps)
next
  case (Cons i "is")
  then show ?case by (simp add: b64_val_char map_filter_simps)
qed

lemma b64_roundtrip [simp]: "b64_decode (b64_encode bs) = bs"
  unfolding b64_decode_def b64_encode_def
  by (subst b64_decode_chars) (auto simp: list_all_iff b64_sextets_less)

lemma b64url_roundtrip [simp]: "b64_decode (b64url_encode bs) = bs"
  unfolding b64_decode_def b64url_encode_def
  using b64_decode_chars [of "b64_sextets bs" True 0] by (simp add: list_all_iff b64_sextets_less)


section \<open>Keys\<close>

definition key_bytes :: nat where
  "key_bytes = 32"

definition is_std_b64 :: "char \<Rightarrow> bool" where
  "is_std_b64 c \<longleftrightarrow>
     (let n = code_of c in (65 \<le> n \<and> n \<le> 90) \<or> (97 \<le> n \<and> n \<le> 122) \<or> (48 \<le> n \<and> n \<le> 57)) \<or>
     c = CHR ''+'' \<or> c = CHR ''/''"

text \<open>A run of allowed characters, not empty, then at most two \<open>=\<close>.\<close>

definition padded_run :: "(char \<Rightarrow> bool) \<Rightarrow> string \<Rightarrow> bool" where
  "padded_run ok s \<longleftrightarrow>
     takeWhile ok s \<noteq> [] \<and> length (dropWhile ok s) \<le> 2 \<and>
     list_all (\<lambda>c. c = CHR ''='') (dropWhile ok s)"

definition decode_key_material :: "string \<Rightarrow> crypto_error + byte list" where
  "decode_key_material s =
     (if s = [] \<or> \<not> padded_run is_std_b64 s then Inl Invalid_Key_Material
      else let k = b64_decode s in
        if length k \<noteq> key_bytes \<or> b64_encode k \<noteq> s then Inl Invalid_Key_Material else Inr k)"

text \<open>\<open>/^v?(\d+)$/i\<close> on the trimmed label.\<close>

definition parse_key_version_label :: "string \<Rightarrow> crypto_error + int" where
  "parse_key_version_label label =
     (let t = js_trim label;
          ds = (case t of c # r \<Rightarrow> if c = CHR ''v'' \<or> c = CHR ''V'' then r else t | [] \<Rightarrow> t)
      in if \<not> all_digits ds then Inl Invalid_Key_Version
         else let v = int (digits_val ds) in
           if max_safe_integer < v \<or> v < 1 then Inl Invalid_Key_Version else Inr v)"

record key_loader =
  kl_version :: int
  kl_key :: "byte list"

definition create_static_key_loader :: "string \<Rightarrow> string \<Rightarrow> crypto_error + key_loader" where
  "create_static_key_loader encoded label =
     (case decode_key_material encoded of
        Inl e \<Rightarrow> Inl e
      | Inr k \<Rightarrow>
          (case parse_key_version_label label of
             Inl e \<Rightarrow> Inl e
           | Inr v \<Rightarrow> Inr \<lparr>kl_version = v, kl_key = k\<rparr>))"

definition create_env_key_loader :: "(string \<Rightarrow> string option) \<Rightarrow> crypto_error + key_loader" where
  "create_env_key_loader env =
     (case env ''TOKEN_ENCRYPTION_KEY'' of
        None \<Rightarrow> Inl Invalid_Key_Material
      | Some k \<Rightarrow>
          if k = [] then Inl Invalid_Key_Material
          else case env ''TOKEN_ENCRYPTION_KEY_VERSION'' of
            None \<Rightarrow> Inl Invalid_Key_Version
          | Some l \<Rightarrow> if l = [] then Inl Invalid_Key_Version else create_static_key_loader k l)"

definition key_for_version :: "key_loader \<Rightarrow> int \<Rightarrow> crypto_error + byte list" where
  "key_for_version kl v = (if v \<noteq> kl_version kl then Inl Key_Version_Mismatch else Inr (kl_key kl))"

definition loader_ok :: "key_loader \<Rightarrow> bool" where
  "loader_ok kl \<longleftrightarrow> 1 \<le> kl_version kl \<and> kl_version kl \<le> max_safe_integer \<and>
     length (kl_key kl) = key_bytes"

lemma b64_encode_canonical:
  assumes "length k = key_bytes"
  shows "padded_run is_std_b64 (b64_encode k)" and "b64_encode k \<noteq> []"
proof -
  have ok: "is_std_b64 (b64_char False i)" if "i < 64" for i
  proof -
    from that consider "i < 26" | "26 \<le> i" "i < 52" | "52 \<le> i" "i < 62" | "i = 62" | "i = 63"
      by linarith
    then show ?thesis
    proof cases
      case 1
      then have "code_of (b64_char False i) = 65 + i" by (simp add: b64_char_def)
      with 1 show ?thesis by (simp add: is_std_b64_def)
    next
      case 2
      then have "code_of (b64_char False i) = 71 + i" by (simp add: b64_char_def)
      with 2 show ?thesis by (simp add: is_std_b64_def)
    next
      case 3
      then have "code_of (b64_char False i) = i - 4" by (simp add: b64_char_def)
      moreover have "48 \<le> i - 4" "i - 4 \<le> 57" using 3 by linarith+
      ultimately show ?thesis by (simp add: is_std_b64_def Let_def)
    qed (simp_all add: b64_char_def is_std_b64_def)
  qed
  have all: "list_all is_std_b64 (map (b64_char False) (b64_sextets k))"
    by (auto simp: list_all_iff ok b64_sextets_less)
  have no: "\<not> is_std_b64 CHR ''=''" by (simp add: is_std_b64_def)
  have ne: "b64_sextets k \<noteq> []"
    using assms by (cases k rule: b64_sextets.cases) (auto simp: key_bytes_def)
  have split: "takeWhile is_std_b64 (xs @ replicate n CHR ''='') = xs \<and>
      dropWhile is_std_b64 (xs @ replicate n CHR ''='') = replicate n CHR ''=''"
    if "list_all is_std_b64 xs" for xs n
    using that by (induction xs) (cases n; simp add: no)+
  have "replicate ((3 - length k mod 3) mod 3) CHR ''='' = ''=''"
    using assms by (simp add: key_bytes_def)
  with all ne split [OF all, of 1] show "padded_run is_std_b64 (b64_encode k)" "b64_encode k \<noteq> []"
    by (simp_all add: padded_run_def b64_encode_def)
qed

lemma decode_key_iff:
  "decode_key_material s = Inr k \<longleftrightarrow> length k = key_bytes \<and> s = b64_encode k"
  using b64_encode_canonical [of k] by (auto simp: decode_key_material_def Let_def)

section \<open>Additional authenticated data\<close>

record binding =
  bd_connection :: string
  bd_credential :: string

definition assert_binding_id :: "string \<Rightarrow> crypto_error + string" where
  "assert_binding_id v =
     (if js_trim v = [] \<or> str_includes ''|'' v then Inl Invalid_Aad_Context else Inr v)"

definition assert_version :: "int \<Rightarrow> crypto_error + int" where
  "assert_version v = (if max_safe_integer < v \<or> v < 1 then Inl Invalid_Aad_Context else Inr v)"

definition canonical_aad :: "int \<Rightarrow> int \<Rightarrow> string \<Rightarrow> string \<Rightarrow> string" where
  "canonical_aad ev kv c d = join_with ''|''
     [''reviewpulse:gitlab-pat'', ''v'' @ show_int ev, ''kv'' @ show_int kv,
      ''connection:'' @ c, ''credential:'' @ d]"

definition build_pat_aad :: "int \<Rightarrow> int \<Rightarrow> binding \<Rightarrow> crypto_error + byte list" where
  "build_pat_aad ev kv b =
     (case assert_version ev of
        Inl e \<Rightarrow> Inl e
      | Inr ev' \<Rightarrow>
     (case assert_version kv of
        Inl e \<Rightarrow> Inl e
      | Inr kv' \<Rightarrow>
     (case assert_binding_id (bd_connection b) of
        Inl e \<Rightarrow> Inl e
      | Inr c \<Rightarrow>
     (case assert_binding_id (bd_credential b) of
        Inl e \<Rightarrow> Inl e
      | Inr d \<Rightarrow> Inr (utf8_encode (canonical_aad ev' kv' c d))))))"

lemma build_pat_aad_Inr:
  "build_pat_aad ev kv b = Inr a \<longleftrightarrow>
     1 \<le> ev \<and> ev \<le> max_safe_integer \<and> 1 \<le> kv \<and> kv \<le> max_safe_integer \<and>
     js_trim (bd_connection b) \<noteq> [] \<and> \<not> str_includes ''|'' (bd_connection b) \<and>
     js_trim (bd_credential b) \<noteq> [] \<and> \<not> str_includes ''|'' (bd_credential b) \<and>
     a = utf8_encode (canonical_aad ev kv (bd_connection b) (bd_credential b))"
  by (auto simp: build_pat_aad_def assert_version_def assert_binding_id_def split: if_splits)

lemma show_int_pos_no_bar: "1 \<le> i \<Longrightarrow> CHR ''|'' \<notin> set (show_int i)"
proof
  assume "1 \<le> i" "CHR ''|'' \<in> set (show_int i)"
  with show_nat_digits [of "nat i"] have "is_digit CHR ''|''"
    by (simp add: show_int_def list_all_iff)
  then show False by (simp add: is_digit_def)
qed

lemma show_int_pos_inj: "1 \<le> i \<Longrightarrow> 1 \<le> j \<Longrightarrow> show_int i = show_int j \<Longrightarrow> i = j"
  by (simp add: show_int_def show_nat_inj)

lemma includes_bar: "str_includes [c] s \<longleftrightarrow> c \<in> set s"
  by (auto simp: str_includes_sublist sublist_def in_set_conv_decomp)

lemma build_pat_aad_inj:
  assumes "build_pat_aad ev kv b = Inr a" and "build_pat_aad ev' kv' b' = Inr a"
  shows "ev = ev' \<and> kv = kv' \<and> b = b'"
proof -
  have eq: "canonical_aad ev kv (bd_connection b) (bd_credential b) =
      canonical_aad ev' kv' (bd_connection b') (bd_credential b')"
    using assms by (auto simp: build_pat_aad_Inr utf8_encode_inj)
  have split: "split_on CHR ''|'' (canonical_aad e k c d) =
      [''reviewpulse:gitlab-pat'', ''v'' @ show_int e, ''kv'' @ show_int k,
       ''connection:'' @ c, ''credential:'' @ d]"
    if "1 \<le> e" "1 \<le> k" "CHR ''|'' \<notin> set c" "CHR ''|'' \<notin> set d" for e k c d
    unfolding canonical_aad_def
    using that show_int_pos_no_bar [of e] show_int_pos_no_bar [of k] by (intro split_join) auto
  from arg_cong [OF eq, of "split_on CHR ''|''"] assms
  have "''v'' @ show_int ev = ''v'' @ show_int ev'" "''kv'' @ show_int kv = ''kv'' @ show_int kv'"
    "bd_connection b = bd_connection b'" "bd_credential b = bd_credential b'"
    by (simp_all add: build_pat_aad_Inr includes_bar split)
  then show ?thesis
    using assms show_int_pos_inj by (auto simp: build_pat_aad_Inr)
qed


section \<open>The envelope\<close>

definition envelope_version_v1 :: int where
  "envelope_version_v1 = 1"

definition envelope_algorithm :: string where
  "envelope_algorithm = ''AES-256-GCM''"

definition nonce_bytes :: nat where
  "nonce_bytes = 12"

definition auth_tag_bytes :: nat where
  "auth_tag_bytes = 16"

record sealed_secret =
  ss_version :: int
  ss_algorithm :: string
  ss_key_version :: int
  ss_nonce :: "byte list"
  ss_ciphertext :: "byte list"
  ss_auth_tag :: "byte list"

text \<open>AES-256-GCM: key, nonce, additional data and plaintext to ciphertext and tag; and back,
  where \<open>None\<close> is the exception of \<open>final()\<close>.\<close>

record aead =
  gcm_encrypt :: "byte list \<Rightarrow> byte list \<Rightarrow> byte list \<Rightarrow> byte list \<Rightarrow> byte list \<times> byte list"
  gcm_decrypt :: "byte list \<Rightarrow> byte list \<Rightarrow> byte list \<Rightarrow> byte list \<Rightarrow> byte list \<Rightarrow> byte list option"

definition aead_ok :: "aead \<Rightarrow> bool" where
  "aead_ok g \<longleftrightarrow>
     (\<forall>k n a p c t. gcm_encrypt g k n a p = (c, t) \<longrightarrow>
        gcm_decrypt g k n a c t = Some p \<and> length c = length p \<and> length t = auth_tag_bytes) \<and>
     (\<forall>k n a c t p. gcm_decrypt g k n a c t = Some p \<longrightarrow> gcm_encrypt g k n a p = (c, t))"

definition assert_envelope_shape ::
    "byte list \<Rightarrow> byte list \<Rightarrow> byte list \<Rightarrow> crypto_error + unit" where
  "assert_envelope_shape nonce ct tag =
     (if length nonce \<noteq> nonce_bytes \<or> length tag \<noteq> auth_tag_bytes \<or> ct = []
      then Inl Malformed_Envelope else Inr ())"

definition seal ::
    "aead \<Rightarrow> key_loader \<Rightarrow> byte list \<Rightarrow> string \<Rightarrow> binding \<Rightarrow> crypto_error + sealed_secret" where
  "seal g kl nonce plaintext b =
     (if js_trim plaintext = [] then Inl Empty_Plaintext
      else case build_pat_aad envelope_version_v1 (kl_version kl) b of
        Inl e \<Rightarrow> Inl e
      | Inr aad \<Rightarrow>
          (let (ct, tag) = gcm_encrypt g (kl_key kl) nonce aad (utf8_encode plaintext) in
           Inr \<lparr>ss_version = envelope_version_v1, ss_algorithm = envelope_algorithm,
             ss_key_version = kl_version kl, ss_nonce = nonce, ss_ciphertext = ct,
             ss_auth_tag = tag\<rparr>))"

definition open_sealed ::
    "aead \<Rightarrow> key_loader \<Rightarrow> sealed_secret \<Rightarrow> binding \<Rightarrow> crypto_error + string" where
  "open_sealed g kl s b =
     (if ss_version s \<noteq> envelope_version_v1 then Inl Unsupported_Envelope_Version
      else if ss_algorithm s \<noteq> envelope_algorithm then Inl Malformed_Envelope
      else case assert_envelope_shape (ss_nonce s) (ss_ciphertext s) (ss_auth_tag s) of
        Inl e \<Rightarrow> Inl e
      | Inr _ \<Rightarrow>
     (case key_for_version kl (ss_key_version s) of
        Inl e \<Rightarrow> Inl e
      | Inr key \<Rightarrow>
     (case build_pat_aad (ss_version s) (kl_version kl) b of
        Inl e \<Rightarrow> Inl e
      | Inr aad \<Rightarrow>
     (case gcm_decrypt g key (ss_nonce s) aad (ss_ciphertext s) (ss_auth_tag s) of
        None \<Rightarrow> Inl Decryption_Failed
      | Some p \<Rightarrow> Inr (utf8_decode p)))))"

text \<open>The serialised form.\<close>

definition is_url_b64 :: "char \<Rightarrow> bool" where
  "is_url_b64 c \<longleftrightarrow>
     (let n = code_of c in (65 \<le> n \<and> n \<le> 90) \<or> (97 \<le> n \<and> n \<le> 122) \<or> (48 \<le> n \<and> n \<le> 57)) \<or>
     c = CHR ''_'' \<or> c = CHR ''-''"

definition from_base64_url :: "json option \<Rightarrow> crypto_error + byte list" where
  "from_base64_url v =
     (case v of
        Some (JStr s) \<Rightarrow>
          if s = [] \<or> \<not> padded_run is_url_b64 s then Inl Malformed_Envelope else Inr (b64_decode s)
      | _ \<Rightarrow> Inl Malformed_Envelope)"

definition serialize_envelope :: "sealed_secret \<Rightarrow> crypto_error + json" where
  "serialize_envelope s =
     (if ss_version s \<noteq> envelope_version_v1 then Inl Unsupported_Envelope_Version
      else Inr (JObj [(''envelope_version'', JNum (of_int envelope_version_v1)),
        (''algorithm'', JStr envelope_algorithm),
        (''key_version'', JNum (of_int (ss_key_version s))),
        (''nonce'', JStr (b64url_encode (ss_nonce s))),
        (''ciphertext'', JStr (b64url_encode (ss_ciphertext s))),
        (''auth_tag'', JStr (b64url_encode (ss_auth_tag s)))]))"

definition parse_envelope :: "json \<Rightarrow> crypto_error + sealed_secret" where
  "parse_envelope input =
     (case input of
        JObj raw \<Rightarrow>
          (let field = map_of raw in
           if field ''envelope_version'' \<noteq> Some (JNum (of_int envelope_version_v1)) then
             (case field ''envelope_version'' of
                Some (JNum r) \<Rightarrow>
                  if safe_integer r then Inl Unsupported_Envelope_Version else Inl Malformed_Envelope
              | _ \<Rightarrow> Inl Malformed_Envelope)
           else if field ''algorithm'' \<noteq> Some (JStr envelope_algorithm) then Inl Malformed_Envelope
           else case field ''key_version'' of
             Some (JNum kv) \<Rightarrow>
               (if \<not> safe_integer kv \<or> kv < 1 then Inl Malformed_Envelope
                else case from_base64_url (field ''nonce'') of
                  Inl e \<Rightarrow> Inl e
                | Inr nonce \<Rightarrow>
               (case from_base64_url (field ''ciphertext'') of
                  Inl e \<Rightarrow> Inl e
                | Inr ct \<Rightarrow>
               (case from_base64_url (field ''auth_tag'') of
                  Inl e \<Rightarrow> Inl e
                | Inr tag \<Rightarrow>
               (case assert_envelope_shape nonce ct tag of
                  Inl e \<Rightarrow> Inl e
                | Inr _ \<Rightarrow>
                    Inr \<lparr>ss_version = envelope_version_v1, ss_algorithm = envelope_algorithm,
                      ss_key_version = \<lfloor>kv\<rfloor>, ss_nonce = nonce, ss_ciphertext = ct,
                      ss_auth_tag = tag\<rparr>))))
           | _ \<Rightarrow> Inl Malformed_Envelope)
      | _ \<Rightarrow> Inl Malformed_Envelope)"

definition sealed_ok :: "sealed_secret \<Rightarrow> bool" where
  "sealed_ok s \<longleftrightarrow>
     ss_version s = 1 \<and> ss_algorithm s = envelope_algorithm \<and>
     1 \<le> ss_key_version s \<and> ss_key_version s \<le> max_safe_integer \<and>
     length (ss_nonce s) = nonce_bytes \<and> length (ss_auth_tag s) = auth_tag_bytes \<and>
     ss_ciphertext s \<noteq> []"

section \<open>Envelope lemmas\<close>

lemma aead_encrypt:
  assumes "aead_ok g" "gcm_encrypt g k n a p = (c, t)"
  shows "gcm_decrypt g k n a c t = Some p" "length c = length p" "length t = auth_tag_bytes"
  using assms unfolding aead_ok_def by blast+

lemma aead_decrypt:
  "aead_ok g \<Longrightarrow> gcm_decrypt g k n a c t = Some p \<Longrightarrow> gcm_encrypt g k n a p = (c, t)"
  unfolding aead_ok_def by blast

lemma seal_Inr:
  assumes "seal g kl nonce p b = Inr s"
  obtains aad ct tag where "build_pat_aad 1 (kl_version kl) b = Inr aad" "js_trim p \<noteq> []"
    "gcm_encrypt g (kl_key kl) nonce aad (utf8_encode p) = (ct, tag)"
    "s = \<lparr>ss_version = 1, ss_algorithm = envelope_algorithm, ss_key_version = kl_version kl,
       ss_nonce = nonce, ss_ciphertext = ct, ss_auth_tag = tag\<rparr>"
  using assms
  by (auto simp: seal_def envelope_version_v1_def split: if_splits sum.splits prod.splits)

lemma open_sealed_Inr:
  assumes "open_sealed g kl s b = Inr p"
  obtains aad q where "ss_version s = 1" "ss_key_version s = kl_version kl"
    "build_pat_aad 1 (kl_version kl) b = Inr aad"
    "gcm_decrypt g (kl_key kl) (ss_nonce s) aad (ss_ciphertext s) (ss_auth_tag s) = Some q"
    "p = utf8_decode q"
  using assms
  by (auto simp: open_sealed_def key_for_version_def envelope_version_v1_def
      split: if_splits sum.splits option.splits)

lemma seal_sealed_ok:
  assumes "aead_ok g" "length nonce = nonce_bytes" "seal g kl nonce p b = Inr s"
  shows "sealed_ok s"
proof (rule seal_Inr [OF assms(3)])
  fix aad ct tag
  assume e: "build_pat_aad 1 (kl_version kl) b = Inr aad" "js_trim p \<noteq> []"
    "gcm_encrypt g (kl_key kl) nonce aad (utf8_encode p) = (ct, tag)"
    "s = \<lparr>ss_version = 1, ss_algorithm = envelope_algorithm, ss_key_version = kl_version kl,
       ss_nonce = nonce, ss_ciphertext = ct, ss_auth_tag = tag\<rparr>"
  have "length ct = length (utf8_encode p) \<and> length tag = auth_tag_bytes"
    using aead_encrypt [OF assms(1) e(3)] by simp
  moreover have "utf8_encode p \<noteq> []" using e(2) by auto
  ultimately have "ct \<noteq> []" "length tag = auth_tag_bytes"
    by (metis length_0_conv)+
  moreover have "1 \<le> kl_version kl" "kl_version kl \<le> max_safe_integer"
    using e(1) by (simp_all add: build_pat_aad_Inr)
  ultimately show ?thesis
    using assms(2) by (simp add: sealed_ok_def e(4))
qed

lemma open_seal:
  assumes "aead_ok g" "length nonce = nonce_bytes" "seal g kl nonce p b = Inr s"
  shows "open_sealed g kl s b = Inr p"
proof -
  have ok: "sealed_ok s" by (rule seal_sealed_ok [OF assms])
  show ?thesis
  proof (rule seal_Inr [OF assms(3)])
    fix aad ct tag
    assume e: "build_pat_aad 1 (kl_version kl) b = Inr aad"
      "gcm_encrypt g (kl_key kl) nonce aad (utf8_encode p) = (ct, tag)"
      "s = \<lparr>ss_version = 1, ss_algorithm = envelope_algorithm, ss_key_version = kl_version kl,
         ss_nonce = nonce, ss_ciphertext = ct, ss_auth_tag = tag\<rparr>"
    have "gcm_decrypt g (kl_key kl) nonce aad ct tag = Some (utf8_encode p)"
      by (rule aead_encrypt [OF assms(1) e(2)])
    with e ok show ?thesis
      by (simp add: open_sealed_def envelope_version_v1_def key_for_version_def
          assert_envelope_shape_def sealed_ok_def)
  qed
qed

lemma url_b64_char: "i < 64 \<Longrightarrow> is_url_b64 (b64_char True i)"
proof -
  assume "i < 64"
  then consider "i < 26" | "26 \<le> i" "i < 52" | "52 \<le> i" "i < 62" | "i = 62" | "i = 63" by linarith
  then show ?thesis
  proof cases
    case 1
    then have "code_of (b64_char True i) = 65 + i" by (simp add: b64_char_def)
    with 1 show ?thesis by (simp add: is_url_b64_def)
  next
    case 2
    then have "code_of (b64_char True i) = 71 + i" by (simp add: b64_char_def)
    with 2 show ?thesis by (simp add: is_url_b64_def)
  next
    case 3
    then have "code_of (b64_char True i) = i - 4" by (simp add: b64_char_def)
    moreover have "48 \<le> i - 4" "i - 4 \<le> 57" using 3 by linarith+
    ultimately show ?thesis by (simp add: is_url_b64_def Let_def)
  qed (simp_all add: b64_char_def is_url_b64_def)
qed

lemma b64_sextets_Nil [simp]: "b64_sextets bs = [] \<longleftrightarrow> bs = []"
  by (cases bs rule: b64_sextets.cases) auto

lemma takeWhile_all: "list_all P xs \<Longrightarrow> takeWhile P xs = xs \<and> dropWhile P xs = []"
  by (induction xs) auto

lemma from_base64_url_encode:
  "bs \<noteq> [] \<Longrightarrow> from_base64_url (Some (JStr (b64url_encode bs))) = Inr bs"
proof -
  assume ne: "bs \<noteq> []"
  have all: "list_all is_url_b64 (b64url_encode bs)"
    by (auto simp: b64url_encode_def list_all_iff url_b64_char b64_sextets_less)
  have "b64url_encode bs \<noteq> []" using ne by (simp add: b64url_encode_def)
  then have "padded_run is_url_b64 (b64url_encode bs)"
    unfolding padded_run_def conjunct1 [OF takeWhile_all [OF all]]
      conjunct2 [OF takeWhile_all [OF all]] by simp
  with \<open>b64url_encode bs \<noteq> []\<close> show ?thesis by (simp add: from_base64_url_def)
qed

lemma parse_serialize:
  assumes "sealed_ok s"
  shows "\<exists>j. serialize_envelope s = Inr j \<and> parse_envelope j = Inr s"
proof -
  have ne: "ss_nonce s \<noteq> []" "ss_auth_tag s \<noteq> []" "ss_ciphertext s \<noteq> []"
    using assms by (auto simp: sealed_ok_def nonce_bytes_def auth_tag_bytes_def)
  have "safe_integer (of_int (ss_key_version s))" "\<not> of_int (ss_key_version s) < (1 :: rat)"
    using assms by (simp_all add: sealed_ok_def safe_integer_def)
  then show ?thesis
    using assms
    by (simp add: serialize_envelope_def parse_envelope_def sealed_ok_def envelope_version_v1_def
        from_base64_url_encode ne assert_envelope_shape_def)
qed


section \<open>Properties\<close>

text \<open>A concrete cipher of the required kind, for the examples: the identity with a tag made of the
  last bytes of the additional data.\<close>

definition sample_tag :: "byte list \<Rightarrow> byte list" where
  "sample_tag a = take 16 (rev a @ replicate 16 0)"

definition sample_gcm :: aead where
  "sample_gcm =
     \<lparr>gcm_encrypt = (\<lambda>k n a p. (p, sample_tag a)),
      gcm_decrypt = (\<lambda>k n a c t. if t = sample_tag a then Some c else None)\<rparr>"

definition sample_loader :: key_loader where
  "sample_loader = \<lparr>kl_version = 1, kl_key = replicate 32 0\<rparr>"

definition sample_binding :: binding where
  "sample_binding = \<lparr>bd_connection = ''cn1'', bd_credential = ''cr1''\<rparr>"

lemma sample_gcm_ok: "aead_ok sample_gcm"
  by (auto simp: aead_ok_def sample_gcm_def sample_tag_def auth_tag_bytes_def split: if_splits)

lemma js_trim_plain: "list_all (\<lambda>c. \<not> is_js_space c) s \<Longrightarrow> js_trim s = s"
  by (rule js_trim_no_space) (simp add: comp_def)

lemma sample_seal:
  assumes "list_all (\<lambda>c. \<not> is_js_space c) s" "s \<noteq> []"
  shows "\<exists>sealed. seal sample_gcm sample_loader (replicate 12 0) s sample_binding = Inr sealed"
proof -
  have "js_trim s \<noteq> []" using assms js_trim_plain by metis
  moreover have "js_trim ''cn1'' = ''cn1''" "js_trim ''cr1'' = ''cr1''"
    by (rule js_trim_plain, simp add: is_js_space_def)+
  ultimately show ?thesis
    by (simp add: seal_def build_pat_aad_def assert_version_def assert_binding_id_def
        envelope_version_v1_def sample_loader_def sample_binding_def max_safe_integer_def
        starts_with_def split: prod.split)
qed

text \<open>The key loader accepts exactly the canonical base64 text of 32 bytes and returns those
  bytes: no white space, no missing padding, no second spelling of the same key.\<close>

theorem key_material_exact:
  "decode_key_material s = Inr k \<longleftrightarrow> length k = 32 \<and> s = b64_encode k"
  by (simp add: decode_key_iff key_bytes_def)

text \<open>C16. A sealed secret opens to the secret under the row it was sealed for, also after it has been
  serialised and parsed.\<close>

theorem seal_open_roundtrip:
  assumes "aead_ok g" and "length nonce = nonce_bytes" and "seal g kl nonce p b = Inr s"
  shows "open_sealed g kl s b = Inr p \<and>
    (\<exists>j. serialize_envelope s = Inr j \<and> parse_envelope j = Inr s)"
  using open_seal [OF assms] parse_serialize [OF seal_sealed_ok [OF assms]] by blast

theorem seal_open_roundtrip_witness:
  "\<exists>s. seal sample_gcm sample_loader (replicate 12 0) ''glpat-1'' sample_binding = Inr s \<and>
    open_sealed sample_gcm sample_loader s sample_binding = Inr ''glpat-1''"
proof -
  obtain s where s: "seal sample_gcm sample_loader (replicate 12 0) ''glpat-1'' sample_binding = Inr s"
    using sample_seal [of "''glpat-1''"] by (auto simp: is_js_space_def)
  have "length (replicate 12 0 :: byte list) = nonce_bytes" by (simp add: nonce_bytes_def)
  from seal_open_roundtrip [OF sample_gcm_ok this s] s show ?thesis by blast
qed



end
