(* ===== verification/Url.thy ===== *)
theory Url
  imports GitLabTypes Crypto
begin

text \<open>
  Origins and request URLs of \<open>packages/gitlab-client/src/url.ts\<close>. The WHATWG URL parser and its
  \<open>pathname\<close> setter are Node's: a parameter \<open>url_api\<close> of the definitions, giving the components of
  a parsed URL as the code reads them.
\<close>

record url =
  url_protocol :: string
  url_username :: string
  url_password :: string
  url_hostname :: string
  url_port :: string
  url_pathname :: string
  url_search :: string
  url_hash :: string

record url_api =
  ua_parse :: "string \<Rightarrow> url option"
  ua_set_pathname :: "string \<Rightarrow> url \<Rightarrow> url"

section \<open>Origins\<close>

definition default_port :: "string \<Rightarrow> string option" where
  "default_port proto =
     (if proto = ''https:'' then Some ''443'' else if proto = ''http:'' then Some ''80'' else None)"

definition origin_of :: "url \<Rightarrow> string" where
  "origin_of u =
     url_protocol u @ ''//'' @ js_lower (url_hostname u) @
       (if url_port u = [] \<or> Some (url_port u) = default_port (url_protocol u) then []
        else '':'' @ url_port u)"

definition scheme_char :: "char \<Rightarrow> bool" where
  "scheme_char c \<longleftrightarrow>
     (let n = code_of c in (65 \<le> n \<and> n \<le> 90) \<or> (97 \<le> n \<and> n \<le> 122)) \<or> is_digit c \<or>
     c = CHR ''+'' \<or> c = CHR ''.'' \<or> c = CHR ''-''"

text \<open>\<open>/^[a-zA-Z][a-zA-Z0-9+.-]*:\/\//\<close>.\<close>

definition has_scheme :: "string \<Rightarrow> bool" where
  "has_scheme s \<longleftrightarrow>
     (let p = takeWhile scheme_char s in
      p \<noteq> [] \<and> \<not> is_digit (hd p) \<and> hd p \<notin> {CHR ''+'', CHR ''.'', CHR ''-''} \<and>
      starts_with ''://'' (dropWhile scheme_char s))"

definition normalize_gitlab_base_url :: "url_api \<Rightarrow> bool \<Rightarrow> string \<Rightarrow> gitlab_error + string" where
  "normalize_gitlab_base_url api require_https input =
     (let trimmed = js_trim input in
      if trimmed = [] then Inl Gl_Invalid_Config
      else if \<not> has_scheme trimmed then Inl Gl_Invalid_Config
      else case ua_parse api trimmed of
        None \<Rightarrow> Inl Gl_Invalid_Config
      | Some u \<Rightarrow>
          if url_protocol u \<noteq> ''https:'' \<and> url_protocol u \<noteq> ''http:'' then Inl Gl_Invalid_Config
          else if require_https \<and> url_protocol u \<noteq> ''https:'' then Inl Gl_Invalid_Config
          else if url_username u \<noteq> [] \<or> url_password u \<noteq> [] then Inl Gl_Invalid_Config
          else if url_hostname u = [] then Inl Gl_Invalid_Config
          else if url_search u \<noteq> [] \<or> url_hash u \<noteq> [] then Inl Gl_Invalid_Config
          else if url_pathname u \<noteq> ''/'' \<and> url_pathname u \<noteq> [] then Inl Gl_Invalid_Config
          else Inr (origin_of u))"

section \<open>The allowlist\<close>

text \<open>Entries in the order of the \<open>Map\<close>: origin and its \<open>internal\<close> flag.\<close>

type_synonym allowlist = "(string \<times> bool) list"

definition find_entry :: "allowlist \<Rightarrow> string \<Rightarrow> bool option" where
  "find_entry al origin = map_of al origin"

fun add_entries :: "url_api \<Rightarrow> bool \<Rightarrow> (string \<times> bool) list \<Rightarrow> allowlist \<Rightarrow> gitlab_error + allowlist" where
  "add_entries api require_https [] al = Inr al"
| "add_entries api require_https ((u, internal) # es) al =
     bind_err (normalize_gitlab_base_url api require_https u) (\<lambda>origin.
       add_entries api require_https es
         (AList.update origin (internal \<or> find_entry al origin = Some True) al))"

definition create_gitlab_allowlist :: "url_api \<Rightarrow> bool \<Rightarrow> (string \<times> bool) list \<Rightarrow> gitlab_error + allowlist" where
  "create_gitlab_allowlist api require_https entries = add_entries api require_https entries []"

text \<open>\<open>raw.split(/[,\s]+/)\<close> without the empty pieces.\<close>

fun tokens_of :: "string \<Rightarrow> string list" where
  "tokens_of [] = [[]]"
| "tokens_of (c # s) =
     (if is_js_space c \<or> c = CHR '','' then [] # tokens_of s
      else (case tokens_of s of [] \<Rightarrow> [[c]] | p # ps \<Rightarrow> (c # p) # ps))"

definition parse_allowlist_env :: "url_api \<Rightarrow> bool \<Rightarrow> string option \<Rightarrow> gitlab_error + allowlist" where
  "parse_allowlist_env api require_https raw =
     (let tokens = filter (\<lambda>t. t \<noteq> []) (map js_trim (tokens_of (case raw of None \<Rightarrow> [] | Some r \<Rightarrow> r)))
      in create_gitlab_allowlist api require_https
           (map (\<lambda>t. if starts_with ''internal:'' (js_lower t) then (drop 9 t, True) else (t, False)) tokens))"

section \<open>Request URLs\<close>

text \<open>A query parameter whose value is \<open>undefined\<close> is left out; the others are set on the URL.\<close>

definition build_api_url ::
    "url_api \<Rightarrow> string \<Rightarrow> string \<Rightarrow> (string \<times> string option) list
       \<Rightarrow> gitlab_error + url \<times> (string \<times> string) list" where
  "build_api_url api origin path query =
     (if \<not> starts_with ''/api/v4/'' path \<and> path \<noteq> ''/api/v4'' then Inl Gl_Invalid_Config
      else if CHR 0x5C \<in> set path \<or> str_includes ''//'' path \<or> CHR ''@'' \<in> set path
      then Inl Gl_Invalid_Config
      else case ua_parse api origin of
        None \<Rightarrow> Inl Gl_Invalid_Config
      | Some base \<Rightarrow>
          let u = ua_set_pathname api path base in
          if origin_of u \<noteq> origin_of base then Inl Gl_Invalid_Config
          else Inr (u, List.map_filter (\<lambda>(k, v). map_option (Pair k) v) query))"

definition unreserved :: "char \<Rightarrow> bool" where
  "unreserved c \<longleftrightarrow>
     (let n = code_of c in (65 \<le> n \<and> n \<le> 90) \<or> (97 \<le> n \<and> n \<le> 122)) \<or> is_digit c \<or>
     c \<in> {CHR ''-'', CHR ''_'', CHR ''.'', CHR ''!'', CHR ''~'', CHR ''*'', CHR 0x27, CHR ''('', CHR '')''}"

definition hex_upper :: "nat \<Rightarrow> char" where
  "hex_upper n = char_of (if n < 10 then n + 48 else n + 55)"

definition percent :: "byte \<Rightarrow> string" where
  "percent b = [CHR ''%'', hex_upper (unat b div 16), hex_upper (unat b mod 16)]"

definition encode_uri_component :: "string \<Rightarrow> string" where
  "encode_uri_component s =
     concat (map (\<lambda>c. if unreserved c then [c] else concat (map percent (utf8_char c))) s)"

definition encode_project_id :: "string \<Rightarrow> gitlab_error + string" where
  "encode_project_id p =
     (let t = js_trim p in if t = [] then Inl Gl_Invalid_Config else Inr (encode_uri_component t))"

section \<open>Lemmas\<close>

text \<open>What the allowlist holds: every entry is the canonical origin of a configured URL.\<close>

lemma add_entries_find:
  assumes "add_entries api rh es al = Inr al'" and "find_entry al' origin = Some internal"
  shows "(find_entry al origin \<noteq> None \<or> (\<exists>u i. (u, i) \<in> set es \<and> normalize_gitlab_base_url api rh u = Inr origin)) \<and>
    (internal \<longrightarrow> find_entry al origin = Some True \<or>
       (\<exists>u. (u, True) \<in> set es \<and> normalize_gitlab_base_url api rh u = Inr origin))"
  using assms
proof (induction es arbitrary: al)
  case (Cons e es)
  obtain u i where e: "e = (u, i)" by (cases e)
  with Cons.prems(1) obtain o' where o': "normalize_gitlab_base_url api rh u = Inr o'"
    and rest: "add_entries api rh es (AList.update o' (i \<or> find_entry al o' = Some True) al) = Inr al'"
    by (auto split: sum.splits)
  from Cons.IH [OF rest Cons.prems(2)] show ?case
    by (cases "origin = o'") (auto simp: e o' find_entry_def update_conv')
qed (simp_all)

lemma normalize_Inr:
  assumes "normalize_gitlab_base_url api rh input = Inr origin"
  obtains u where "ua_parse api (js_trim input) = Some u" and "origin = origin_of u"
    and "url_protocol u = ''https:'' \<or> (\<not> rh \<and> url_protocol u = ''http:'')"
    and "url_username u = []" and "url_password u = []"
  using assms by (auto simp: normalize_gitlab_base_url_def Let_def split: if_splits option.splits)

lemma hex_upper_plain: "n < 16 \<Longrightarrow> unreserved (hex_upper n)"
  by (auto simp: hex_upper_def unreserved_def is_digit_def)

lemma set_encode_uri_component:
  "c \<in> set (encode_uri_component s) \<Longrightarrow> unreserved c \<or> c = CHR ''%''"
proof -
  have "x = CHR ''%'' \<or> unreserved x" if "x \<in> set (percent b)" for x b
  proof -
    have "unat b div 16 < 16" using byte_less [of b] by simp
    with that hex_upper_plain [of "unat b div 16"] hex_upper_plain [of "unat b mod 16"] show ?thesis
      by (auto simp: percent_def)
  qed
  then show "c \<in> set (encode_uri_component s) \<Longrightarrow> unreserved c \<or> c = CHR ''%''"
    by (auto simp: encode_uri_component_def split: if_splits)
qed

text \<open>An encoded project id is one path segment: no separator, no escape of the path checks.\<close>

lemma encoded_id_segment:
  assumes "encode_project_id p = Inr e"
  shows "CHR ''/'' \<notin> set e \<and> CHR 0x5C \<notin> set e \<and> CHR ''@'' \<notin> set e \<and> CHR ''?'' \<notin> set e \<and> CHR ''#'' \<notin> set e"
  using assms set_encode_uri_component [of _ "js_trim p"]
  by (auto simp: encode_project_id_def Let_def unreserved_def is_digit_def split: if_splits
      dest!: set_encode_uri_component)

end
