(* ===== verification/Ssrf.thy ===== *)
theory Ssrf
  imports IpAddress Url
begin

text \<open>
  The egress guard of \<open>packages/gitlab-client/src/ssrf.ts\<close>: a request may go only to an allowlisted
  origin whose every resolved address is of a permitted class, and the socket is pinned to the
  first of them. The DNS resolver is a parameter; \<open>None\<close> is its failure.
\<close>

record resolved_address =
  ra_address :: string
  ra_family :: nat

record ssrf_decision =
  sd_origin :: string
  sd_hostname :: string
  sd_port :: nat
  sd_protocol :: string
  sd_pinned :: string
  sd_pinned_family :: nat
  sd_validated :: "string list"

definition always_denied :: "ip_category set" where
  "always_denied =
     {Ip_Loopback, Ip_Link_Local, Ip_Metadata, Ip_Unspecified, Ip_Multicast, Ip_Reserved, Ip_Unknown}"

definition address_permitted :: "bool \<Rightarrow> string \<Rightarrow> bool" where
  "address_permitted internal a =
     (let k = ic_category (classify_ip_address a) in
      k \<notin> always_denied \<and> \<not> (k = Ip_Private \<and> \<not> internal))"

text \<open>A literal host stands for itself; a name is resolved.\<close>

definition candidate_addresses ::
    "(string \<Rightarrow> resolved_address list option) \<Rightarrow> string \<Rightarrow> resolved_address list option" where
  "candidate_addresses resolve hostname =
     (if is_ip_literal hostname
      then Some [\<lparr>ra_address = bracketless hostname,
        ra_family = (if ic_family (classify_ip_address hostname) = 6 then 6 else 4)\<rparr>]
      else resolve hostname)"

definition pinned_decision :: "url \<Rightarrow> resolved_address list \<Rightarrow> ssrf_decision" where
  "pinned_decision u candidates =
     (let pc = classify_ip_address (ra_address (hd candidates)) in
      \<lparr>sd_origin = origin_of u, sd_hostname = bracketless (js_lower (url_hostname u)),
       sd_port = (if url_port u = [] then if url_protocol u = ''https:'' then 443 else 80
         else digits_val (url_port u)),
       sd_protocol = url_protocol u, sd_pinned = ic_normalized pc,
       sd_pinned_family = (if ic_family pc = 6 then 6 else 4),
       sd_validated = map ra_address candidates\<rparr>)"

definition ssrf_check ::
    "allowlist \<Rightarrow> (string \<Rightarrow> resolved_address list option) \<Rightarrow> url \<Rightarrow> gitlab_error + ssrf_decision" where
  "ssrf_check al resolve u =
     (if url_protocol u \<noteq> ''https:'' \<and> url_protocol u \<noteq> ''http:'' then Inl Gl_Ssrf_Blocked
      else if url_username u \<noteq> [] \<or> url_password u \<noteq> [] then Inl Gl_Ssrf_Blocked
      else case find_entry al (origin_of u) of
        None \<Rightarrow> Inl Gl_Ssrf_Blocked
      | Some internal \<Rightarrow>
          (case candidate_addresses resolve (js_lower (url_hostname u)) of
             None \<Rightarrow> Inl Gl_Ssrf_Blocked
           | Some candidates \<Rightarrow>
               if candidates = [] then Inl Gl_Ssrf_Blocked
               else if \<not> list_all (\<lambda>r. address_permitted internal (ra_address r)) candidates
               then Inl Gl_Ssrf_Blocked
               else Inr (pinned_decision u candidates)))"

definition assert_same_origin :: "url \<Rightarrow> string \<Rightarrow> gitlab_error + unit" where
  "assert_same_origin u expected = (if origin_of u \<noteq> expected then Inl Gl_Ssrf_Blocked else Inr ())"

section \<open>Lemmas\<close>

lemma ssrf_check_Inr:
  assumes "ssrf_check al resolve u = Inr d"
  obtains internal candidates where "find_entry al (origin_of u) = Some internal"
    and "candidate_addresses resolve (js_lower (url_hostname u)) = Some candidates"
    and "candidates \<noteq> []" and "list_all (\<lambda>r. address_permitted internal (ra_address r)) candidates"
    and "d = pinned_decision u candidates"
  using assms by (auto simp: ssrf_check_def split: if_splits option.splits)

lemma permitted_family: "address_permitted internal a \<Longrightarrow> ic_family (classify_ip_address a) \<noteq> 0"
  by (auto simp: address_permitted_def always_denied_def classify_ip_address_def ip_unknown_def Let_def
      split: option.splits if_splits)

lemma pinned_permitted:
  assumes "ssrf_check al resolve u = Inr d"
  shows "\<exists>internal. find_entry al (origin_of u) = Some internal \<and> address_permitted internal (sd_pinned d) \<and>
    sd_validated d \<noteq> [] \<and> classify_ip_address (sd_pinned d) = classify_ip_address (hd (sd_validated d)) \<and>
    sd_origin d = origin_of u \<and> list_all (address_permitted internal) (sd_validated d)"
proof -
  obtain internal candidates where al: "find_entry al (origin_of u) = Some internal"
    and ne: "candidates \<noteq> []"
    and ok: "list_all (\<lambda>r. address_permitted internal (ra_address r)) candidates"
    and d: "d = pinned_decision u candidates"
    using assms by (rule ssrf_check_Inr)
  have hd: "address_permitted internal (ra_address (hd candidates))"
    using ok ne by (simp add: list_all_iff)
  have pin: "classify_ip_address (sd_pinned d) = classify_ip_address (ra_address (hd candidates))"
    unfolding d pinned_decision_def Let_def
    using classify_normalized [OF permitted_family [OF hd]] by simp
  have "sd_validated d = map ra_address candidates" "sd_origin d = origin_of u"
    by (simp_all add: d pinned_decision_def Let_def)
  with al ne ok hd pin show ?thesis
    by (auto simp: address_permitted_def list_all_iff hd_map)
qed

lemma permitted_category:
  "address_permitted internal a \<longleftrightarrow> ic_category (classify_ip_address a) = Ip_Public \<or>
     (internal \<and> ic_category (classify_ip_address a) = Ip_Private)"
  by (cases "ic_category (classify_ip_address a)")
    (simp_all add: address_permitted_def always_denied_def Let_def)

text \<open>A request leaves only for an allowlisted origin, to an address whose class is permitted:
  public, or private when the origin is marked internal. This holds for every address that DNS
  returned and for the one the socket is pinned to, which is the first of them in normal form.\<close>

theorem egress_addresses_permitted:
  assumes "ssrf_check al resolve u = Inr d"
  shows "sd_origin d = origin_of u \<and> sd_validated d \<noteq> [] \<and>
    (\<exists>internal. find_entry al (sd_origin d) = Some internal \<and>
      classify_ip_address (sd_pinned d) = classify_ip_address (hd (sd_validated d)) \<and>
      list_all (\<lambda>a. ic_category (classify_ip_address a) = Ip_Public \<or>
         (internal \<and> ic_category (classify_ip_address a) = Ip_Private)) (sd_pinned d # sd_validated d))"
  using pinned_permitted [OF assms] by (auto simp: permitted_category list_all_iff)

definition sample_url :: url where
  "sample_url = \<lparr>url_protocol = ''https:'', url_username = [], url_password = [], url_hostname = ''g'',
     url_port = [], url_pathname = ''/'', url_search = [], url_hash = []\<rparr>"

lemma sample_check:
  "\<exists>d. ssrf_check [(''https://g'', False)] (\<lambda>_. Some [\<lparr>ra_address = show_ipv4 [1, 2, 3, 4], ra_family = 4\<rparr>])
     sample_url = Inr d \<and> sd_pinned d = show_ipv4 [1, 2, 3, 4]"
proof -
  have "js_lower ''g'' = ''g''" by (simp add: js_lower_def lower_char_def)
  moreover have "classify_ip_address ''g'' = ip_unknown"
  proof -
    have "js_trim ''g'' = ''g''" by (simp add: js_trim_def js_trim_start_def is_js_space_def)
    then show ?thesis
      by (simp add: classify_ip_address_def bracketless_def starts_with_def parse_ipv4_def parse_ipv6_def
          hex_groups_def expand_groups_def)
  qed
  moreover have "quad [1, 2, 3, 4]" by (simp add: quad_def)
  note classify_show_ipv4 [OF this]
  ultimately show ?thesis
    by (simp add: ssrf_check_def sample_url_def origin_of_def find_entry_def candidate_addresses_def
        is_ip_literal_def ip_unknown_def address_permitted_def always_denied_def pinned_decision_def)
qed

theorem egress_addresses_permitted_witness:
  "\<exists>d. ssrf_check [(''https://g'', False)] (\<lambda>_. Some [\<lparr>ra_address = show_ipv4 [1, 2, 3, 4], ra_family = 4\<rparr>])
     sample_url = Inr d \<and> ic_category (classify_ip_address (sd_pinned d)) = Ip_Public"
proof -
  obtain d where d: "ssrf_check [(''https://g'', False)]
      (\<lambda>_. Some [\<lparr>ra_address = show_ipv4 [1, 2, 3, 4], ra_family = 4\<rparr>]) sample_url = Inr d"
    using sample_check by blast
  from egress_addresses_permitted [OF d] have "sd_origin d = ''https://g''"
    by (simp add: sample_url_def origin_of_def js_lower_def lower_char_def)
  with egress_addresses_permitted [OF d] d show ?thesis
    by (auto simp: find_entry_def)
qed

text \<open>No spelling of a denied IPv4 address gets through: if the class of a dotted quad is denied
  for the origin, no resolver answer that contains it, plain or as an IPv4-mapped IPv6 address, is
  accepted.\<close>

theorem mapped_addresses_denied:
  assumes "quad v" and "classify_ipv4 v \<in> always_denied"
    and "a = show_ipv4 v \<or> a = ''::ffff:'' @ show_ipv4 v"
    and "resolve (js_lower (url_hostname u)) = Some rs" and "a \<in> ra_address ` set rs"
    and "\<not> is_ip_literal (js_lower (url_hostname u))"
  shows "\<exists>e. ssrf_check al resolve u = Inl e"
proof (cases "ssrf_check al resolve u")
  case (Inr d)
  then obtain internal candidates where
    "candidate_addresses resolve (js_lower (url_hostname u)) = Some candidates"
    and "list_all (\<lambda>r. address_permitted internal (ra_address r)) candidates"
    by (rule ssrf_check_Inr)
  with assms(4-6) have "address_permitted internal a"
    by (auto simp: list_all_iff candidate_addresses_def)
  moreover have "ic_category (classify_ip_address a) = classify_ipv4 v"
    using assms(3) classify_show_ipv4 [OF assms(1)] mapped_classification [OF assms(1)] by auto
  ultimately show ?thesis using assms(2) by (simp add: address_permitted_def Let_def)
qed blast

theorem mapped_addresses_denied_witness:
  "\<exists>e. ssrf_check [(''https://g'', True)]
     (\<lambda>_. Some [\<lparr>ra_address = ''::ffff:'' @ show_ipv4 [127, 0, 0, 1], ra_family = 6\<rparr>]) sample_url = Inl e"
proof -
  have "js_lower ''g'' = ''g''" by (simp add: js_lower_def lower_char_def)
  moreover have "js_trim ''g'' = ''g''" by (simp add: js_trim_def js_trim_start_def is_js_space_def)
  ultimately have "\<not> is_ip_literal (js_lower (url_hostname sample_url))"
    by (simp add: sample_url_def is_ip_literal_def classify_ip_address_def bracketless_def starts_with_def
        parse_ipv4_def parse_ipv6_def hex_groups_def expand_groups_def ip_unknown_def)
  from mapped_addresses_denied [OF _ _ _ refl _ this, of "[127, 0, 0, 1]" "''::ffff:'' @ show_ipv4 [127, 0, 0, 1]"]
  show ?thesis by (simp add: quad_def always_denied_def)
qed

text \<open>The NAT64 form of an address is not unwrapped: \<open>64:ff9b::a9fe:a9fe\<close>, which a NAT64 gateway
  translates to the metadata address 169.254.169.254, counts as public.\<close>

lemma nat64_metadata_is_public:
  "ic_category (classify_ip_address ''64:ff9b::a9fe:a9fe'') = Ip_Public"
proof -
  let ?s = "''64:ff9b::a9fe:a9fe''"
  have lit: "list_all v6_char ?s" by (simp add: v6_char_def hex_val_def)
  have expand: "expand_groups ?s = Some [''64'', ''ff9b'', ''0'', ''0'', ''0'', ''0'', ''a9fe'', ''a9fe'']"
    by (simp add: expand_groups_def colon_groups_def Let_def numeral_eq_Suc)
  have "group_bytes ''0'' = Some [0, 0]" "group_bytes ''64'' = Some [0, 0x64]"
    "group_bytes ''ff9b'' = Some [0xFF, 0x9B]" "group_bytes ''a9fe'' = Some [0xA9, 0xFE]"
    by (simp_all add: group_bytes_def hex_val_def Let_def)
  with expand have "hex_groups ?s = Some [0, 0x64, 0xFF, 0x9B, 0, 0, 0, 0, 0, 0, 0, 0, 0xA9, 0xFE, 0xA9, 0xFE]"
    by (simp add: hex_groups_def)
  then have "parse_ipv6 ?s = Some [0, 0x64, 0xFF, 0x9B, 0, 0, 0, 0, 0, 0, 0, 0, 0xA9, 0xFE, 0xA9, 0xFE]"
    by (simp add: parse_ipv6_def after_last_colon_def)
  moreover have "parse_ipv4 ?s = None" by (rule colon_not_ipv4) simp
  ultimately show ?thesis
    using plain_literal [OF lit]
    by (simp add: classify_ip_address_def is_ipv4_mapped_def zeros_def classify_ipv6_bytes_def)
qed

end
