(* ===== verification/JsNumber.thy ===== *)
theory JsNumber
  imports Json
begin

text \<open>
  ECMAScript's conversion from string to number, as the configuration parsers use it:
  \<open>Number(text)\<close> with its decimal, exponent, hexadecimal, octal and binary forms. A finite result
  is the literal's exact value; \<open>None\<close> stands for \<open>NaN\<close> and the infinities, which no caller
  tells apart.
\<close>

definition js_exponent :: "string \<Rightarrow> int option" where
  "js_exponent s =
     (case p_exponent s of Some (e, []) \<Rightarrow> Some e | _ \<Rightarrow> None)"

text \<open>Digits with an optional point and exponent; one digit at least, on either side of the point.\<close>

definition js_decimal :: "string \<Rightarrow> rat option" where
  "js_decimal s =
     (let ds = takeWhile is_digit s; r = dropWhile is_digit s;
          (fs, r2) = (if r \<noteq> [] \<and> hd r = CHR ''.''
             then (takeWhile is_digit (tl r), dropWhile is_digit (tl r)) else ([], r))
      in if ds = [] \<and> fs = [] then None
         else map_option (\<lambda>e. scale10 (of_nat (digits_val (ds @ fs))) (e - int (length fs)))
           (js_exponent r2))"

fun radix_val :: "nat \<Rightarrow> nat \<Rightarrow> string \<Rightarrow> nat option" where
  "radix_val b n [] = Some n"
| "radix_val b n (c # cs) =
     (case hex_val c of
        Some d \<Rightarrow> if d < b then radix_val b (b * n + d) cs else None
      | None \<Rightarrow> None)"

definition js_radix :: "nat \<Rightarrow> string \<Rightarrow> rat option" where
  "js_radix b ds = (if ds = [] then None else map_option of_nat (radix_val b 0 ds))"

definition js_number :: "string \<Rightarrow> rat option" where
  "js_number text =
     (let s = js_trim text in
      if s = [] then Some 0
      else if hd s = CHR ''-'' then map_option uminus (js_decimal (tl s))
      else if hd s = CHR ''+'' then js_decimal (tl s)
      else if starts_with ''0x'' (js_lower s) then js_radix 16 (drop 2 s)
      else if starts_with ''0o'' (js_lower s) then js_radix 8 (drop 2 s)
      else if starts_with ''0b'' (js_lower s) then js_radix 2 (drop 2 s)
      else js_decimal s)"

text \<open>\<open>Number.isInteger(n) && n > 0\<close>.\<close>

definition js_positive_int :: "string \<Rightarrow> int option" where
  "js_positive_int s =
     (case js_number s of
        Some r \<Rightarrow> if r \<in> \<int> \<and> 0 < r then Some \<lfloor>r\<rfloor> else None
      | None \<Rightarrow> None)"

lemma js_decimal_digits:
  assumes "all_digits s"
  shows "js_decimal s = Some (of_nat (digits_val s))"
proof -
  have "list_all is_digit s" "s \<noteq> []" using assms by (simp_all add: all_digits_def)
  then have tw: "takeWhile is_digit s = s" and dw: "dropWhile is_digit s = []"
    by (auto simp: list_all_iff)
  from \<open>s \<noteq> []\<close> show ?thesis
    unfolding js_decimal_def tw dw by (simp add: js_exponent_def p_exponent_def scale10_def)
qed

lemma all_digits_trim: "all_digits s \<Longrightarrow> js_trim s = s"
  by (rule js_trim_no_space) (auto simp: all_digits_def list_all_iff)

lemma lower_digit [simp]: "is_digit c \<Longrightarrow> lower_char c = c"
  by (auto simp: is_digit_def lower_char_def Let_def)

lemma digits_not_radix:
  assumes "list_all is_digit s" and "\<not> is_digit x"
  shows "\<not> starts_with [CHR ''0'', x] (js_lower s)"
proof -
  have "js_lower s = s" using assms(1) by (induction s) (auto simp: js_lower_def)
  with assms show ?thesis
    by (cases s; cases "tl s") (auto simp: starts_with_def)
qed

lemma js_number_digits:
  assumes "all_digits s"
  shows "js_number s = Some (of_nat (digits_val s))"
proof -
  have d: "list_all is_digit s" "s \<noteq> []" using assms by (simp_all add: all_digits_def)
  then have h: "is_digit (hd s)" by (cases s) auto
  have s: "hd s \<noteq> CHR ''-''" "hd s \<noteq> CHR ''+''"
    using h by (auto simp: is_digit_def)
  have n: "\<not> is_digit CHR ''x''" "\<not> is_digit CHR ''o''" "\<not> is_digit CHR ''b''"
    by (simp_all add: is_digit_def)
  show ?thesis
    using d(2) s n [THEN digits_not_radix [OF d(1)]]
    by (simp add: js_number_def all_digits_trim [OF assms] js_decimal_digits [OF assms])
qed

lemma js_positive_int_digits:
  "all_digits s \<Longrightarrow> js_positive_int s = (if digits_val s = 0 then None else Some (int (digits_val s)))"
  by (simp add: js_positive_int_def js_number_digits)

lemma js_positive_int_pos: "js_positive_int s = Some n \<Longrightarrow> 0 < n"
  by (auto simp: js_positive_int_def elim!: Ints_cases split: option.splits if_splits)

end
