(* ===== verification/Http.thy ===== *)
theory Http
  imports Ssrf JsNumber
begin

text \<open>
  The request executor of \<open>packages/gitlab-client/src/http.ts\<close> and the credential adapter of
  \<open>auth.ts\<close>: one GET with the egress check, the status mapping, the body cap, and the retry loop
  under a total time budget. What happens outside at the numbered steps of a call is in
  \<open>http_env\<close>: the resolver, the transport, the clock, the random number, the caller's abort signal
  and the attempt's timer. \<open>attempt_log\<close> records what each attempt did.
\<close>

section \<open>Credentials\<close>

definition pat_credential :: "string \<Rightarrow> gitlab_error + string" where
  "pat_credential token = (if token = [] then Inl Gl_Invalid_Config else Inr token)"

section \<open>Responses\<close>

text \<open>The body is the list of chunks that are read; \<open>None\<close> is a failing read.\<close>

record http_response =
  hr_status :: int
  hr_headers :: "string \<rightharpoonup> string"
  hr_body :: "byte list option list"

record raw_response =
  rr_status :: int
  rr_headers :: "string \<rightharpoonup> string"
  rr_json :: json

datatype route_scope = Project_Scope | Global_Scope

text \<open>\<open>None\<close> stands for an exception that is not a \<open>GitLabError\<close>.\<close>

fun read_chunks :: "nat \<Rightarrow> nat \<Rightarrow> byte list option list \<Rightarrow> gitlab_error option + byte list" where
  "read_chunks cap got [] = Inr []"
| "read_chunks cap got (None # cs) = Inl None"
| "read_chunks cap got (Some c # cs) =
     (if cap < got + length c then Inl (Some Gl_Response_Too_Large)
      else case read_chunks cap (got + length c) cs of Inl e \<Rightarrow> Inl e | Inr bs \<Rightarrow> Inr (c @ bs))"

definition read_body_with_cap :: "http_response \<Rightarrow> nat \<Rightarrow> gitlab_error option + string" where
  "read_body_with_cap r cap =
     (case hr_headers r ''content-length'' of
        Some d \<Rightarrow>
          if all_digits (js_trim d) \<and> cap < digits_val (js_trim d) then Inl (Some Gl_Response_Too_Large)
          else map_sum id utf8_decode (read_chunks cap 0 (hr_body r))
      | None \<Rightarrow> map_sum id utf8_decode (read_chunks cap 0 (hr_body r)))"

definition parse_json_text :: "string \<Rightarrow> gitlab_error + json" where
  "parse_json_text text =
     (if js_trim text = [] then Inl Gl_Malformed_Response
      else case json_parse text of None \<Rightarrow> Inl Gl_Malformed_Response | Some j \<Rightarrow> Inr j)"

text \<open>\<open>/^[A-Za-z]{3,9},?\s/\<close>.\<close>

definition is_letter :: "char \<Rightarrow> bool" where
  "is_letter c \<longleftrightarrow> (let n = code_of c in (65 \<le> n \<and> n \<le> 90) \<or> (97 \<le> n \<and> n \<le> 122))"

definition weekday_prefix :: "string \<Rightarrow> bool" where
  "weekday_prefix s \<longleftrightarrow>
     (let w = takeWhile is_letter s; r = dropWhile is_letter s;
          r1 = (if r \<noteq> [] \<and> hd r = CHR '','' then tl r else r)
      in 3 \<le> length w \<and> length w \<le> 9 \<and> r1 \<noteq> [] \<and> is_js_space (hd r1))"

definition parse_retry_after ::
    "(string \<Rightarrow> instant option) \<Rightarrow> string option \<Rightarrow> instant \<Rightarrow> int option" where
  "parse_retry_after date_parse v now =
     (case v of
        None \<Rightarrow> None
      | Some s \<Rightarrow>
          let t = js_trim s in
          if t = [] then None
          else if all_digits t then Some (int (digits_val t) * 1000)
          else if \<not> weekday_prefix t then None
          else map_option (\<lambda>ts. max 0 (ts - now)) (date_parse t))"

definition handle_response ::
    "(string \<Rightarrow> instant option) \<Rightarrow> instant \<Rightarrow> route_scope \<Rightarrow> client_limits \<Rightarrow> http_response
       \<Rightarrow> gitlab_error option + raw_response" where
  "handle_response date_parse now scope limits r =
     (let status = hr_status r; retry = parse_retry_after date_parse (hr_headers r ''retry-after'') now in
      if 200 \<le> status \<and> status < 300 then
        (case read_body_with_cap r (max_response_bytes limits) of
           Inl e \<Rightarrow> Inl e
         | Inr text \<Rightarrow>
             (case parse_json_text text of
                Inl e \<Rightarrow> Inl (Some e)
              | Inr j \<Rightarrow> Inr \<lparr>rr_status = status, rr_headers = hr_headers r, rr_json = j\<rparr>))
      else if 300 \<le> status \<and> status < 400 then Inl (Some Gl_Redirect_Rejected)
      else if status = 401 then Inl (Some Gl_Unauthorized)
      else if status = 403 then
        Inl (Some (if scope = Project_Scope then Gl_Project_Forbidden else Gl_Forbidden))
      else if status = 404 then
        Inl (Some (if scope = Project_Scope then Gl_Project_Not_Found else Gl_Not_Found))
      else if status = 429 then Inl (Some (Gl_Rate_Limited retry))
      else if status = 408 then Inl (Some Gl_Timeout)
      else if 500 \<le> status then Inl (Some (Gl_Upstream_Unavailable retry))
      else Inl (Some (Gl_Unexpected_Status status)))"

section \<open>Retries\<close>

definition is_retryable :: "gitlab_error \<Rightarrow> bool" where
  "is_retryable e \<longleftrightarrow>
     (case e of Gl_Rate_Limited _ \<Rightarrow> True | Gl_Upstream_Unavailable _ \<Rightarrow> True | Gl_Timeout \<Rightarrow> True | _ \<Rightarrow> False)"

definition retry_after_ms :: "gitlab_error \<Rightarrow> int option" where
  "retry_after_ms e =
     (case e of Gl_Rate_Limited r \<Rightarrow> r | Gl_Upstream_Unavailable r \<Rightarrow> r | _ \<Rightarrow> None)"

definition backoff_for :: "gitlab_error \<Rightarrow> nat \<Rightarrow> client_limits \<Rightarrow> rat \<Rightarrow> int" where
  "backoff_for e attempt_no limits random =
     (let exponential = min (backoff_max_ms limits) (backoff_base_ms limits * 2 ^ (attempt_no - 1))
      in case retry_after_ms e of
           Some r \<Rightarrow> if 0 \<le> r then r else \<lfloor>random * of_int exponential\<rfloor>
         | None \<Rightarrow> \<lfloor>random * of_int exponential\<rfloor>)"

section \<open>The executor\<close>

record http_request =
  rq_url :: url
  rq_query :: "(string \<times> string) list"
  rq_token :: string
  rq_pin :: string
  rq_pin_family :: nat

record http_env =
  he_allow :: allowlist
  he_resolve :: "nat \<Rightarrow> string \<Rightarrow> resolved_address list option"
  he_token :: string
  he_send :: "nat \<Rightarrow> http_request \<Rightarrow> http_response option"
  he_clock :: "nat \<Rightarrow> instant"
  he_random :: "nat \<Rightarrow> rat"
  he_aborted :: "nat \<Rightarrow> bool"
  he_timed_out :: "nat \<Rightarrow> bool"
  he_date_parse :: "string \<Rightarrow> instant option"
  he_limits :: client_limits

record attempt_log =
  lg_start :: instant
  lg_timeout :: int
  lg_request :: "http_request option"
  lg_result :: "gitlab_error + raw_response"

definition attempt ::
    "http_env \<Rightarrow> url \<times> (string \<times> string) list \<Rightarrow> route_scope \<Rightarrow> nat
       \<Rightarrow> (gitlab_error + raw_response) \<times> http_request option" where
  "attempt env target scope t =
     (case ssrf_check (he_allow env) (he_resolve env t) (fst target) of
        Inl e \<Rightarrow> (Inl e, None)
      | Inr d \<Rightarrow>
          (case pat_credential (he_token env) of
             Inl e \<Rightarrow> (Inl e, None)
           | Inr token \<Rightarrow>
               let rq = \<lparr>rq_url = fst target, rq_query = snd target, rq_token = token,
                     rq_pin = sd_pinned d, rq_pin_family = sd_pinned_family d\<rparr>
               in ((case (case he_send env t rq of
                       None \<Rightarrow> Inl None
                     | Some r \<Rightarrow> handle_response (he_date_parse env) (he_clock env t) scope (he_limits env) r) of
                      Inr r \<Rightarrow> Inr r
                    | Inl (Some e) \<Rightarrow> Inl e
                    | Inl None \<Rightarrow>
                        Inl (if he_aborted env t then Gl_Aborted
                          else if he_timed_out env t then Gl_Timeout
                          else Gl_Upstream_Unavailable None)), Some rq)))"

text \<open>The attempts from number \<open>no\<close> on, \<open>left\<close> of them allowed. One attempt takes three steps:
  the checks before it, the attempt, and the wait after it.\<close>

fun attempts ::
    "http_env \<Rightarrow> url \<times> (string \<times> string) list \<Rightarrow> route_scope \<Rightarrow> instant \<Rightarrow> nat \<Rightarrow> nat \<Rightarrow> gitlab_error option
       \<Rightarrow> nat \<Rightarrow> (gitlab_error + raw_response) \<times> attempt_log list" where
  "attempts env target scope deadline 0 no last_error t =
     (Inl (case last_error of Some e \<Rightarrow> e | None \<Rightarrow> Gl_Upstream_Unavailable None), [])"
| "attempts env target scope deadline (Suc left) no last_error t =
     (if he_aborted env t then (Inl Gl_Aborted, [])
      else
        let remaining = deadline - he_clock env t in
        if remaining \<le> 0
        then (Inl (case last_error of Some e \<Rightarrow> e | None \<Rightarrow> Gl_Timeout), [])
        else
          (case attempt env target scope (t + 1) of
             (result, rq) \<Rightarrow>
               let entry = \<lparr>lg_start = he_clock env t,
                     lg_timeout = min (attempt_timeout_ms (he_limits env)) remaining,
                     lg_request = rq, lg_result = result\<rparr>
               in (case result of
                     Inr r \<Rightarrow> (Inr r, [entry])
                   | Inl e \<Rightarrow>
                       if \<not> is_retryable e then (Inl e, [entry])
                       else if left = 0 then (Inl e, [entry])
                       else
                         let delay = backoff_for e no (he_limits env) (he_random env (t + 2)) in
                         if deadline \<le> he_clock env (t + 2) + delay then (Inl e, [entry])
                         else if he_aborted env (t + 2) then (Inl Gl_Aborted, [entry])
                         else
                           (case attempts env target scope deadline left (no + 1) (Some e) (t + 3) of
                              (res, lg) \<Rightarrow> (res, entry # lg)))))"

definition request_json ::
    "http_env \<Rightarrow> url \<times> (string \<times> string) list \<Rightarrow> route_scope \<Rightarrow> nat
       \<Rightarrow> (gitlab_error + raw_response) \<times> attempt_log list" where
  "request_json env target scope t =
     attempts env target scope (he_clock env t + total_timeout_ms (he_limits env))
       (max_attempts (he_limits env)) 1 None (t + 1)"

section \<open>Lemmas\<close>

text \<open>What one attempt that sent a request did.\<close>

lemma attempt_request:
  assumes "attempt env target scope t = (res, Some rq)"
  obtains d where "ssrf_check (he_allow env) (he_resolve env t) (fst target) = Inr d"
    and "rq_pin rq = sd_pinned d" and "rq_url rq = fst target" and "rq_query rq = snd target"
    and "rq_token rq = he_token env"
  using assms by (auto simp: attempt_def pat_credential_def Let_def split: sum.splits if_splits)

text \<open>The errors that are GitLab's verdict on the credential or the resource, with the status that
  gives them.\<close>

definition verdict_status :: "gitlab_error \<Rightarrow> int option" where
  "verdict_status e =
     (case e of
        Gl_Unauthorized \<Rightarrow> Some 401 | Gl_Forbidden \<Rightarrow> Some 403 | Gl_Project_Forbidden \<Rightarrow> Some 403
      | Gl_Not_Found \<Rightarrow> Some 404 | Gl_Project_Not_Found \<Rightarrow> Some 404 | _ \<Rightarrow> None)"

lemma body_no_verdict:
  assumes "verdict_status e = Some s"
  shows "read_body_with_cap r cap \<noteq> Inl (Some e)" and "parse_json_text text \<noteq> Inl e"
proof -
  have "read_chunks cap n cs \<noteq> Inl (Some e)" for n cs
    using assms by (induction cap n cs rule: read_chunks.induct)
      (auto simp: verdict_status_def split: sum.splits)
  then show "read_body_with_cap r cap \<noteq> Inl (Some e)"
    using assms by (auto simp: read_body_with_cap_def map_sum_def verdict_status_def split: option.splits sum.splits)
  show "parse_json_text text \<noteq> Inl e"
    using assms by (auto simp: parse_json_text_def verdict_status_def split: option.splits)
qed

lemma handle_response_verdict:
  assumes "handle_response dp now scope limits r = Inl (Some e)" and "verdict_status e = Some s"
  shows "hr_status r = s"
  using assms body_no_verdict [OF assms(2)]
  by (auto simp: handle_response_def Let_def verdict_status_def split: if_splits sum.splits)

lemma ssrf_check_error: "ssrf_check al resolve u = Inl e \<Longrightarrow> e = Gl_Ssrf_Blocked"
  by (auto simp: ssrf_check_def split: if_splits option.splits)

lemma attempt_verdict:
  assumes "attempt env target scope t = (Inl e, rq)" and "verdict_status e = Some s"
  shows "\<exists>q r. rq = Some q \<and> rq_token q = he_token env \<and> he_send env t q = Some r \<and> hr_status r = s"
proof -
  have v: "verdict_status Gl_Ssrf_Blocked = None" "verdict_status Gl_Invalid_Config = None"
    "verdict_status Gl_Aborted = None" "verdict_status Gl_Timeout = None"
    "verdict_status (Gl_Upstream_Unavailable x) = None" for x
    by (simp_all add: verdict_status_def)
  show ?thesis
    using assms v handle_response_verdict [OF _ assms(2)]
    by (fastforce simp: attempt_def pat_credential_def Let_def dest: ssrf_check_error
        split: sum.splits if_splits option.splits)
qed

text \<open>The log of the loop: how many attempts, when they start, what they send and how they end.\<close>

definition log_entry_ok :: "http_env \<Rightarrow> url \<times> (string \<times> string) list \<Rightarrow> route_scope \<Rightarrow> instant \<Rightarrow> attempt_log \<Rightarrow> bool" where
  "log_entry_ok env target scope deadline l \<longleftrightarrow>
     lg_timeout l \<le> attempt_timeout_ms (he_limits env) \<and> lg_start l < deadline \<and>
     lg_start l + lg_timeout l \<le> deadline \<and>
     (\<exists>t. attempt env target scope t = (lg_result l, lg_request l))"

lemma attempts_log:
  assumes "attempts env target scope deadline left no last_error t = (res, lg)"
  shows "length lg \<le> left \<and> list_all (log_entry_ok env target scope deadline) lg \<and>
    (lg \<noteq> [] \<longrightarrow>
       list_all (\<lambda>l. \<exists>e. lg_result l = Inl e \<and> is_retryable e) (butlast lg) \<and>
       (res = lg_result (last lg) \<or> res = Inl Gl_Aborted)) \<and>
    (lg = [] \<longrightarrow> (\<exists>e. res = Inl e \<and> (e = Gl_Aborted \<or> last_error = Some e \<or>
       (last_error = None \<and> (e = Gl_Timeout \<or> e = Gl_Upstream_Unavailable None)))))"
  using assms
proof (induction left arbitrary: no last_error t res lg)
  case 0
  then show ?case by (auto split: option.splits)
next
  case (Suc left)
  let ?rem = "deadline - he_clock env t"
  consider "he_aborted env t" | "\<not> he_aborted env t" "?rem \<le> 0" | "\<not> he_aborted env t" "\<not> ?rem \<le> 0"
    by blast
  then show ?case
  proof cases
    case 1
    then show ?thesis using Suc.prems by auto
  next
    case 2
    then show ?thesis using Suc.prems by (auto simp: Let_def split: option.splits)
  next
    case 3
    obtain result rq where a: "attempt env target scope (t + 1) = (result, rq)"
      by (cases "attempt env target scope (t + 1)")
    let ?entry = "\<lparr>lg_start = he_clock env t, lg_timeout = min (attempt_timeout_ms (he_limits env)) ?rem,
      lg_request = rq, lg_result = result\<rparr>"
    have entry: "log_entry_ok env target scope deadline ?entry"
      using 3 a by (auto simp: log_entry_ok_def)
    consider (once) "lg = [?entry]" "res = result \<or> res = Inl Gl_Aborted"
      | (again) e lg' where "result = Inl e" "is_retryable e" "lg = ?entry # lg'"
          "attempts env target scope deadline left (no + 1) (Some e) (t + 3) = (res, lg')"
      using Suc.prems 3 a
      by (auto simp: Let_def split: sum.splits if_splits prod.splits)
    then show ?thesis
    proof cases
      case once
      then show ?thesis using entry by auto
    next
      case again
      from Suc.IH [OF again(4)] show ?thesis
        using again entry by (cases "lg' = []") auto
    qed
  qed
qed

section \<open>Properties\<close>


text \<open>Only transient failures are retried, and the result is that of the last attempt (or the
  caller's abort). A call reports a rejected credential, a forbidden or a missing resource only
  when GitLab answered the last attempt with 401, 403 or 404.\<close>

theorem result_of_last_attempt:
  assumes "request_json env target scope t = (res, lg)" and "lg \<noteq> []"
  shows "list_all (\<lambda>l. \<exists>e. lg_result l = Inl e \<and> is_retryable e) (butlast lg) \<and>
    (res = lg_result (last lg) \<or> res = Inl Gl_Aborted) \<and>
    (\<forall>e s. res = Inl e \<longrightarrow> verdict_status e = Some s \<longrightarrow>
      (\<exists>t0 rq r. lg_request (last lg) = Some rq \<and> he_send env t0 rq = Some r \<and> hr_status r = s))"
proof -
  note l = attempts_log [OF assms(1) [unfolded request_json_def]]
  have "last lg \<in> set lg" using assms(2) by simp
  with l obtain t0 where "attempt env target scope t0 = (lg_result (last lg), lg_request (last lg))"
    by (auto simp: list_all_iff log_entry_ok_def)
  then have "\<exists>t0 rq r. lg_request (last lg) = Some rq \<and> he_send env t0 rq = Some r \<and> hr_status r = s"
    if "lg_result (last lg) = Inl e" "verdict_status e = Some s" for e s
    using attempt_verdict that by metis
  moreover have "verdict_status Gl_Aborted = None" by (simp add: verdict_status_def)
  ultimately show ?thesis using l assms(2) by (auto dest: sym)
qed

text \<open>The same for the whole call.\<close>

lemma request_json_verdict:
  assumes "request_json env target scope t = (Inl e, lg)" and "verdict_status e = Some s"
  shows "\<exists>t0 rq r. rq_token rq = he_token env \<and> he_send env t0 rq = Some r \<and> hr_status r = s"
proof -
  note l = attempts_log [OF assms(1) [unfolded request_json_def]]
  from assms(2) have e: "e \<noteq> Gl_Aborted" "e \<noteq> Gl_Timeout" "e \<noteq> Gl_Upstream_Unavailable None"
    by (auto simp: verdict_status_def)
  with l have "lg \<noteq> []" by auto
  with l e have "last lg \<in> set lg" "lg_result (last lg) = Inl e" by auto
  with l obtain t0 where "attempt env target scope t0 = (Inl e, lg_request (last lg))"
    by (auto simp: list_all_iff log_entry_ok_def)
  from attempt_verdict [OF this assms(2)] show ?thesis by blast
qed

definition sample_http :: http_env where
  "sample_http =
     \<lparr>he_allow = [(''https://g'', False)],
      he_resolve = (\<lambda>_ _. Some [\<lparr>ra_address = show_ipv4 [1, 2, 3, 4], ra_family = 4\<rparr>]),
      he_token = ''glpat-1'',
      he_send = (\<lambda>_ _. Some \<lparr>hr_status = 401, hr_headers = Map.empty, hr_body = []\<rparr>),
      he_clock = int, he_random = (\<lambda>_. 0), he_aborted = (\<lambda>_. False), he_timed_out = (\<lambda>_. False),
      he_date_parse = (\<lambda>_. None), he_limits = default_limits\<rparr>"

lemma attempts_permanent:
  assumes "\<not> he_aborted env t" and "he_clock env t < deadline"
    and "attempt env target scope (t + 1) = (Inl e, rq)" and "\<not> is_retryable e"
  shows "attempts env target scope deadline (Suc left) no last_error t =
    (Inl e, [\<lparr>lg_start = he_clock env t,
       lg_timeout = min (attempt_timeout_ms (he_limits env)) (deadline - he_clock env t),
       lg_request = rq, lg_result = Inl e\<rparr>])"
  using assms by (simp add: Let_def)

lemma sample_request:
  "\<exists>rq. request_json sample_http (sample_url, []) scope 0 =
     (Inl Gl_Unauthorized, [\<lparr>lg_start = 1, lg_timeout = 15000, lg_request = Some rq,
        lg_result = Inl Gl_Unauthorized\<rparr>])"
proof -
  obtain d where d: "ssrf_check [(''https://g'', False)]
      (\<lambda>_. Some [\<lparr>ra_address = show_ipv4 [1, 2, 3, 4], ra_family = 4\<rparr>]) sample_url = Inr d"
    using sample_check by blast
  have "\<exists>rq. attempt sample_http (sample_url, []) scope t = (Inl Gl_Unauthorized, Some rq)" for t
    using d by (simp add: attempt_def sample_http_def pat_credential_def handle_response_def Let_def)
  then obtain rq where "attempt sample_http (sample_url, []) scope (Suc (Suc 0)) =
      (Inl Gl_Unauthorized, Some rq)"
    by blast
  moreover have "he_aborted sample_http t = False" "he_clock sample_http t = int t"
    "max_attempts (he_limits sample_http) = 4" "total_timeout_ms (he_limits sample_http) = 45000"
    "attempt_timeout_ms (he_limits sample_http) = 15000" for t
    by (simp_all add: sample_http_def default_limits_def)
  ultimately show ?thesis
    using attempts_permanent [of sample_http 1 45000 "(sample_url, [])" scope Gl_Unauthorized
        "Some rq" 3 1 None]
    by (simp add: request_json_def is_retryable_def)
qed


theorem result_of_last_attempt_witness:
  "\<exists>lg rq r t0. request_json sample_http (sample_url, []) Project_Scope 0 = (Inl Gl_Unauthorized, lg) \<and>
     lg_request (last lg) = Some rq \<and> he_send sample_http t0 rq = Some r \<and> hr_status r = 401"
proof -
  obtain rq where rq: "request_json sample_http (sample_url, []) Project_Scope 0 =
     (Inl Gl_Unauthorized, [\<lparr>lg_start = 1, lg_timeout = 15000, lg_request = Some rq,
        lg_result = Inl Gl_Unauthorized\<rparr>])"
    using sample_request [of Project_Scope] by blast
  from result_of_last_attempt [OF rq] rq show ?thesis by (auto simp: verdict_status_def)
qed

end
