(* ===== verification/Pagination.thy ===== *)
theory Pagination
  imports Http
begin

text \<open>
  Pagination of \<open>packages/gitlab-client/src/pagination.ts\<close>: the \<open>Link\<close> header, the next cursor with its
  same-origin check, and \<open>drainPages\<close>, which walks the pages of a list under hard bounds. The query
  parameters of a parsed URL are Node's: the parameter \<open>param_of\<close>.
\<close>

section \<open>The Link header\<close>

text \<open>The suffixes of the parameter string at which a parameter may start: the beginning and after
  every semicolon.\<close>

fun after_semicolons :: "string \<Rightarrow> string list" where
  "after_semicolons [] = []"
| "after_semicolons (c # s) = (if c = CHR '';'' then s # after_semicolons s else after_semicolons s)"

text \<open>\<open>\s*rel\s*=\s*"?([^";]+)"?\<close> at one of them. When nothing is left to capture but white space
  precedes it, the match backtracks into the white space.\<close>

definition rel_at :: "string \<Rightarrow> string option" where
  "rel_at s =
     (let t = js_trim_start s in
      if js_lower (take 3 t) \<noteq> ''rel'' then None
      else let u = js_trim_start (drop 3 t) in
        if u = [] \<or> hd u \<noteq> CHR ''='' then None
        else let w = js_trim_start (tl u);
                 v = (if w \<noteq> [] \<and> hd w = CHR 0x22 then tl w else w);
                 cap = takeWhile (\<lambda>c. c \<noteq> CHR 0x22 \<and> c \<noteq> CHR '';'') v
             in if cap \<noteq> [] then Some cap
                else if w \<noteq> tl u then Some '' '' else None)"

definition rel_of :: "string \<Rightarrow> string option" where
  "rel_of params =
     (case List.map_filter rel_at (params # after_semicolons params) of [] \<Rightarrow> None | r # _ \<Rightarrow> Some r)"

text \<open>\<open>^<([^>]*)>\s*;\s*(.+)$\<close> on a trimmed section: the target and the parameters.\<close>

definition link_section :: "string \<Rightarrow> (string \<times> string) option" where
  "link_section s =
     (if s = [] \<or> hd s \<noteq> CHR ''<'' then None
      else let target = takeWhile (\<lambda>c. c \<noteq> CHR ''>'') (tl s); r = dropWhile (\<lambda>c. c \<noteq> CHR ''>'') (tl s) in
        if r = [] then None
        else let u = js_trim_start (tl r) in
          if u = [] \<or> hd u \<noteq> CHR '';'' then None
          else let params = js_trim_start (tl u) in
            if params = [] \<or> CHR 0x0A \<in> set params \<or> CHR 0x0D \<in> set params then None
            else Some (target, params))"

fun link_sections :: "string list \<Rightarrow> (string \<times> string) list \<Rightarrow> gitlab_error + (string \<times> string) list" where
  "link_sections [] out = Inr out"
| "link_sections (sec # secs) out =
     (let s = js_trim sec in
      if s = [] then link_sections secs out
      else case link_section s of
        None \<Rightarrow> Inl Gl_Malformed_Response
      | Some (target, params) \<Rightarrow>
          (case rel_of params of
             None \<Rightarrow> link_sections secs out
           | Some r \<Rightarrow>
               let rel = js_lower (js_trim r) in
               link_sections secs
                 (if rel \<noteq> [] \<and> map_of out rel = None then out @ [(rel, js_trim target)] else out)))"

definition parse_link_header :: "string option \<Rightarrow> gitlab_error + (string \<times> string) list" where
  "parse_link_header v =
     (case v of
        None \<Rightarrow> Inr []
      | Some s \<Rightarrow> if js_trim s = [] then Inr [] else link_sections (split_on CHR '','' s) [])"

section \<open>The next cursor\<close>

definition to_positive_int :: "string option \<Rightarrow> nat option" where
  "to_positive_int v =
     (case v of
        None \<Rightarrow> None
      | Some s \<Rightarrow>
          let t = js_trim s in
          if \<not> all_digits t then None
          else if 0 < digits_val t then Some (digits_val t) else None)"

abbreviation or_else :: "'a option \<Rightarrow> 'a \<Rightarrow> 'a" where
  "or_else x d \<equiv> (case x of Some y \<Rightarrow> y | None \<Rightarrow> d)"

definition parse_next_cursor ::
    "url_api \<Rightarrow> (url \<Rightarrow> string \<Rightarrow> string option) \<Rightarrow> (string \<rightharpoonup> string) \<Rightarrow> string \<Rightarrow> page_cursor
       \<Rightarrow> gitlab_error + page_cursor option" where
  "parse_next_cursor api param_of headers expected current =
     (case parse_link_header (headers ''link'') of
        Inl e \<Rightarrow> Inl e
      | Inr links \<Rightarrow>
          let next_link = or_else (map_of links ''next'') [] in
          if next_link \<noteq> [] then
            (case ua_parse api next_link of
               None \<Rightarrow> Inl Gl_Malformed_Response
             | Some u \<Rightarrow>
                 if origin_of u \<noteq> expected then Inl Gl_Ssrf_Blocked
                 else case to_positive_int (param_of u ''page'') of
                   None \<Rightarrow> Inl Gl_Malformed_Response
                 | Some p \<Rightarrow> Inr (Some \<lparr>pc_page = p,
                     pc_per_page = or_else (to_positive_int (param_of u ''per_page'')) (pc_per_page current)\<rparr>))
          else case to_positive_int (headers ''x-next-page'') of
            None \<Rightarrow> Inr None
          | Some p \<Rightarrow> Inr (Some \<lparr>pc_page = p,
              pc_per_page = or_else (to_positive_int (headers ''x-per-page'')) (pc_per_page current)\<rparr>))"

section \<open>Draining\<close>

definition page_key :: "page_cursor \<Rightarrow> string" where
  "page_key c = show_nat (pc_page c) @ '':'' @ show_nat (pc_per_page c)"

text \<open>The loop with \<open>left\<close> pages still allowed.\<close>

fun drain_loop ::
    "(page_cursor \<Rightarrow> gitlab_error + 'a page) \<Rightarrow> nat \<Rightarrow> nat \<Rightarrow> string list \<Rightarrow> 'a list \<Rightarrow> page_cursor
       \<Rightarrow> gitlab_error + 'a list" where
  "drain_loop fetch cap 0 visited xs c = Inl Gl_Pagination_Limit"
| "drain_loop fetch cap (Suc left) visited xs c =
     (if page_key c \<in> set visited then Inl Gl_Pagination_Limit
      else case fetch c of
        Inl e \<Rightarrow> Inl e
      | Inr p \<Rightarrow>
          let ys = xs @ items p in
          if cap < length ys then Inl Gl_Pagination_Limit
          else case next_page p of
            None \<Rightarrow> Inr ys
          | Some c' \<Rightarrow> drain_loop fetch cap left (page_key c # visited) ys c')"

definition drain_pages ::
    "(page_cursor \<Rightarrow> gitlab_error + 'a page) \<Rightarrow> client_limits \<Rightarrow> page_cursor option \<Rightarrow> gitlab_error + 'a list" where
  "drain_pages fetch bounds start =
     drain_loop fetch (max_items bounds) (max_pages bounds) [] []
       (or_else start \<lparr>pc_page = 1, pc_per_page = per_page_limit bounds\<rparr>)"

section \<open>The chain of pages\<close>

text \<open>The pages that a server hands out from a cursor on, up to the last one.\<close>

inductive page_chain :: "(page_cursor \<Rightarrow> gitlab_error + 'a page) \<Rightarrow> page_cursor \<Rightarrow> 'a page list \<Rightarrow> bool"
  for fetch where
  chain_last: "fetch c = Inr p \<Longrightarrow> next_page p = None \<Longrightarrow> page_chain fetch c [p]"
| chain_more: "fetch c = Inr p \<Longrightarrow> next_page p = Some c' \<Longrightarrow> page_chain fetch c' ps \<Longrightarrow> page_chain fetch c (p # ps)"

inductive_cases page_chain_Cons: "page_chain fetch c (p # ps)"

lemma drain_loop_Inr:
  assumes "drain_loop fetch cap left visited xs c = Inr ys"
  shows "\<exists>ps. page_chain fetch c ps \<and> length ps \<le> left \<and> ys = xs @ concat (map items ps) \<and> length ys \<le> cap"
  using assms
proof (induction left arbitrary: visited xs c)
  case (Suc left)
  then obtain p where p: "fetch c = Inr p" "length (xs @ items p) \<le> cap"
    by (auto simp: Let_def split: if_splits sum.splits)
  show ?case
  proof (cases "next_page p")
    case None
    with Suc.prems p have "ys = xs @ items p" by (auto simp: Let_def split: if_splits)
    with p None show ?thesis by (intro exI [of _ "[p]"]) (auto intro: chain_last)
  next
    case (Some c')
    with Suc.prems p have "drain_loop fetch cap left (page_key c # visited) (xs @ items p) c' = Inr ys"
      by (auto simp: Let_def split: if_splits)
    from Suc.IH [OF this] obtain ps where "page_chain fetch c' ps" "length ps \<le> left"
      "ys = (xs @ items p) @ concat (map items ps)" "length ys \<le> cap" by blast
    with p(1) Some show ?thesis by (intro exI [of _ "p # ps"]) (auto intro: chain_more)
  qed
qed simp

text \<open>The cursors along a chain.\<close>

fun chain_cursors :: "page_cursor \<Rightarrow> 'a page list \<Rightarrow> page_cursor list" where
  "chain_cursors c [] = []"
| "chain_cursors c (p # ps) =
     c # (case next_page p of None \<Rightarrow> [] | Some c' \<Rightarrow> chain_cursors c' ps)"

lemma drain_loop_chain:
  assumes "page_chain fetch c ps" and "length ps \<le> left"
    and "length (xs @ concat (map items ps)) \<le> cap"
    and "distinct (map page_key (chain_cursors c ps))"
    and "set (map page_key (chain_cursors c ps)) \<inter> set visited = {}"
  shows "drain_loop fetch cap left visited xs c = Inr (xs @ concat (map items ps))"
  using assms
proof (induction arbitrary: left visited xs rule: page_chain.induct)
  case (chain_last c p)
  then show ?case by (cases left) (auto simp: Let_def)
next
  case (chain_more c p c' ps)
  then obtain left' where left: "left = Suc left'" by (cases left) auto
  have "drain_loop fetch cap left' (page_key c # visited) (xs @ items p) c' =
      Inr ((xs @ items p) @ concat (map items ps))"
    by (rule chain_more.IH) (use chain_more.prems chain_more.hyps(2) left in auto)
  with chain_more left show ?case by (auto simp: Let_def)
qed

text \<open>Draining a list returns exactly the items of all its pages in order, within the bounds on
  pages and items; a list that fits the bounds and names no cursor twice is drained, so the only
  failures are those of a request, of the bounds, and of a cursor cycle.\<close>

theorem drain_pages_exact:
  "(\<forall>ys. drain_pages fetch bounds start = Inr ys \<longrightarrow>
      (\<exists>ps. page_chain fetch (or_else start \<lparr>pc_page = 1, pc_per_page = per_page_limit bounds\<rparr>) ps \<and>
        length ps \<le> max_pages bounds \<and> ys = concat (map items ps) \<and> length ys \<le> max_items bounds)) \<and>
   (\<forall>ps. page_chain fetch (or_else start \<lparr>pc_page = 1, pc_per_page = per_page_limit bounds\<rparr>) ps \<longrightarrow>
      length ps \<le> max_pages bounds \<longrightarrow> length (concat (map items ps)) \<le> max_items bounds \<longrightarrow>
      distinct (map page_key (chain_cursors
        (or_else start \<lparr>pc_page = 1, pc_per_page = per_page_limit bounds\<rparr>) ps)) \<longrightarrow>
      drain_pages fetch bounds start = Inr (concat (map items ps)))"
  unfolding drain_pages_def
  using drain_loop_Inr [of fetch "max_items bounds" "max_pages bounds" "[]" "[]"]
    drain_loop_chain [of fetch _ _ "max_pages bounds" "[]" "max_items bounds" "[]"]
  by simp

definition sample_pages :: "page_cursor \<Rightarrow> gitlab_error + nat page" where
  "sample_pages c =
     (if pc_page c = 1 then Inr (Page [1, 2] (Some \<lparr>pc_page = 2, pc_per_page = 100\<rparr>)) else Inr (Page [3] None))"

theorem drain_pages_exact_witness:
  "drain_pages sample_pages default_limits None = Inr [1, 2, 3]"
proof -
  let ?c = "\<lparr>pc_page = 1, pc_per_page = 100\<rparr>" and ?c2 = "\<lparr>pc_page = 2, pc_per_page = 100\<rparr>"
  have chain: "page_chain sample_pages ?c [Page [1, 2] (Some ?c2), Page [3] None]"
    by (rule chain_more [where c' = ?c2], (simp add: sample_pages_def)+)
      (rule chain_last, (simp add: sample_pages_def)+)
  have "page_key ?c \<noteq> page_key ?c2" by (simp add: page_key_def show_nat_inj)
  with chain drain_pages_exact [of sample_pages default_limits None] show ?thesis
    by (simp add: default_limits_def)
qed

text \<open>Pages never lead to another origin.\<close>

lemma next_cursor_same_origin:
  assumes "parse_next_cursor api param_of headers expected current = Inr (Some c)"
    and "parse_link_header (headers ''link'') = Inr links" and "map_of links ''next'' = Some l" and "l \<noteq> []"
  shows "\<exists>u. ua_parse api l = Some u \<and> origin_of u = expected \<and> to_positive_int (param_of u ''page'') = Some (pc_page c)"
  using assms by (auto simp: parse_next_cursor_def split: option.splits if_splits)

end
