(* ===== verification/Scheduler.thy ===== *)
theory Scheduler
  imports QueueProtocol "HOL-Library.Product_Lexorder" "HOL-Library.AList"
begin

text \<open>
  The sync scheduler of \<open>packages/domain/src/sync-scheduler.ts\<close>. It reads the per-user project
  enables, keeps those of active users with an active connection to the instance whose project
  is on the allowlist, and makes sure each such project has one active job. Row ids come from a
  function of the ids in use, which the database's primary key makes fresh.
\<close>

section \<open>Parameters and results\<close>

definition fresh_ids :: "(string list \<Rightarrow> string) \<Rightarrow> bool" where
  "fresh_ids new_id \<longleftrightarrow> (\<forall>ids. new_id ids \<notin> set ids)"

datatype scheduler_error = Bad_Interval_Seconds

definition new_sync_scheduler :: "int option \<Rightarrow> scheduler_error + int" where
  "new_sync_scheduler interval =
     (let s = (case interval of None \<Rightarrow> 60 | Some v \<Rightarrow> v) in
      if s \<le> 0 \<or> max_safe_integer < s then Inl Bad_Interval_Seconds else Inr s)"

record schedule_result =
  targets_discovered :: nat
  jobs_enqueued :: nat
  jobs_coalesced :: nat

section \<open>Targets\<close>

text \<open>The key under which targets are collected: instance id, NUL, project id.\<close>

definition nul :: char where
  "nul = char_of (0::nat)"

definition target_key :: "string \<Rightarrow> string \<Rightarrow> string" where
  "target_key i p = i @ [nul] @ p"

definition user_active :: "database \<Rightarrow> string \<Rightarrow> bool" where
  "user_active db uid \<longleftrightarrow> (\<exists>u \<in> set (t_users db). u_id u = uid \<and> u_status u = User_Active)"

definition has_active_connection :: "database \<Rightarrow> string \<Rightarrow> string \<Rightarrow> bool" where
  "has_active_connection db uid inst \<longleftrightarrow>
     (\<exists>c \<in> set (t_connections db). cn_user c = uid \<and> cn_status c = Conn_Active \<and> cn_instance c = inst)"

definition enabled_rows :: "database \<Rightarrow> enable_row list" where
  "enabled_rows db =
     sort_key (\<lambda>e. (en_instance e, en_project e))
       (filter (\<lambda>e. user_active db (en_user e)) (t_enables db))"

definition allowlisted_keys :: "database \<Rightarrow> string list" where
  "allowlisted_keys db = map (\<lambda>a. target_key (al_instance a) (al_project a)) (t_allowlist db)"

definition add_target ::
    "database \<Rightarrow> enable_row \<Rightarrow> (string \<times> project_ref) list \<Rightarrow> (string \<times> project_ref) list" where
  "add_target db e m =
     (let k = target_key (en_instance e) (en_project e) in
      if k \<in> set (allowlisted_keys db) \<and> has_active_connection db (en_user e) (en_instance e)
      then AList.update k \<lparr>pr_instance = en_instance e, pr_project = en_project e\<rparr> m
      else m)"

definition schedule_targets :: "database \<Rightarrow> project_ref list" where
  "schedule_targets db = map snd (fold (add_target db) (enabled_rows db) [])"

section \<open>Scheduling one target\<close>

definition is_terminal :: "job_row \<Rightarrow> bool" where
  "is_terminal j \<longleftrightarrow> j_status j \<in> {Completed, Failed, Sync_Blocked}"

definition terminal_for :: "project_ref \<Rightarrow> job_row \<Rightarrow> bool" where
  "terminal_for p j \<longleftrightarrow> j_type j = project_sync_job_type \<and> job_for p j \<and> is_terminal j"

definition latest_terminal :: "project_ref \<Rightarrow> job_row list \<Rightarrow> job_row option" where
  "latest_terminal p jobs = last_by (\<lambda>j. (j_updated_at j, j_id j)) (filter (terminal_for p) jobs)"

definition due_time :: "int \<Rightarrow> instant \<Rightarrow> project_ref \<Rightarrow> job_row list \<Rightarrow> instant" where
  "due_time interval now p jobs =
     (let due = (case latest_terminal p jobs of None \<Rightarrow> now
                 | Some j \<Rightarrow> j_updated_at j + interval * 1000)
      in if due > now then due else now)"

definition schedule_target ::
    "(string list \<Rightarrow> string) \<Rightarrow> int \<Rightarrow> instant \<Rightarrow> project_ref \<Rightarrow> job_row list
       \<Rightarrow> bool \<times> job_row list" where
  "schedule_target new_id interval now p jobs =
     (case find (active_for p) jobs of
        Some _ \<Rightarrow> (False, jobs)
      | None \<Rightarrow>
          (True, jobs @ [new_job (new_id (map j_id jobs)) p (due_time interval now p jobs) now]))"

fun schedule_loop ::
    "(string list \<Rightarrow> string) \<Rightarrow> int \<Rightarrow> instant \<Rightarrow> project_ref list \<Rightarrow> nat \<times> nat \<times> job_row list
       \<Rightarrow> nat \<times> nat \<times> job_row list" where
  "schedule_loop new_id interval now [] acc = acc"
| "schedule_loop new_id interval now (p # ps) (enq, coal, jobs) =
     (case schedule_target new_id interval now p jobs of
        (True, jobs') \<Rightarrow> schedule_loop new_id interval now ps (enq + 1, coal, jobs')
      | (False, jobs') \<Rightarrow> schedule_loop new_id interval now ps (enq, coal + 1, jobs'))"

definition schedule ::
    "(string list \<Rightarrow> string) \<Rightarrow> int \<Rightarrow> instant \<Rightarrow> database \<Rightarrow> schedule_result \<times> database" where
  "schedule new_id interval now db =
     (let targets = schedule_targets db;
          (enq, coal, jobs) = schedule_loop new_id interval now targets (0, 0, t_jobs db)
      in (\<lparr>targets_discovered = length targets, jobs_enqueued = enq, jobs_coalesced = coal\<rparr>,
          db\<lparr>t_jobs := jobs\<rparr>))"

section \<open>Targets: lemmas\<close>

text \<open>PostgreSQL text holds no NUL, so the key identifies the project.\<close>

definition no_nul_ids :: "database \<Rightarrow> bool" where
  "no_nul_ids db \<longleftrightarrow>
     (\<forall>e \<in> set (t_enables db). nul \<notin> set (en_instance e) \<and> nul \<notin> set (en_project e)) \<and>
     (\<forall>a \<in> set (t_allowlist db). nul \<notin> set (al_instance a) \<and> nul \<notin> set (al_project a))"

lemma target_key_inj:
  assumes "nul \<notin> set i" "nul \<notin> set i'" "target_key i p = target_key i' p'"
  shows "i = i' \<and> p = p'"
proof -
  have eq: "i @ nul # p = i' @ nul # p'" using assms(3) by (simp add: target_key_def)
  have "takeWhile (\<lambda>c. c \<noteq> nul) (i @ nul # p) = i"
    "takeWhile (\<lambda>c. c \<noteq> nul) (i' @ nul # p') = i'"
    using assms(1,2) by (auto simp: takeWhile_append)
  then have "i = i'" by (simp add: eq)
  with eq show ?thesis by simp
qed

definition enables_target :: "database \<Rightarrow> enable_row \<Rightarrow> project_ref \<Rightarrow> bool" where
  "enables_target db e p \<longleftrightarrow>
     en_instance e = pr_instance p \<and> en_project e = pr_project p \<and>
     user_active db (en_user e) \<and> has_active_connection db (en_user e) (en_instance e)"

definition is_target :: "database \<Rightarrow> project_ref \<Rightarrow> bool" where
  "is_target db p \<longleftrightarrow>
     (\<exists>a \<in> set (t_allowlist db). al_instance a = pr_instance p \<and> al_project a = pr_project p) \<and>
     (\<exists>e \<in> set (t_enables db). enables_target db e p)"

definition keyed :: "(string \<times> project_ref) list \<Rightarrow> bool" where
  "keyed m \<longleftrightarrow> distinct (map fst m) \<and>
     (\<forall>(k, p) \<in> set m. k = target_key (pr_instance p) (pr_project p))"

definition admitted :: "database \<Rightarrow> enable_row \<Rightarrow> bool" where
  "admitted db e \<longleftrightarrow>
     target_key (en_instance e) (en_project e) \<in> set (allowlisted_keys db) \<and>
     has_active_connection db (en_user e) (en_instance e)"

abbreviation ref_of :: "enable_row \<Rightarrow> project_ref" where
  "ref_of e \<equiv> \<lparr>pr_instance = en_instance e, pr_project = en_project e\<rparr>"

lemma add_target_eq:
  "add_target db e m =
     (if admitted db e then AList.update (target_key (en_instance e) (en_project e)) (ref_of e) m
      else m)"
  by (simp add: add_target_def admitted_def Let_def)

lemma map_of_fold_add_target:
  "map_of (fold (add_target db) es m) k =
     (case find (\<lambda>e. admitted db e \<and> target_key (en_instance e) (en_project e) = k) (rev es) of
        Some e \<Rightarrow> Some (ref_of e) | None \<Rightarrow> map_of m k)"
proof (induction es rule: rev_induct)
  case (snoc e es)
  then show ?case
    by (auto simp: add_target_eq update_conv')
qed simp

lemma distinct_fold_add_target:
  "distinct (map fst m) \<Longrightarrow> distinct (map fst (fold (add_target db) es m))"
  by (induction es arbitrary: m) (auto simp: add_target_eq distinct_update)

lemma target_entries:
  assumes "no_nul_ids db"
  shows "(k, p) \<in> set (fold (add_target db) (enabled_rows db) []) \<longleftrightarrow>
    k = target_key (pr_instance p) (pr_project p) \<and>
    (\<exists>e \<in> set (enabled_rows db). admitted db e \<and> ref_of e = p)"
    (is "?L \<longleftrightarrow> ?R")
proof -
  let ?m = "fold (add_target db) (enabled_rows db) []"
  let ?P = "\<lambda>e. admitted db e \<and> target_key (en_instance e) (en_project e) = k"
  have d: "distinct (map fst ?m)" by (rule distinct_fold_add_target) simp
  have "?L \<longleftrightarrow> map_of ?m k = Some p" using d by (simp add: map_of_eq_Some_iff)
  also have "\<dots> \<longleftrightarrow> ?R"
  proof (cases "find ?P (rev (enabled_rows db))")
    case None
    then have "\<forall>e \<in> set (enabled_rows db). \<not> ?P e" by (auto simp: find_None_iff)
    with None show ?thesis by (auto simp: map_of_fold_add_target)
  next
    case (Some e)
    then have e: "?P e" "e \<in> set (enabled_rows db)" by (auto dest: find_SomeD)
    have same: "ref_of f = ref_of e" if f: "f \<in> set (enabled_rows db)" "?P f" for f
    proof -
      have "nul \<notin> set (en_instance f)" "nul \<notin> set (en_instance e)"
        using f(1) e(2) assms by (simp_all add: no_nul_ids_def enabled_rows_def)
      moreover have "target_key (en_instance f) (en_project f) =
          target_key (en_instance e) (en_project e)" using f(2) e(1) by simp
      ultimately have "en_instance f = en_instance e \<and> en_project f = en_project e"
        by (rule target_key_inj)
      then show ?thesis by simp
    qed
    from Some have "map_of ?m k = Some (ref_of e)" by (simp add: map_of_fold_add_target)
    with same e show ?thesis
      by (metis option.inject project_ref.select_convs)
  qed
  finally show ?thesis .
qed

lemma admitted_iff:
  assumes "no_nul_ids db" and "e \<in> set (t_enables db)"
  shows "admitted db e \<longleftrightarrow>
    (\<exists>a \<in> set (t_allowlist db). al_instance a = en_instance e \<and> al_project a = en_project e) \<and>
    has_active_connection db (en_user e) (en_instance e)"
proof -
  have "target_key (en_instance e) (en_project e) \<in> set (allowlisted_keys db) \<longleftrightarrow>
      (\<exists>a \<in> set (t_allowlist db). al_instance a = en_instance e \<and> al_project a = en_project e)"
  proof
    assume "target_key (en_instance e) (en_project e) \<in> set (allowlisted_keys db)"
    then obtain a where a: "a \<in> set (t_allowlist db)"
      "target_key (en_instance e) (en_project e) = target_key (al_instance a) (al_project a)"
      by (auto simp: allowlisted_keys_def)
    with assms have "en_instance e = al_instance a \<and> en_project e = al_project a"
      by (intro target_key_inj) (auto simp: no_nul_ids_def)
    with a(1) show "\<exists>a \<in> set (t_allowlist db).
        al_instance a = en_instance e \<and> al_project a = en_project e" by auto
  next
    assume "\<exists>a \<in> set (t_allowlist db).
        al_instance a = en_instance e \<and> al_project a = en_project e"
    then show "target_key (en_instance e) (en_project e) \<in> set (allowlisted_keys db)"
      by (force simp: allowlisted_keys_def)
  qed
  then show ?thesis by (simp add: admitted_def)
qed

lemma set_schedule_targets:
  assumes "no_nul_ids db"
  shows "p \<in> set (schedule_targets db) \<longleftrightarrow> is_target db p"
proof -
  have "p \<in> set (schedule_targets db) \<longleftrightarrow>
      (\<exists>e \<in> set (enabled_rows db). admitted db e \<and> ref_of e = p)"
    using target_entries [OF assms]
    by (auto simp: schedule_targets_def image_iff) (metis prod.collapse snd_conv)
  also have "\<dots> \<longleftrightarrow> is_target db p"
  proof
    assume "\<exists>e \<in> set (enabled_rows db). admitted db e \<and> ref_of e = p"
    then obtain e where "e \<in> set (t_enables db)" "user_active db (en_user e)" "admitted db e"
      "ref_of e = p" by (auto simp: enabled_rows_def)
    with admitted_iff [OF assms this(1)] show "is_target db p"
      by (auto simp: is_target_def enables_target_def)
  next
    assume "is_target db p"
    then obtain e where e: "e \<in> set (t_enables db)" "enables_target db e p"
      and "\<exists>a \<in> set (t_allowlist db). al_instance a = en_instance e \<and> al_project a = en_project e"
      by (auto simp: is_target_def enables_target_def)
    with admitted_iff [OF assms e(1)] have "admitted db e" by (auto simp: enables_target_def)
    with e show "\<exists>e \<in> set (enabled_rows db). admitted db e \<and> ref_of e = p"
      by (intro bexI [of _ e]) (auto simp: enabled_rows_def enables_target_def project_ref_eq_iff)
  qed
  finally show ?thesis .
qed

lemma distinct_schedule_targets:
  assumes "no_nul_ids db"
  shows "distinct (schedule_targets db)"
proof -
  let ?m = "fold (add_target db) (enabled_rows db) []"
  have "distinct (map fst ?m)" by (rule distinct_fold_add_target) simp
  then have "distinct ?m" by (simp add: distinct_map)
  moreover have "inj_on snd (set ?m)"
    using target_entries [OF assms] by (auto simp: inj_on_def)
  ultimately show ?thesis by (simp add: schedule_targets_def distinct_map)
qed

section \<open>Scheduling: lemmas\<close>

lemma due_time_ge_now: "now \<le> due_time interval now p jobs"
  by (simp add: due_time_def Let_def)

lemma due_time_spacing:
  assumes "j \<in> set jobs" and "terminal_for p j"
  shows "j_updated_at j + interval * 1000 \<le> due_time interval now p jobs"
proof -
  have "latest_terminal p jobs \<noteq> None"
    using assms by (auto simp: latest_terminal_def filter_empty_conv)
  then obtain k where k: "latest_terminal p jobs = Some k" by blast
  from last_by_Some [OF this [unfolded latest_terminal_def]] assms
  have "j_updated_at j \<le> j_updated_at k" by auto
  with k show ?thesis by (simp add: due_time_def Let_def)
qed

lemma schedule_target_cases:
  obtains (busy) "schedule_target new_id interval now p jobs = (False, jobs)"
      "\<exists>j \<in> set jobs. active_for p j"
    | (created) "schedule_target new_id interval now p jobs =
        (True, jobs @ [new_job (new_id (map j_id jobs)) p (due_time interval now p jobs) now])"
      "\<forall>j \<in> set jobs. \<not> active_for p j"
proof (cases "find (active_for p) jobs")
  case None
  then have "\<forall>j \<in> set jobs. \<not> active_for p j" by (auto simp: find_None_iff)
  with None show ?thesis by (intro created) (simp_all add: schedule_target_def)
next
  case (Some j)
  then have "\<exists>j \<in> set jobs. active_for p j" by (auto simp: find_Some_iff)
  with Some show ?thesis by (intro busy) (simp_all add: schedule_target_def)
qed

lemma active_new_job: "active_for q (new_job jid p r now) \<longleftrightarrow> q = p"
  by (auto simp: active_for_def job_for_def new_job_def is_active_def project_ref_eq_iff)

lemma schedule_target_ok:
  assumes "fresh_ids new_id" and "jobs_ok jobs"
  shows "jobs_ok (snd (schedule_target new_id interval now p jobs))"
proof (rule schedule_target_cases [of new_id interval now p jobs])
  assume "schedule_target new_id interval now p jobs = (False, jobs)"
  with assms show ?thesis by simp
next
  assume eq: "schedule_target new_id interval now p jobs =
      (True, jobs @ [new_job (new_id (map j_id jobs)) p (due_time interval now p jobs) now])"
    and none: "\<forall>j \<in> set jobs. \<not> active_for p j"
  have "new_id (map j_id jobs) \<notin> j_id ` set jobs"
    using assms(1) by (metis fresh_ids_def list.set_map)
  with eq none assms(2) show ?thesis by (simp add: jobs_ok_enqueue)
qed

lemma schedule_target_has_active:
  "\<exists>j \<in> set (snd (schedule_target new_id interval now p jobs)). active_for p j"
  by (rule schedule_target_cases [of new_id interval now p jobs]) (auto simp: active_new_job)

lemma schedule_target_mono: "set jobs \<subseteq> set (snd (schedule_target new_id interval now p jobs))"
  by (rule schedule_target_cases [of new_id interval now p jobs]) auto

lemma schedule_loop_step:
  "schedule_loop new_id interval now (p # ps) (e, c, jobs) =
     (let r = schedule_target new_id interval now p jobs in
      schedule_loop new_id interval now ps
        (if fst r then e + 1 else e, if fst r then c else c + 1, snd r))"
  by (auto simp: Let_def split: prod.splits bool.splits)

lemma schedule_loop_jobs_ok:
  "fresh_ids new_id \<Longrightarrow> jobs_ok jobs \<Longrightarrow>
     jobs_ok (snd (snd (schedule_loop new_id interval now ps (e, c, jobs))))"
proof (induction ps arbitrary: e c jobs)
  case (Cons p ps)
  then show ?case
    by (simp only: schedule_loop_step Let_def) (simp add: schedule_target_ok)
qed simp

lemma schedule_loop_mono: "set jobs \<subseteq> set (snd (snd (schedule_loop new_id interval now ps (e, c, jobs))))"
proof (induction ps arbitrary: e c jobs)
  case (Cons p ps)
  show ?case
    using schedule_target_mono [of jobs new_id interval now p] Cons.IH
    by (simp only: schedule_loop_step Let_def) (meson subset_trans)
qed simp

lemma schedule_loop_active:
  "p \<in> set ps \<Longrightarrow>
     \<exists>j \<in> set (snd (snd (schedule_loop new_id interval now ps (e, c, jobs)))). active_for p j"
proof (induction ps arbitrary: e c jobs)
  case (Cons q ps)
  show ?case
  proof (cases "p = q")
    case True
    obtain j where "j \<in> set (snd (schedule_target new_id interval now q jobs))" "active_for q j"
      using schedule_target_has_active by blast
    with True show ?thesis
      unfolding schedule_loop_step Let_def
      by (intro bexI [of _ j]) (use schedule_loop_mono in \<open>auto simp: subset_iff\<close>)
  next
    case False
    with Cons show ?thesis by (simp only: schedule_loop_step Let_def set_ConsD) auto
  qed
qed simp

lemma schedule_loop_counts:
  "(case schedule_loop new_id interval now ps (e, c, jobs) of
      (e', c', jobs') \<Rightarrow> e' + c' = e + c + length ps \<and> length jobs' + e = length jobs + e')"
proof (induction ps arbitrary: e c jobs)
  case (Cons p ps)
  show ?case
  proof (rule schedule_target_cases [of new_id interval now p jobs])
    assume "schedule_target new_id interval now p jobs = (False, jobs)"
    then show ?thesis using Cons.IH [of e "c + 1" jobs] by (auto split: prod.splits)
  next
    let ?js = "jobs @ [new_job (new_id (map j_id jobs)) p (due_time interval now p jobs) now]"
    assume "schedule_target new_id interval now p jobs = (True, ?js)"
    then show ?thesis using Cons.IH [of "e + 1" c ?js] by (auto split: prod.splits)
  qed
qed simp

text \<open>With an active job for every target the loop creates nothing.\<close>

lemma schedule_loop_idle:
  assumes "\<forall>p \<in> set ps. \<exists>j \<in> set jobs. active_for p j"
  shows "schedule_loop new_id interval now ps (e, c, jobs) = (e, c + length ps, jobs)"
  using assms
proof (induction ps arbitrary: c)
  case (Cons p ps)
  then have "schedule_target new_id interval now p jobs = (False, jobs)"
    by (cases rule: schedule_target_cases [of new_id interval now p jobs]) auto
  with Cons show ?case by simp
qed simp

lemma schedule_proj:
  "t_jobs (snd (schedule new_id interval now db)) =
     snd (snd (schedule_loop new_id interval now (schedule_targets db) (0, 0, t_jobs db)))"
  "schedule_targets (snd (schedule new_id interval now db)) = schedule_targets db"
proof -
  show "t_jobs (snd (schedule new_id interval now db)) =
      snd (snd (schedule_loop new_id interval now (schedule_targets db) (0, 0, t_jobs db)))"
    by (simp add: schedule_def Let_def split: prod.splits)
  have "add_target (db\<lparr>t_jobs := js\<rparr>) = add_target db"
    "enabled_rows (db\<lparr>t_jobs := js\<rparr>) = enabled_rows db" for js
    by (simp_all add: fun_eq_iff add_target_def allowlisted_keys_def has_active_connection_def
        enabled_rows_def user_active_def)
  then show "schedule_targets (snd (schedule new_id interval now db)) = schedule_targets db"
    by (simp add: schedule_def schedule_targets_def Let_def split: prod.splits)
qed

lemma jobs_ok_schedule:
  "fresh_ids new_id \<Longrightarrow> jobs_ok (t_jobs db) \<Longrightarrow>
     jobs_ok (t_jobs (snd (schedule new_id interval now db)))"
  by (simp add: schedule_proj schedule_loop_jobs_ok)


section \<open>Properties\<close>

definition sample_user :: "string \<Rightarrow> user_status \<Rightarrow> user_row" where
  "sample_user uid st =
     \<lparr>u_id = uid, u_email = uid, u_norm = uid, u_pw_hash = [], u_role = Developer, u_status = st,
      u_created_by = None, u_invited_at = None, u_created_at = 0, u_last_login = None,
      u_failed = 0, u_locked_until = None\<rparr>"

definition sample_connection :: "string \<Rightarrow> string \<Rightarrow> connection_row" where
  "sample_connection uid inst =
     \<lparr>cn_id = uid @ inst, cn_user = uid, cn_instance = inst, cn_gl_user = ''7'', cn_gl_name = uid,
      cn_status = Conn_Active, cn_validated = None, cn_created_at = 0, cn_updated_at = 0\<rparr>"

text \<open>Two users enable project 42; project 43 is enabled but not on the allowlist.\<close>

definition sample_db :: database where
  "sample_db = empty_db
     \<lparr>t_users := [sample_user ''u1'' User_Active, sample_user ''u2'' User_Deactivated],
      t_connections := [sample_connection ''u1'' ''gi1'', sample_connection ''u2'' ''gi1''],
      t_allowlist := [\<lparr>al_id = ''a1'', al_instance = ''gi1'', al_project = ''42'', al_path = None,
        al_created_at = 0\<rparr>],
      t_enables := [\<lparr>en_user = ''u1'', en_instance = ''gi1'', en_project = ''42'', en_at = 0\<rparr>,
        \<lparr>en_user = ''u1'', en_instance = ''gi1'', en_project = ''43'', en_at = 0\<rparr>,
        \<lparr>en_user = ''u2'', en_instance = ''gi1'', en_project = ''42'', en_at = 0\<rparr>]\<rparr>"

definition sample_new_id :: "string list \<Rightarrow> string" where
  "sample_new_id ids = replicate (Suc (sum_list (map length ids))) CHR ''x''"

lemma sample_new_id_fresh: "fresh_ids sample_new_id"
proof -
  have "sample_new_id ids \<notin> set ids" for ids
  proof
    assume "sample_new_id ids \<in> set ids"
    then have "length (sample_new_id ids) \<le> sum_list (map length ids)"
      by (intro member_le_sum_list) auto
    then show False by (simp add: sample_new_id_def)
  qed
  then show ?thesis by (simp add: fresh_ids_def)
qed

lemma sample_db_no_nul: "no_nul_ids sample_db"
  by (simp add: no_nul_ids_def sample_db_def nul_def char_of_def)

lemma sample_db_jobs: "t_jobs sample_db = []" "jobs_ok (t_jobs sample_db)"
  by (simp_all add: sample_db_def empty_db_def jobs_ok_def single_active_def count_where_def)

lemma sample_db_target: "is_target sample_db sample_project"
  by (simp add: is_target_def enables_target_def sample_db_def sample_project_def user_active_def
      has_active_connection_def sample_user_def sample_connection_def)

text \<open>C6. The scheduler's targets are exactly the allowlisted projects that some active user with an
  active connection to the instance has enabled, each once.\<close>

theorem targets_exact:
  assumes "no_nul_ids db"
  shows "set (schedule_targets db) = {p. is_target db p} \<and> distinct (schedule_targets db)"
  using set_schedule_targets [OF assms] distinct_schedule_targets [OF assms] by blast

theorem targets_exact_witness:
  "sample_project \<in> set (schedule_targets sample_db) \<and>
   \<lparr>pr_instance = ''gi1'', pr_project = ''43''\<rparr> \<notin> set (schedule_targets sample_db)"
proof -
  have "\<not> is_target sample_db \<lparr>pr_instance = ''gi1'', pr_project = ''43''\<rparr>"
    by (simp add: is_target_def sample_db_def)
  with targets_exact [OF sample_db_no_nul] sample_db_target show ?thesis by blast
qed

text \<open>After a scheduling pass every target has exactly one pending or running job, every job
  that existed is still there unchanged, and the counts reported add up: one job created per
  enqueued target, none for a coalesced one.\<close>

theorem schedule_covers_targets:
  assumes "fresh_ids new_id" and "jobs_ok (t_jobs db)"
    and "schedule new_id interval now db = (r, db')"
  shows "(\<forall>p \<in> set (schedule_targets db). count_where (active_for p) (t_jobs db') = 1) \<and>
    set (t_jobs db) \<subseteq> set (t_jobs db') \<and> jobs_ok (t_jobs db') \<and>
    jobs_enqueued r + jobs_coalesced r = targets_discovered r \<and>
    targets_discovered r = length (schedule_targets db) \<and>
    length (t_jobs db') = length (t_jobs db) + jobs_enqueued r"
proof -
  have jobs: "t_jobs db' =
      snd (snd (schedule_loop new_id interval now (schedule_targets db) (0, 0, t_jobs db)))"
    using schedule_proj(1) [of new_id interval now db] assms(3) by simp
  have ok: "jobs_ok (t_jobs db')"
    unfolding jobs using assms(1,2) by (rule schedule_loop_jobs_ok)
  have one: "count_where (active_for p) (t_jobs db') = 1" if "p \<in> set (schedule_targets db)" for p
  proof -
    from schedule_loop_active [OF that]
    have "count_where (active_for p) (t_jobs db') \<noteq> 0" by (auto simp: jobs count_where_0)
    moreover have "count_where (active_for p) (t_jobs db') \<le> 1"
      using ok by (simp add: jobs_ok_def single_active_def)
    ultimately show ?thesis by simp
  qed
  have "set (t_jobs db) \<subseteq> set (t_jobs db')"
    unfolding jobs by (rule schedule_loop_mono)
  moreover have "jobs_enqueued r + jobs_coalesced r = targets_discovered r \<and>
      targets_discovered r = length (schedule_targets db) \<and>
      length (t_jobs db') = length (t_jobs db) + jobs_enqueued r"
    using schedule_loop_counts [where new_id = new_id and interval = interval and now = now
        and ps = "schedule_targets db" and e = 0 and c = 0 and jobs = "t_jobs db"]
      assms(3) by (auto simp: schedule_def Let_def split: prod.splits)
  ultimately show ?thesis using one ok by blast
qed

theorem schedule_covers_targets_witness:
  "count_where (active_for sample_project)
     (t_jobs (snd (schedule sample_new_id 60 7 sample_db))) = 1"
  using schedule_covers_targets [OF sample_new_id_fresh sample_db_jobs(2) surjective_pairing,
      of 60 7] set_schedule_targets [OF sample_db_no_nul] sample_db_target by simp

text \<open>A job the scheduler creates is never due before the scheduling instant, nor earlier than
  one interval after the last finished job of the same project was updated.\<close>

theorem schedule_spacing:
  assumes "schedule_target new_id interval now p jobs = (True, jobs')"
    and "j \<in> set jobs" and "terminal_for p j"
  shows "\<exists>k. jobs' = jobs @ [k] \<and> active_for p k \<and> now \<le> j_run_after k \<and>
    j_updated_at j + interval * 1000 \<le> j_run_after k"
proof (rule schedule_target_cases [of new_id interval now p jobs])
  assume "schedule_target new_id interval now p jobs = (False, jobs)"
  with assms(1) show ?thesis by simp
next
  let ?k = "new_job (new_id (map j_id jobs)) p (due_time interval now p jobs) now"
  assume "schedule_target new_id interval now p jobs = (True, jobs @ [?k])"
  with assms(1) have "jobs' = jobs @ [?k]" by simp
  moreover have "j_run_after ?k = due_time interval now p jobs" by (simp add: new_job_def)
  ultimately show ?thesis
    using due_time_spacing [OF assms(2,3)] due_time_ge_now by (auto simp: active_new_job)
qed

theorem schedule_spacing_witness:
  "\<exists>k jobs'. schedule_target sample_new_id 60 7000 sample_project
      [complete_row 5000 (new_job ''j1'' sample_project 5 5)] = (True, jobs') \<and>
    last jobs' = k \<and> 65000 \<le> j_run_after k"
proof -
  let ?j = "complete_row 5000 (new_job ''j1'' sample_project 5 5)"
  have "find (active_for sample_project) [?j] = None"
    by (simp add: active_for_def is_active_def complete_row_def)
  then have s: "schedule_target sample_new_id 60 7000 sample_project [?j] = (True,
      [?j] @ [new_job (sample_new_id (map j_id [?j])) sample_project
        (due_time 60 7000 sample_project [?j]) 7000])"
    by (simp add: schedule_target_def)
  have "terminal_for sample_project ?j"
    by (simp add: terminal_for_def is_terminal_def job_for_def complete_row_def new_job_def)
  from schedule_spacing [OF s _ this] s show ?thesis
    by (auto simp: complete_row_def)
qed

text \<open>Scheduling is idempotent: a second pass, at any later instant and with any interval,
  coalesces every target and leaves the database as the first pass left it.\<close>

theorem schedule_idempotent:
  "schedule new_id interval' now' (snd (schedule new_id interval now db)) =
     (\<lparr>targets_discovered = length (schedule_targets db), jobs_enqueued = 0,
       jobs_coalesced = length (schedule_targets db)\<rparr>, snd (schedule new_id interval now db))"
proof -
  let ?db = "snd (schedule new_id interval now db)"
  have "\<forall>p \<in> set (schedule_targets db). \<exists>j \<in> set (t_jobs ?db). active_for p j"
    unfolding schedule_proj using schedule_loop_active by blast
  then have "schedule_loop new_id interval' now' (schedule_targets db) (0, 0, t_jobs ?db) =
      (0, 0 + length (schedule_targets db), t_jobs ?db)"
    by (rule schedule_loop_idle)
  then show ?thesis
    by (simp add: schedule_def [of _ _ _ "?db"] schedule_proj(2) Let_def)
qed

end
