(* ===== verification/SyncStore.thy ===== *)
theory SyncStore
  imports GitLabTypes Scheduler
begin

text \<open>
  The persistence of the project sync: \<open>PrismaSyncPersistence\<close> of
  \<open>packages/domain/src/sync-orchestrator.ts\<close>, one definition per method, each one statement on the
  tables. An \<open>update\<close> of a row that does not exist, and the insertion of an invalid date, are the
  error \<open>Persist_Error\<close>. The conversions from GitLab's records to cache rows and the branch
  continuation stored in \<open>last_branch_cursor\<close> are here too.
\<close>

datatype persist_error = Persist_Error

section \<open>Candidates\<close>

record candidate =
  cd_connection :: string
  cd_user :: string
  cd_instance :: string
  cd_base_url :: string
  cd_internal :: bool

definition project_allowlisted :: "project_ref \<Rightarrow> database \<Rightarrow> bool" where
  "project_allowlisted p db \<longleftrightarrow>
     (\<exists>a \<in> set (t_allowlist db). al_instance a = pr_instance p \<and> al_project a = pr_project p)"

definition project_enabled :: "string \<Rightarrow> project_ref \<Rightarrow> database \<Rightarrow> bool" where
  "project_enabled uid p db \<longleftrightarrow>
     (\<exists>e \<in> set (t_enables db).
        en_user e = uid \<and> en_instance e = pr_instance p \<and> en_project e = pr_project p)"

definition is_candidate_row :: "project_ref \<Rightarrow> database \<Rightarrow> connection_row \<Rightarrow> bool" where
  "is_candidate_row p db c \<longleftrightarrow>
     cn_instance c = pr_instance p \<and> cn_status c = Conn_Active \<and> user_active db (cn_user c) \<and>
     project_enabled (cn_user c) p db"

definition to_candidate :: "database \<Rightarrow> connection_row \<Rightarrow> candidate option" where
  "to_candidate db c =
     (case find (\<lambda>g. gi_id g = cn_instance c) (t_instances db) of
        None \<Rightarrow> None
      | Some g \<Rightarrow> Some \<lparr>cd_connection = cn_id c, cd_user = cn_user c, cd_instance = cn_instance c,
          cd_base_url = gi_base_url g, cd_internal = gi_internal g\<rparr>)"

text \<open>The instance row exists by the foreign key of the connection.\<close>

definition find_candidates :: "project_ref \<Rightarrow> database \<Rightarrow> candidate list" where
  "find_candidates p db =
     (if \<not> project_allowlisted p db then []
      else List.map_filter (to_candidate db)
        (sort_key (\<lambda>c. (cn_created_at c, cn_id c)) (filter (is_candidate_row p db) (t_connections db))))"

section \<open>Connection and membership updates\<close>

definition mark_connection_invalid :: "string \<Rightarrow> database \<Rightarrow> database" where
  "mark_connection_invalid conn db =
     db\<lparr>t_connections := upd_where (\<lambda>c. cn_id c = conn \<and> cn_status c = Conn_Active)
       (\<lambda>c. c\<lparr>cn_status := Conn_Invalid\<rparr>) (t_connections db)\<rparr>"

definition invalidate_membership_user_instance :: "string \<Rightarrow> string \<Rightarrow> database \<Rightarrow> database" where
  "invalidate_membership_user_instance uid inst db =
     db\<lparr>t_memberships := del_where (\<lambda>m. mb_user m = uid \<and> mb_instance m = inst) (t_memberships db)\<rparr>"

text \<open>\<open>upsert\<close>: update the row the unique key finds, or insert one.\<close>

definition upsert_where :: "('r \<Rightarrow> bool) \<Rightarrow> 'r \<Rightarrow> ('r \<Rightarrow> 'r) \<Rightarrow> 'r list \<Rightarrow> 'r list" where
  "upsert_where k new upd rows =
     (if \<exists>r \<in> set rows. k r then upd_where k upd rows else rows @ [new])"

definition membership_for :: "string \<Rightarrow> project_ref \<Rightarrow> membership_row \<Rightarrow> bool" where
  "membership_for uid p m \<longleftrightarrow>
     mb_user m = uid \<and> mb_instance m = pr_instance p \<and> mb_project m = pr_project p"

definition put_membership ::
    "string \<Rightarrow> project_ref \<Rightarrow> bool \<Rightarrow> instant \<Rightarrow> instant \<Rightarrow> database \<Rightarrow> database" where
  "put_membership uid p allowed checked expires db =
     db\<lparr>t_memberships := upsert_where (membership_for uid p)
       \<lparr>mb_user = uid, mb_instance = pr_instance p, mb_project = pr_project p, mb_allowed = allowed,
         mb_checked_at = checked, mb_expires_at = expires\<rparr>
       (\<lambda>m. m\<lparr>mb_allowed := allowed, mb_checked_at := checked, mb_expires_at := expires\<rparr>)
       (t_memberships db)\<rparr>"

definition membership_denied_ttl_ms :: int where
  "membership_denied_ttl_ms = 300000"

definition deny_membership :: "string \<Rightarrow> project_ref \<Rightarrow> instant \<Rightarrow> database \<Rightarrow> database" where
  "deny_membership uid p checked =
     put_membership uid p False checked (checked + membership_denied_ttl_ms)"

section \<open>Sync states\<close>

definition commit_state_for :: "project_ref \<Rightarrow> commit_state_row \<Rightarrow> bool" where
  "commit_state_for p r \<longleftrightarrow> cs_instance r = pr_instance p \<and> cs_project r = pr_project p"

definition get_commit_state :: "project_ref \<Rightarrow> database \<Rightarrow> commit_state_row option" where
  "get_commit_state p db = find (commit_state_for p) (t_commit_states db)"

definition begin_commit_window ::
    "project_ref \<Rightarrow> instant \<Rightarrow> instant \<Rightarrow> string option \<Rightarrow> database \<Rightarrow> database" where
  "begin_commit_window p ws we cursor db =
     db\<lparr>t_commit_states := upsert_where (commit_state_for p)
       \<lparr>cs_instance = pr_instance p, cs_project = pr_project p, cs_watermark = None,
         cs_window_start = Some ws, cs_window_end = Some we, cs_branch_cursor = cursor\<rparr>
       (\<lambda>r. r\<lparr>cs_window_start := Some ws, cs_window_end := Some we, cs_branch_cursor := cursor\<rparr>)
       (t_commit_states db)\<rparr>"

definition update_commit_state ::
    "project_ref \<Rightarrow> (commit_state_row \<Rightarrow> commit_state_row) \<Rightarrow> database \<Rightarrow> persist_error + database" where
  "update_commit_state p f db =
     (if \<exists>r \<in> set (t_commit_states db). commit_state_for p r
      then Inr (db\<lparr>t_commit_states := upd_where (commit_state_for p) f (t_commit_states db)\<rparr>)
      else Inl Persist_Error)"

definition advance_commit_branch :: "project_ref \<Rightarrow> string option \<Rightarrow> database \<Rightarrow> persist_error + database" where
  "advance_commit_branch p cursor = update_commit_state p (\<lambda>r. r\<lparr>cs_branch_cursor := cursor\<rparr>)"

definition complete_commit_window :: "project_ref \<Rightarrow> instant \<Rightarrow> database \<Rightarrow> persist_error + database" where
  "complete_commit_window p wm =
     update_commit_state p (\<lambda>r. r\<lparr>cs_watermark := Some wm, cs_branch_cursor := None\<rparr>)"

definition mr_state_for :: "project_ref \<Rightarrow> mr_state_row \<Rightarrow> bool" where
  "mr_state_for p r \<longleftrightarrow> ms_instance r = pr_instance p \<and> ms_project r = pr_project p"

definition get_mr_state :: "project_ref \<Rightarrow> database \<Rightarrow> mr_state_row option" where
  "get_mr_state p db = find (mr_state_for p) (t_mr_states db)"

definition complete_mr_window :: "project_ref \<Rightarrow> instant \<Rightarrow> database \<Rightarrow> database" where
  "complete_mr_window p cur db =
     db\<lparr>t_mr_states := upsert_where (mr_state_for p)
       \<lparr>ms_instance = pr_instance p, ms_project = pr_project p, ms_updated_after = Some cur\<rparr>
       (\<lambda>r. r\<lparr>ms_updated_after := Some cur\<rparr>) (t_mr_states db)\<rparr>"

section \<open>Caches\<close>

definition commit_for :: "project_ref \<Rightarrow> string \<Rightarrow> commit_row \<Rightarrow> bool" where
  "commit_for p sha r \<longleftrightarrow> cc_instance r = pr_instance p \<and> cc_project r = pr_project p \<and> cc_sha r = sha"

definition row_ref :: "string \<Rightarrow> string \<Rightarrow> project_ref" where
  "row_ref i p = \<lparr>pr_instance = i, pr_project = p\<rparr>"

text \<open>The update lists every column but the key, so it puts the new row in the old one's place.\<close>

definition upsert_commit :: "commit_row \<Rightarrow> database \<Rightarrow> database" where
  "upsert_commit v db =
     db\<lparr>t_commits := upsert_where (commit_for (row_ref (cc_instance v) (cc_project v)) (cc_sha v)) v
       (\<lambda>r. r\<lparr>cc_email := cc_email v, cc_norm := cc_norm v, cc_authored_at := cc_authored_at v,
              cc_title := cc_title v, cc_url := cc_url v, cc_raw_at := cc_raw_at v\<rparr>)
       (t_commits db)\<rparr>"

definition mr_for :: "project_ref \<Rightarrow> int \<Rightarrow> mr_row \<Rightarrow> bool" where
  "mr_for p iid r \<longleftrightarrow> mr_instance r = pr_instance p \<and> mr_project r = pr_project p \<and> mr_iid r = iid"

definition upsert_merge_request :: "mr_row \<Rightarrow> database \<Rightarrow> database" where
  "upsert_merge_request v db =
     db\<lparr>t_mrs := upsert_where (mr_for (row_ref (mr_instance v) (mr_project v)) (mr_iid v)) v
       (\<lambda>r. r\<lparr>mr_title := mr_title v, mr_state := mr_state v, mr_email := mr_email v,
              mr_norm := mr_norm v, mr_head_sha := mr_head_sha v, mr_url := mr_url v,
              mr_updated_at := mr_updated_at v\<rparr>)
       (t_mrs db)\<rparr>"

section \<open>From GitLab's records to rows\<close>

definition clean_email :: "string option \<Rightarrow> string option" where
  "clean_email v =
     (let c = (case v of None \<Rightarrow> [] | Some s \<Rightarrow> js_trim s) in if c \<noteq> [] then Some c else None)"

text \<open>\<open>nfkc\<close> is \<open>String.prototype.normalize("NFKC")\<close>.\<close>

definition normalize_author_email :: "(string \<Rightarrow> string) \<Rightarrow> string option \<Rightarrow> string option" where
  "normalize_author_email nfkc v =
     (case v of
        None \<Rightarrow> None
      | Some s \<Rightarrow>
          (let n = js_lower (nfkc s) in if str_includes ''@'' n then Some n else None))"

definition non_empty :: "string \<Rightarrow> string option" where
  "non_empty s = (if s = [] then None else Some s)"

text \<open>\<open>date\<close> is \<open>new Date(text)\<close>; \<open>None\<close> is an invalid date, which the database rejects.\<close>

definition to_commit_write ::
    "(string \<Rightarrow> string) \<Rightarrow> (string \<Rightarrow> instant option) \<Rightarrow> project_ref \<Rightarrow> instant \<Rightarrow> gl_commit
       \<Rightarrow> persist_error + commit_row" where
  "to_commit_write nfkc date p raw_at c =
     (case date (gc_authored_date c) of
        None \<Rightarrow> Inl Persist_Error
      | Some stamp \<Rightarrow>
          (let email = clean_email (gc_author_email c) in
           Inr \<lparr>cc_instance = pr_instance p, cc_project = pr_project p, cc_sha = gc_id c,
             cc_email = email, cc_norm = normalize_author_email nfkc email, cc_authored_at = stamp,
             cc_title = non_empty (gc_title c), cc_url = gc_web_url c, cc_raw_at = raw_at\<rparr>))"

definition to_merge_request_write ::
    "(string \<Rightarrow> string) \<Rightarrow> (string \<Rightarrow> instant option) \<Rightarrow> project_ref \<Rightarrow> gl_merge_request
       \<Rightarrow> persist_error + mr_row" where
  "to_merge_request_write nfkc date p m =
     (case date (gm_updated_at m) of
        None \<Rightarrow> Inl Persist_Error
      | Some stamp \<Rightarrow>
          (let email = clean_email (gm_author_email m) in
           Inr \<lparr>mr_instance = pr_instance p, mr_project = pr_project p, mr_iid = gm_iid m,
             mr_title = non_empty (gm_title m), mr_state = non_empty (gm_state m), mr_email = email,
             mr_norm = normalize_author_email nfkc email, mr_head_sha = gm_sha m,
             mr_url = gm_web_url m, mr_updated_at = stamp\<rparr>))"

section \<open>The branch continuation\<close>

definition encode_branch_continuation :: "string list \<Rightarrow> nat \<Rightarrow> string" where
  "encode_branch_continuation branches i =
     json_stringify (JObj [(''v'', JNum 1), (''branches'', JArr (map JStr branches)),
       (''nextIndex'', JNum (of_nat i))])"

fun json_strings :: "json list \<Rightarrow> string list option" where
  "json_strings [] = Some []"
| "json_strings (JStr s # vs) = map_option (Cons s) (json_strings vs)"
| "json_strings (v # vs) = None"

definition decode_branch_continuation :: "string \<Rightarrow> (string list \<times> nat) option" where
  "decode_branch_continuation value =
     (case json_parse value of
        Some (JObj f) \<Rightarrow>
          if map_of f ''v'' \<noteq> Some (JNum 1) then None
          else (case (map_of f ''branches'', map_of f ''nextIndex'') of
            (Some (JArr vs), Some (JNum r)) \<Rightarrow>
              (case json_strings vs of
                 Some bs \<Rightarrow> if safe_integer r \<and> 0 \<le> r then Some (bs, nat \<lfloor>r\<rfloor>) else None
               | None \<Rightarrow> None)
          | _ \<Rightarrow> None)
      | _ \<Rightarrow> None)"

text \<open>\<open>lowerBound\<close>: binary search with \<open>cmp\<close>, which stands for \<open>localeCompare(_, "en")\<close>.\<close>

function bisect :: "(string \<Rightarrow> string \<Rightarrow> int) \<Rightarrow> string list \<Rightarrow> string \<Rightarrow> nat \<Rightarrow> nat \<Rightarrow> nat" where
  "bisect cmp values target low high =
     (if low < high then
        let middle = (low + high) div 2 in
        if cmp (values ! middle) target < 0 then bisect cmp values target (middle + 1) high
        else bisect cmp values target low middle
      else low)"
  by auto
termination
  by (relation "measure (\<lambda>(_, _, _, low, high). high - low)") auto

declare bisect.simps [simp del]

definition lower_bound :: "(string \<Rightarrow> string \<Rightarrow> int) \<Rightarrow> string list \<Rightarrow> string \<Rightarrow> nat" where
  "lower_bound cmp values target = bisect cmp values target 0 (length values)"

section \<open>Lemmas: continuation and search\<close>

lemma json_strings_map [simp]: "json_strings (map JStr bs) = Some bs"
  by (induction bs) simp_all

lemma continuation_roundtrip:
  assumes "int i \<le> max_safe_integer"
  shows "decode_branch_continuation (encode_branch_continuation branches i) = Some (branches, i)"
proof -
  have "printable (JObj [(''v'', JNum 1), (''branches'', JArr (map JStr branches)),
      (''nextIndex'', JNum (of_nat i))])"
    by (simp add: list_all_iff)
  from json_roundtrip [OF this] assms show ?thesis
    by (simp add: decode_branch_continuation_def encode_branch_continuation_def safe_integer_def)
qed

lemma bisect_correct:
  assumes "low \<le> high" "high \<le> length values"
    and "\<And>i j. i \<le> j \<Longrightarrow> j < length values \<Longrightarrow> cmp (values ! j) target < 0 \<Longrightarrow>
      cmp (values ! i) target < 0"
    and "\<And>i. i < low \<Longrightarrow> cmp (values ! i) target < 0"
    and "\<And>i. high \<le> i \<Longrightarrow> i < length values \<Longrightarrow> \<not> cmp (values ! i) target < 0"
  shows "bisect cmp values target low high \<le> length values \<and>
    (\<forall>i < bisect cmp values target low high. cmp (values ! i) target < 0) \<and>
    (\<forall>i. bisect cmp values target low high \<le> i \<and> i < length values \<longrightarrow> \<not> cmp (values ! i) target < 0)"
  using assms(1,2,4,5)
proof (induction "high - low" arbitrary: low high rule: less_induct)
  case less
  let ?m = "(low + high) div 2"
  show ?case
  proof (cases "low < high")
    case False
    with less.prems show ?thesis by (subst (1 2 3) bisect.simps) simp
  next
    case True
    then have m: "low \<le> ?m" "?m < high" by auto
    show ?thesis
    proof (cases "cmp (values ! ?m) target < 0")
      case below: True
      have "\<And>i. i < ?m + 1 \<Longrightarrow> cmp (values ! i) target < 0"
        using assms(3) [of _ ?m] below m less.prems(2) by (simp add: less_Suc_eq_le)
      with m less.prems have "bisect cmp values target (?m + 1) high \<le> length values \<and>
          (\<forall>i < bisect cmp values target (?m + 1) high. cmp (values ! i) target < 0) \<and>
          (\<forall>i. bisect cmp values target (?m + 1) high \<le> i \<and> i < length values \<longrightarrow>
            \<not> cmp (values ! i) target < 0)"
        by (intro less.hyps) auto
      moreover have "bisect cmp values target low high = bisect cmp values target (?m + 1) high"
        using True below by (subst bisect.simps) (simp add: Let_def)
      ultimately show ?thesis by simp
    next
      case above: False
      have "\<And>i. ?m \<le> i \<Longrightarrow> i < length values \<Longrightarrow> \<not> cmp (values ! i) target < 0"
        using assms(3) [of ?m] above by blast
      with m less.prems have "bisect cmp values target low ?m \<le> length values \<and>
          (\<forall>i < bisect cmp values target low ?m. cmp (values ! i) target < 0) \<and>
          (\<forall>i. bisect cmp values target low ?m \<le> i \<and> i < length values \<longrightarrow>
            \<not> cmp (values ! i) target < 0)"
        by (intro less.hyps) auto
      moreover have "bisect cmp values target low high = bisect cmp values target low ?m"
        using True above by (subst bisect.simps) (simp add: Let_def)
      ultimately show ?thesis by simp
    qed
  qed
qed

end
