(* ===== verification/Credentials.thy ===== *)
theory Credentials
  imports Crypto Scheduler
begin

text \<open>
  The personal access token store of \<open>packages/credentials\<close>: the token policy
  (\<open>pat-policy.ts\<close>) and \<open>PrismaPatCredentialProvider\<close> (\<open>pat-credential-provider.ts\<close>) on the
  table \<open>user_credentials\<close>. Each operation is one transaction: on an error the tables are as
  before. The provider's promise to its clients is the locale \<open>credential_store\<close>, interpreted
  on these definitions.
\<close>

datatype cred_error =
    Invalid_Pat
  | Invalid_Invalidation_Reason
  | Connection_Not_Found
  | Active_Credential_Exists
  | No_Active_Credential
  | Concurrent_Credential_Replace
  | Credential_Unreadable
  | Credential_Store_Failed

datatype provider_error = Cred_Error cred_error | Crypto_Error crypto_error

section \<open>Token policy\<close>

definition is_control :: "char \<Rightarrow> bool" where
  "is_control c \<longleftrightarrow> code_of c \<le> 31 \<or> code_of c = 127"

definition assert_valid_pat :: "string \<Rightarrow> provider_error + string" where
  "assert_valid_pat pat =
     (if pat = [] then Inl (Cred_Error Invalid_Pat)
      else let t = js_trim pat in
        if t = [] \<or> t \<noteq> pat then Inl (Cred_Error Invalid_Pat)
        else if list_ex is_control pat then Inl (Cred_Error Invalid_Pat)
        else Inr pat)"

text \<open>\<open>slice(-4)\<close>.\<close>

definition pat_hint_last4 :: "string \<Rightarrow> string" where
  "pat_hint_last4 s = drop (length s - 4) s"

section \<open>The provider\<close>

record credential_ref =
  cref_id :: string
  cref_hint :: string

definition reason_to_status :: "invalidation_reason \<Rightarrow> credential_status" where
  "reason_to_status r =
     (case r of Gitlab_Unauthorized \<Rightarrow> Cred_Invalid | Expired \<Rightarrow> Cred_Invalid
      | User_Revoked \<Rightarrow> Cred_Revoked | User_Deleted \<Rightarrow> Cred_Revoked
      | Connection_Deleted \<Rightarrow> Cred_Revoked)"

definition to_sealed :: "credential_row \<Rightarrow> sealed_secret" where
  "to_sealed r =
     \<lparr>ss_version = cr_env_version r, ss_algorithm = envelope_algorithm,
      ss_key_version = cr_key_version r, ss_nonce = cr_nonce r, ss_ciphertext = cr_ciphertext r,
      ss_auth_tag = cr_auth_tag r\<rparr>"

definition active_cred :: "string \<Rightarrow> credential_row \<Rightarrow> bool" where
  "active_cred conn r \<longleftrightarrow> cr_conn r = conn \<and> cr_status r = Cred_Active"

definition lock_active_credential_ids :: "string \<Rightarrow> credential_row list \<Rightarrow> string list" where
  "lock_active_credential_ids conn rows = map cr_id (filter (active_cred conn) rows)"

definition credential_row_of ::
    "string \<Rightarrow> instant \<Rightarrow> string \<Rightarrow> string \<Rightarrow> sealed_secret \<Rightarrow> credential_row" where
  "credential_row_of cid now conn secret s =
     \<lparr>cr_id = cid, cr_conn = conn, cr_ciphertext = ss_ciphertext s, cr_auth_tag = ss_auth_tag s,
      cr_env_version = ss_version s, cr_key_version = ss_key_version s, cr_nonce = ss_nonce s,
      cr_hint = pat_hint_last4 secret, cr_status = Cred_Active, cr_reason = None,
      cr_revoked_at = None, cr_created_at = now\<rparr>"

text \<open>What is random or from the clock in one insertion: the credential id, the nonce, the time.\<close>

record draw =
  dr_id :: string
  dr_nonce :: "byte list"
  dr_now :: instant

text \<open>The primary key and the partial unique index \<open>user_credentials_one_active_per_connection\<close>
  reject a duplicate; the foreign key rejects a connection that does not exist.\<close>

definition insert_active ::
    "aead \<Rightarrow> key_loader \<Rightarrow> draw \<Rightarrow> string \<Rightarrow> string \<Rightarrow> database
       \<Rightarrow> provider_error + credential_ref \<times> database" where
  "insert_active g kl d conn secret db =
     (case seal g kl (dr_nonce d) secret \<lparr>bd_connection = conn, bd_credential = dr_id d\<rparr> of
        Inl e \<Rightarrow> Inl (Crypto_Error e)
      | Inr s \<Rightarrow>
          if (\<exists>r \<in> set (t_credentials db). cr_id r = dr_id d \<or> active_cred conn r)
          then Inl (Cred_Error Concurrent_Credential_Replace)
          else if (\<forall>c \<in> set (t_connections db). cn_id c \<noteq> conn)
          then Inl (Cred_Error Connection_Not_Found)
          else Inr (\<lparr>cref_id = dr_id d, cref_hint = pat_hint_last4 secret\<rparr>,
            db\<lparr>t_credentials :=
              t_credentials db @ [credential_row_of (dr_id d) (dr_now d) conn secret s]\<rparr>))"

definition run_tx :: "database \<Rightarrow> 'e + 'a \<times> database \<Rightarrow> ('e + 'a) \<times> database" where
  "run_tx db r = (case r of Inl e \<Rightarrow> (Inl e, db) | Inr (a, db') \<Rightarrow> (Inr a, db'))"

definition store_credential ::
    "aead \<Rightarrow> key_loader \<Rightarrow> draw \<Rightarrow> string \<Rightarrow> string \<Rightarrow> database
       \<Rightarrow> (provider_error + credential_ref) \<times> database" where
  "store_credential g kl d conn pat db =
     (case assert_valid_pat pat of
        Inl e \<Rightarrow> (Inl e, db)
      | Inr secret \<Rightarrow> run_tx db
          (if lock_active_credential_ids conn (t_credentials db) \<noteq> []
           then Inl (Cred_Error Active_Credential_Exists)
           else insert_active g kl d conn secret db))"

definition replace_credential ::
    "aead \<Rightarrow> key_loader \<Rightarrow> draw \<Rightarrow> string \<Rightarrow> string \<Rightarrow> database
       \<Rightarrow> (provider_error + credential_ref) \<times> database" where
  "replace_credential g kl d conn pat db =
     (case assert_valid_pat pat of
        Inl e \<Rightarrow> (Inl e, db)
      | Inr secret \<Rightarrow> run_tx db
          (let active = lock_active_credential_ids conn (t_credentials db);
               rows = upd_where (\<lambda>r. cr_id r \<in> set active \<and> cr_status r = Cred_Active)
                 (\<lambda>r. r\<lparr>cr_status := Cred_Superseded\<rparr>) (t_credentials db)
           in insert_active g kl d conn secret (db\<lparr>t_credentials := rows\<rparr>)))"

definition get_access_token :: "aead \<Rightarrow> key_loader \<Rightarrow> string \<Rightarrow> database \<Rightarrow> provider_error + string" where
  "get_access_token g kl conn db =
     (case last_by cr_created_at (filter (active_cred conn) (t_credentials db)) of
        None \<Rightarrow> Inl (Cred_Error No_Active_Credential)
      | Some r \<Rightarrow>
          (case open_sealed g kl (to_sealed r) \<lparr>bd_connection = cr_conn r, bd_credential = cr_id r\<rparr> of
             Inl e \<Rightarrow> Inl (Crypto_Error e)
           | Inr p \<Rightarrow> Inr p))"

definition invalidate_credential ::
    "instant \<Rightarrow> string \<Rightarrow> invalidation_reason \<Rightarrow> database \<Rightarrow> database" where
  "invalidate_credential now conn reason db =
     db\<lparr>t_credentials := upd_where (active_cred conn)
       (\<lambda>r. r\<lparr>cr_status := reason_to_status reason, cr_reason := Some reason,
              cr_revoked_at := Some now\<rparr>) (t_credentials db)\<rparr>"

section \<open>Invariant\<close>

definition creds_ok :: "database \<Rightarrow> bool" where
  "creds_ok db \<longleftrightarrow>
     distinct (map cr_id (t_credentials db)) \<and>
     (\<forall>conn. count_where (active_cred conn) (t_credentials db) \<le> 1)"

lemma reason_not_active [simp]: "reason_to_status r \<noteq> Cred_Active"
  by (cases r) (simp_all add: reason_to_status_def)

lemma assert_valid_pat_Inr:
  "assert_valid_pat pat = Inr s \<longleftrightarrow>
     s = pat \<and> pat \<noteq> [] \<and> js_trim pat = pat \<and> list_all (\<lambda>c. \<not> is_control c) pat"
  by (auto simp: assert_valid_pat_def Let_def list_ex_iff list_all_iff)

lemma insert_active_Inr:
  assumes "insert_active g kl d conn secret db = Inr (ref, db')"
  obtains s where
    "seal g kl (dr_nonce d) secret \<lparr>bd_connection = conn, bd_credential = dr_id d\<rparr> = Inr s"
    "\<forall>r \<in> set (t_credentials db). cr_id r \<noteq> dr_id d \<and> \<not> active_cred conn r"
    "\<exists>c \<in> set (t_connections db). cn_id c = conn"
    "ref = \<lparr>cref_id = dr_id d, cref_hint = pat_hint_last4 secret\<rparr>"
    "db' = db\<lparr>t_credentials := t_credentials db @ [credential_row_of (dr_id d) (dr_now d) conn secret s]\<rparr>"
  using assms by (auto simp: insert_active_def split: sum.splits if_splits)

lemma active_row_of [simp]: "active_cred c (credential_row_of cid now conn secret s) \<longleftrightarrow> c = conn"
  by (auto simp: active_cred_def credential_row_of_def)

lemma cr_id_row_of [simp]: "cr_id (credential_row_of cid now conn secret s) = cid"
  by (simp add: credential_row_of_def)

lemma creds_ok_insert:
  assumes "creds_ok db" and "insert_active g kl d conn secret db = Inr (ref, db')"
  shows "creds_ok db'"
proof (rule insert_active_Inr [OF assms(2)])
  fix s
  assume r: "\<forall>r \<in> set (t_credentials db). cr_id r \<noteq> dr_id d \<and> \<not> active_cred conn r"
    and db': "db' = db\<lparr>t_credentials := t_credentials db @
      [credential_row_of (dr_id d) (dr_now d) conn secret s]\<rparr>"
  have "count_where (active_cred conn) (t_credentials db) = 0" using r by (simp add: count_where_0)
  with assms(1) r show ?thesis
    by (auto simp: creds_ok_def db' count_where_def)
qed

lemma token_insert:
  assumes "aead_ok g" "length (dr_nonce d) = nonce_bytes"
    and "insert_active g kl d conn secret db = Inr (ref, db')"
  shows "get_access_token g kl conn db' = Inr secret"
    and "c \<noteq> conn \<Longrightarrow> get_access_token g kl c db' = get_access_token g kl c db"
proof -
  obtain s where s: "seal g kl (dr_nonce d) secret \<lparr>bd_connection = conn, bd_credential = dr_id d\<rparr> = Inr s"
    "\<forall>r \<in> set (t_credentials db). cr_id r \<noteq> dr_id d \<and> \<not> active_cred conn r"
    "db' = db\<lparr>t_credentials := t_credentials db @ [credential_row_of (dr_id d) (dr_now d) conn secret s]\<rparr>"
    by (rule insert_active_Inr [OF assms(3)])
  have none: "filter (active_cred conn) (t_credentials db) = []"
    using s(2) by (simp add: filter_empty_conv)
  have alg: "ss_algorithm s = envelope_algorithm"
    using seal_sealed_ok [OF assms(1,2) s(1)] by (simp add: sealed_ok_def)
  have "to_sealed (credential_row_of (dr_id d) (dr_now d) conn secret s) = s"
    using alg by (simp add: to_sealed_def credential_row_of_def)
  with open_seal [OF assms(1,2) s(1)] show "get_access_token g kl conn db' = Inr secret"
    by (simp add: get_access_token_def s(3) none) (simp add: credential_row_of_def)
  show "c \<noteq> conn \<Longrightarrow> get_access_token g kl c db' = get_access_token g kl c db"
    by (simp add: get_access_token_def s(3))
qed


lemma filter_active_deactivate:
  assumes "\<And>r. cr_status (f r) \<noteq> Cred_Active"
  shows "filter (active_cred c) (upd_where (active_cred conn) f rows) =
    (if c = conn then [] else filter (active_cred c) rows)"
  using assms by (induction rows) (auto simp: active_cred_def)

lemma creds_ok_deactivate:
  assumes "creds_ok db" "\<And>r. cr_status (f r) \<noteq> Cred_Active" "\<And>r. cr_id (f r) = cr_id r"
  shows "creds_ok (db\<lparr>t_credentials := upd_where (active_cred conn) f (t_credentials db)\<rparr>)"
  using assms by (simp add: creds_ok_def upd_where_map_key count_where_def filter_active_deactivate)

lemma token_deactivate:
  assumes "\<And>r. cr_status (f r) \<noteq> Cred_Active"
  shows "get_access_token g kl c
      (db\<lparr>t_credentials := upd_where (active_cred conn) f (t_credentials db)\<rparr>) =
    (if c = conn then Inl (Cred_Error No_Active_Credential) else get_access_token g kl c db)"
  using assms by (simp add: get_access_token_def filter_active_deactivate)

lemma supersede_rows:
  assumes "creds_ok db"
  shows "upd_where (\<lambda>r. cr_id r \<in> set (lock_active_credential_ids conn (t_credentials db)) \<and>
      cr_status r = Cred_Active) f (t_credentials db) =
    upd_where (active_cred conn) f (t_credentials db)"
proof -
  have "cr_id r \<in> set (lock_active_credential_ids conn (t_credentials db)) \<and>
      cr_status r = Cred_Active \<longleftrightarrow> active_cred conn r" if "r \<in> set (t_credentials db)" for r
    using that assms
    by (auto simp: lock_active_credential_ids_def creds_ok_def distinct_map inj_on_def
        active_cred_def)
  then show ?thesis by (auto simp: upd_where_def)
qed

lemma store_Inr:
  assumes "store_credential g kl d conn pat db = (Inr ref, db')"
  shows "insert_active g kl d conn pat db = Inr (ref, db')"
  using assms
  by (auto simp: store_credential_def run_tx_def assert_valid_pat_Inr split: sum.splits if_splits)

lemma replace_Inr:
  assumes "creds_ok db" and "replace_credential g kl d conn pat db = (Inr ref, db')"
  shows "insert_active g kl d conn pat (db\<lparr>t_credentials := upd_where (active_cred conn)
    (\<lambda>r. r\<lparr>cr_status := Cred_Superseded\<rparr>) (t_credentials db)\<rparr>) = Inr (ref, db')"
  using assms
  by (auto simp: replace_credential_def run_tx_def assert_valid_pat_Inr Let_def supersede_rows
      split: sum.splits if_splits)

lemma tx_error_no_effect:
  "store_credential g kl d conn pat db = (Inl e, db') \<Longrightarrow> db' = db"
  "replace_credential g kl d conn pat db = (Inl e, db') \<Longrightarrow> db' = db"
  by (auto simp: store_credential_def replace_credential_def run_tx_def split: sum.splits if_splits)

section \<open>The provider's contract\<close>

text \<open>What the clients of the provider (the sync orchestrator, the connection service, the project
  access service) rely on: the token read back is the one last stored, an invalidated
  connection has none, a failed operation changes nothing, and no operation touches another
  connection's token.\<close>

locale credential_store =
  fixes invar :: "'q \<Rightarrow> bool"
    and token :: "string \<Rightarrow> 'q \<Rightarrow> provider_error + string"
    and store :: "string \<Rightarrow> string \<Rightarrow> 'q \<Rightarrow> (provider_error + credential_ref) \<times> 'q"
    and replace :: "string \<Rightarrow> string \<Rightarrow> 'q \<Rightarrow> (provider_error + credential_ref) \<times> 'q"
    and invalidate :: "string \<Rightarrow> invalidation_reason \<Rightarrow> 'q \<Rightarrow> 'q"
  assumes store_token: "invar q \<Longrightarrow> store c pat q = (Inr r, q') \<Longrightarrow>
      token c q' = Inr pat \<and> (\<forall>c'. c' \<noteq> c \<longrightarrow> token c' q' = token c' q)"
    and replace_token: "invar q \<Longrightarrow> replace c pat q = (Inr r, q') \<Longrightarrow>
      token c q' = Inr pat \<and> (\<forall>c'. c' \<noteq> c \<longrightarrow> token c' q' = token c' q)"
    and failed_store: "store c pat q = (Inl e, q') \<Longrightarrow> q' = q"
    and failed_replace: "replace c pat q = (Inl e, q') \<Longrightarrow> q' = q"
    and invalidate_token: "token c' (invalidate c reason q) =
      (if c' = c then Inl (Cred_Error No_Active_Credential) else token c' q)"
    and store_refused: "invar q \<Longrightarrow> token c q = Inr p \<Longrightarrow> \<exists>e. fst (store c pat q) = Inl e"
    and store_invar: "invar q \<Longrightarrow> invar (snd (store c pat q))"
    and replace_invar: "invar q \<Longrightarrow> invar (snd (replace c pat q))"
    and invalidate_invar: "invar q \<Longrightarrow> invar (invalidate c reason q)"
begin

lemma replace_then_invalidate:
  assumes "invar q" and "replace c pat q = (Inr r, q')"
  shows "token c (invalidate c reason q') = Inl (Cred_Error No_Active_Credential) \<and>
    (\<forall>c'. c' \<noteq> c \<longrightarrow> token c' (invalidate c reason q') = token c' q)"
  using replace_token [OF assms] by (simp add: invalidate_token)

lemma failed_replace_keeps_token:
  "fst (replace c pat q) = Inl e \<Longrightarrow> token c' (snd (replace c pat q)) = token c' q"
  using failed_replace [of c pat q e] by (cases "replace c pat q") simp

lemma second_store_refused:
  assumes "invar q" and "store c pat q = (Inr r, q')"
  shows "\<exists>e. store c pat' q' = (Inl e, q')"
proof -
  have inv: "invar q'" using store_invar [OF assms(1), of c pat] assms(2) by simp
  have "token c q' = Inr pat" using store_token [OF assms] by simp
  from store_refused [OF inv this] obtain e where "fst (store c pat' q') = Inl e" by blast
  then show ?thesis using failed_store [of c pat' q' e] by (cases "store c pat' q'") auto
qed

end

definition pat_store_ok :: "aead \<Rightarrow> draw \<Rightarrow> database \<Rightarrow> bool" where
  "pat_store_ok g d db \<longleftrightarrow> aead_ok g \<and> length (dr_nonce d) = nonce_bytes \<and> creds_ok db"

interpretation pat_store: credential_store
    "pat_store_ok g d" "get_access_token g kl" "store_credential g kl d" "replace_credential g kl d"
    "invalidate_credential now" for g kl d now
proof
  fix q q' c pat r
  assume inv: "pat_store_ok g d q" and st: "store_credential g kl d c pat q = (Inr r, q')"
  show "get_access_token g kl c q' = Inr pat \<and>
      (\<forall>c'. c' \<noteq> c \<longrightarrow> get_access_token g kl c' q' = get_access_token g kl c' q)"
    using token_insert [OF _ _ store_Inr [OF st]] inv by (auto simp: pat_store_ok_def)
next
  fix q q' c pat r
  assume inv: "pat_store_ok g d q" and st: "replace_credential g kl d c pat q = (Inr r, q')"
  then have "creds_ok q" by (simp add: pat_store_ok_def)
  from token_insert [OF _ _ replace_Inr [OF this st]] inv
  show "get_access_token g kl c q' = Inr pat \<and>
      (\<forall>c'. c' \<noteq> c \<longrightarrow> get_access_token g kl c' q' = get_access_token g kl c' q)"
    by (auto simp: pat_store_ok_def token_deactivate)
next
  fix c pat e q q'
  show "store_credential g kl d c pat q = (Inl e, q') \<Longrightarrow> q' = q"
    by (rule tx_error_no_effect(1))
  show "replace_credential g kl d c pat q = (Inl e, q') \<Longrightarrow> q' = q"
    by (rule tx_error_no_effect(2))
next
  fix c c' r q
  show "get_access_token g kl c' (invalidate_credential now c r q) =
      (if c' = c then Inl (Cred_Error No_Active_Credential) else get_access_token g kl c' q)"
    by (simp add: invalidate_credential_def token_deactivate)
next
  fix q c p pat
  assume "get_access_token g kl c q = Inr p"
  then have "filter (active_cred c) (t_credentials q) \<noteq> []" by (auto simp: get_access_token_def)
  then show "\<exists>e. fst (store_credential g kl d c pat q) = Inl e"
    by (auto simp: store_credential_def lock_active_credential_ids_def run_tx_def split: sum.splits)
next
  fix q c pat
  assume inv: "pat_store_ok g d q"
  then have ok: "creds_ok q" by (simp add: pat_store_ok_def)
  show "pat_store_ok g d (snd (store_credential g kl d c pat q))"
  proof (cases "store_credential g kl d c pat q")
    case (Pair res q')
    then show ?thesis
      using inv tx_error_no_effect(1) [of g kl d c pat q] creds_ok_insert [OF ok store_Inr]
      by (cases res) (auto simp: pat_store_ok_def)
  qed
  show "pat_store_ok g d (snd (replace_credential g kl d c pat q))"
  proof (cases "replace_credential g kl d c pat q")
    case (Pair res q')
    have "creds_ok (q\<lparr>t_credentials := upd_where (active_cred c)
        (\<lambda>r. r\<lparr>cr_status := Cred_Superseded\<rparr>) (t_credentials q)\<rparr>)"
      by (rule creds_ok_deactivate [OF ok]) simp_all
    with Pair show ?thesis
      using inv tx_error_no_effect(2) [of g kl d c pat q] creds_ok_insert [OF _ replace_Inr [OF ok]]
      by (cases res) (auto simp: pat_store_ok_def)
  qed
  show "pat_store_ok g d (invalidate_credential now c r q)" for r
    using inv ok by (simp add: pat_store_ok_def invalidate_credential_def creds_ok_deactivate)
qed


section \<open>Properties\<close>

text \<open>Storing or replacing a token makes it the one that is read back, and leaves every other
  connection's token alone; the table keeps at most one active credential per connection.\<close>

theorem stored_token_read_back:
  assumes "aead_ok g" and "length (dr_nonce d) = nonce_bytes" and "creds_ok db"
    and "store_credential g kl d conn pat db = (Inr r, db') \<or>
      replace_credential g kl d conn pat db = (Inr r, db')"
  shows "get_access_token g kl conn db' = Inr pat \<and>
    (\<forall>c. c \<noteq> conn \<longrightarrow> get_access_token g kl c db' = get_access_token g kl c db) \<and> creds_ok db'"
proof -
  have inv: "pat_store_ok g d db" using assms(1-3) by (simp add: pat_store_ok_def)
  have "creds_ok db'"
    using assms(4) pat_store.store_invar [OF inv, of kl conn pat]
      pat_store.replace_invar [OF inv, of kl conn pat] by (auto simp: pat_store_ok_def)
  with assms(4) show ?thesis
    using pat_store.store_token [OF inv] pat_store.replace_token [OF inv] by blast
qed

definition sample_draw :: draw where
  "sample_draw = \<lparr>dr_id = ''cr1'', dr_nonce = replicate 12 0, dr_now = 5\<rparr>"

lemma sample_draw_nonce: "length (dr_nonce sample_draw) = nonce_bytes"
  by (simp add: sample_draw_def nonce_bytes_def)

lemma sample_creds_ok: "creds_ok sample_db"
  by (simp add: creds_ok_def sample_db_def empty_db_def count_where_def)

lemma sample_pat: "assert_valid_pat ''glpat-1'' = Inr ''glpat-1''"
proof -
  have "js_trim ''glpat-1'' = ''glpat-1''" by (rule js_trim_plain) (simp add: is_js_space_def)
  then show ?thesis by (simp add: assert_valid_pat_Inr is_control_def)
qed

lemma sample_insert:
  "\<exists>r db'. insert_active sample_gcm sample_loader sample_draw ''u1gi1'' ''glpat-1'' sample_db =
     Inr (r, db')"
proof -
  have t: "js_trim ''glpat-1'' = ''glpat-1''" "js_trim ''u1gi1'' = ''u1gi1''" "js_trim ''cr1'' = ''cr1''"
    by (rule js_trim_plain, simp add: is_js_space_def)+
  show ?thesis
    by (simp add: insert_active_def seal_def build_pat_aad_def assert_version_def t
        assert_binding_id_def envelope_version_v1_def sample_loader_def sample_draw_def starts_with_def
        max_safe_integer_def sample_db_def empty_db_def sample_connection_def split: prod.split)
qed

lemma sample_store:
  "\<exists>r db'. store_credential sample_gcm sample_loader sample_draw ''u1gi1'' ''glpat-1'' sample_db =
     (Inr r, db')"
  using sample_insert
  by (auto simp: store_credential_def sample_pat run_tx_def lock_active_credential_ids_def
      sample_db_def empty_db_def)

theorem stored_token_read_back_witness:
  "\<exists>db'. get_access_token sample_gcm sample_loader ''u1gi1'' db' = Inr ''glpat-1''"
proof -
  obtain r db' where "store_credential sample_gcm sample_loader sample_draw ''u1gi1'' ''glpat-1''
      sample_db = (Inr r, db')" using sample_store by blast
  from stored_token_read_back [OF sample_gcm_ok sample_draw_nonce sample_creds_ok disjI1 [OF this]]
  show ?thesis by blast
qed

text \<open>Rotation is atomic and invalidation is final: a rejected replacement leaves the old token
  readable, a second store without a replacement is refused, and after an invalidation the
  connection has no token until one is stored again.\<close>

theorem rotation_atomic:
  assumes "aead_ok g" and "length (dr_nonce d) = nonce_bytes" and "creds_ok db"
    and "store_credential g kl d conn pat db = (Inr r, db')"
  shows "(\<exists>e. store_credential g kl d conn pat' db' = (Inl e, db')) \<and>
    (\<forall>e. fst (replace_credential g kl d conn pat' db') = Inl e \<longrightarrow>
      get_access_token g kl conn (snd (replace_credential g kl d conn pat' db')) = Inr pat) \<and>
    get_access_token g kl conn (invalidate_credential now conn reason db') =
      Inl (Cred_Error No_Active_Credential)"
proof -
  have inv: "pat_store_ok g d db" using assms(1-3) by (simp add: pat_store_ok_def)
  show ?thesis
    using pat_store.second_store_refused [OF inv assms(4)] pat_store.store_token [OF inv assms(4)]
      pat_store.failed_replace_keeps_token [of g kl d conn pat' db']
    by (simp add: pat_store.invalidate_token)
qed

theorem rotation_atomic_witness:
  "\<exists>db' e. store_credential sample_gcm sample_loader sample_draw ''u1gi1'' ''x'' db' = (Inl e, db')"
proof -
  obtain r db' where "store_credential sample_gcm sample_loader sample_draw ''u1gi1'' ''glpat-1''
      sample_db = (Inr r, db')" using sample_store by blast
  from rotation_atomic [OF sample_gcm_ok sample_draw_nonce sample_creds_ok this, of "''x''"]
  show ?thesis by blast
qed

section \<open>Refinement\<close>

text \<open>The specification: a map from connections to tokens. An operation on it is told whether the
  provider accepted the call; \<open>None\<close> is an answer that the specification does not allow.\<close>

datatype token_op =
    Op_Store string string
  | Op_Replace string string
  | Op_Invalidate string invalidation_reason

definition accepted :: "provider_error + 'a \<Rightarrow> bool" where
  "accepted r = (case r of Inl _ \<Rightarrow> False | Inr _ \<Rightarrow> True)"

definition spec_op :: "token_op \<Rightarrow> bool \<Rightarrow> (string \<rightharpoonup> string) \<Rightarrow> (string \<rightharpoonup> string) option" where
  "spec_op op ok m =
     (case op of
        Op_Store c p \<Rightarrow> if \<not> ok then Some m else if m c = None then Some (m(c \<mapsto> p)) else None
      | Op_Replace c p \<Rightarrow> Some (if ok then m(c \<mapsto> p) else m)
      | Op_Invalidate c r \<Rightarrow> if ok then Some (m(c := None)) else None)"

definition exec_op :: "aead \<Rightarrow> key_loader \<Rightarrow> token_op \<Rightarrow> draw \<Rightarrow> database \<Rightarrow> bool \<times> database" where
  "exec_op g kl op d db =
     (case op of
        Op_Store c p \<Rightarrow> (let (r, db') = store_credential g kl d c p db in (accepted r, db'))
      | Op_Replace c p \<Rightarrow> (let (r, db') = replace_credential g kl d c p db in (accepted r, db'))
      | Op_Invalidate c reason \<Rightarrow> (True, invalidate_credential (dr_now d) c reason db))"

fun exec_ops :: "aead \<Rightarrow> key_loader \<Rightarrow> (token_op \<times> draw) list \<Rightarrow> database \<Rightarrow> bool list \<times> database" where
  "exec_ops g kl [] db = ([], db)"
| "exec_ops g kl ((op, d) # ops) db =
     (let (ok, db1) = exec_op g kl op d db; (oks, db2) = exec_ops g kl ops db1 in (ok # oks, db2))"

fun spec_ops :: "(token_op \<times> bool) list \<Rightarrow> (string \<rightharpoonup> string) \<Rightarrow> (string \<rightharpoonup> string) option" where
  "spec_ops [] m = Some m"
| "spec_ops ((op, ok) # ops) m = (case spec_op op ok m of None \<Rightarrow> None | Some m' \<Rightarrow> spec_ops ops m')"

definition token_map :: "aead \<Rightarrow> key_loader \<Rightarrow> database \<Rightarrow> (string \<rightharpoonup> string)" where
  "token_map g kl db c = (case get_access_token g kl c db of Inl _ \<Rightarrow> None | Inr p \<Rightarrow> Some p)"

lemma token_map_upd:
  "get_access_token g kl c db' = Inr p \<and> (\<forall>x. x \<noteq> c \<longrightarrow> get_access_token g kl x db' = get_access_token g kl x db)
     \<Longrightarrow> token_map g kl db' = (token_map g kl db)(c \<mapsto> p)"
  by (auto simp: token_map_def fun_eq_iff)

lemma exec_op_refines:
  assumes "pat_store_ok g d db" and "exec_op g kl op d db = (ok, db')"
  shows "spec_op op ok (token_map g kl db) = Some (token_map g kl db') \<and> creds_ok db'"
proof (cases op)
  case (Op_Store c p)
  show ?thesis
  proof (cases "store_credential g kl d c p db")
    case (Pair r db1)
    with Op_Store assms have "db1 = db'" "ok = accepted r" by (simp_all add: exec_op_def)
    moreover have "creds_ok db1"
      using pat_store.store_invar [OF assms(1), of kl c p] Pair by (simp add: pat_store_ok_def)
    ultimately show ?thesis
      using Pair Op_Store pat_store.store_refused [OF assms(1), of kl c _ p] pat_store.failed_store [of g kl d c p db _ db1]
        token_map_upd [OF pat_store.store_token [OF assms(1), of kl c p _ db1]]
      by (cases r) (auto simp: spec_op_def accepted_def token_map_def split: sum.splits)
  qed
next
  case (Op_Replace c p)
  show ?thesis
  proof (cases "replace_credential g kl d c p db")
    case (Pair r db1)
    with Op_Replace assms have "db1 = db'" "ok = accepted r" by (simp_all add: exec_op_def)
    moreover have "creds_ok db1"
      using pat_store.replace_invar [OF assms(1), of kl c p] Pair by (simp add: pat_store_ok_def)
    ultimately show ?thesis
      using Pair Op_Replace pat_store.failed_replace [of g kl d c p db _ db1]
        token_map_upd [OF pat_store.replace_token [OF assms(1), of kl c p _ db1]]
      by (cases r) (auto simp: spec_op_def accepted_def)
  qed
next
  case (Op_Invalidate c reason)
  have "pat_store_ok g d (invalidate_credential (dr_now d) c reason db)"
    using pat_store.invalidate_invar [OF assms(1)] .
  with Op_Invalidate assms(2) show ?thesis
    by (auto simp: exec_op_def spec_op_def token_map_def fun_eq_iff pat_store.invalidate_token pat_store_ok_def)
qed

text \<open>C24. The credential provider implements a map from connections to tokens: over any sequence of calls,
  with any outcome of each, what can be read back is what the map holds; a refused call changes
  nothing, a first store is accepted only where the map has no token, and an invalidation always
  takes effect.\<close>

theorem provider_refines_token_map:
  assumes "aead_ok g" and "creds_ok db" and "list_all (\<lambda>x. length (dr_nonce (snd x)) = nonce_bytes) ops"
    and "exec_ops g kl ops db = (oks, db')"
  shows "spec_ops (zip (map fst ops) oks) (token_map g kl db) = Some (token_map g kl db') \<and> creds_ok db'"
  using assms(2-4)
proof (induction ops arbitrary: db oks)
  case (Cons x ops)
  obtain op d where x: "x = (op, d)" by (cases x)
  obtain ok db1 where e: "exec_op g kl op d db = (ok, db1)" by (cases "exec_op g kl op d db")
  obtain oks' where r: "exec_ops g kl ops db1 = (oks', db')" and "oks = ok # oks'"
    using Cons.prems e x by (auto split: prod.splits)
  have "pat_store_ok g d db" using Cons.prems x assms(1) by (simp add: pat_store_ok_def)
  from exec_op_refines [OF this e] Cons.IH [OF _ _ r] Cons.prems show ?case
    by (simp add: x \<open>oks = ok # oks'\<close>)
qed simp

theorem provider_refines_token_map_witness:
  "\<exists>oks db'. exec_ops sample_gcm sample_loader [(Op_Store ''u1gi1'' ''glpat-1'', sample_draw),
      (Op_Invalidate ''u1gi1'' User_Revoked, sample_draw)] sample_db = (oks, db') \<and>
    spec_ops (zip [Op_Store ''u1gi1'' ''glpat-1'', Op_Invalidate ''u1gi1'' User_Revoked] oks)
      (token_map sample_gcm sample_loader sample_db) = Some (token_map sample_gcm sample_loader db')"
proof -
  let ?ops = "[(Op_Store ''u1gi1'' ''glpat-1'', sample_draw), (Op_Invalidate ''u1gi1'' User_Revoked, sample_draw)]"
  obtain oks db' where e: "exec_ops sample_gcm sample_loader ?ops sample_db = (oks, db')"
    by (cases "exec_ops sample_gcm sample_loader ?ops sample_db")
  from provider_refines_token_map [OF sample_gcm_ok sample_creds_ok _ e] e sample_draw_nonce
  show ?thesis by auto
qed

end
