(* ===== verification/Orchestrator.thy ===== *)
theory Orchestrator
  imports SyncStore Credentials
begin

text \<open>
  The project sync of \<open>packages/domain/src/sync-orchestrator.ts\<close>: \<open>SyncOrchestrator.syncProject\<close>
  tries the candidates in order, drains the commits of every branch in one time window, then the
  merge requests. What lies outside is in \<open>sync_env\<close>: the GitLab client (any response or error
  at any request, counted by the number of requests made so far, \<open>tick\<close>), the clock, the time
  budget, the credential provider, \<open>localeCompare\<close>, \<open>normalize\<close> and \<open>Date\<close>. The page loops end only
  when GitLab stops naming further pages; \<open>Out_Of_Fuel\<close> is the value of a run that is cut off
  after \<open>sv_fuel\<close> pages of one listing, and no handler of the code catches it.
\<close>

section \<open>Environment and results\<close>

record commit_query =
  cq_since :: instant
  cq_until :: instant
  cq_ref :: string

record gl_client =
  cl_project :: "nat \<Rightarrow> string \<Rightarrow> gitlab_error + gl_project"
  cl_branches :: "nat \<Rightarrow> string \<Rightarrow> page_cursor option \<Rightarrow> gitlab_error + gl_branch page"
  cl_commits :: "nat \<Rightarrow> string \<Rightarrow> commit_query \<Rightarrow> page_cursor option \<Rightarrow> gitlab_error + gl_commit page"
  cl_mrs :: "nat \<Rightarrow> string \<Rightarrow> instant \<Rightarrow> page_cursor option \<Rightarrow> gitlab_error + gl_merge_request page"

datatype sync_error =
    Sync_Gitlab gitlab_error
  | Sync_Provider provider_error
  | Sync_Persist
  | Cursor_Repeated
  | Out_Of_Fuel

record sync_env =
  sv_client :: "candidate \<Rightarrow> string \<Rightarrow> gl_client"
  sv_token :: "string \<Rightarrow> database \<Rightarrow> provider_error + string"
  sv_invalidate :: "instant \<Rightarrow> string \<Rightarrow> invalidation_reason \<Rightarrow> database \<Rightarrow> database"
  sv_clock :: "nat \<Rightarrow> instant"
  sv_stop :: "nat \<Rightarrow> nat \<Rightarrow> string \<Rightarrow> bool"
  sv_cmp :: "string \<Rightarrow> string \<Rightarrow> int"
  sv_nfkc :: "string \<Rightarrow> string"
  sv_date :: "string \<Rightarrow> instant option"
  sv_overlap :: int
  sv_fuel :: nat

datatype commit_run = Commits_Completed nat | Commits_Paused nat string

datatype project_outcome =
    Sync_Completed nat nat
  | Sync_Paused nat nat string
  | Sync_Blocked_Outcome

definition commit_cold_start_since :: instant where
  "commit_cold_start_since = 315532800000"

definition default_commit_lookback_overlap_ms :: int where
  "default_commit_lookback_overlap_ms = 15 * 60 * 1000"

section \<open>Page loops\<close>

text \<open>The cursor of the next page, refused when it was already seen. The key joins the two numbers
  with a colon.\<close>

definition cursor_key :: "page_cursor \<Rightarrow> string" where
  "cursor_key c = show_nat (pc_page c) @ '':'' @ show_nat (pc_per_page c)"

definition checked_next_cursor ::
    "page_cursor option \<Rightarrow> string list \<Rightarrow> sync_error + page_cursor option \<times> string list" where
  "checked_next_cursor nxt seen =
     (case nxt of
        None \<Rightarrow> Inr (None, seen)
      | Some c \<Rightarrow>
          if cursor_key c \<in> set seen then Inl Cursor_Repeated
          else Inr (Some c, cursor_key c # seen))"

fun put_items :: "('a \<Rightarrow> 's \<Rightarrow> sync_error + 's) \<Rightarrow> 'a list \<Rightarrow> 's \<Rightarrow> (sync_error + unit) \<times> 's" where
  "put_items put [] s = (Inr (), s)"
| "put_items put (x # xs) s =
     (case put x s of Inl e \<Rightarrow> (Inl e, s) | Inr s' \<Rightarrow> put_items put xs s')"

text \<open>The \<open>do \<dots> while (cursor !== undefined)\<close> shared by the three listings.\<close>

fun page_loop ::
    "nat \<Rightarrow> (nat \<Rightarrow> page_cursor option \<Rightarrow> gitlab_error + 'a page) \<Rightarrow> ('a \<Rightarrow> 's \<Rightarrow> sync_error + 's)
       \<Rightarrow> page_cursor option \<Rightarrow> string list \<Rightarrow> nat \<Rightarrow> 's \<Rightarrow> (sync_error + unit) \<times> nat \<times> 's" where
  "page_loop 0 fetch put cursor seen tick s = (Inl Out_Of_Fuel, tick, s)"
| "page_loop (Suc fuel) fetch put cursor seen tick s =
     (case fetch tick cursor of
        Inl e \<Rightarrow> (Inl (Sync_Gitlab e), tick + 1, s)
      | Inr p \<Rightarrow>
          (case put_items put (items p) s of
             (Inl e, s') \<Rightarrow> (Inl e, tick + 1, s')
           | (Inr _, s') \<Rightarrow>
               (case checked_next_cursor (next_page p) seen of
                  Inl e \<Rightarrow> (Inl e, tick + 1, s')
                | Inr (None, _) \<Rightarrow> (Inr (), tick + 1, s')
                | Inr (Some c, seen') \<Rightarrow> page_loop fuel fetch put (Some c) seen' (tick + 1) s')))"

section \<open>Branch names\<close>

fun insert_by :: "(string \<Rightarrow> string \<Rightarrow> int) \<Rightarrow> string \<Rightarrow> string list \<Rightarrow> string list" where
  "insert_by cmp x [] = [x]"
| "insert_by cmp x (y # ys) = (if cmp x y \<le> 0 then x # y # ys else y # insert_by cmp x ys)"

definition sort_by :: "(string \<Rightarrow> string \<Rightarrow> int) \<Rightarrow> string list \<Rightarrow> string list" where
  "sort_by cmp xs = foldr (insert_by cmp) xs []"

text \<open>The \<open>Set\<close> of names keeps the first occurrence; the names are sorted once all pages are read.\<close>

definition add_name :: "gl_branch \<Rightarrow> string list \<Rightarrow> sync_error + string list" where
  "add_name b names = Inr (if gb_name b \<in> set names then names else names @ [gb_name b])"

definition list_all_branch_names ::
    "sync_env \<Rightarrow> gl_client \<Rightarrow> string \<Rightarrow> nat \<Rightarrow> (sync_error + string list) \<times> nat" where
  "list_all_branch_names env client project tick =
     (case page_loop (sv_fuel env) (\<lambda>t. cl_branches client t project) add_name None [] tick [] of
        (Inl e, t, _) \<Rightarrow> (Inl e, t)
      | (Inr _, t, names) \<Rightarrow> (Inr (sort_by (sv_cmp env) names), t))"

section \<open>Commits\<close>

abbreviation persist :: "persist_error + 'a \<Rightarrow> sync_error + 'a" where
  "persist r \<equiv> (case r of Inl _ \<Rightarrow> Inl Sync_Persist | Inr x \<Rightarrow> Inr x)"

definition put_commit ::
    "sync_env \<Rightarrow> project_ref \<Rightarrow> instant \<Rightarrow> gl_commit \<Rightarrow> nat \<times> database \<Rightarrow> sync_error + nat \<times> database" where
  "put_commit env p we c s =
     (case to_commit_write (sv_nfkc env) (sv_date env) p we c of
        Inl _ \<Rightarrow> Inl Sync_Persist
      | Inr row \<Rightarrow> Inr (fst s + 1, upsert_commit row (snd s)))"

text \<open>The loop over the branches from \<open>index\<close> on; \<open>rest\<close> is \<open>branches.slice(index)\<close>.\<close>

fun branch_loop ::
    "sync_env \<Rightarrow> gl_client \<Rightarrow> project_ref \<Rightarrow> instant \<Rightarrow> instant \<Rightarrow> string list \<Rightarrow> nat \<Rightarrow> string list
       \<Rightarrow> nat \<Rightarrow> nat \<Rightarrow> nat \<times> database \<Rightarrow> (sync_error + commit_run) \<times> nat \<times> nat \<times> database" where
  "branch_loop env client p ws we branches index [] completed tick s =
     (Inr (Commits_Completed (fst s)), tick, s)"
| "branch_loop env client p ws we branches index (b # rest) completed tick s =
     (case page_loop (sv_fuel env)
         (\<lambda>t. cl_commits client t (pr_project p) \<lparr>cq_since = ws, cq_until = we, cq_ref = b\<rparr>)
         (put_commit env p we) None [] tick s of
        (Inl e, t, s') \<Rightarrow> (Inl e, t, s')
      | (Inr _, t, s') \<Rightarrow>
          (case rest of
             [] \<Rightarrow> branch_loop env client p ws we branches (index + 1) rest (completed + 1) t s'
           | next_branch # _ \<Rightarrow>
               (case advance_commit_branch p
                   (Some (encode_branch_continuation branches (index + 1))) (snd s') of
                  Inl _ \<Rightarrow> (Inl Sync_Persist, t, s')
                | Inr db \<Rightarrow>
                    if sv_stop env t (completed + 1) next_branch
                    then (Inr (Commits_Paused (fst s') next_branch), t, fst s', db)
                    else branch_loop env client p ws we branches (index + 1) rest (completed + 1) t
                      (fst s', db))))"

text \<open>The window and the branch list of a run: a fresh window, or the one that an earlier run left
  unfinished, whose branch list is kept and extended by the branches discovered since.\<close>

record commit_plan =
  cp_start :: instant
  cp_end :: instant
  cp_branches :: "string list"
  cp_index :: nat
  cp_continuing :: bool
  cp_extended :: bool

definition unfinished :: "commit_state_row option \<Rightarrow> (instant \<times> instant \<times> string) option" where
  "unfinished prior =
     (case prior of
        None \<Rightarrow> None
      | Some r \<Rightarrow>
          (case (cs_window_start r, cs_window_end r, cs_branch_cursor r) of
             (Some ws, Some we, Some cur) \<Rightarrow> Some (ws, we, cur)
           | _ \<Rightarrow> None))"

definition fresh_start :: "sync_env \<Rightarrow> commit_state_row option \<Rightarrow> instant" where
  "fresh_start env prior =
     (case prior of
        None \<Rightarrow> commit_cold_start_since
      | Some r \<Rightarrow>
          (case cs_watermark r of
             None \<Rightarrow> commit_cold_start_since
           | Some wm \<Rightarrow> max commit_cold_start_since (wm - sv_overlap env)))"

definition plan_commits ::
    "sync_env \<Rightarrow> commit_state_row option \<Rightarrow> string list \<Rightarrow> instant \<Rightarrow> commit_plan" where
  "plan_commits env prior discovered now =
     (case unfinished prior of
        None \<Rightarrow>
          \<lparr>cp_start = fresh_start env prior, cp_end = now, cp_branches = discovered, cp_index = 0,
            cp_continuing = False, cp_extended = False\<rparr>
      | Some (ws, we, cur) \<Rightarrow>
          (case decode_branch_continuation cur of
             Some (saved, i) \<Rightarrow>
               (let added = filter (\<lambda>b. b \<notin> set saved) discovered; bs = saved @ added in
                \<lparr>cp_start = ws, cp_end = we, cp_branches = bs, cp_index = min i (length bs),
                  cp_continuing = True, cp_extended = (added \<noteq> [])\<rparr>)
           | None \<Rightarrow>
               \<lparr>cp_start = ws, cp_end = we, cp_branches = discovered,
                 cp_index = lower_bound (sv_cmp env) discovered cur, cp_continuing = True,
                 cp_extended = False\<rparr>))"

text \<open>What is persisted before the first branch is read.\<close>

definition open_window :: "project_ref \<Rightarrow> commit_plan \<Rightarrow> database \<Rightarrow> persist_error + database" where
  "open_window p pl db =
     (if cp_continuing pl then
        (if cp_extended pl then
           advance_commit_branch p
             (Some (encode_branch_continuation (cp_branches pl) (cp_index pl))) db
         else Inr db)
      else Inr (begin_commit_window p (cp_start pl) (cp_end pl)
        (if cp_branches pl \<noteq> [] then Some (encode_branch_continuation (cp_branches pl) 0) else None)
        db))"

definition sync_commits ::
    "sync_env \<Rightarrow> gl_client \<Rightarrow> project_ref \<Rightarrow> nat \<Rightarrow> database
       \<Rightarrow> (sync_error + commit_run) \<times> nat \<times> database" where
  "sync_commits env client p tick db =
     (case list_all_branch_names env client (pr_project p) tick of
        (Inl e, t) \<Rightarrow> (Inl e, t, db)
      | (Inr discovered, t) \<Rightarrow>
          (let pl = plan_commits env (get_commit_state p db) discovered (sv_clock env t) in
           case open_window p pl db of
             Inl _ \<Rightarrow> (Inl Sync_Persist, t, db)
           | Inr db1 \<Rightarrow>
               (case branch_loop env client p (cp_start pl) (cp_end pl) (cp_branches pl) (cp_index pl)
                   (drop (cp_index pl) (cp_branches pl)) 0 t (0, db1) of
                  (Inl e, t2, _, db2) \<Rightarrow> (Inl e, t2, db2)
                | (Inr (Commits_Paused n b), t2, _, db2) \<Rightarrow> (Inr (Commits_Paused n b), t2, db2)
                | (Inr (Commits_Completed n), t2, _, db2) \<Rightarrow>
                    (case complete_commit_window p (cp_end pl) db2 of
                       Inl _ \<Rightarrow> (Inl Sync_Persist, t2, db2)
                     | Inr db3 \<Rightarrow> (Inr (Commits_Completed n), t2, db3)))))"

section \<open>Merge requests\<close>

definition put_mr ::
    "sync_env \<Rightarrow> project_ref \<Rightarrow> gl_merge_request \<Rightarrow> nat \<times> database \<Rightarrow> sync_error + nat \<times> database" where
  "put_mr env p m s =
     (case to_merge_request_write (sv_nfkc env) (sv_date env) p m of
        Inl _ \<Rightarrow> Inl Sync_Persist
      | Inr row \<Rightarrow> Inr (fst s + 1, upsert_merge_request row (snd s)))"

definition sync_merge_requests ::
    "sync_env \<Rightarrow> gl_client \<Rightarrow> project_ref \<Rightarrow> nat \<Rightarrow> database \<Rightarrow> (sync_error + nat) \<times> nat \<times> database" where
  "sync_merge_requests env client p tick db =
     (let updated_after = (case get_mr_state p db of
            Some r \<Rightarrow> (case ms_updated_after r of Some u \<Rightarrow> u | None \<Rightarrow> 0) | None \<Rightarrow> 0);
          run_end = sv_clock env tick
      in case page_loop (sv_fuel env) (\<lambda>t. cl_mrs client t (pr_project p) updated_after)
          (put_mr env p) None [] tick (0, db) of
        (Inl e, t, _, db1) \<Rightarrow> (Inl e, t, db1)
      | (Inr _, t, n, db1) \<Rightarrow> (Inr n, t, complete_mr_window p run_end db1))"

section \<open>One project\<close>

definition invalidate_missing_credential :: "candidate \<Rightarrow> database \<Rightarrow> database" where
  "invalidate_missing_credential c db =
     invalidate_membership_user_instance (cd_user c) (cd_instance c)
       (mark_connection_invalid (cd_connection c) db)"

definition invalidate_unauthorized :: "sync_env \<Rightarrow> nat \<Rightarrow> candidate \<Rightarrow> database \<Rightarrow> database" where
  "invalidate_unauthorized env tick c db =
     invalidate_missing_credential c
       (sv_invalidate env (sv_clock env tick) (cd_connection c) Gitlab_Unauthorized db)"

definition deny_project :: "sync_env \<Rightarrow> nat \<Rightarrow> candidate \<Rightarrow> project_ref \<Rightarrow> database \<Rightarrow> database" where
  "deny_project env tick c p = deny_membership (cd_user c) p (sv_clock env tick)"

text \<open>What the handlers of \<open>syncProject\<close> do with an error: \<open>Some\<close> is the state in which the next
  candidate is tried, \<open>None\<close> rethrows.\<close>

definition candidate_rejected ::
    "sync_env \<Rightarrow> project_ref \<Rightarrow> candidate \<Rightarrow> sync_error \<Rightarrow> nat \<Rightarrow> database \<Rightarrow> database option" where
  "candidate_rejected env p c e tick db =
     (case e of
        Sync_Gitlab Gl_Unauthorized \<Rightarrow> Some (invalidate_unauthorized env tick c db)
      | Sync_Gitlab Gl_Project_Forbidden \<Rightarrow> Some (deny_project env tick c p db)
      | Sync_Gitlab Gl_Project_Not_Found \<Rightarrow> Some (deny_project env tick c p db)
      | _ \<Rightarrow> None)"

definition access_client ::
    "sync_env \<Rightarrow> project_ref \<Rightarrow> candidate \<Rightarrow> nat \<Rightarrow> database \<Rightarrow> (sync_error + gl_client) \<times> nat" where
  "access_client env p c tick db =
     (case sv_token env (cd_connection c) db of
        Inl e \<Rightarrow> (Inl (Sync_Provider e), tick)
      | Inr pat \<Rightarrow>
          (let client = sv_client env c pat in
           case cl_project client tick (pr_project p) of
             Inl e \<Rightarrow> (Inl (Sync_Gitlab e), tick + 1)
           | Inr _ \<Rightarrow> (Inr client, tick + 1)))"

definition sync_with ::
    "sync_env \<Rightarrow> project_ref \<Rightarrow> gl_client \<Rightarrow> nat \<Rightarrow> database
       \<Rightarrow> (sync_error + project_outcome) \<times> nat \<times> database" where
  "sync_with env p client tick db =
     (case sync_commits env client p tick db of
        (Inl e, t, db1) \<Rightarrow> (Inl e, t, db1)
      | (Inr (Commits_Paused n b), t, db1) \<Rightarrow> (Inr (Sync_Paused n 0 b), t, db1)
      | (Inr (Commits_Completed n), t, db1) \<Rightarrow>
          (case sync_merge_requests env client p t db1 of
             (Inl e, t2, db2) \<Rightarrow> (Inl e, t2, db2)
           | (Inr m, t2, db2) \<Rightarrow> (Inr (Sync_Completed n m), t2, db2)))"

fun try_candidates ::
    "sync_env \<Rightarrow> project_ref \<Rightarrow> candidate list \<Rightarrow> nat \<Rightarrow> database
       \<Rightarrow> (sync_error + project_outcome) \<times> nat \<times> database" where
  "try_candidates env p [] tick db = (Inr Sync_Blocked_Outcome, tick, db)"
| "try_candidates env p (c # cs) tick db =
     (case access_client env p c tick db of
        (Inl e, t) \<Rightarrow>
          (if e = Sync_Provider (Cred_Error No_Active_Credential)
           then try_candidates env p cs t (invalidate_missing_credential c db)
           else case candidate_rejected env p c e t db of
             Some db' \<Rightarrow> try_candidates env p cs t db'
           | None \<Rightarrow> (Inl e, t, db))
      | (Inr client, t) \<Rightarrow>
          (case sync_with env p client t db of
             (Inr r, t2, db2) \<Rightarrow> (Inr r, t2, db2)
           | (Inl e, t2, db2) \<Rightarrow>
               (case candidate_rejected env p c e t2 db2 of
                  Some db' \<Rightarrow> try_candidates env p cs t2 db'
                | None \<Rightarrow> (Inl e, t2, db2))))"

definition sync_project ::
    "sync_env \<Rightarrow> project_ref \<Rightarrow> nat \<Rightarrow> database \<Rightarrow> (sync_error + project_outcome) \<times> nat \<times> database" where
  "sync_project env p tick db = try_candidates env p (find_candidates p db) tick db"

end
