(* ===== verification/GitLabClient.thy ===== *)
theory GitLabClient
  imports Pagination Orchestrator
begin

text \<open>
  The read client of \<open>packages/gitlab-client/src/client.ts\<close>: each operation builds a URL under
  \<open>/api/v4\<close> of its instance, sends one GET through the executor of \<open>Http\<close> and maps the answer.
  \<open>sync_client\<close> is the client as the orchestrator uses it. A date is an instant, \<open>None\<close> an
  invalid one; \<open>rc_iso\<close> is \<open>toISOString\<close>.
\<close>

record read_client =
  rc_api :: url_api
  rc_param_of :: "url \<Rightarrow> string \<Rightarrow> string option"
  rc_iso :: "instant \<Rightarrow> string"
  rc_origin :: string
  rc_env :: http_env

definition create_read_client ::
    "url_api \<Rightarrow> (url \<Rightarrow> string \<Rightarrow> string option) \<Rightarrow> (instant \<Rightarrow> string) \<Rightarrow> string \<Rightarrow> http_env
       \<Rightarrow> gitlab_error + read_client" where
  "create_read_client api param_of to_iso origin env =
     (if origin = [] then Inl Gl_Invalid_Config
      else Inr \<lparr>rc_api = api, rc_param_of = param_of, rc_iso = to_iso, rc_origin = origin, rc_env = env\<rparr>)"

definition get_json ::
    "read_client \<Rightarrow> string \<Rightarrow> (string \<times> string option) list \<Rightarrow> route_scope \<Rightarrow> nat
       \<Rightarrow> (gitlab_error + raw_response) \<times> attempt_log list" where
  "get_json rc path query scope t =
     (case build_api_url (rc_api rc) (rc_origin rc) path query of
        Inl e \<Rightarrow> (Inl e, [])
      | Inr target \<Rightarrow> request_json (rc_env rc) target scope t)"

definition page_cursor_of :: "read_client \<Rightarrow> page_cursor option \<Rightarrow> page_cursor" where
  "page_cursor_of rc cursor =
     or_else cursor \<lparr>pc_page = 1, pc_per_page = per_page_limit (he_limits (rc_env rc))\<rparr>"

definition page_query :: "read_client \<Rightarrow> page_cursor option \<Rightarrow> (string \<times> string option) list" where
  "page_query rc cursor =
     (let c = page_cursor_of rc cursor in
      [(''page'', Some (show_nat (pc_page c))), (''per_page'', Some (show_nat (pc_per_page c)))])"

definition to_page ::
    "read_client \<Rightarrow> raw_response \<Rightarrow> page_cursor \<Rightarrow> (json \<Rightarrow> gitlab_error + 'a) \<Rightarrow> gitlab_error + 'a page" where
  "to_page rc r cursor f =
     bind_err (as_array (rr_json r)) (\<lambda>vs.
     bind_err (map_all f vs) (\<lambda>its.
     bind_err (parse_next_cursor (rc_api rc) (rc_param_of rc) (rr_headers r) (rc_origin rc) cursor)
       (\<lambda>nxt. Inr (Page its nxt))))"

definition to_iso_instant :: "read_client \<Rightarrow> instant option \<Rightarrow> gitlab_error + string" where
  "to_iso_instant rc v = (case v of None \<Rightarrow> Inl Gl_Invalid_Config | Some i \<Rightarrow> Inr (rc_iso rc i))"

section \<open>Operations\<close>

definition get_current_user :: "read_client \<Rightarrow> nat \<Rightarrow> gitlab_error + gl_user" where
  "get_current_user rc t =
     bind_err (fst (get_json rc ''/api/v4/user'' [] Global_Scope t)) (\<lambda>r. map_user (rr_json r))"

definition list_accessible_projects :: "read_client \<Rightarrow> nat \<Rightarrow> page_cursor option \<Rightarrow> gitlab_error + gl_project page" where
  "list_accessible_projects rc t cursor =
     bind_err (fst (get_json rc ''/api/v4/projects''
        ([(''membership'', Some ''true''), (''simple'', Some ''true''),
          (''order_by'', Some ''last_activity_at'')] @ page_query rc cursor) Global_Scope t))
       (\<lambda>r. to_page rc r (page_cursor_of rc cursor) map_project)"

definition get_project :: "read_client \<Rightarrow> nat \<Rightarrow> string \<Rightarrow> gitlab_error + gl_project" where
  "get_project rc t p =
     bind_err (encode_project_id p) (\<lambda>e.
     bind_err (fst (get_json rc (''/api/v4/projects/'' @ e) [] Project_Scope t))
       (\<lambda>r. map_project (rr_json r)))"

definition list_branches :: "read_client \<Rightarrow> nat \<Rightarrow> string \<Rightarrow> page_cursor option \<Rightarrow> gitlab_error + gl_branch page" where
  "list_branches rc t p cursor =
     bind_err (encode_project_id p) (\<lambda>e.
     bind_err (fst (get_json rc (''/api/v4/projects/'' @ e @ ''/repository/branches'')
        (page_query rc cursor) Project_Scope t))
       (\<lambda>r. to_page rc r (page_cursor_of rc cursor) map_branch))"

definition list_commits ::
    "read_client \<Rightarrow> nat \<Rightarrow> string \<Rightarrow> instant option \<Rightarrow> instant option \<Rightarrow> string option \<Rightarrow> page_cursor option
       \<Rightarrow> gitlab_error + gl_commit page" where
  "list_commits rc t p since until ref cursor =
     bind_err (encode_project_id p) (\<lambda>e.
     bind_err (to_iso_instant rc since) (\<lambda>s.
     bind_err (to_iso_instant rc until) (\<lambda>u.
     bind_err (fst (get_json rc (''/api/v4/projects/'' @ e @ ''/repository/commits'')
        ([(''since'', Some s), (''until'', Some u)] @
         (case ref of None \<Rightarrow> [] | Some n \<Rightarrow> [(''ref_name'', Some n)]) @ page_query rc cursor)
        Project_Scope t))
       (\<lambda>r. to_page rc r (page_cursor_of rc cursor) map_commit))))"

definition list_merge_requests ::
    "read_client \<Rightarrow> nat \<Rightarrow> string \<Rightarrow> instant option \<Rightarrow> string option \<Rightarrow> page_cursor option
       \<Rightarrow> gitlab_error + gl_merge_request page" where
  "list_merge_requests rc t p updated_after state cursor =
     bind_err (encode_project_id p) (\<lambda>e.
     bind_err (to_iso_instant rc updated_after) (\<lambda>u.
     bind_err (fst (get_json rc (''/api/v4/projects/'' @ e @ ''/merge_requests'')
        ([(''updated_after'', Some u)] @ (case state of None \<Rightarrow> [] | Some s \<Rightarrow> [(''state'', Some s)]) @
         [(''order_by'', Some ''updated_at''), (''sort'', Some ''asc'')] @ page_query rc cursor)
        Project_Scope t))
       (\<lambda>r. to_page rc r (page_cursor_of rc cursor) map_merge_request)))"

text \<open>The four operations as the orchestrator calls them; its request counter selects the steps of
  the world that a request sees.\<close>

definition sync_client :: "(nat \<Rightarrow> read_client) \<Rightarrow> gl_client" where
  "sync_client rc =
     \<lparr>cl_project = (\<lambda>t p. get_project (rc t) t p),
      cl_branches = (\<lambda>t p c. list_branches (rc t) t p c),
      cl_commits = (\<lambda>t p q c. list_commits (rc t) t p (Some (cq_since q)) (Some (cq_until q))
        (Some (cq_ref q)) c),
      cl_mrs = (\<lambda>t p u c. list_merge_requests (rc t) t p (Some u) None c)\<rparr>"

section \<open>Lemmas\<close>

lemma build_api_url_Inr:
  assumes "build_api_url api origin path query = Inr (u, q)"
  shows "\<exists>base. ua_parse api origin = Some base \<and> u = ua_set_pathname api path base \<and>
    origin_of u = origin_of base \<and> starts_with ''/api/v4'' path"
proof -
  have "starts_with ''/api/v4'' path"
    using assms by (auto simp: build_api_url_def starts_with_prefix prefix_def split: if_splits)
  then show ?thesis
    using assms by (auto simp: build_api_url_def Let_def split: if_splits option.splits)
qed

text \<open>What the executor may answer besides what the mappers reject: a 401 is the only way to
  \<open>Gl_Unauthorized\<close>, also through the client.\<close>

lemma bind_err_Inl: "bind_err r f = Inl e \<longleftrightarrow> r = Inl e \<or> (\<exists>x. r = Inr x \<and> f x = Inl e)"
  by (cases r) auto

lemma map_all_error: "map_all f xs = Inl e \<Longrightarrow> \<exists>x \<in> set xs. f x = Inl e"
  by (induction xs) (auto split: sum.splits)

lemma mapper_errors:
  "map_user v = Inl e \<Longrightarrow> e = Gl_Malformed_Response"
  "map_project v = Inl e \<Longrightarrow> e = Gl_Malformed_Response"
  "map_branch v = Inl e \<Longrightarrow> e = Gl_Malformed_Response"
  "map_commit v = Inl e \<Longrightarrow> e = Gl_Malformed_Response"
  "map_merge_request v = Inl e \<Longrightarrow> e = Gl_Malformed_Response"
  by (auto simp: map_user_def map_project_def map_branch_def map_commit_def map_merge_request_def
      as_object_def require_int_def require_string_def Let_def
      split: sum.splits option.splits json.splits if_splits)

lemma link_sections_error: "link_sections secs out = Inl e \<Longrightarrow> e = Gl_Malformed_Response"
  by (induction secs out rule: link_sections.induct)
    (auto simp: Let_def split: if_splits option.splits)

lemma next_cursor_error:
  "parse_next_cursor api param_of headers expected current = Inl e \<Longrightarrow>
     e = Gl_Malformed_Response \<or> e = Gl_Ssrf_Blocked"
  by (auto simp: parse_next_cursor_def parse_link_header_def Let_def dest: link_sections_error
      split: sum.splits option.splits if_splits)

lemma to_page_error:
  assumes "to_page rc r c f = Inl e" and "\<And>v e. f v = Inl e \<Longrightarrow> e = Gl_Malformed_Response"
  shows "e = Gl_Malformed_Response \<or> e = Gl_Ssrf_Blocked"
  using assms
  by (auto simp: to_page_def as_array_def dest!: map_all_error next_cursor_error
      split: sum.splits json.splits)

lemma build_api_url_error: "build_api_url api origin path query = Inl e \<Longrightarrow> e = Gl_Invalid_Config"
  by (auto simp: build_api_url_def Let_def split: if_splits option.splits)

lemma get_json_verdict:
  assumes "fst (get_json rc path query scope t) = Inl e" and "verdict_status e = Some s"
  shows "\<exists>t0 rq r. rq_token rq = he_token (rc_env rc) \<and> he_send (rc_env rc) t0 rq = Some r \<and> hr_status r = s"
proof (cases "build_api_url (rc_api rc) (rc_origin rc) path query")
  case (Inl e')
  with assms build_api_url_error [OF Inl] show ?thesis
    by (simp add: get_json_def verdict_status_def)
next
  case (Inr target)
  then obtain lg where "request_json (rc_env rc) target scope t = (Inl e, lg)"
    using assms(1) by (cases "request_json (rc_env rc) target scope t") (simp add: get_json_def)
  from request_json_verdict [OF this assms(2)] show ?thesis .
qed

lemma no_verdict [simp]:
  "verdict_status Gl_Malformed_Response = None" "verdict_status Gl_Ssrf_Blocked = None"
  "verdict_status Gl_Invalid_Config = None"
  by (simp_all add: verdict_status_def)

section \<open>Properties\<close>

text \<open>The errors on which the services revoke a credential or deny a project are GitLab's own
  words: an operation of the client that the sync uses ends with "unauthorized", "forbidden" or
  "not found" only if GitLab answered a request carrying this token with 401, 403 or 404.\<close>

theorem verdicts_need_answers:
  assumes "cl_project (sync_client rc) t p = Inl e \<or> cl_branches (sync_client rc) t p c = Inl e \<or>
    cl_commits (sync_client rc) t p q c = Inl e \<or> cl_mrs (sync_client rc) t p u c = Inl e"
    and "verdict_status e = Some s"
  shows "\<exists>t0 rq r. rq_token rq = he_token (rc_env (rc t)) \<and>
    he_send (rc_env (rc t)) t0 rq = Some r \<and> hr_status r = s"
proof -
  have enc: "encode_project_id p = Inl e' \<Longrightarrow> e' = Gl_Invalid_Config" for e'
    by (auto simp: encode_project_id_def Let_def split: if_splits)
  have pg: "to_page (rc t) r k f = Inl e \<Longrightarrow> (\<And>v e. f v = Inl e \<Longrightarrow> e = Gl_Malformed_Response) \<Longrightarrow> False"
    for r k and f :: "json \<Rightarrow> gitlab_error + 'x"
    using to_page_error assms(2) by fastforce
  have iso: "to_iso_instant (rc t) v = Inl e' \<Longrightarrow> e' = Gl_Invalid_Config" for v e'
    by (simp add: to_iso_instant_def split: option.splits)
  have "e \<noteq> Gl_Invalid_Config" "e \<noteq> Gl_Malformed_Response" using assms(2) by auto
  have pages: "to_page (rc t) r k map_branch \<noteq> Inl e" "to_page (rc t) r k map_commit \<noteq> Inl e"
    "to_page (rc t) r k map_merge_request \<noteq> Inl e" for r k
    using pg [of r k map_branch] pg [of r k map_commit] pg [of r k map_merge_request] mapper_errors
    by blast+
  note err = \<open>e \<noteq> Gl_Invalid_Config\<close> \<open>e \<noteq> Gl_Malformed_Response\<close> pages enc iso
  from assms(1) consider
    "get_project (rc t) t p = Inl e" | "list_branches (rc t) t p c = Inl e" |
    "list_commits (rc t) t p (Some (cq_since q)) (Some (cq_until q)) (Some (cq_ref q)) c = Inl e" |
    "list_merge_requests (rc t) t p (Some u) None c = Inl e"
    by (auto simp: sync_client_def)
  then have "\<exists>path query. fst (get_json (rc t) path query Project_Scope t) = Inl e"
  proof cases
    case 1
    with err mapper_errors(2) show ?thesis unfolding get_project_def bind_err_Inl by blast
  next
    case 2
    with err show ?thesis unfolding list_branches_def bind_err_Inl by blast
  next
    case 3
    with err show ?thesis unfolding list_commits_def bind_err_Inl by blast
  next
    case 4
    with err show ?thesis unfolding list_merge_requests_def bind_err_Inl by blast
  qed
  with get_json_verdict assms(2) show ?thesis by blast
qed

text \<open>A client of \<open>https://g\<close> whose token GitLab rejects.\<close>

definition sample_client :: read_client where
  "sample_client =
     \<lparr>rc_api = \<lparr>ua_parse = (\<lambda>_. Some sample_url), ua_set_pathname = (\<lambda>_ u. u)\<rparr>,
      rc_param_of = (\<lambda>_ _. None), rc_iso = (\<lambda>_. ''2026-01-01T00:00:00.000Z''),
      rc_origin = ''https://g'', rc_env = sample_http\<rparr>"

theorem verdicts_need_answers_witness:
  "\<exists>t0 rq r. rq_token rq = ''glpat-1'' \<and> he_send sample_http t0 rq = Some r \<and> hr_status r = 401"
proof -
  have "build_api_url (rc_api sample_client) (rc_origin sample_client) ''/api/v4/projects/7'' [] =
      Inr (sample_url, [])"
    by (simp add: build_api_url_def sample_client_def sample_url_def starts_with_def)
  moreover have "encode_project_id ''7'' = Inr ''7''"
    by (simp add: encode_project_id_def encode_uri_component_def js_trim_def js_trim_start_def
        is_js_space_def unreserved_def is_digit_def)
  ultimately have "get_project sample_client 0 ''7'' = Inl Gl_Unauthorized"
    using sample_request [of Project_Scope] by (auto simp: get_project_def get_json_def sample_client_def)
  then have "cl_project (sync_client (\<lambda>_. sample_client)) 0 ''7'' = Inl Gl_Unauthorized"
    by (simp add: sync_client_def)
  from verdicts_need_answers [of _ _ _ _ undefined _ 401, OF disjI1 [OF this]]
  show ?thesis by (simp add: verdict_status_def sample_client_def sample_http_def)
qed

end
