(* ===== verification/Membership.thy ===== *)
theory Membership
  imports SyncStore JsNumber
begin

text \<open>
  The membership cache of \<open>packages/domain/src/membership-cache.ts\<close> and its configuration
  (\<open>membership-cache-config.ts\<close>): one row per user, instance and project holds GitLab's last
  answer to "may this user see this project" until it expires. Denials live shorter than grants.
\<close>

section \<open>Configuration\<close>

datatype ttl_error = Bad_Ttl | Bad_Negative_Ttl

definition default_membership_cache_ttl_seconds :: int where
  "default_membership_cache_ttl_seconds = 300"

definition default_membership_cache_negative_ttl_seconds :: int where
  "default_membership_cache_negative_ttl_seconds = 30"

definition blank :: "string option \<Rightarrow> bool" where
  "blank raw \<longleftrightarrow> (case raw of None \<Rightarrow> True | Some s \<Rightarrow> js_trim s = [])"

definition parse_membership_cache_ttl_seconds :: "string option \<Rightarrow> ttl_error + int" where
  "parse_membership_cache_ttl_seconds raw =
     (if blank raw then Inr default_membership_cache_ttl_seconds
      else case js_positive_int (js_trim (the raw)) of
        None \<Rightarrow> Inl Bad_Ttl | Some n \<Rightarrow> Inr n)"

definition membership_cache_ttl_from_env :: "(string \<Rightarrow> string option) \<Rightarrow> ttl_error + int" where
  "membership_cache_ttl_from_env env =
     parse_membership_cache_ttl_seconds (env ''MEMBERSHIP_CACHE_TTL_SECONDS'')"

definition parse_membership_cache_negative_ttl_seconds :: "string option \<Rightarrow> int \<Rightarrow> ttl_error + int" where
  "parse_membership_cache_negative_ttl_seconds raw pos =
     (if blank raw then Inr (min default_membership_cache_negative_ttl_seconds pos)
      else case js_positive_int (js_trim (the raw)) of
        None \<Rightarrow> Inl Bad_Negative_Ttl | Some n \<Rightarrow> Inr (min n pos))"

definition membership_cache_negative_ttl_from_env ::
    "(string \<Rightarrow> string option) \<Rightarrow> int \<Rightarrow> ttl_error + int" where
  "membership_cache_negative_ttl_from_env env pos =
     parse_membership_cache_negative_ttl_seconds (env ''MEMBERSHIP_CACHE_NEGATIVE_TTL_SECONDS'') pos"

section \<open>The store\<close>

record cache_ttls =
  ttl_seconds :: int
  negative_ttl_seconds :: int

definition new_membership_cache :: "int \<Rightarrow> int option \<Rightarrow> cache_ttls" where
  "new_membership_cache ttl neg =
     \<lparr>ttl_seconds = ttl,
      negative_ttl_seconds = min
        (case neg of Some n \<Rightarrow> n | None \<Rightarrow> min default_membership_cache_negative_ttl_seconds ttl) ttl\<rparr>"

datatype membership_lookup = Fresh bool | Miss | Stale

definition lookup_membership :: "string \<Rightarrow> project_ref \<Rightarrow> instant \<Rightarrow> database \<Rightarrow> membership_lookup" where
  "lookup_membership uid p now db =
     (case find (membership_for uid p) (t_memberships db) of
        None \<Rightarrow> Miss
      | Some m \<Rightarrow> if mb_expires_at m \<le> now then Stale else Fresh (mb_allowed m))"

definition lookup_fresh_many ::
    "string \<Rightarrow> string \<Rightarrow> string list \<Rightarrow> instant \<Rightarrow> database \<Rightarrow> (string \<rightharpoonup> bool)" where
  "lookup_fresh_many uid inst ids now db =
     (if ids = [] then Map.empty
      else map_of (rev (map (\<lambda>m. (mb_project m, mb_allowed m))
        (filter (\<lambda>m. mb_user m = uid \<and> mb_instance m = inst \<and> mb_project m \<in> set ids \<and>
          now < mb_expires_at m) (t_memberships db)))))"

definition write_membership ::
    "cache_ttls \<Rightarrow> string \<Rightarrow> project_ref \<Rightarrow> bool \<Rightarrow> instant \<Rightarrow> database \<Rightarrow> database" where
  "write_membership ttls uid p allowed now =
     put_membership uid p allowed now
       (now + (if allowed then ttl_seconds ttls else negative_ttl_seconds ttls) * 1000)"

definition delete_memberships :: "(membership_row \<Rightarrow> bool) \<Rightarrow> database \<Rightarrow> database" where
  "delete_memberships k db = db\<lparr>t_memberships := del_where k (t_memberships db)\<rparr>"

definition invalidate_user :: "string \<Rightarrow> database \<Rightarrow> database" where
  "invalidate_user uid = delete_memberships (\<lambda>m. mb_user m = uid)"

definition invalidate_user_instance :: "string \<Rightarrow> string \<Rightarrow> database \<Rightarrow> database" where
  "invalidate_user_instance uid inst = delete_memberships (\<lambda>m. mb_user m = uid \<and> mb_instance m = inst)"

definition invalidate_user_project :: "string \<Rightarrow> project_ref \<Rightarrow> database \<Rightarrow> database" where
  "invalidate_user_project uid p = delete_memberships (membership_for uid p)"

definition invalidate_instance :: "string \<Rightarrow> database \<Rightarrow> database" where
  "invalidate_instance inst = delete_memberships (\<lambda>m. mb_instance m = inst)"

definition invalidate_project :: "project_ref \<Rightarrow> database \<Rightarrow> database" where
  "invalidate_project p =
     delete_memberships (\<lambda>m. mb_instance m = pr_instance p \<and> mb_project m = pr_project p)"

section \<open>Lemmas\<close>

lemma negative_ttl_le: "negative_ttl_seconds (new_membership_cache ttl neg) \<le> ttl"
  by (simp add: new_membership_cache_def)

lemma find_upd_where_key:
  assumes "\<And>r. k (f r) = k r"
  shows "find k (upd_where k f rows) = map_option f (find k rows)"
  by (induction rows) (auto simp: assms)

lemma find_put_membership:
  "find (membership_for uid p) (t_memberships (put_membership uid p a c e db)) =
     (case find (membership_for uid p) (t_memberships db) of
        None \<Rightarrow> Some \<lparr>mb_user = uid, mb_instance = pr_instance p, mb_project = pr_project p,
          mb_allowed = a, mb_checked_at = c, mb_expires_at = e\<rparr>
      | Some m \<Rightarrow> Some (m\<lparr>mb_allowed := a, mb_checked_at := c, mb_expires_at := e\<rparr>))"
proof -
  have "find k (xs @ [x]) = Some x" if "\<forall>r \<in> set xs. \<not> k r" "k x" for k and xs and x :: membership_row
    using that by (induction xs) auto
  moreover have "find k xs = None \<longleftrightarrow> (\<forall>r \<in> set xs. \<not> k r)" for k and xs :: "membership_row list"
    by (auto simp: find_None_iff)
  ultimately show ?thesis
    by (auto simp: put_membership_def upsert_where_def find_upd_where_key membership_for_def
        split: option.splits dest: find_SomeD)
qed

lemma lookup_put:
  "lookup_membership uid p now (put_membership uid p a c e db) = (if e \<le> now then Stale else Fresh a)"
  by (simp add: lookup_membership_def find_put_membership split: option.splits) auto

lemma lookup_fresh_many_Some:
  assumes "lookup_fresh_many uid inst ids now db q = Some a"
  obtains m where "m \<in> set (t_memberships db)"
    and "membership_for uid \<lparr>pr_instance = inst, pr_project = q\<rparr> m"
    and "mb_allowed m = a" and "now < mb_expires_at m" and "q \<in> set ids"
  using assms
  by (auto simp: lookup_fresh_many_def membership_for_def split: if_splits dest!: map_of_SomeD)

text \<open>C21. A cached answer is returned until its own time to live is over and never after, a denial
  never outlives a grant, and it is visible only for the user, instance and project it was given
  for.\<close>

theorem cached_answer_lifetime:
  assumes "ttls = new_membership_cache ttl neg"
  shows "lookup_membership uid p now (write_membership ttls uid p allowed t db) =
      (if now < t + (if allowed then ttl else negative_ttl_seconds ttls) * 1000
       then Fresh allowed else Stale) \<and>
    negative_ttl_seconds ttls \<le> ttl \<and>
    (uid' \<noteq> uid \<or> p' \<noteq> p \<longrightarrow>
      lookup_membership uid' p' now (write_membership ttls uid p allowed t db) =
      lookup_membership uid' p' now db)"
proof (intro conjI impI)
  show "lookup_membership uid p now (write_membership ttls uid p allowed t db) =
      (if now < t + (if allowed then ttl else negative_ttl_seconds ttls) * 1000
       then Fresh allowed else Stale)"
    by (auto simp: assms write_membership_def lookup_put new_membership_cache_def)
  show "negative_ttl_seconds ttls \<le> ttl" by (simp add: assms negative_ttl_le)
next
  assume other: "uid' \<noteq> uid \<or> p' \<noteq> p"
  have no: "\<not> membership_for uid' p' m" if "membership_for uid p m" for m
    using that other by (auto simp: membership_for_def project_ref_eq_iff)
  have "find (membership_for uid' p') (upd_where (membership_for uid p) f rows) =
      find (membership_for uid' p') rows" if "\<And>r. membership_for uid p (f r) = membership_for uid p r" for f rows
    using no that by (induction rows) auto
  moreover have "find k (xs @ [x]) = find k xs" if "\<not> k x" for k xs and x :: membership_row
    using that by (induction xs) auto
  ultimately have "find (membership_for uid' p') (t_memberships (put_membership uid p a c e db)) =
      find (membership_for uid' p') (t_memberships db)" for a c e
    using no [of "\<lparr>mb_user = uid, mb_instance = pr_instance p, mb_project = pr_project p,
      mb_allowed = a, mb_checked_at = c, mb_expires_at = e\<rparr>"]
    by (auto simp: put_membership_def upsert_where_def membership_for_def)
  then show "lookup_membership uid' p' now (write_membership ttls uid p allowed t db) =
      lookup_membership uid' p' now db"
    by (simp add: lookup_membership_def write_membership_def)
qed

theorem cached_answer_lifetime_witness:
  "lookup_membership ''u1'' sample_project 30000
     (write_membership (new_membership_cache 300 None) ''u1'' sample_project False 0 empty_db) = Stale"
  using cached_answer_lifetime [of "new_membership_cache 300 None" 300 None "''u1''" sample_project
      30000 False 0 empty_db]
  by (simp add: new_membership_cache_def default_membership_cache_negative_ttl_seconds_def)

end
