(* ===== verification/ProbePool.thy ===== *)
theory ProbePool
  imports GitLabTypes
begin

text \<open>
  The visibility probe of \<open>packages/domain/src/project-access.ts\<close>:
  \<open>probeAllowlistedProjectIds\<close> asks GitLab for each project id through \<open>mapWithConcurrency\<close>, a
  pool of workers that take the next index from a shared counter. The requests in flight finish
  in any order; \<open>pool_step\<close> finishes one of them and lets its worker take the next index.
\<close>

record visible_project =
  vp_id :: int
  vp_path :: string
  vp_name :: string

record probe_result =
  pb_visible :: "string \<rightharpoonup> visible_project"
  pb_failed :: "string \<rightharpoonup> string"

text \<open>What \<open>getProject\<close> throws: an error of the GitLab client or any other exception.\<close>

datatype probe_error = Probe_Gitlab gitlab_error | Probe_Other

section \<open>One answer\<close>

datatype probe_answer =
  Answer_Visible visible_project | Answer_Denied | Answer_Failed string | Answer_Abort probe_error

definition probe_answer_of :: "probe_error + gl_project \<Rightarrow> probe_answer" where
  "probe_answer_of r =
     (case r of
        Inr p \<Rightarrow> Answer_Visible \<lparr>vp_id = gp_id p, vp_path = gp_path p, vp_name = gp_name p\<rparr>
      | Inl Probe_Other \<Rightarrow> Answer_Abort Probe_Other
      | Inl (Probe_Gitlab e) \<Rightarrow>
          if e = Gl_Project_Forbidden \<or> e = Gl_Project_Not_Found then Answer_Denied
          else if e = Gl_Unauthorized then Answer_Abort (Probe_Gitlab e)
          else Answer_Failed (gitlab_error_code e))"

section \<open>The pool\<close>

text \<open>\<open>po_error\<close> is the first rejection, which is what \<open>Promise.all\<close> reports; the workers that are
  still busy go on.\<close>

record pool =
  po_next :: nat
  po_running :: "nat list"
  po_visible :: "string \<rightharpoonup> visible_project"
  po_failed :: "string \<rightharpoonup> string"
  po_error :: "probe_error option"

definition pool_start :: "string list \<Rightarrow> nat \<Rightarrow> pool" where
  "pool_start ids conc =
     \<lparr>po_next = min conc (length ids), po_running = [0..<min conc (length ids)],
      po_visible = Map.empty, po_failed = Map.empty, po_error = None\<rparr>"

definition take_next :: "string list \<Rightarrow> pool \<Rightarrow> pool" where
  "take_next ids s =
     (if po_next s < length ids
      then s\<lparr>po_running := po_running s @ [po_next s], po_next := po_next s + 1\<rparr> else s)"

definition pool_complete :: "(string \<Rightarrow> probe_error + gl_project) \<Rightarrow> string list \<Rightarrow> nat \<Rightarrow> pool \<Rightarrow> pool" where
  "pool_complete resp ids i s =
     (let s1 = s\<lparr>po_running := remove1 i (po_running s)\<rparr>; q = ids ! i in
      case probe_answer_of (resp q) of
        Answer_Visible v \<Rightarrow> take_next ids (s1\<lparr>po_visible := (po_visible s)(q \<mapsto> v)\<rparr>)
      | Answer_Denied \<Rightarrow> take_next ids s1
      | Answer_Failed c \<Rightarrow> take_next ids (s1\<lparr>po_failed := (po_failed s)(q \<mapsto> c)\<rparr>)
      | Answer_Abort e \<Rightarrow> s1\<lparr>po_error := (case po_error s of None \<Rightarrow> Some e | Some e0 \<Rightarrow> Some e0)\<rparr>)"

inductive pool_reach :: "(string \<Rightarrow> probe_error + gl_project) \<Rightarrow> string list \<Rightarrow> nat \<Rightarrow> nat \<Rightarrow> pool \<Rightarrow> bool"
  for resp ids conc where
  pool_init: "pool_reach resp ids conc 0 (pool_start ids conc)"
| pool_step: "pool_reach resp ids conc n s \<Longrightarrow> i \<in> set (po_running s) \<Longrightarrow>
    pool_reach resp ids conc (Suc n) (pool_complete resp ids i s)"

definition pool_outcome :: "pool \<Rightarrow> (probe_error + probe_result) option" where
  "pool_outcome s =
     (case po_error s of
        Some e \<Rightarrow> Some (Inl e)
      | None \<Rightarrow>
          if po_running s = [] then Some (Inr \<lparr>pb_visible = po_visible s, pb_failed = po_failed s\<rparr>)
          else None)"

section \<open>What the probe means\<close>

definition visible_of :: "(string \<Rightarrow> probe_error + gl_project) \<Rightarrow> string \<Rightarrow> visible_project option" where
  "visible_of resp q = (case probe_answer_of (resp q) of Answer_Visible v \<Rightarrow> Some v | _ \<Rightarrow> None)"

definition failed_of :: "(string \<Rightarrow> probe_error + gl_project) \<Rightarrow> string \<Rightarrow> string option" where
  "failed_of resp q = (case probe_answer_of (resp q) of Answer_Failed c \<Rightarrow> Some c | _ \<Rightarrow> None)"

definition abort_of :: "(string \<Rightarrow> probe_error + gl_project) \<Rightarrow> string \<Rightarrow> probe_error option" where
  "abort_of resp q = (case probe_answer_of (resp q) of Answer_Abort e \<Rightarrow> Some e | _ \<Rightarrow> None)"

section \<open>Invariant\<close>

definition finished_ids :: "string list \<Rightarrow> pool \<Rightarrow> string set" where
  "finished_ids ids s = {ids ! i | i. i < po_next s \<and> i \<notin> set (po_running s)}"

definition pool_ok :: "(string \<Rightarrow> probe_error + gl_project) \<Rightarrow> string list \<Rightarrow> nat \<Rightarrow> nat \<Rightarrow> pool \<Rightarrow> bool" where
  "pool_ok resp ids conc n s \<longleftrightarrow>
     distinct (po_running s) \<and> (\<forall>i \<in> set (po_running s). i < po_next s) \<and>
     po_next s \<le> length ids \<and> length (po_running s) \<le> conc \<and>
     n + length (po_running s) = po_next s \<and>
     po_visible s = (\<lambda>q. if q \<in> finished_ids ids s then visible_of resp q else None) \<and>
     po_failed s = (\<lambda>q. if q \<in> finished_ids ids s then failed_of resp q else None) \<and>
     (case po_error s of
        None \<Rightarrow> (\<forall>q \<in> finished_ids ids s. abort_of resp q = None) \<and>
          (po_next s < length ids \<longrightarrow> po_running s \<noteq> [])
      | Some e \<Rightarrow> (\<exists>q \<in> finished_ids ids s. abort_of resp q = Some e))"

lemma pool_ok_start: "0 < conc \<Longrightarrow> pool_ok resp ids conc 0 (pool_start ids conc)"
  by (auto simp: pool_ok_def pool_start_def finished_ids_def)

lemma finished_ids_complete:
  assumes "i \<in> set (po_running s)" and "distinct (po_running s)"
    and "\<forall>j \<in> set (po_running s). j < po_next s" and "po_next s \<le> length ids"
  shows "finished_ids ids (pool_complete resp ids i s) = insert (ids ! i) (finished_ids ids s)"
proof -
  have idx: "{j. j < po_next s \<and> j \<notin> set (remove1 i (po_running s))} =
      insert i {j. j < po_next s \<and> j \<notin> set (po_running s)}"
    using assms by auto
  have nxt: "{j. j < po_next t \<and> j \<notin> set (po_running t)} = {j. j < po_next s \<and> j \<notin> set (remove1 i (po_running s))}"
    if "t = take_next ids u" "po_next u = po_next s" "po_running u = remove1 i (po_running s)" for t u
    using that by (auto simp: take_next_def less_Suc_eq)
  have "{j. j < po_next (pool_complete resp ids i s) \<and> j \<notin> set (po_running (pool_complete resp ids i s))} =
      insert i {j. j < po_next s \<and> j \<notin> set (po_running s)}"
    unfolding idx [symmetric]
    by (cases "probe_answer_of (resp (ids ! i))") (auto simp: pool_complete_def Let_def nxt [OF refl])
  then have "(\<lambda>j. ids ! j) ` {j. j < po_next (pool_complete resp ids i s) \<and>
      j \<notin> set (po_running (pool_complete resp ids i s))} =
      insert (ids ! i) ((\<lambda>j. ids ! j) ` {j. j < po_next s \<and> j \<notin> set (po_running s)})"
    by simp
  then show ?thesis by (simp add: finished_ids_def image_Collect)
qed

lemma pool_complete_fields:
  "po_visible (pool_complete resp ids i s) =
     (case visible_of resp (ids ! i) of None \<Rightarrow> po_visible s | Some v \<Rightarrow> (po_visible s)(ids ! i \<mapsto> v))"
  "po_failed (pool_complete resp ids i s) =
     (case failed_of resp (ids ! i) of None \<Rightarrow> po_failed s | Some c \<Rightarrow> (po_failed s)(ids ! i \<mapsto> c))"
  "po_error (pool_complete resp ids i s) =
     (case po_error s of None \<Rightarrow> abort_of resp (ids ! i) | Some e \<Rightarrow> Some e)"
  "po_next (pool_complete resp ids i s) =
     (if abort_of resp (ids ! i) = None \<and> po_next s < length ids then po_next s + 1 else po_next s)"
  "po_running (pool_complete resp ids i s) = remove1 i (po_running s) @
     (if abort_of resp (ids ! i) = None \<and> po_next s < length ids then [po_next s] else [])"
  by (cases "probe_answer_of (resp (ids ! i))";
      simp add: pool_complete_def Let_def take_next_def visible_of_def failed_of_def abort_of_def
        split: option.split)+

lemma pool_ok_step:
  assumes ok: "pool_ok resp ids conc n s" and i: "i \<in> set (po_running s)"
  shows "pool_ok resp ids conc (Suc n) (pool_complete resp ids i s)"
proof -
  let ?t = "pool_complete resp ids i s"
  from ok have d: "distinct (po_running s)" "\<forall>j \<in> set (po_running s). j < po_next s"
    "po_next s \<le> length ids" "length (po_running s) \<le> conc" "n + length (po_running s) = po_next s"
    by (simp_all add: pool_ok_def)
  have fin: "finished_ids ids ?t = insert (ids ! i) (finished_ids ids s)"
    by (rule finished_ids_complete [OF i d(1-3)])
  have pos: "0 < length (po_running s)" using i by (cases "po_running s") auto
  have rem: "length (po_running s) = Suc (length (remove1 i (po_running s)))"
    using i pos by (simp add: length_remove1)
  have vis: "po_visible ?t = (\<lambda>q. if q \<in> finished_ids ids ?t then visible_of resp q else None)"
    using ok unfolding fin by (auto simp: pool_complete_fields pool_ok_def fun_eq_iff split: option.splits)
  have fail: "po_failed ?t = (\<lambda>q. if q \<in> finished_ids ids ?t then failed_of resp q else None)"
    using ok unfolding fin by (auto simp: pool_complete_fields pool_ok_def fun_eq_iff split: option.splits)
  have err: "case po_error ?t of
        None \<Rightarrow> (\<forall>q \<in> finished_ids ids ?t. abort_of resp q = None) \<and>
          (po_next ?t < length ids \<longrightarrow> po_running ?t \<noteq> [])
      | Some e \<Rightarrow> (\<exists>q \<in> finished_ids ids ?t. abort_of resp q = Some e)"
  proof (cases "po_error s")
    case None
    then show ?thesis
      using ok unfolding fin by (auto simp: pool_complete_fields pool_ok_def split: option.splits)
  next
    case (Some e)
    then show ?thesis
      using ok unfolding fin by (auto simp: pool_complete_fields pool_ok_def)
  qed
  have run: "distinct (po_running ?t)" "\<forall>j \<in> set (po_running ?t). j < po_next ?t"
    "po_next ?t \<le> length ids" "length (po_running ?t) \<le> conc" "Suc n + length (po_running ?t) = po_next ?t"
    using d rem by (auto simp: pool_complete_fields distinct_remove1 dest: notin_set_remove1 set_mp [OF set_remove1_subset])
  show ?thesis unfolding pool_ok_def using run vis fail err by blast
qed

lemma pool_reach_ok: "pool_reach resp ids conc n s \<Longrightarrow> 0 < conc \<Longrightarrow> pool_ok resp ids conc n s"
  by (induction rule: pool_reach.induct) (simp_all add: pool_ok_start pool_ok_step)

lemma finished_all:
  assumes "pool_ok resp ids conc n s" and "po_running s = []" and "po_error s = None"
  shows "finished_ids ids s = set ids"
proof -
  have "po_next s = length ids" using assms by (auto simp: pool_ok_def)
  then show ?thesis using assms(2) by (auto simp: finished_ids_def in_set_conv_nth)
qed

section \<open>Property\<close>

text \<open>C20. The concurrent probe is independent of the order in which GitLab answers: it never has
  more than its bound of requests in flight, it is done after one answer per project id, and then
  the visible and the failed projects are exactly what the answers say; it fails only with an
  answer that rejects the credential or is no GitLab error, and while it has no outcome some
  request is in flight.\<close>

theorem probe_order_independent:
  assumes "pool_reach resp ids conc n s" and "0 < conc"
  shows "length (po_running s) \<le> conc \<and> n \<le> length ids \<and>
    (case pool_outcome s of
       None \<Rightarrow> po_running s \<noteq> []
     | Some (Inl e) \<Rightarrow> (\<exists>q \<in> set ids. abort_of resp q = Some e)
     | Some (Inr r) \<Rightarrow> (\<forall>q. pb_visible r q = (if q \<in> set ids then visible_of resp q else None) \<and>
         pb_failed r q = (if q \<in> set ids then failed_of resp q else None)) \<and>
         (\<forall>q \<in> set ids. abort_of resp q = None))"
proof -
  note ok = pool_reach_ok [OF assms]
  have "finished_ids ids s \<subseteq> set ids"
    using ok by (auto simp: finished_ids_def pool_ok_def)
  then show ?thesis
    using ok finished_all [OF ok]
    by (auto simp: pool_ok_def pool_outcome_def split: option.splits)
qed

definition sample_answers :: "string \<Rightarrow> probe_error + gl_project" where
  "sample_answers q =
     (if q = ''1'' then Inl (Probe_Gitlab Gl_Project_Not_Found)
      else Inr \<lparr>gp_id = 2, gp_path = ''g/b'', gp_name = ''b'', gp_archived = False,
        gp_default_branch = None, gp_web_url = None, gp_last_activity = None\<rparr>)"

theorem probe_order_independent_witness:
  "\<exists>s r. pool_reach sample_answers [''1'', ''2''] 2 2 s \<and> pool_outcome s = Some (Inr r) \<and>
     pb_visible r ''1'' = None \<and> pb_visible r ''2'' = Some \<lparr>vp_id = 2, vp_path = ''g/b'', vp_name = ''b''\<rparr>"
proof -
  let ?f = "\<lambda>i. pool_complete sample_answers [''1'', ''2''] i"
  let ?s = "?f 0 (?f 1 (pool_start [''1'', ''2''] 2))"
  have start: "pool_start [''1'', ''2''] 2 = \<lparr>po_next = 2, po_running = [0, 1], po_visible = Map.empty,
      po_failed = Map.empty, po_error = None\<rparr>"
    by (simp add: pool_start_def upt_rec)
  have "pool_reach sample_answers [''1'', ''2''] 2 (Suc (Suc 0)) ?s"
    by (intro pool_reach.intros) (simp_all add: start pool_complete_fields)
  then have reach: "pool_reach sample_answers [''1'', ''2''] 2 2 ?s" by (simp only: numeral_2_eq_2)
  have "po_running ?s = []" "po_error ?s = None"
    by (simp_all add: start pool_complete_fields abort_of_def sample_answers_def probe_answer_of_def)
  then obtain r where r: "pool_outcome ?s = Some (Inr r)" by (simp add: pool_outcome_def)
  from probe_order_independent [OF reach] r
  have "pb_visible r ''1'' = visible_of sample_answers ''1''"
    "pb_visible r ''2'' = visible_of sample_answers ''2''" by simp_all
  with reach r show ?thesis
    by (intro exI conjI) (simp_all add: visible_of_def sample_answers_def probe_answer_of_def)
qed

end
