(* ===== verification/ProjectAccess.thy ===== *)
theory ProjectAccess
  imports Membership Credentials ProbePool
begin

text \<open>
  \<open>LiveProjectAccessService\<close> of \<open>packages/domain/src/project-access.ts\<close>: which projects a user may
  see. A project is authorised when it is on the allowlist, the user enabled it and GitLab shows
  it to the user's token, either by a fresh row of the membership cache or by a probe. The
  injected parts are in \<open>access_env\<close>: the probe (an \<open>AllowlistedProjectProbe\<close>, see
  \<open>ProbePool\<close>), the credential provider and the clock, read once per numbered step.
\<close>

section \<open>Environment\<close>

record access_env =
  ax_ttls :: cache_ttls
  ax_now :: "nat \<Rightarrow> instant"
  ax_token :: "string \<Rightarrow> database \<Rightarrow> provider_error + string"
  ax_invalidate :: "instant \<Rightarrow> string \<Rightarrow> invalidation_reason \<Rightarrow> database \<Rightarrow> database"
  ax_probe :: "nat \<Rightarrow> connection_row \<Rightarrow> string \<Rightarrow> string list \<Rightarrow> probe_error + probe_result"

datatype access_error =
  Access_Probe probe_error | Access_Provider provider_error | Access_Policy string

datatype visibility = Vis_Allowed "visible_project option" | Vis_Denied | Vis_Unknown string

record project_item =
  pi_instance :: string
  pi_project :: string
  pi_path :: "string option"
  pi_name :: "string option"
  pi_visible :: bool
  pi_enabled :: bool
  pi_error :: "string option"

section \<open>Resolving visibility\<close>

definition handle_unauthorized :: "access_env \<Rightarrow> connection_row \<Rightarrow> nat \<Rightarrow> database \<Rightarrow> database" where
  "handle_unauthorized env conn t db =
     (let db1 = ax_invalidate env (ax_now env t) (cn_id conn) Gitlab_Unauthorized db;
          db2 = db1\<lparr>t_connections := upd_where (\<lambda>c. cn_id c = cn_id conn)
            (\<lambda>c. c\<lparr>cn_status := Conn_Invalid\<rparr>) (t_connections db1)\<rparr>
      in invalidate_user_instance (cn_user conn) (cn_instance conn) db2)"

definition probe_allowlisted_projects ::
    "access_env \<Rightarrow> connection_row \<Rightarrow> string list \<Rightarrow> nat \<Rightarrow> database \<Rightarrow> access_error + probe_result" where
  "probe_allowlisted_projects env conn ids t db =
     (case ax_token env (cn_id conn) db of
        Inl e \<Rightarrow> Inl (Access_Provider e)
      | Inr pat \<Rightarrow>
          (case ax_probe env t conn pat ids of
             Inl e \<Rightarrow> Inl (Access_Probe e)
           | Inr pr \<Rightarrow> Inr pr))"

fun record_answers ::
    "access_env \<Rightarrow> connection_row \<Rightarrow> probe_result \<Rightarrow> string list \<Rightarrow> (string \<rightharpoonup> visibility) \<Rightarrow> nat \<Rightarrow> database
       \<Rightarrow> (string \<rightharpoonup> visibility) \<times> nat \<times> database" where
  "record_answers env conn pr [] out t db = (out, t, db)"
| "record_answers env conn pr (q # qs) out t db =
     (case pb_failed pr q of
        Some c \<Rightarrow> record_answers env conn pr qs (out(q \<mapsto> Vis_Unknown c)) t db
      | None \<Rightarrow>
          record_answers env conn pr qs
            (out(q \<mapsto> (case pb_visible pr q of Some v \<Rightarrow> Vis_Allowed (Some v) | None \<Rightarrow> Vis_Denied)))
            (t + 1)
            (write_membership (ax_ttls env) (cn_user conn)
              \<lparr>pr_instance = cn_instance conn, pr_project = q\<rparr> (pb_visible pr q \<noteq> None)
              (ax_now env t) db))"

definition cached_visibility ::
    "access_env \<Rightarrow> connection_row \<Rightarrow> string list \<Rightarrow> nat \<Rightarrow> database \<Rightarrow> (string \<rightharpoonup> visibility)" where
  "cached_visibility env conn ids t db q =
     map_option (\<lambda>a. if a then Vis_Allowed None else Vis_Denied)
       (lookup_fresh_many (cn_user conn) (cn_instance conn) ids (ax_now env t) db q)"

definition resolve_visibility ::
    "access_env \<Rightarrow> connection_row \<Rightarrow> string list \<Rightarrow> nat \<Rightarrow> database
       \<Rightarrow> (access_error + (string \<rightharpoonup> visibility)) \<times> nat \<times> database" where
  "resolve_visibility env conn ids t db =
     (if ids = [] then (Inr Map.empty, t, db)
      else
        let out = cached_visibility env conn ids t db;
            to_probe = filter (\<lambda>q. out q = None) ids
        in if to_probe = [] then (Inr out, t + 1, db)
           else case probe_allowlisted_projects env conn to_probe (t + 1) db of
             Inl e \<Rightarrow>
               (Inl e, t + 2,
                if e = Access_Probe (Probe_Gitlab Gl_Unauthorized)
                then handle_unauthorized env conn (t + 1) db else db)
           | Inr pr \<Rightarrow>
               (case record_answers env conn pr to_probe out (t + 2) db of
                  (out', t', db') \<Rightarrow> (Inr out', t', db')))"

section \<open>The list\<close>

definition blank_to_null :: "string option \<Rightarrow> string option" where
  "blank_to_null v =
     (case v of None \<Rightarrow> None | Some s \<Rightarrow> if js_trim s = [] then None else Some (js_trim s))"

definition probe_failure_message :: "string \<Rightarrow> string" where
  "probe_failure_message reason =
     (if reason = ''GITLAB_RATE_LIMITED'' then ''GitLab rate limited'' else ''GitLab unavailable'')"

definition enable_key :: "string \<Rightarrow> string \<Rightarrow> string" where
  "enable_key inst proj = inst @ '':'' @ proj"

definition remember_project_path :: "string \<Rightarrow> string \<Rightarrow> database \<Rightarrow> database" where
  "remember_project_path row path db =
     db\<lparr>t_allowlist := upd_where (\<lambda>a. al_id a = row) (\<lambda>a. a\<lparr>al_path := Some path\<rparr>) (t_allowlist db)\<rparr>"

definition item_of_error :: "string set \<Rightarrow> string \<Rightarrow> allow_row \<Rightarrow> project_item" where
  "item_of_error enabled msg a =
     \<lparr>pi_instance = al_instance a, pi_project = al_project a, pi_path = blank_to_null (al_path a),
      pi_name = None, pi_visible = False,
      pi_enabled = (enable_key (al_instance a) (al_project a) \<in> enabled), pi_error = Some msg\<rparr>"

definition entry_ref :: "visibility option \<Rightarrow> visible_project option" where
  "entry_ref entry = (case entry of Some (Vis_Allowed r) \<Rightarrow> r | _ \<Rightarrow> None)"

definition item_of_entry :: "string set \<Rightarrow> visibility option \<Rightarrow> allow_row \<Rightarrow> project_item" where
  "item_of_entry enabled entry a =
     (let probed = blank_to_null (map_option vp_path (entry_ref entry));
          stored = blank_to_null (al_path a)
      in \<lparr>pi_instance = al_instance a, pi_project = al_project a,
          pi_path = (if probed = None then stored else probed),
          pi_name = blank_to_null (map_option vp_name (entry_ref entry)),
          pi_visible = (\<exists>r. entry = Some (Vis_Allowed r)),
          pi_enabled = (enable_key (al_instance a) (al_project a) \<in> enabled),
          pi_error = (case entry of
             None \<Rightarrow> Some (probe_failure_message ''GITLAB_UNEXPECTED_STATUS'')
           | Some (Vis_Unknown c) \<Rightarrow> Some (probe_failure_message c)
           | Some _ \<Rightarrow> None)\<rparr>)"

definition keep_path :: "visibility option \<Rightarrow> allow_row \<Rightarrow> database \<Rightarrow> database" where
  "keep_path entry a db =
     (case blank_to_null (map_option vp_path (entry_ref entry)) of
        Some path \<Rightarrow>
          if Some path \<noteq> blank_to_null (al_path a) then remember_project_path (al_id a) path db else db
      | None \<Rightarrow> db)"

fun list_connections ::
    "access_env \<Rightarrow> allow_row list \<Rightarrow> string set \<Rightarrow> connection_row list \<Rightarrow> nat \<Rightarrow> database
       \<Rightarrow> project_item list \<times> nat \<times> database" where
  "list_connections env allowed enabled [] t db = ([], t, db)"
| "list_connections env allowed enabled (c # cs) t db =
     (let rows = filter (\<lambda>a. al_instance a = cn_instance c) allowed in
      if rows = [] then list_connections env allowed enabled cs t db
      else case resolve_visibility env c (map al_project rows) t db of
        (Inl e, t1, db1) \<Rightarrow>
          (let msg = (if e = Access_Probe (Probe_Gitlab Gl_Unauthorized)
                 then ''GitLab credential rejected'' else ''GitLab unavailable'')
           in case list_connections env allowed enabled cs t1 db1 of
             (rest, t2, db2) \<Rightarrow> (map (item_of_error enabled msg) rows @ rest, t2, db2))
      | (Inr vis, t1, db1) \<Rightarrow>
          (case list_connections env allowed enabled cs t1
              (fold (\<lambda>a. keep_path (vis (al_project a)) a) rows db1) of
             (rest, t2, db2) \<Rightarrow>
               (map (\<lambda>a. item_of_entry enabled (vis (al_project a)) a) rows @ rest, t2, db2)))"

definition list_for_user ::
    "access_env \<Rightarrow> string \<Rightarrow> nat \<Rightarrow> database \<Rightarrow> project_item list \<times> nat \<times> database" where
  "list_for_user env uid t db =
     list_connections env
       (sort_key (\<lambda>a. (al_instance a, al_project a)) (t_allowlist db))
       ((\<lambda>e. enable_key (en_instance e) (en_project e)) ` {e \<in> set (t_enables db). en_user e = uid})
       (filter (\<lambda>c. cn_user c = uid \<and> cn_status c = Conn_Active) (t_connections db)) t db"

definition authorized_project_ids ::
    "access_env \<Rightarrow> string \<Rightarrow> nat \<Rightarrow> database \<Rightarrow> project_ref list \<times> nat \<times> database" where
  "authorized_project_ids env uid t db =
     (case list_for_user env uid t db of
        (its, t', db') \<Rightarrow>
          (map (\<lambda>i. \<lparr>pr_instance = pi_instance i, pr_project = pi_project i\<rparr>)
            (filter (\<lambda>i. pi_enabled i \<and> pi_visible i \<and> pi_error i = None) its), t', db'))"

section \<open>Enabling\<close>

definition enable_for :: "string \<Rightarrow> project_ref \<Rightarrow> enable_row \<Rightarrow> bool" where
  "enable_for uid p e \<longleftrightarrow> en_user e = uid \<and> en_instance e = pr_instance p \<and> en_project e = pr_project p"

definition enable_project ::
    "access_env \<Rightarrow> string \<Rightarrow> project_ref \<Rightarrow> nat \<Rightarrow> database \<Rightarrow> (access_error + unit) \<times> nat \<times> database" where
  "enable_project env uid p t db =
     (if \<not> project_allowlisted p db
      then (Inl (Access_Policy ''Project is not on the allowlist''), t, db)
      else case find (\<lambda>c. cn_user c = uid \<and> cn_instance c = pr_instance p \<and> cn_status c = Conn_Active)
          (t_connections db) of
        None \<Rightarrow> (Inl (Access_Policy ''No active GitLab connection''), t, db)
      | Some c \<Rightarrow>
          (case resolve_visibility env c [pr_project p] t db of
             (Inl e, t1, db1) \<Rightarrow> (Inl e, t1, db1)
           | (Inr vis, t1, db1) \<Rightarrow>
               if \<exists>r. vis (pr_project p) = Some (Vis_Allowed r) then
                 (Inr (), t1 + 1,
                  db1\<lparr>t_enables := upsert_where (enable_for uid p)
                    \<lparr>en_user = uid, en_instance = pr_instance p, en_project = pr_project p,
                      en_at = ax_now env t1\<rparr>
                    (\<lambda>e. e\<lparr>en_at := ax_now env t1\<rparr>) (t_enables db1)\<rparr>)
               else (Inl (Access_Policy ''Project is not visible to your PAT''), t1, db1)))"

definition disable_project :: "string \<Rightarrow> project_ref \<Rightarrow> database \<Rightarrow> database" where
  "disable_project uid p db =
     invalidate_user_project uid p (db\<lparr>t_enables := del_where (enable_for uid p) (t_enables db)\<rparr>)"

section \<open>Where a cached answer comes from\<close>

text \<open>GitLab showed, or did not show, the project to a token that the provider gave for a connection
  of the user in \<open>C\<close> to the project's instance, in some probe of this service.\<close>

definition probe_answered :: "access_env \<Rightarrow> connection_row set \<Rightarrow> string \<Rightarrow> project_ref \<Rightarrow> bool \<Rightarrow> bool" where
  "probe_answered env C uid p shown \<longleftrightarrow>
     (\<exists>t c d pat ids pr. c \<in> C \<and> ax_token env (cn_id c) d = Inr pat \<and>
        ax_probe env t c pat ids = Inr pr \<and> cn_user c = uid \<and>
        cn_instance c = pr_instance p \<and> pr_project p \<in> set ids \<and>
        pb_failed pr (pr_project p) = None \<and> shown = (pb_visible pr (pr_project p) \<noteq> None))"

definition row_project :: "membership_row \<Rightarrow> project_ref" where
  "row_project m = \<lparr>pr_instance = mb_instance m, pr_project = mb_project m\<rparr>"

definition cache_from :: "access_env \<Rightarrow> connection_row set \<Rightarrow> database \<Rightarrow> database \<Rightarrow> bool" where
  "cache_from env C db0 db \<longleftrightarrow>
     (\<forall>m \<in> set (t_memberships db). m \<in> set (t_memberships db0) \<or>
        probe_answered env C (mb_user m) (row_project m) (mb_allowed m))"

lemma cache_from_refl [simp]: "cache_from env C db db"
  by (simp add: cache_from_def)

lemma cache_from_trans: "cache_from env C db0 db1 \<Longrightarrow> cache_from env C db1 db2 \<Longrightarrow> cache_from env C db0 db2"
  by (auto simp: cache_from_def)

lemma cache_from_same: "t_memberships db' = t_memberships db \<Longrightarrow> cache_from env C db db'"
  by (simp add: cache_from_def)

lemma put_membership_rows:
  "m \<in> set (t_memberships (put_membership uid p a c e db)) \<Longrightarrow>
     m \<in> set (t_memberships db) \<or> (mb_user m = uid \<and> row_project m = p \<and> mb_allowed m = a)"
  by (auto simp: put_membership_def upsert_where_def set_upd_where membership_for_def row_project_def
      split: if_splits)

lemma record_answers_from:
  assumes "ax_probe env t0 conn pat ids = Inr pr" and "set qs \<subseteq> set ids"
    and tok: "ax_token env (cn_id conn) d = Inr pat" and conn: "conn \<in> C"
    and "record_answers env conn pr qs out t db = (out', t', db')"
  shows "cache_from env C db db'"
  using assms(2,5)
proof (induction qs arbitrary: out t db)
  case (Cons q qs)
  show ?case
  proof (cases "pb_failed pr q")
    case None
    let ?db1 = "write_membership (ax_ttls env) (cn_user conn)
      \<lparr>pr_instance = cn_instance conn, pr_project = q\<rparr> (pb_visible pr q \<noteq> None) (ax_now env t) db"
    have "probe_answered env C (cn_user conn) \<lparr>pr_instance = cn_instance conn, pr_project = q\<rparr>
        (pb_visible pr q \<noteq> None)"
      unfolding probe_answered_def using assms(1) tok conn None Cons.prems(1) by (intro exI conjI) auto
    then have "cache_from env C db ?db1"
      by (auto simp: cache_from_def write_membership_def dest!: put_membership_rows)
    moreover have "cache_from env C ?db1 db'"
      by (rule Cons.IH) (use Cons.prems None in auto)
    ultimately show ?thesis by (rule cache_from_trans)
  next
    case (Some c)
    then show ?thesis using Cons by auto
  qed
qed simp

lemma record_answers_allowed:
  assumes "record_answers env conn pr qs out t db = (out', t', db')"
    and "out' q = Some (Vis_Allowed r)"
  shows "out q = Some (Vis_Allowed r) \<or> (q \<in> set qs \<and> pb_failed pr q = None \<and> pb_visible pr q \<noteq> None)"
  using assms(1)
proof (induction qs arbitrary: out t db)
  case (Cons a qs)
  then obtain out1 t1 db1 where step: "record_answers env conn pr qs out1 t1 db1 = (out', t', db')"
    and out1: "out1 = out(a \<mapsto> (case pb_failed pr a of Some c \<Rightarrow> Vis_Unknown c
      | None \<Rightarrow> (case pb_visible pr a of Some v \<Rightarrow> Vis_Allowed (Some v) | None \<Rightarrow> Vis_Denied)))"
    by (auto split: option.splits)
  from Cons.IH [OF step] show ?case
    by (cases "q = a") (auto simp: out1 split: option.splits)
qed (use assms(2) in simp)

lemma record_answers_tick: "record_answers env conn pr qs out t db = (out', t', db') \<Longrightarrow> t \<le> t'"
  by (induction qs arbitrary: out t db) (auto split: option.splits dest: Suc_leD)

text \<open>The four ways of resolving: nothing asked, all cached, the probe failed, the probe answered.\<close>

lemma resolve_cases:
  assumes "resolve_visibility env conn ids t db = (res, t', db')"
  obtains (none) "res = Inr Map.empty" "t' = t" "db' = db"
    | (cached) "res = Inr (cached_visibility env conn ids t db)" "t' = t + 1" "db' = db"
    | (failed) e where "res = Inl e" "t' = t + 2"
        "db' = (if e = Access_Probe (Probe_Gitlab Gl_Unauthorized)
           then handle_unauthorized env conn (t + 1) db else db)"
    | (probed) pr pat qs out' where "res = Inr out'" "ax_probe env (t + 1) conn pat qs = Inr pr"
        "ax_token env (cn_id conn) db = Inr pat"
        "record_answers env conn pr qs (cached_visibility env conn ids t db) (t + 2) db = (out', t', db')"
proof -
  let ?out = "cached_visibility env conn ids t db"
  let ?qs = "filter (\<lambda>q. ?out q = None) ids"
  consider "ids = []" | "ids \<noteq> []" "?qs = []" | "ids \<noteq> []" "?qs \<noteq> []" by blast
  then show thesis
  proof cases
    case 1
    with assms show thesis by (intro none) (simp_all add: resolve_visibility_def)
  next
    case 2
    with assms have "(res, t', db') = (Inr ?out, t + 1, db)"
      by (simp only: resolve_visibility_def Let_def if_True if_False simp_thms)
    then show thesis using cached by blast
  next
    case 3
    note step = assms [unfolded resolve_visibility_def Let_def, simplified 3 if_False]
    show thesis
    proof (cases "probe_allowlisted_projects env conn ?qs (t + 1) db")
      case (Inl e)
      have "res = Inl e" "t' = t + 2"
        "db' = (if e = Access_Probe (Probe_Gitlab Gl_Unauthorized)
           then handle_unauthorized env conn (t + 1) db else db)"
        using step [simplified Inl sum.case] by simp_all
      then show thesis by (rule failed)
    next
      case (Inr pr)
      obtain pat where "ax_probe env (t + 1) conn pat ?qs = Inr pr" "ax_token env (cn_id conn) db = Inr pat"
        using Inr by (auto simp: probe_allowlisted_projects_def split: sum.splits)
      moreover obtain out' where "record_answers env conn pr ?qs ?out (t + 2) db = (out', t', db')"
        "res = Inr out'"
        using step Inr by (auto split: prod.splits)
      ultimately show thesis by (intro probed)
    qed
  qed
qed

lemma resolve_from:
  assumes "resolve_visibility env conn ids t db = (res, t', db')"
    and "\<And>now c r d. t_memberships (ax_invalidate env now c r d) = t_memberships d"
    and conn: "conn \<in> C"
  shows "cache_from env C db db' \<and> t \<le> t'"
  using assms(1)
proof (cases rule: resolve_cases)
  case (failed e)
  then show ?thesis
    by (auto simp: handle_unauthorized_def Let_def cache_from_def invalidate_user_instance_def
        delete_memberships_def set_del_where assms(2))
next
  case (probed pr pat qs out')
  from record_answers_from [OF probed(2) order_refl probed(3) conn probed(4)] record_answers_tick [OF probed(4)]
  show ?thesis by simp
qed simp_all

lemma resolve_allowed:
  assumes "resolve_visibility env conn ids t db = (Inr vis, t', db')"
    and "vis q = Some (Vis_Allowed r)" and "cn_instance conn = pr_instance p" and "q = pr_project p"
    and conn: "conn \<in> C"
  shows "probe_answered env C (cn_user conn) p True \<or>
    (\<exists>m \<in> set (t_memberships db). membership_for (cn_user conn) p m \<and> mb_allowed m \<and>
       ax_now env t < mb_expires_at m)"
proof -
  have p: "\<lparr>pr_instance = cn_instance conn, pr_project = q\<rparr> = p" using assms(3,4) by simp
  have cached: ?thesis if out: "cached_visibility env conn ids t db q = Some (Vis_Allowed r)"
  proof -
    from out have "lookup_fresh_many (cn_user conn) (cn_instance conn) ids (ax_now env t) db q = Some True"
      by (auto simp: cached_visibility_def split: if_splits)
    then obtain m where "m \<in> set (t_memberships db)" "membership_for (cn_user conn) p m" "mb_allowed m"
      "ax_now env t < mb_expires_at m"
      by (rule lookup_fresh_many_Some) (simp only: p)
    then show ?thesis by blast
  qed
  from assms(1) show ?thesis
  proof (cases rule: resolve_cases)
    case (probed pr pat qs out')
    then have "vis = out'" by simp
    with record_answers_allowed [OF probed(4)] assms(2)
    have "cached_visibility env conn ids t db q = Some (Vis_Allowed r) \<or>
        (q \<in> set qs \<and> pb_failed pr q = None \<and> pb_visible pr q \<noteq> None)" by blast
    then show ?thesis
    proof
      assume "q \<in> set qs \<and> pb_failed pr q = None \<and> pb_visible pr q \<noteq> None"
      then have "probe_answered env C (cn_user conn) p True"
        unfolding probe_answered_def using probed(2,3) assms(3,4) conn by (intro exI conjI) auto
      then show ?thesis by simp
    qed (rule cached)
  qed (use assms(2) cached in auto)
qed

lemma keep_path_memberships [simp]: "t_memberships (keep_path v a db) = t_memberships db"
  by (simp add: keep_path_def remember_project_path_def split: option.split)

lemma fold_keep_path [simp]:
  "t_memberships (fold (\<lambda>a. keep_path (vis (al_project a)) a) rows db) = t_memberships db"
  by (induction rows arbitrary: db) simp_all

definition evidence :: "access_env \<Rightarrow> connection_row set \<Rightarrow> string \<Rightarrow> project_ref \<Rightarrow> nat \<Rightarrow> database \<Rightarrow> bool" where
  "evidence env C uid p t db \<longleftrightarrow>
     probe_answered env C uid p True \<or>
     (\<exists>m \<in> set (t_memberships db). membership_for uid p m \<and> mb_allowed m \<and>
        (\<exists>t0 \<ge> t. ax_now env t0 < mb_expires_at m))"

lemma evidence_back:
  assumes "evidence env C uid p t1 db1" and "cache_from env C db db1" and "t \<le> t1"
  shows "evidence env C uid p t db"
proof -
  have row: "row_project m = p" "mb_user m = uid" if "membership_for uid p m" for m
    using that by (auto simp: membership_for_def row_project_def project_ref_eq_iff)
  show ?thesis
    using assms row unfolding evidence_def cache_from_def by (metis (mono_tags) order_trans)
qed

definition item_ok ::
    "access_env \<Rightarrow> connection_row set \<Rightarrow> allow_row list \<Rightarrow> string set \<Rightarrow> connection_row list \<Rightarrow> nat \<Rightarrow> database \<Rightarrow> project_item \<Rightarrow> bool" where
  "item_ok env C allowed enabled cs t db i \<longleftrightarrow>
     (pi_visible i \<longrightarrow>
       (\<exists>c \<in> set cs. cn_instance c = pi_instance i \<and>
          evidence env C (cn_user c) \<lparr>pr_instance = pi_instance i, pr_project = pi_project i\<rparr> t db) \<and>
       (\<exists>a \<in> set allowed. al_instance a = pi_instance i \<and> al_project a = pi_project i)) \<and>
     (pi_enabled i \<longrightarrow> enable_key (pi_instance i) (pi_project i) \<in> enabled)"

lemma item_ok_later:
  "item_ok env C allowed enabled cs t1 db1 i \<Longrightarrow> cache_from env C db db1 \<Longrightarrow> t \<le> t1 \<Longrightarrow>
     item_ok env C allowed enabled (c # cs) t db i"
  unfolding item_ok_def using evidence_back by (metis list.set_intros(2))

lemma item_ok_error: "item_ok env C allowed enabled cs t db (item_of_error enabled msg a)"
  by (simp add: item_ok_def item_of_error_def)

lemma item_ok_entry:
  assumes res: "resolve_visibility env c ids t db = (Inr vis, t1, db1)"
    and a: "a \<in> set allowed" "al_instance a = cn_instance c" and conn: "c \<in> C"
  shows "item_ok env C allowed enabled (c # cs) t db (item_of_entry enabled (vis (al_project a)) a)"
proof -
  have "evidence env C (cn_user c) \<lparr>pr_instance = al_instance a, pr_project = al_project a\<rparr> t db"
    if "vis (al_project a) = Some (Vis_Allowed r)" for r
    using resolve_allowed [OF res that _ _ conn, of "\<lparr>pr_instance = al_instance a, pr_project = al_project a\<rparr>"] a(2)
    by (auto simp: evidence_def)
  with a show ?thesis by (auto simp: item_ok_def item_of_entry_def Let_def)
qed

lemma list_connections_items:
  assumes "list_connections env allowed enabled cs t db = (its, t', db')"
    and inv: "\<And>now c r d. t_memberships (ax_invalidate env now c r d) = t_memberships d"
    and conn: "set cs \<subseteq> C"
  shows "cache_from env C db db' \<and> list_all (item_ok env C allowed enabled cs t db) its"
  using assms(1) conn
proof (induction cs arbitrary: t db its)
  case (Cons c cs)
  let ?rows = "filter (\<lambda>a. al_instance a = cn_instance c) allowed"
  have later: "list_all (item_ok env C allowed enabled (c # cs) t db) rest"
    if "list_all (item_ok env C allowed enabled cs t1 db1) rest" "cache_from env C db db1" "t \<le> t1" for rest t1 db1
    using that(1) item_ok_later [OF _ that(2,3)] by (auto simp: list_all_iff)
  show ?case
  proof (cases "?rows = []")
    case True
    then have "list_connections env allowed enabled cs t db = (its, t', db')"
      using Cons.prems by simp
    from Cons.IH [OF this] later [of t db] Cons.prems(2) show ?thesis by simp
  next
    case False
    obtain res t1 db1 where res: "resolve_visibility env c (map al_project ?rows) t db = (res, t1, db1)"
      by (cases "resolve_visibility env c (map al_project ?rows) t db")
    have c: "c \<in> C" "set cs \<subseteq> C" using Cons.prems(2) by simp_all
    from resolve_from [OF res inv c(1)] have db1: "cache_from env C db db1" "t \<le> t1" by simp_all
    show ?thesis
    proof (cases res)
      case (Inl e)
      then obtain msg rest where rest: "list_connections env allowed enabled cs t1 db1 = (rest, t', db')"
        "its = map (item_of_error enabled msg) ?rows @ rest"
        using Cons.prems(1) False res by (auto simp: Let_def split: prod.splits)
      from Cons.IH [OF rest(1) c(2)] later [OF _ db1] cache_from_trans [OF db1(1)] rest(2) show ?thesis
        by (auto simp: list_all_iff item_ok_error)
    next
      case (Inr vis)
      let ?db2 = "fold (\<lambda>a. keep_path (vis (al_project a)) a) ?rows db1"
      obtain rest where rest: "list_connections env allowed enabled cs t1 ?db2 = (rest, t', db')"
        "its = map (\<lambda>a. item_of_entry enabled (vis (al_project a)) a) ?rows @ rest"
        using Cons.prems(1) False res Inr by (auto simp: Let_def split: prod.splits)
      have db2: "cache_from env C db ?db2"
        using db1(1) cache_from_same [of ?db2 db1 env] by (metis cache_from_trans fold_keep_path)
      have "list_all (item_ok env C allowed enabled (c # cs) t db)
          (map (\<lambda>a. item_of_entry enabled (vis (al_project a)) a) ?rows)"
        using item_ok_entry [OF res [unfolded Inr] _ _ c(1)] by (auto simp: list_all_iff)
      then show ?thesis
        using Cons.IH [OF rest(1) c(2)] later [OF _ db2 db1(2)] cache_from_trans [OF db2] rest(2) by simp
    qed
  qed
qed simp

section \<open>Properties\<close>

text \<open>Instance ids are generated identifiers without a colon.\<close>

definition plain_keys :: "database \<Rightarrow> bool" where
  "plain_keys db \<longleftrightarrow>
     list_all (\<lambda>e. CHR '':'' \<notin> set (en_instance e)) (t_enables db) \<and>
     list_all (\<lambda>a. CHR '':'' \<notin> set (al_instance a)) (t_allowlist db)"

lemma enable_key_inj:
  assumes "CHR '':'' \<notin> set i" and "CHR '':'' \<notin> set i'" and "enable_key i p = enable_key i' p'"
  shows "i = i' \<and> p = p'"
proof -
  have "takeWhile (\<lambda>c. c \<noteq> CHR '':'') (enable_key i p) = i" if "CHR '':'' \<notin> set i" for i p
    using that by (induction i) (auto simp: enable_key_def)
  with assms have "i = i'" by metis
  with assms(3) show ?thesis by (simp add: enable_key_def)
qed


text \<open>Only answers are cached: whatever the probes do, every row of the membership cache after a
  listing was there before or records what GitLab answered, visible or not, for that user and
  project; a project whose probe failed leaves no trace.\<close>

theorem only_answers_cached:
  assumes "authorized_project_ids env uid t db = (ps, t', db')" and "m \<in> set (t_memberships db')"
    and "\<And>now c r d. t_memberships (ax_invalidate env now c r d) = t_memberships d"
  shows "m \<in> set (t_memberships db) \<or> probe_answered env (set (t_connections db)) (mb_user m) (row_project m) (mb_allowed m)"
proof -
  obtain its where "list_for_user env uid t db = (its, t', db')"
    using assms(1) by (auto simp: authorized_project_ids_def split: prod.splits)
  from list_connections_items [OF this [unfolded list_for_user_def] assms(3), of "set (t_connections db)"] assms(2)
  show ?thesis by (auto simp: cache_from_def)
qed

text \<open>A token that GitLab rejects takes the user's access with it: the credential and the
  connection are no longer active and no cached answer of the user for that instance is left.\<close>

theorem rejected_token_revokes:
  assumes "resolve_visibility env conn ids t db = (Inl (Access_Probe (Probe_Gitlab Gl_Unauthorized)), t', db')"
    and "ax_invalidate env = invalidate_credential"
  shows "\<not> (\<exists>m. m \<in> set (t_memberships db') \<and> mb_user m = cn_user conn \<and> mb_instance m = cn_instance conn) \<and>
    \<not> (\<exists>c. c \<in> set (t_connections db') \<and> cn_id c = cn_id conn \<and> cn_status c \<noteq> Conn_Invalid) \<and>
    \<not> (\<exists>r. r \<in> set (t_credentials db') \<and> active_cred (cn_id conn) r)"
  using assms(1)
proof (cases rule: resolve_cases)
  case (failed e)
  then show ?thesis
    by (auto simp: handle_unauthorized_def Let_def invalidate_user_instance_def delete_memberships_def
        set_del_where set_upd_where assms(2) invalidate_credential_def active_cred_def split: if_splits)
qed simp_all

lemma record_answers_enables:
  "record_answers env conn pr qs out t db = (out', t', db') \<Longrightarrow> t_enables db' = t_enables db"
  by (induction qs arbitrary: out t db)
    (fastforce simp: write_membership_def put_membership_def split: option.splits)+

lemma resolve_enables:
  assumes "resolve_visibility env conn ids t db = (res, t', db')"
    and "\<And>now c r d. t_enables (ax_invalidate env now c r d) = t_enables d"
  shows "t_enables db' = t_enables db"
  using assms(1)
proof (cases rule: resolve_cases)
  case (failed e)
  then show ?thesis
    by (simp add: handle_unauthorized_def Let_def invalidate_user_instance_def delete_memberships_def assms(2))
next
  case (probed pr pat qs out')
  then show ?thesis using record_answers_enables by blast
qed simp_all

lemma count_upsert:
  assumes "count_where k rows \<le> 1" and "k new" and "\<And>r. k (f r) = k r"
  shows "count_where k (upsert_where k new f rows) = 1"
proof -
  have "count_where k (upd_where k f rows) = count_where k rows"
    using assms(3) by (induction rows) (auto simp: count_where_def)
  moreover have "count_where k rows = 0 \<longleftrightarrow> \<not> (\<exists>r \<in> set rows. k r)" by (simp add: count_where_0)
  moreover have "count_where k (rows @ [new]) = count_where k rows + 1"
    using assms(2) by (simp add: count_where_def)
  ultimately show ?thesis using assms(1) by (cases "\<exists>r \<in> set rows. k r") (auto simp: upsert_where_def)
qed

text \<open>Enabling a project succeeds only for an allowlisted project that the user's token can see,
  and then exactly one row is there for it; a refusal changes no enabled project.\<close>

theorem enable_requires_visibility:
  assumes "enable_project env uid p t db = (r, t', db')"
    and "count_where (enable_for uid p) (t_enables db) \<le> 1"
    and "\<And>now c r d. t_enables (ax_invalidate env now c r d) = t_enables d"
  shows "(case r of
       Inl _ \<Rightarrow> t_enables db' = t_enables db
     | Inr _ \<Rightarrow> project_allowlisted p db \<and> evidence env (set (t_connections db)) uid p t db \<and>
         count_where (enable_for uid p) (t_enables db') = 1)"
proof (cases r)
  case (Inl e)
  then show ?thesis
    using assms(1) resolve_enables [OF _ assms(3)]
    by (auto simp: enable_project_def split: if_splits option.splits prod.splits sum.splits)
next
  case (Inr u)
  obtain c vis r1 t1 db1 where al: "project_allowlisted p db"
    and c: "find (\<lambda>c. cn_user c = uid \<and> cn_instance c = pr_instance p \<and> cn_status c = Conn_Active)
      (t_connections db) = Some c"
    and res: "resolve_visibility env c [pr_project p] t db = (Inr vis, t1, db1)"
    and vis: "vis (pr_project p) = Some (Vis_Allowed r1)"
    and db': "t_enables db' = upsert_where (enable_for uid p)
      \<lparr>en_user = uid, en_instance = pr_instance p, en_project = pr_project p, en_at = ax_now env t1\<rparr>
      (\<lambda>e. e\<lparr>en_at := ax_now env t1\<rparr>) (t_enables db1)"
    using assms(1) Inr
    by (auto simp: enable_project_def split: if_splits option.splits prod.splits sum.splits)
  have "cn_user c = uid" "cn_instance c = pr_instance p" "c \<in> set (t_connections db)"
    using find_SomeD [OF c] c by (auto simp: find_Some_iff)
  with resolve_allowed [OF res vis, of p] have "evidence env (set (t_connections db)) uid p t db"
    by (auto simp: evidence_def)
  moreover have "count_where (enable_for uid p) (t_enables db') = 1"
    unfolding db' using assms(2) resolve_enables [OF res assms(3)]
    by (intro count_upsert) (simp_all add: enable_for_def)
  ultimately show ?thesis using Inr al by simp
qed

section \<open>Witnesses\<close>

definition sample_access :: access_env where
  "sample_access =
     \<lparr>ax_ttls = new_membership_cache 300 None, ax_now = (\<lambda>_. 1700000000000),
      ax_token = (\<lambda>_ _. Inr ''glpat-1''), ax_invalidate = invalidate_credential,
      ax_probe = (\<lambda>_ _ _ ids. Inr \<lparr>pb_visible = (\<lambda>q. if q = ''42'' then
          Some \<lparr>vp_id = 42, vp_path = ''g/p'', vp_name = ''p''\<rparr> else None), pb_failed = Map.empty\<rparr>)\<rparr>"

definition rejecting_access :: access_env where
  "rejecting_access = sample_access\<lparr>ax_probe := \<lambda>_ _ _ _. Inl (Probe_Gitlab Gl_Unauthorized)\<rparr>"

lemma invalidate_keeps [simp]:
  "t_memberships (invalidate_credential now c r d) = t_memberships d"
  "t_enables (invalidate_credential now c r d) = t_enables d"
  by (simp_all add: invalidate_credential_def)

lemma sample_plain: "plain_keys sample_db"
  by (simp add: plain_keys_def sample_db_def)

lemma sample_resolve:
  "\<exists>db1. resolve_visibility sample_access c [''42''] t sample_db =
     (Inr [''42'' \<mapsto> Vis_Allowed (Some \<lparr>vp_id = 42, vp_path = ''g/p'', vp_name = ''p''\<rparr>)], t + 3, db1)"
  by (simp add: resolve_visibility_def cached_visibility_def lookup_fresh_many_def sample_db_def
      empty_db_def probe_allowlisted_projects_def sample_access_def fun_eq_iff)

lemma sample_authorized:
  "\<exists>db'. authorized_project_ids sample_access ''u1'' 0 sample_db = ([sample_project], 3, db')"
proof -
  have cs: "filter (\<lambda>c. cn_user c = ''u1'' \<and> cn_status c = Conn_Active) (t_connections sample_db) =
      [sample_connection ''u1'' ''gi1'']"
    by (simp add: sample_db_def sample_connection_def)
  have al: "t_allowlist sample_db = [\<lparr>al_id = ''a1'', al_instance = ''gi1'', al_project = ''42'',
      al_path = None, al_created_at = 0\<rparr>]"
    by (simp add: sample_db_def)
  obtain db1 where "resolve_visibility sample_access (sample_connection ''u1'' ''gi1'') [''42''] 0 sample_db =
      (Inr [''42'' \<mapsto> Vis_Allowed (Some \<lparr>vp_id = 42, vp_path = ''g/p'', vp_name = ''p''\<rparr>)], 3, db1)"
    using sample_resolve [of "sample_connection ''u1'' ''gi1''" 0] by auto
  then show ?thesis
    unfolding authorized_project_ids_def list_for_user_def cs al
    by (simp add: sample_connection_def item_of_entry_def sample_project_def)
      (force simp: sample_db_def Let_def)
qed


theorem only_answers_cached_witness:
  "\<exists>db'. authorized_project_ids sample_access ''u1'' 0 sample_db = ([sample_project], 3, db') \<and>
     (filter (\<lambda>m. \<not> probe_answered sample_access (set (t_connections sample_db)) (mb_user m) (row_project m) (mb_allowed m))
        (t_memberships db') = [])"
proof -
  obtain db' where db': "authorized_project_ids sample_access ''u1'' 0 sample_db = ([sample_project], 3, db')"
    using sample_authorized by blast
  have "probe_answered sample_access (set (t_connections sample_db)) (mb_user m) (row_project m) (mb_allowed m)"
    if "m \<in> set (t_memberships db')" for m
    using only_answers_cached [OF db' that] by (simp add: sample_access_def sample_db_def empty_db_def)
  with db' show ?thesis by (auto simp: filter_empty_conv)
qed

theorem rejected_token_revokes_witness:
  "\<exists>db'. resolve_visibility rejecting_access (sample_connection ''u1'' ''gi1'') [''42''] 0 sample_db =
      (Inl (Access_Probe (Probe_Gitlab Gl_Unauthorized)), 2, db') \<and>
    \<not> (\<exists>c. c \<in> set (t_connections db') \<and> cn_id c = ''u1gi1'' \<and> cn_status c \<noteq> Conn_Invalid)"
proof -
  obtain db' where db': "resolve_visibility rejecting_access (sample_connection ''u1'' ''gi1'') [''42''] 0
      sample_db = (Inl (Access_Probe (Probe_Gitlab Gl_Unauthorized)), 2, db')"
    by (simp add: resolve_visibility_def cached_visibility_def lookup_fresh_many_def sample_db_def
        empty_db_def probe_allowlisted_projects_def rejecting_access_def sample_access_def)
  from rejected_token_revokes [OF this] show ?thesis
    using db' by (auto simp: rejecting_access_def sample_access_def sample_connection_def)
qed

theorem enable_requires_visibility_witness:
  "\<exists>db'. enable_project sample_access ''u1'' sample_project 0 sample_db = (Inr (), 4, db') \<and>
     count_where (enable_for ''u1'' sample_project) (t_enables db') = 1"
proof -
  obtain db' where db': "enable_project sample_access ''u1'' sample_project 0 sample_db = (Inr (), 4, db')"
    using sample_resolve [of "sample_connection ''u1'' ''gi1''" 0]
    by (auto simp: enable_project_def project_allowlisted_def sample_db_def sample_project_def
        sample_connection_def)
  have "count_where (enable_for ''u1'' sample_project) (t_enables sample_db) \<le> 1"
    by (simp add: count_where_def enable_for_def sample_db_def sample_project_def)
  from enable_requires_visibility [OF db' this] db' show ?thesis
    by (auto simp: sample_access_def)
qed

end
