(* ===== verification/Connections.thy ===== *)
theory Connections
  imports GitLabClient ProjectAccess
begin

text \<open>
  \<open>packages/domain/src/gitlab-connection.ts\<close>: a user links a GitLab identity by giving a personal
  access token. Injected are the identity probe (the service's default is
  \<open>gitlab_identity_probe\<close>, the client of \<open>GitLabClient\<close>), the cipher of the credential provider,
  the clock (one reading per numbered step) and the ids the database draws. The database's
  constraints are those of the schema and of the partial unique indexes of its first migration.
\<close>

section \<open>Types\<close>

record gl_identity =
  idn_user :: string
  idn_username :: string
  idn_email :: "string option"
  idn_name :: "string option"

record connection_view =
  cv_id :: string
  cv_instance :: string
  cv_base_url :: string
  cv_gl_user :: string
  cv_gl_name :: string
  cv_status :: connection_status
  cv_validated :: "instant option"
  cv_hint :: "string option"

datatype policy_reason =
    Not_Allowlisted
  | Credential_Rejected
  | Identity_Already_Linked
  | Connection_Missing
  | No_Credential

datatype connection_error =
    Policy policy_reason
  | Client_Failed gitlab_error
  | Provider_Failed provider_error
  | Unique_Violation
  | Foreign_Key_Violation

record connection_env =
  ce_api :: url_api
  ce_nfkc :: "string \<Rightarrow> string"
  ce_probe :: "instance_row \<Rightarrow> string \<Rightarrow> gitlab_error + gl_identity"
  ce_gcm :: aead
  ce_loader :: key_loader
  ce_draw :: draw
  ce_now :: "nat \<Rightarrow> instant"
  ce_conn_id :: string
  ce_email_id :: string

section \<open>The identity probe\<close>

definition gitlab_identity_probe ::
    "read_client \<Rightarrow> nat \<Rightarrow> instance_row \<Rightarrow> string \<Rightarrow> gitlab_error + gl_identity" where
  "gitlab_identity_probe base t gi pat =
     bind_err (create_gitlab_allowlist (rc_api base) True [(gi_base_url gi, gi_internal gi)]) (\<lambda>al.
     bind_err (create_read_client (rc_api base) (rc_param_of base) (rc_iso base) (gi_base_url gi)
         ((rc_env base)\<lparr>he_allow := al, he_token := pat\<rparr>)) (\<lambda>rc.
     bind_err (get_current_user rc t) (\<lambda>u.
       Inr \<lparr>idn_user = show_int (gu_id u), idn_username = gu_username u, idn_email = gu_email u,
         idn_name = gu_name u\<rparr>)))"

section \<open>Constraints of the table\<close>

definition is_live :: "connection_row \<Rightarrow> bool" where
  "is_live c \<longleftrightarrow> cn_status c = Conn_Active \<or> cn_status c = Conn_Invalid"

text \<open>\<open>gitlab_connections_one_active_per_user_instance\<close> and
  \<open>gitlab_connections_one_live_identity\<close>: whether row \<open>c\<close> may stand beside row \<open>d\<close>.\<close>

definition clashes :: "connection_row \<Rightarrow> connection_row \<Rightarrow> bool" where
  "clashes c d \<longleftrightarrow> cn_instance c = cn_instance d \<and>
     (cn_user c = cn_user d \<and> cn_status c = Conn_Active \<and> cn_status d = Conn_Active \<or>
      cn_gl_user c = cn_gl_user d \<and> is_live c \<and> is_live d)"

definition update_connection ::
    "string \<Rightarrow> instant \<Rightarrow> (connection_row \<Rightarrow> connection_row) \<Rightarrow> database \<Rightarrow> connection_error + database" where
  "update_connection cid now f db =
     (let g = (\<lambda>c. (f c)\<lparr>cn_updated_at := now\<rparr>) in
      if \<exists>c \<in> set (t_connections db). cn_id c = cid \<and>
           (\<exists>d \<in> set (t_connections db). cn_id d \<noteq> cid \<and> clashes (g c) d)
      then Inl Unique_Violation
      else Inr (db\<lparr>t_connections := upd_where (\<lambda>c. cn_id c = cid) g (t_connections db)\<rparr>))"

definition create_connection :: "connection_row \<Rightarrow> database \<Rightarrow> connection_error + database" where
  "create_connection row db =
     (if \<exists>d \<in> set (t_connections db). cn_id d = cn_id row \<or> clashes row d then Inl Unique_Violation
      else if \<forall>u \<in> set (t_users db). u_id u \<noteq> cn_user row then Inl Foreign_Key_Violation
      else Inr (db\<lparr>t_connections := t_connections db @ [row]\<rparr>))"

section \<open>Operations\<close>

definition base_url_of :: "database \<Rightarrow> string \<Rightarrow> string" where
  "base_url_of db inst =
     (case find (\<lambda>g. gi_id g = inst) (t_instances db) of None \<Rightarrow> [] | Some g \<Rightarrow> gi_base_url g)"

definition view_of :: "database \<Rightarrow> string option \<Rightarrow> connection_row \<Rightarrow> connection_view" where
  "view_of db hint c =
     \<lparr>cv_id = cn_id c, cv_instance = cn_instance c, cv_base_url = base_url_of db (cn_instance c),
      cv_gl_user = cn_gl_user c, cv_gl_name = cn_gl_name c, cv_status = cn_status c,
      cv_validated = cn_validated c, cv_hint = hint\<rparr>"

definition stored_hint :: "database \<Rightarrow> string \<Rightarrow> string option" where
  "stored_hint db cid =
     map_option cr_hint (last_by cr_created_at (filter (\<lambda>r. cr_conn r = cid \<and>
       (cr_status r = Cred_Active \<or> cr_status r = Cred_Invalid)) (t_credentials db)))"

definition list_connections_for_user :: "string \<Rightarrow> database \<Rightarrow> connection_view list" where
  "list_connections_for_user uid db =
     map (\<lambda>c. view_of db (stored_hint db (cn_id c)) c)
       (filter (\<lambda>c. cn_user c = uid \<and> is_live c) (t_connections db))"

definition test_pat ::
    "connection_env \<Rightarrow> string \<Rightarrow> string \<Rightarrow> bool \<Rightarrow> database \<Rightarrow> connection_error + instance_row \<times> gl_identity" where
  "test_pat env base_url pat require_https db =
     (case normalize_gitlab_base_url (ce_api env) require_https base_url of
        Inl e \<Rightarrow> Inl (Client_Failed e)
      | Inr url \<Rightarrow>
          (case find (\<lambda>g. gi_base_url g = url) (t_instances db) of
             None \<Rightarrow> Inl (Policy Not_Allowlisted)
           | Some gi \<Rightarrow>
               (case ce_probe env gi pat of
                  Inl e \<Rightarrow>
                    Inl (if e = Gl_Unauthorized then Policy Credential_Rejected else Client_Failed e)
                | Inr idn \<Rightarrow> Inr (gi, idn))))"

text \<open>The transaction of \<open>saveConnection\<close>: the row it leaves and the tables.\<close>

definition link_connection ::
    "connection_env \<Rightarrow> string \<Rightarrow> string \<Rightarrow> gl_identity \<Rightarrow> database \<Rightarrow> connection_error + connection_row \<times> database" where
  "link_connection env uid inst idn db =
     (case find (\<lambda>c. cn_user c = uid \<and> cn_instance c = inst \<and> is_live c) (t_connections db) of
        Some c \<Rightarrow>
          let f = (\<lambda>c. c\<lparr>cn_gl_user := idn_user idn, cn_gl_name := idn_username idn,
                 cn_status := Conn_Active, cn_validated := Some (ce_now env 0)\<rparr>)
          in bind_err (update_connection (cn_id c) (ce_now env 0) f db) (\<lambda>db'.
               Inr ((f c)\<lparr>cn_updated_at := ce_now env 0\<rparr>, db'))
      | None \<Rightarrow>
          let row = \<lparr>cn_id = ce_conn_id env, cn_user = uid, cn_instance = inst,
                cn_gl_user = idn_user idn, cn_gl_name = idn_username idn, cn_status = Conn_Active,
                cn_validated = Some (ce_now env 0), cn_created_at = ce_now env 0,
                cn_updated_at = ce_now env 0\<rparr>
          in bind_err (create_connection row db) (\<lambda>db'. Inr (row, db')))"

definition upsert_gitlab_email :: "connection_env \<Rightarrow> string \<Rightarrow> string \<Rightarrow> database \<Rightarrow> database" where
  "upsert_gitlab_email env uid email db =
     (let norm = js_lower (ce_nfkc env (js_trim email)) in
      if \<not> str_includes ''@'' norm then db
      else db\<lparr>t_emails := upsert_where (\<lambda>e. e_user e = uid \<and> e_norm e = norm)
        \<lparr>e_id = ce_email_id env, e_user = uid, e_email = js_trim email, e_norm = norm,
         e_source = Gitlab_Primary, e_verif = Gitlab_Unverified, e_primary = False,
         e_created_at = ce_now env 1\<rparr>
        (\<lambda>e. e\<lparr>e_email := js_trim email, e_source := Gitlab_Primary\<rparr>) (t_emails db)\<rparr>)"

text \<open>A unique violation, from the transaction on the connection, becomes a policy error.\<close>

definition link_error :: "connection_error \<Rightarrow> connection_error" where
  "link_error e = (if e = Unique_Violation then Policy Identity_Already_Linked else e)"

definition save_connection ::
    "connection_env \<Rightarrow> string \<Rightarrow> string \<Rightarrow> string \<Rightarrow> bool \<Rightarrow> database
       \<Rightarrow> (connection_error + connection_view) \<times> database" where
  "save_connection env uid base_url pat require_https db =
     (case test_pat env base_url pat require_https db of
        Inl e \<Rightarrow> (Inl e, db)
      | Inr (gi, idn) \<Rightarrow>
          (case link_connection env uid (gi_id gi) idn db of
             Inl e \<Rightarrow> (Inl (link_error e), db)
           | Inr (c, db1) \<Rightarrow>
               (case (if \<exists>r \<in> set (t_credentials db1). active_cred (cn_id c) r
                      then replace_credential (ce_gcm env) (ce_loader env) (ce_draw env) (cn_id c) pat db1
                      else store_credential (ce_gcm env) (ce_loader env) (ce_draw env) (cn_id c) pat db1) of
                  (Inl e, db2) \<Rightarrow> (Inl (Provider_Failed e), db2)
                | (Inr ref, db2) \<Rightarrow>
                    let db3 = (case idn_email idn of
                          Some m \<Rightarrow> if m = [] then db2 else upsert_gitlab_email env uid m db2
                        | None \<Rightarrow> db2);
                        db4 = invalidate_user_instance uid (cn_instance c) db3
                    in (Inr (view_of db4 (Some (cref_hint ref)) c), db4))))"

definition delete_connection ::
    "connection_env \<Rightarrow> string \<Rightarrow> string \<Rightarrow> database \<Rightarrow> (connection_error + unit) \<times> database" where
  "delete_connection env uid cid db =
     (case find (\<lambda>c. cn_id c = cid \<and> cn_user c = uid) (t_connections db) of
        None \<Rightarrow> (Inl (Policy Connection_Missing), db)
      | Some c \<Rightarrow>
          let db1 = invalidate_credential (ce_now env 0) cid Connection_Deleted db in
          (case update_connection cid (ce_now env 1) (\<lambda>c. c\<lparr>cn_status := Conn_Deleted\<rparr>) db1 of
             Inl e \<Rightarrow> (Inl e, db1)
           | Inr db2 \<Rightarrow> (Inr (), invalidate_user_instance uid (cn_instance c) db2)))"

text \<open>The credential was refused: the error is that of the refusal, unless the update itself fails.\<close>

definition drop_connection ::
    "connection_env \<Rightarrow> string \<Rightarrow> connection_row \<Rightarrow> connection_error \<Rightarrow> database \<Rightarrow> connection_error \<times> database" where
  "drop_connection env uid c e db =
     (let db1 = invalidate_credential (ce_now env 0) (cn_id c) Gitlab_Unauthorized db in
      case update_connection (cn_id c) (ce_now env 1) (\<lambda>c. c\<lparr>cn_status := Conn_Invalid\<rparr>) db1 of
        Inl e' \<Rightarrow> (e', db1)
      | Inr db2 \<Rightarrow> (e, invalidate_user_instance uid (cn_instance c) db2))"

definition refused :: "connection_error \<Rightarrow> bool" where
  "refused e \<longleftrightarrow> (case e of Policy _ \<Rightarrow> True | Client_Failed ge \<Rightarrow> ge = Gl_Unauthorized | _ \<Rightarrow> False)"

definition retest_stored ::
    "connection_env \<Rightarrow> string \<Rightarrow> string \<Rightarrow> database \<Rightarrow> (connection_error + connection_view) \<times> database" where
  "retest_stored env uid cid db =
     (case find (\<lambda>c. cn_id c = cid \<and> cn_user c = uid \<and> is_live c) (t_connections db) of
        None \<Rightarrow> (Inl (Policy Connection_Missing), db)
      | Some c \<Rightarrow>
          (case get_access_token (ce_gcm env) (ce_loader env) cid db of
             Inl e \<Rightarrow> (Inl (Policy No_Credential), db)
           | Inr pat \<Rightarrow>
               let url = base_url_of db (cn_instance c) in
               (case test_pat env url pat (starts_with ''https:'' url) db of
                  Inl e \<Rightarrow>
                    if refused e
                    then let (e', db') = drop_connection env uid c e db in (Inl e', db')
                    else (Inl e, db)
                | Inr (gi, idn) \<Rightarrow>
                    (case update_connection cid (ce_now env 0)
                        (\<lambda>c. c\<lparr>cn_status := Conn_Active, cn_gl_name := idn_username idn,
                           cn_validated := Some (ce_now env 0)\<rparr>) db of
                       Inl e \<Rightarrow> (Inl e, db)
                     | Inr db1 \<Rightarrow>
                         (case find (\<lambda>v. cv_id v = cid) (list_connections_for_user uid db1) of
                            None \<Rightarrow> (Inl (Policy Connection_Missing), db1)
                          | Some v \<Rightarrow> (Inr v, db1))))))"

section \<open>Invariant\<close>

text \<open>Ids are unique, no two rows violate an index, and a user has at most one live connection to
  an instance: an active one or, after a refused token, an invalid one.\<close>

definition compatible :: "connection_row \<Rightarrow> connection_row \<Rightarrow> bool" where
  "compatible c d \<longleftrightarrow> \<not> clashes c d \<and>
     \<not> (is_live c \<and> is_live d \<and> cn_user c = cn_user d \<and> cn_instance c = cn_instance d)"

definition conns_ok :: "connection_row list \<Rightarrow> bool" where
  "conns_ok rows \<longleftrightarrow> distinct (map cn_id rows) \<and>
     (\<forall>c \<in> set rows. \<forall>d \<in> set rows. cn_id c \<noteq> cn_id d \<longrightarrow> compatible c d)"

lemma compatible_sym: "compatible c d \<longleftrightarrow> compatible d c"
  by (auto simp: compatible_def clashes_def)

lemma conns_ok_id: "conns_ok rows \<Longrightarrow> c \<in> set rows \<Longrightarrow> d \<in> set rows \<Longrightarrow> cn_id c = cn_id d \<Longrightarrow> c = d"
  by (auto simp: conns_ok_def distinct_map inj_on_def)

text \<open>Rewriting the row of one id keeps the invariant when the new row fits the others.\<close>

lemma conns_ok_update:
  assumes "conns_ok rows" and "\<And>c. cn_id (f c) = cn_id c"
    and "\<And>c d. c \<in> set rows \<Longrightarrow> cn_id c = cid \<Longrightarrow> d \<in> set rows \<Longrightarrow> cn_id d \<noteq> cid \<Longrightarrow> compatible (f c) d"
  shows "conns_ok (upd_where (\<lambda>c. cn_id c = cid) f rows)"
proof -
  have "map cn_id (upd_where (\<lambda>c. cn_id c = cid) f rows) = map cn_id rows"
    by (rule upd_where_map_key) (rule assms(2))
  then show ?thesis
    using assms compatible_sym unfolding conns_ok_def by (auto simp: set_upd_where)
qed

lemma conns_ok_weaken:
  assumes "conns_ok rows" and "\<And>c. cn_id (f c) = cn_id c" "\<And>c d. compatible c d \<Longrightarrow> compatible (f c) d"
  shows "conns_ok (upd_where (\<lambda>c. cn_id c = cid) f rows)"
  using assms(1) by (intro conns_ok_update assms) (auto simp: conns_ok_def)

lemma compatible_dead:
  "compatible c d \<Longrightarrow> compatible (c\<lparr>cn_status := Conn_Deleted, cn_updated_at := n\<rparr>) d"
  by (simp add: compatible_def clashes_def is_live_def)

lemma compatible_invalid:
  "is_live c \<Longrightarrow> compatible c d \<Longrightarrow> compatible (c\<lparr>cn_status := Conn_Invalid, cn_updated_at := n\<rparr>) d"
  "is_live c \<Longrightarrow> compatible c d \<Longrightarrow> compatible (c\<lparr>cn_status := Conn_Invalid\<rparr>) d"
  by (auto simp: compatible_def clashes_def is_live_def)

lemma update_connection_Inr:
  assumes "update_connection cid now f db = Inr db'"
  shows "db' = db\<lparr>t_connections := upd_where (\<lambda>c. cn_id c = cid)
      (\<lambda>c. (f c)\<lparr>cn_updated_at := now\<rparr>) (t_connections db)\<rparr> \<and>
    (\<forall>c \<in> set (t_connections db). \<forall>d \<in> set (t_connections db). cn_id c = cid \<longrightarrow> cn_id d \<noteq> cid \<longrightarrow>
      \<not> clashes ((f c)\<lparr>cn_updated_at := now\<rparr>) d)"
  using assms by (auto simp: update_connection_def Let_def split: if_splits)

lemma update_connection_proj:
  "update_connection cid now f db = Inr db' \<Longrightarrow>
     t_credentials db' = t_credentials db \<and> t_memberships db' = t_memberships db \<and>
     t_instances db' = t_instances db \<and> t_emails db' = t_emails db"
  by (drule update_connection_Inr) simp

lemma update_connection_ok:
  assumes "conns_ok (t_connections db)" and "update_connection cid now f db = Inr db'"
    and "\<And>c. cn_id (f c) = cn_id c \<and> cn_user (f c) = cn_user c \<and> cn_instance (f c) = cn_instance c"
    and "\<And>c. c \<in> set (t_connections db) \<Longrightarrow> cn_id c = cid \<Longrightarrow> is_live (f c) \<Longrightarrow> is_live c"
  shows "conns_ok (t_connections db')"
proof -
  let ?g = "\<lambda>c. (f c)\<lparr>cn_updated_at := now\<rparr>"
  have "compatible (?g c) d"
    if "c \<in> set (t_connections db)" "cn_id c = cid" "d \<in> set (t_connections db)" "cn_id d \<noteq> cid" for c d
  proof -
    have "compatible c d" using assms(1) that by (auto simp: conns_ok_def)
    with that assms(3) [of c] assms(4) [OF that(1,2)] update_connection_Inr [OF assms(2)]
    show ?thesis by (auto simp: compatible_def is_live_def)
  qed
  then have "conns_ok (upd_where (\<lambda>c. cn_id c = cid) ?g (t_connections db))"
    using assms(1,3) by (intro conns_ok_update) auto
  with update_connection_Inr [OF assms(2)] show ?thesis by simp
qed

lemma invalidate_proj [simp]:
  "t_connections (invalidate_credential now c r db) = t_connections db"
  "t_memberships (invalidate_credential now c r db) = t_memberships db"
  "t_connections (invalidate_user_instance u i db) = t_connections db"
  "t_credentials (invalidate_user_instance u i db) = t_credentials db"
  "t_instances (invalidate_user_instance u i db) = t_instances db"
  by (simp_all add: invalidate_credential_def invalidate_user_instance_def delete_memberships_def)

lemma provider_proj:
  "store_credential g kl d c pat db = (r, db') \<Longrightarrow> t_connections db' = t_connections db"
  "replace_credential g kl d c pat db = (r, db') \<Longrightarrow> t_connections db' = t_connections db"
  by (auto simp: store_credential_def replace_credential_def run_tx_def insert_active_def Let_def
      split: sum.splits if_splits prod.splits)

lemma upsert_email_proj [simp]:
  "t_connections (upsert_gitlab_email env u m db) = t_connections db"
  "t_credentials (upsert_gitlab_email env u m db) = t_credentials db"
  by (simp_all add: upsert_gitlab_email_def Let_def)

text \<open>The transaction of \<open>saveConnection\<close>: it leaves an active connection with the identity that
  the probe reported.\<close>

lemma link_connection_Inr:
  assumes "link_connection env uid inst idn db = Inr (c, db1)"
  shows "cn_user c = uid \<and> cn_instance c = inst \<and> cn_gl_user c = idn_user idn \<and>
    cn_gl_name c = idn_username idn \<and> cn_status c = Conn_Active \<and> c \<in> set (t_connections db1) \<and>
    t_credentials db1 = t_credentials db \<and>
    {d \<in> set (t_connections db1). cn_id d \<noteq> cn_id c} = {d \<in> set (t_connections db). cn_id d \<noteq> cn_id c}"
proof (cases "find (\<lambda>c. cn_user c = uid \<and> cn_instance c = inst \<and> is_live c) (t_connections db)")
  case (Some c0)
  let ?f = "\<lambda>c. c\<lparr>cn_gl_user := idn_user idn, cn_gl_name := idn_username idn,
    cn_status := Conn_Active, cn_validated := Some (ce_now env 0)\<rparr>"
  from assms Some have u: "update_connection (cn_id c0) (ce_now env 0) ?f db = Inr db1"
    and c: "c = (?f c0)\<lparr>cn_updated_at := ce_now env 0\<rparr>"
    by (auto simp: link_connection_def Let_def split: sum.splits)
  from find_SomeD [OF Some] show ?thesis
    using update_connection_Inr [OF u] by (auto simp: c set_upd_where image_iff)
next
  case None
  then show ?thesis
    using assms by (auto simp: link_connection_def create_connection_def Let_def split: sum.splits if_splits)
qed

lemma link_connection_ok:
  assumes "conns_ok (t_connections db)" and "link_connection env uid inst idn db = Inr (c, db1)"
  shows "conns_ok (t_connections db1)"
proof (cases "find (\<lambda>c. cn_user c = uid \<and> cn_instance c = inst \<and> is_live c) (t_connections db)")
  case (Some c0)
  let ?f = "\<lambda>c. c\<lparr>cn_gl_user := idn_user idn, cn_gl_name := idn_username idn,
    cn_status := Conn_Active, cn_validated := Some (ce_now env 0)\<rparr>"
  from assms Some have u: "update_connection (cn_id c0) (ce_now env 0) ?f db = Inr db1"
    by (auto simp: link_connection_def Let_def split: sum.splits)
  show ?thesis
  proof (rule update_connection_ok [OF assms(1) u])
    fix c assume "c \<in> set (t_connections db)" "cn_id c = cn_id c0"
    then have "c = c0" using conns_ok_id [OF assms(1)] find_SomeD [OF Some] by blast
    then show "is_live c" using find_SomeD [OF Some] by simp
  qed simp
next
  case None
  let ?row = "\<lparr>cn_id = ce_conn_id env, cn_user = uid, cn_instance = inst,
    cn_gl_user = idn_user idn, cn_gl_name = idn_username idn, cn_status = Conn_Active,
    cn_validated = Some (ce_now env 0), cn_created_at = ce_now env 0, cn_updated_at = ce_now env 0\<rparr>"
  from assms None have new: "\<forall>d \<in> set (t_connections db). cn_id d \<noteq> cn_id ?row \<and> \<not> clashes ?row d"
    and db1: "t_connections db1 = t_connections db @ [?row]"
    by (auto simp: link_connection_def create_connection_def Let_def split: sum.splits if_splits)
  have "compatible ?row d \<and> compatible d ?row" if "d \<in> set (t_connections db)" for d
    using that new None compatible_sym [of ?row d] by (auto simp: compatible_def find_None_iff)
  with assms(1) new show ?thesis
    unfolding db1 conns_ok_def by auto
qed

lemma save_connection_ok:
  assumes "conns_ok (t_connections db)"
  shows "conns_ok (t_connections (snd (save_connection env uid url pat rh db)))"
proof (cases "test_pat env url pat rh db")
  case (Inl e)
  with assms show ?thesis by (simp add: save_connection_def)
next
  case (Inr r)
  obtain gi idn where r: "r = (gi, idn)" by (cases r)
  show ?thesis
  proof (cases "link_connection env uid (gi_id gi) idn db")
    case (Inl e)
    with assms Inr r show ?thesis by (simp add: save_connection_def)
  next
    case (Inr l)
    obtain c db1 where l: "l = (c, db1)" by (cases l)
    have "conns_ok (t_connections db1)" using link_connection_ok [OF assms] Inr l by simp
    then show ?thesis
      using Inr l r \<open>test_pat env url pat rh db = Inr r\<close>
      by (auto simp: save_connection_def Let_def dest: provider_proj split: sum.splits option.splits prod.splits)
  qed
qed

lemma delete_connection_ok:
  assumes "conns_ok (t_connections db)"
  shows "conns_ok (t_connections (snd (delete_connection env uid cid db)))"
  using assms
  by (auto simp: delete_connection_def Let_def is_live_def split: option.splits sum.splits
      dest!: update_connection_ok [rotated])

lemma retest_stored_ok:
  assumes "conns_ok (t_connections db)"
  shows "conns_ok (t_connections (snd (retest_stored env uid cid db)))"
proof (cases "find (\<lambda>c. cn_id c = cid \<and> cn_user c = uid \<and> is_live c) (t_connections db)")
  case None
  with assms show ?thesis by (simp add: retest_stored_def)
next
  case (Some c)
  then have live: "x \<in> set (t_connections db) \<Longrightarrow> cn_id x = cid \<Longrightarrow> is_live x" for x
    using conns_ok_id [OF assms] find_SomeD [OF Some] by blast
  have cid: "cn_id c = cid" using find_SomeD [OF Some] by simp
  have "conns_ok (t_connections (snd (drop_connection env uid c e db)))" for e
    using assms live cid
    by (auto simp: drop_connection_def Let_def split: sum.splits dest!: update_connection_ok [rotated])
  moreover have "conns_ok (t_connections db')"
    if "update_connection cid now (\<lambda>c. c\<lparr>cn_status := Conn_Active, cn_gl_name := n, cn_validated := v\<rparr>) db =
      Inr db'" for db' now n v
    by (rule update_connection_ok [OF assms that]) (auto intro: live)
  ultimately show ?thesis
    using Some assms
    by (auto simp: retest_stored_def Let_def split: sum.splits option.splits prod.splits) (metis snd_conv)+
qed

section \<open>Every way the connections change\<close>

text \<open>The three operations above, the refusals found by the project access service and by the sync
  (\<open>handle_unauthorized\<close>, \<open>mark_connection_invalid\<close>), and any change of other tables. Each step
  runs alone: \<open>handle_unauthorized\<close> gets a connection that is still active.\<close>

inductive conn_step :: "database \<Rightarrow> database \<Rightarrow> bool" where
  save_step: "conn_step db (snd (save_connection env uid url pat rh db))"
| delete_step: "conn_step db (snd (delete_connection env uid cid db))"
| retest_step: "conn_step db (snd (retest_stored env uid cid db))"
| unauthorized_step: "c \<in> set (t_connections db) \<Longrightarrow> cn_status c = Conn_Active \<Longrightarrow>
    ax_invalidate aenv = invalidate_credential \<Longrightarrow> conn_step db (handle_unauthorized aenv c t db)"
| sync_step: "conn_step db (mark_connection_invalid cid db)"
| other_step: "t_connections db' = t_connections db \<Longrightarrow> conn_step db db'"

inductive conn_reachable :: "database \<Rightarrow> bool" where
  conn_start: "conn_reachable empty_db"
| conn_next: "conn_reachable db \<Longrightarrow> conn_step db db' \<Longrightarrow> conn_reachable db'"

inductive_cases conn_stepE: "conn_step db db'"

lemma conn_step_ok: "conn_step db db' \<Longrightarrow> conns_ok (t_connections db) \<Longrightarrow> conns_ok (t_connections db')"
proof (induction rule: conn_step.induct)
  case (unauthorized_step c db aenv t)
  have "is_live x" if "x \<in> set (t_connections db)" "cn_id x = cn_id c" for x
    using conns_ok_id [OF unauthorized_step(4) that(1) unauthorized_step(1) that(2)] unauthorized_step(2)
    by (simp add: is_live_def)
  then have "conns_ok (upd_where (\<lambda>x. cn_id x = cn_id c) (\<lambda>c. c\<lparr>cn_status := Conn_Invalid\<rparr>) (t_connections db))"
    using unauthorized_step(4)
    by (intro conns_ok_update) (auto simp: conns_ok_def intro!: compatible_invalid(2))
  then show ?case by (simp add: handle_unauthorized_def unauthorized_step(3) Let_def)
next
  case (sync_step db cid)
  let ?f = "\<lambda>c. if cn_status c = Conn_Active then c\<lparr>cn_status := Conn_Invalid\<rparr> else c"
  have "upd_where (\<lambda>c. cn_id c = cid \<and> cn_status c = Conn_Active) (\<lambda>c. c\<lparr>cn_status := Conn_Invalid\<rparr>)
      (t_connections db) = upd_where (\<lambda>c. cn_id c = cid) ?f (t_connections db)"
    by (auto simp: upd_where_def)
  moreover have "conns_ok (upd_where (\<lambda>c. cn_id c = cid) ?f (t_connections db))"
    by (rule conns_ok_weaken [OF sync_step]) (auto simp: is_live_def intro: compatible_invalid(2))
  ultimately show ?case by (simp add: mark_connection_invalid_def)
qed (simp_all add: save_connection_ok delete_connection_ok retest_stored_ok)

lemma reachable_conns_ok: "conn_reachable db \<Longrightarrow> conns_ok (t_connections db)"
proof (induction rule: conn_reachable.induct)
  case conn_start
  show ?case by (simp add: conns_ok_def empty_db_def)
next
  case (conn_next db db')
  then show ?case by (blast intro: conn_step_ok)
qed

text \<open>A stale refusal: \<open>handleUnauthorized\<close> updates by id alone, so a connection that its owner deleted
  while the probe ran is live again, and blocks its GitLab identity.\<close>

lemma stale_refusal_revives:
  assumes "d \<in> set (t_connections db)" "cn_status d = Conn_Deleted" "cn_id d = cn_id c"
    and "ax_invalidate aenv = invalidate_credential"
  shows "\<exists>d' \<in> set (t_connections (handle_unauthorized aenv c t db)). cn_id d' = cn_id d \<and> is_live d'"
proof -
  have "d\<lparr>cn_status := Conn_Invalid\<rparr> \<in> set (t_connections (handle_unauthorized aenv c t db))"
    using assms by (auto simp: handle_unauthorized_def Let_def set_upd_where image_iff intro!: bexI [of _ d])
  then show ?thesis by (rule bexI [rotated]) (simp add: is_live_def)
qed

text \<open>A save that succeeds, taken apart.\<close>

lemma save_connection_parts:
  assumes "save_connection env uid url pat rh db = (r, db')" and "test_pat env url pat rh db = Inr (gi, idn)"
    and "link_connection env uid (gi_id gi) idn db = Inr (c, db1)"
  shows "\<exists>s db2. (store_credential (ce_gcm env) (ce_loader env) (ce_draw env) (cn_id c) pat db1 = (s, db2) \<or>
      replace_credential (ce_gcm env) (ce_loader env) (ce_draw env) (cn_id c) pat db1 = (s, db2)) \<and>
    (case s of
       Inl e \<Rightarrow> r = Inl (Provider_Failed e) \<and> db' = db2
     | Inr ref \<Rightarrow> r = Inr (view_of db' (Some (cref_hint ref)) c) \<and>
         db' = invalidate_user_instance uid (cn_instance c) (case idn_email idn of
           Some m \<Rightarrow> if m = [] then db2 else upsert_gitlab_email env uid m db2 | None \<Rightarrow> db2))"
proof -
  let ?s = "if \<exists>r \<in> set (t_credentials db1). active_cred (cn_id c) r
    then replace_credential (ce_gcm env) (ce_loader env) (ce_draw env) (cn_id c) pat db1
    else store_credential (ce_gcm env) (ce_loader env) (ce_draw env) (cn_id c) pat db1"
  have s: "store_credential (ce_gcm env) (ce_loader env) (ce_draw env) (cn_id c) pat db1 = ?s \<or>
      replace_credential (ce_gcm env) (ce_loader env) (ce_draw env) (cn_id c) pat db1 = ?s"
    by simp
  obtain x db2 where x: "?s = (x, db2)" by (cases ?s)
  have r: "(r, db') = (case x of
      Inl e \<Rightarrow> (Inl (Provider_Failed e), db2)
    | Inr ref \<Rightarrow>
        let db3 = (case idn_email idn of
              Some m \<Rightarrow> if m = [] then db2 else upsert_gitlab_email env uid m db2
            | None \<Rightarrow> db2);
            db4 = invalidate_user_instance uid (cn_instance c) db3
        in (Inr (view_of db4 (Some (cref_hint ref)) c), db4))"
    using assms(1) [symmetric]
    by (simp only: save_connection_def assms(2,3) sum.case prod.case x)
  show ?thesis
  proof (intro exI [of _ x] exI [of _ db2] conjI)
    show "store_credential (ce_gcm env) (ce_loader env) (ce_draw env) (cn_id c) pat db1 = (x, db2) \<or>
        replace_credential (ce_gcm env) (ce_loader env) (ce_draw env) (cn_id c) pat db1 = (x, db2)"
      using s unfolding x .
    show "case x of
       Inl e \<Rightarrow> r = Inl (Provider_Failed e) \<and> db' = db2
     | Inr ref \<Rightarrow> r = Inr (view_of db' (Some (cref_hint ref)) c) \<and>
         db' = invalidate_user_instance uid (cn_instance c) (case idn_email idn of
           Some m \<Rightarrow> if m = [] then db2 else upsert_gitlab_email env uid m db2 | None \<Rightarrow> db2)"
    proof (cases x)
      case (Inl e)
      from r show ?thesis unfolding Inl sum.case by blast
    next
      case (Inr ref)
      from r show ?thesis unfolding Inr sum.case Let_def by blast
    qed
  qed
qed

lemma save_connection_cases:
  assumes "save_connection env uid url pat rh db = (r, db')"
  obtains (untested) e where "r = Inl e" "db' = db" "test_pat env url pat rh db = Inl e"
  | (unlinked) e gi idn where "r = Inl (link_error e)" "db' = db" "test_pat env url pat rh db = Inr (gi, idn)"
      "link_connection env uid (gi_id gi) idn db = Inl e"
  | (linked) gi idn c db1 where "test_pat env url pat rh db = Inr (gi, idn)"
      "link_connection env uid (gi_id gi) idn db = Inr (c, db1)"
proof (cases "test_pat env url pat rh db")
  case (Inl e)
  with assms show ?thesis by (intro untested [of e]) (simp_all add: save_connection_def)
next
  case (Inr p)
  obtain gi idn where p: "p = (gi, idn)" by (cases p)
  show ?thesis
  proof (cases "link_connection env uid (gi_id gi) idn db")
    case (Inl e)
    with assms Inr p show ?thesis by (intro unlinked [of e gi idn]) (simp_all add: save_connection_def)
  next
    case (Inr q)
    with \<open>test_pat env url pat rh db = Inr p\<close> p show ?thesis by (cases q) (intro linked, simp_all)
  qed
qed

lemma save_connection_Inr:
  assumes "save_connection env uid url pat rh db = (Inr v, db')"
  obtains gi idn c db1 ref db2 where "test_pat env url pat rh db = Inr (gi, idn)"
    and "link_connection env uid (gi_id gi) idn db = Inr (c, db1)"
    and "store_credential (ce_gcm env) (ce_loader env) (ce_draw env) (cn_id c) pat db1 = (Inr ref, db2) \<or>
      replace_credential (ce_gcm env) (ce_loader env) (ce_draw env) (cn_id c) pat db1 = (Inr ref, db2)"
    and "cv_id v = cn_id c"
    and "db' = invalidate_user_instance uid (cn_instance c) (case idn_email idn of
        Some m \<Rightarrow> if m = [] then db2 else upsert_gitlab_email env uid m db2 | None \<Rightarrow> db2)"
proof -
  from assms obtain gi idn c db1 where t: "test_pat env url pat rh db = Inr (gi, idn)"
    and l: "link_connection env uid (gi_id gi) idn db = Inr (c, db1)"
    by (rule save_connection_cases) auto
  from save_connection_parts [OF assms t l] obtain s db2 where
    s: "store_credential (ce_gcm env) (ce_loader env) (ce_draw env) (cn_id c) pat db1 = (s, db2) \<or>
      replace_credential (ce_gcm env) (ce_loader env) (ce_draw env) (cn_id c) pat db1 = (s, db2)"
    and r: "case s of
       Inl e \<Rightarrow> Inr v = (Inl (Provider_Failed e) :: connection_error + connection_view) \<and> db' = db2
     | Inr ref \<Rightarrow> Inr v = (Inr (view_of db' (Some (cref_hint ref)) c) :: connection_error + connection_view) \<and>
         db' = invalidate_user_instance uid (cn_instance c) (case idn_email idn of
           Some m \<Rightarrow> if m = [] then db2 else upsert_gitlab_email env uid m db2 | None \<Rightarrow> db2)" by blast
  then obtain ref where ref: "s = Inr ref" by (cases s) auto
  with s have st: "store_credential (ce_gcm env) (ce_loader env) (ce_draw env) (cn_id c) pat db1 = (Inr ref, db2) \<or>
      replace_credential (ce_gcm env) (ce_loader env) (ce_draw env) (cn_id c) pat db1 = (Inr ref, db2)" by simp
  have v: "cv_id v = cn_id c"
    and db': "db' = invalidate_user_instance uid (cn_instance c) (case idn_email idn of
        Some m \<Rightarrow> if m = [] then db2 else upsert_gitlab_email env uid m db2 | None \<Rightarrow> db2)"
    using r by (simp_all add: ref view_of_def)
  show ?thesis by (rule that [OF t l st v db'])
qed

lemma test_pat_probe:
  "test_pat env url pat rh db = Inr (gi, idn) \<Longrightarrow> gi \<in> set (t_instances db) \<and> ce_probe env gi pat = Inr idn"
  by (auto simp: test_pat_def split: sum.splits option.splits if_splits dest: find_SomeD)

lemma none_active:
  "st \<noteq> Conn_Active \<Longrightarrow> filter (\<lambda>d. cn_id d = cid \<and> cn_status d = Conn_Active)
     (upd_where (\<lambda>c. cn_id c = cid) (\<lambda>c. c\<lparr>cn_status := st, cn_updated_at := t\<rparr>) rows) = []"
  by (induction rows) auto

text \<open>What a deletion and a refused test have in common.\<close>

lemma drop_connection_parts:
  assumes "drop_connection env uid c e db = (e', db')" and "e' \<noteq> Unique_Violation"
  obtains db2 where "update_connection (cn_id c) (ce_now env 1) (\<lambda>c. c\<lparr>cn_status := Conn_Invalid\<rparr>)
      (invalidate_credential (ce_now env 0) (cn_id c) Gitlab_Unauthorized db) = Inr db2"
    and "db' = invalidate_user_instance uid (cn_instance c) db2"
  using assms by (auto simp: drop_connection_def update_connection_def Let_def split: sum.splits if_splits)

lemma retest_refused:
  assumes "retest_stored env uid cid db = (Inl (Policy p), db')" and "p \<noteq> Connection_Missing" "p \<noteq> No_Credential"
  obtains c e where "find (\<lambda>c. cn_id c = cid \<and> cn_user c = uid \<and> is_live c) (t_connections db) = Some c"
    and "drop_connection env uid c e db = (Policy p, db')"
proof -
  from assms obtain c where f: "find (\<lambda>c. cn_id c = cid \<and> cn_user c = uid \<and> is_live c) (t_connections db) = Some c"
    by (auto simp: retest_stored_def split: option.splits)
  moreover from f assms obtain e where "drop_connection env uid c e db = (Policy p, db')"
    by (auto simp: retest_stored_def Let_def refused_def update_connection_def
        split: sum.splits option.splits prod.splits if_splits connection_error.splits)
  ultimately show thesis by (rule that)
qed

lemma revocation_parts:
  assumes "delete_connection env uid cid db = (Inr (), db') \<or>
    retest_stored env uid cid db = (Inl (Policy Credential_Rejected), db') \<or>
    retest_stored env uid cid db = (Inl (Policy Not_Allowlisted), db')"
  obtains c db2 reason st t1 t2 where "c \<in> set (t_connections db)" "cn_id c = cid" "cn_user c = uid"
    and "st \<noteq> Conn_Active"
    and "update_connection cid t2 (\<lambda>c. c\<lparr>cn_status := st\<rparr>) (invalidate_credential t1 cid reason db) = Inr db2"
    and "db' = invalidate_user_instance uid (cn_instance c) db2"
proof (cases "delete_connection env uid cid db = (Inr (), db')")
  case True
  then obtain c db2 where f: "find (\<lambda>c. cn_id c = cid \<and> cn_user c = uid) (t_connections db) = Some c"
    and u: "update_connection cid (ce_now env 1) (\<lambda>c. c\<lparr>cn_status := Conn_Deleted\<rparr>)
      (invalidate_credential (ce_now env 0) cid Connection_Deleted db) = Inr db2"
    and db': "db' = invalidate_user_instance uid (cn_instance c) db2"
    by (auto simp: delete_connection_def Let_def split: option.splits sum.splits)
  from find_SomeD [OF f] show thesis by (intro that [OF _ _ _ _ u db']) simp_all
next
  case False
  with assms obtain p where r: "retest_stored env uid cid db = (Inl (Policy p), db')"
    and p: "p \<noteq> Connection_Missing" "p \<noteq> No_Credential" by blast
  from retest_refused [OF r p] obtain c e where
    f: "find (\<lambda>c. cn_id c = cid \<and> cn_user c = uid \<and> is_live c) (t_connections db) = Some c"
    and d: "drop_connection env uid c e db = (Policy p, db')" .
  from drop_connection_parts [OF d] obtain db2 where
    u: "update_connection (cn_id c) (ce_now env 1) (\<lambda>c. c\<lparr>cn_status := Conn_Invalid\<rparr>)
      (invalidate_credential (ce_now env 0) (cn_id c) Gitlab_Unauthorized db) = Inr db2"
    and db': "db' = invalidate_user_instance uid (cn_instance c) db2" by blast
  from find_SomeD [OF f] show thesis
    by (intro that [OF _ _ _ _ _ db']) (use u in \<open>auto simp: \<close>)
qed

lemma normalize_error: "normalize_gitlab_base_url api rh u = Inl e \<Longrightarrow> e = Gl_Invalid_Config"
  by (auto simp: normalize_gitlab_base_url_def Let_def split: if_splits option.splits)

text \<open>An \<open>http:\<close> instance can be allowlisted and looked up when the caller waives HTTPS, but the probe
  builds its allowlist with HTTPS required: no token can ever be tested there.\<close>

lemma http_instance_never_probed:
  assumes "ua_parse (rc_api base) (js_trim (gi_base_url gi)) = Some u" and "url_protocol u = ''http:''"
  shows "gitlab_identity_probe base t gi pat = Inl Gl_Invalid_Config"
proof -
  have "normalize_gitlab_base_url (rc_api base) True (gi_base_url gi) = Inl Gl_Invalid_Config"
    using assms by (simp add: normalize_gitlab_base_url_def Let_def)
  then show ?thesis by (simp add: gitlab_identity_probe_def create_gitlab_allowlist_def)
qed

section \<open>Properties\<close>


text \<open>C26. A connection that is saved is usable: it is active and carries the identity that the probe
  reported for this token, the token is what the provider gives back, no answer about the user's
  former access on the instance is left, and no connection of anybody else has changed.\<close>

theorem saved_connection_usable:
  assumes "save_connection env uid url pat rh db = (Inr v, db')"
    and "aead_ok (ce_gcm env)" "length (dr_nonce (ce_draw env)) = nonce_bytes" "creds_ok db"
  shows "\<exists>gi idn c. gi \<in> set (t_instances db) \<and> ce_probe env gi pat = Inr idn \<and>
    c \<in> set (t_connections db') \<and> cn_id c = cv_id v \<and> cn_user c = uid \<and> cn_instance c = gi_id gi \<and>
    cn_gl_user c = idn_user idn \<and> cn_status c = Conn_Active \<and>
    get_access_token (ce_gcm env) (ce_loader env) (cv_id v) db' = Inr pat \<and>
    (\<forall>cid. cid \<noteq> cv_id v \<longrightarrow> get_access_token (ce_gcm env) (ce_loader env) cid db' =
       get_access_token (ce_gcm env) (ce_loader env) cid db) \<and>
    {d \<in> set (t_connections db'). cn_id d \<noteq> cv_id v} = {d \<in> set (t_connections db). cn_id d \<noteq> cv_id v} \<and>
    filter (\<lambda>m. mb_user m = uid \<and> mb_instance m = gi_id gi) (t_memberships db') = [] \<and> creds_ok db'"
proof -
  from assms(1) obtain gi idn c db1 ref db2 where t: "test_pat env url pat rh db = Inr (gi, idn)"
    and l: "link_connection env uid (gi_id gi) idn db = Inr (c, db1)"
    and st: "store_credential (ce_gcm env) (ce_loader env) (ce_draw env) (cn_id c) pat db1 = (Inr ref, db2) \<or>
      replace_credential (ce_gcm env) (ce_loader env) (ce_draw env) (cn_id c) pat db1 = (Inr ref, db2)"
    and v: "cv_id v = cn_id c"
    and db': "db' = invalidate_user_instance uid (cn_instance c) (case idn_email idn of
        Some m \<Rightarrow> if m = [] then db2 else upsert_gitlab_email env uid m db2 | None \<Rightarrow> db2)"
    by (rule save_connection_Inr)
  note lc = link_connection_Inr [OF l]
  have c1: "creds_ok db1" using assms(4) lc by (simp add: creds_ok_def)
  have inv: "pat_store_ok (ce_gcm env) (ce_draw env) db1" using assms(2,3) c1 by (simp add: pat_store_ok_def)
  have tok: "get_access_token (ce_gcm env) (ce_loader env) (cn_id c) db2 = Inr pat \<and>
      (\<forall>x. x \<noteq> cn_id c \<longrightarrow> get_access_token (ce_gcm env) (ce_loader env) x db2 =
        get_access_token (ce_gcm env) (ce_loader env) x db1)"
    using st pat_store.store_token [OF inv] pat_store.replace_token [OF inv] by blast
  have c2: "creds_ok db2"
    using st pat_store.store_invar [OF inv, of "ce_loader env" "cn_id c" pat]
      pat_store.replace_invar [OF inv, of "ce_loader env" "cn_id c" pat] by (auto simp: pat_store_ok_def)
  have same: "t_credentials db' = t_credentials db2" "t_connections db' = t_connections db1"
    using st by (auto simp: db' dest: provider_proj split: option.splits)
  note gi = test_pat_probe [OF t]
  have "filter (\<lambda>m. mb_user m = uid \<and> mb_instance m = gi_id gi) (t_memberships db') = []"
    using lc by (auto simp: db' invalidate_user_instance_def delete_memberships_def del_where_def filter_empty_conv)
  with gi tok c2 lc show ?thesis
    by (intro exI [of _ gi] exI [of _ idn] exI [of _ c])
      (simp add: v get_access_token_def same creds_ok_def)
qed

text \<open>A save that fails changes nothing, unless the credential provider failed: then the connection
  has already been relabelled with the identity behind the new token and marked active, while its
  credentials, the user's old token among them, are those from before.\<close>

theorem failed_save_relabels:
  assumes "save_connection env uid url pat rh db = (Inl e, db')"
  shows "db' = db \<and> (\<forall>pe. e \<noteq> Provider_Failed pe) \<or>
    (\<exists>pe gi idn c. e = Provider_Failed pe \<and> ce_probe env gi pat = Inr idn \<and> c \<in> set (t_connections db') \<and>
       cn_user c = uid \<and> cn_instance c = gi_id gi \<and> cn_gl_user c = idn_user idn \<and>
       cn_status c = Conn_Active \<and> t_credentials db' = t_credentials db)"
  using assms
proof (cases rule: save_connection_cases)
  case (untested e')
  then have "e \<noteq> Provider_Failed pe" for pe by (auto simp: test_pat_def split: sum.splits option.splits if_splits)
  with untested show ?thesis by simp
next
  case (unlinked e' gi idn)
  then have "e \<noteq> Provider_Failed pe" for pe
    by (auto simp: link_error_def link_connection_def update_connection_def create_connection_def Let_def
        split: sum.splits option.splits if_splits)
  with unlinked show ?thesis by simp
next
  case (linked gi idn c db1)
  from save_connection_parts [OF assms linked] obtain s db2 where
    st: "store_credential (ce_gcm env) (ce_loader env) (ce_draw env) (cn_id c) pat db1 = (s, db2) \<or>
      replace_credential (ce_gcm env) (ce_loader env) (ce_draw env) (cn_id c) pat db1 = (s, db2)"
    and r: "case s of
       Inl pe \<Rightarrow> (Inl e :: connection_error + connection_view) = Inl (Provider_Failed pe) \<and> db' = db2
     | Inr ref \<Rightarrow> (Inl e :: connection_error + connection_view) = Inr (view_of db' (Some (cref_hint ref)) c) \<and>
         db' = invalidate_user_instance uid (cn_instance c) (case idn_email idn of
           Some m \<Rightarrow> if m = [] then db2 else upsert_gitlab_email env uid m db2 | None \<Rightarrow> db2)"
    by blast
  from r obtain pe where s: "s = Inl pe" and e: "e = Provider_Failed pe" and "db' = db2"
    by (cases s) simp_all
  with st have "store_credential (ce_gcm env) (ce_loader env) (ce_draw env) (cn_id c) pat db1 = (Inl pe, db') \<or>
      replace_credential (ce_gcm env) (ce_loader env) (ce_draw env) (cn_id c) pat db1 = (Inl pe, db')"
    by simp
  then have "db' = db1" using tx_error_no_effect by blast
  with link_connection_Inr [OF linked(2)] test_pat_probe [OF linked(1)] e show ?thesis by blast
qed

text \<open>Deleting a connection, or a stored token that is refused when it is tested again, revokes it: no
  token can be read for the connection, it is not active, and no answer about the user's access on
  the instance is left; the tokens of other connections are untouched.\<close>

theorem revoked_connection_unusable:
  assumes "delete_connection env uid cid db = (Inr (), db') \<or>
    retest_stored env uid cid db = (Inl (Policy Credential_Rejected), db') \<or>
    retest_stored env uid cid db = (Inl (Policy Not_Allowlisted), db')"
  shows "\<exists>c \<in> set (t_connections db). cn_id c = cid \<and> cn_user c = uid \<and>
    get_access_token g kl cid db' = Inl (Cred_Error No_Active_Credential) \<and>
    filter (\<lambda>d. cn_id d = cid \<and> cn_status d = Conn_Active) (t_connections db') = [] \<and>
    filter (\<lambda>m. mb_user m = uid \<and> mb_instance m = cn_instance c) (t_memberships db') = [] \<and>
    (\<forall>x. x \<noteq> cid \<longrightarrow> get_access_token g kl x db' = get_access_token g kl x db)"
proof -
  from assms obtain c db2 reason st t1 t2 where c: "c \<in> set (t_connections db)" "cn_id c = cid" "cn_user c = uid"
    and st: "st \<noteq> Conn_Active"
    and u: "update_connection cid t2 (\<lambda>c. c\<lparr>cn_status := st\<rparr>) (invalidate_credential t1 cid reason db) = Inr db2"
    and db': "db' = invalidate_user_instance uid (cn_instance c) db2"
    by (rule revocation_parts)
  note u = update_connection_Inr [OF u] update_connection_proj [OF u]
  have "get_access_token g kl x db' = get_access_token g kl x (invalidate_credential t1 cid reason db)" for x
    using u(2) by (simp add: get_access_token_def db')
  then have "get_access_token g kl x db' =
      (if x = cid then Inl (Cred_Error No_Active_Credential) else get_access_token g kl x db)" for x
    by (simp add: pat_store.invalidate_token)
  then have tok: "get_access_token g kl cid db' = Inl (Cred_Error No_Active_Credential)"
    "\<forall>x. x \<noteq> cid \<longrightarrow> get_access_token g kl x db' = get_access_token g kl x db" by simp_all
  have "filter (\<lambda>d. cn_id d = cid \<and> cn_status d = Conn_Active) (t_connections db') = []"
    using conjunct1 [OF u(1)] st by (simp add: db' none_active)
  moreover have "filter (\<lambda>m. mb_user m = uid \<and> mb_instance m = cn_instance c) (t_memberships db') = []"
    by (auto simp: db' invalidate_user_instance_def delete_memberships_def del_where_def filter_empty_conv)
  ultimately show ?thesis using c tok by blast
qed

text \<open>The probe of the service is the read client, so "GitLab credential was rejected", the error that
  revokes a stored token, means that GitLab answered a request carrying this very token with 401.\<close>

theorem rejection_is_gitlabs:
  assumes "ce_probe env = gitlab_identity_probe base t"
    and "test_pat env url pat rh db = Inl (Policy Credential_Rejected)"
  shows "\<exists>t0 rq r. rq_token rq = pat \<and> he_send (rc_env base) t0 rq = Some r \<and> hr_status r = 401"
proof -
  obtain gi where "gitlab_identity_probe base t gi pat = Inl Gl_Unauthorized"
    using assms by (auto simp: test_pat_def split: sum.splits option.splits if_splits)
  then obtain al rc where rc: "create_read_client (rc_api base) (rc_param_of base) (rc_iso base) (gi_base_url gi)
        ((rc_env base)\<lparr>he_allow := al, he_token := pat\<rparr>) = Inr rc"
    and u: "get_current_user rc t = Inl Gl_Unauthorized"
    unfolding gitlab_identity_probe_def bind_err_Inl
    by (auto simp: create_read_client_def create_gitlab_allowlist_def bind_err_Inl
        dest: normalize_error split: if_splits)
  have env: "rc_env rc = (rc_env base)\<lparr>he_allow := al, he_token := pat\<rparr>"
    using rc by (auto simp: create_read_client_def split: if_splits)
  from u have "fst (get_json rc ''/api/v4/user'' [] Global_Scope t) = Inl Gl_Unauthorized"
    unfolding get_current_user_def bind_err_Inl by (auto dest: mapper_errors(1))
  from get_json_verdict [OF this, of 401] show ?thesis
    by (auto simp: env verdict_status_def)
qed

section \<open>Witnesses\<close>

definition sample_instance :: instance_row where
  "sample_instance = \<lparr>gi_id = ''gi1'', gi_base_url = ''https://g'', gi_label = None, gi_internal = False,
     gi_created_at = 0\<rparr>"

definition unlinked_db :: database where
  "unlinked_db = sample_db\<lparr>t_connections := [], t_instances := [sample_instance]\<rparr>"

definition sample_conn_env :: "(instance_row \<Rightarrow> string \<Rightarrow> gitlab_error + gl_identity) \<Rightarrow> connection_env" where
  "sample_conn_env probe =
     \<lparr>ce_api = rc_api sample_client, ce_nfkc = (\<lambda>s. s), ce_probe = probe, ce_gcm = sample_gcm,
      ce_loader = sample_loader, ce_draw = sample_draw, ce_now = int, ce_conn_id = ''u1gi1'',
      ce_email_id = ''e1''\<rparr>"

definition sample_probe :: "instance_row \<Rightarrow> string \<Rightarrow> gitlab_error + gl_identity" where
  "sample_probe gi pat = Inr \<lparr>idn_user = ''7'', idn_username = ''ann'', idn_email = None, idn_name = None\<rparr>"

definition sample_row :: connection_row where
  "sample_row = \<lparr>cn_id = ''u1gi1'', cn_user = ''u1'', cn_instance = ''gi1'', cn_gl_user = ''7'', cn_gl_name = ''ann'',
     cn_status = Conn_Active, cn_validated = Some 0, cn_created_at = 0, cn_updated_at = 0\<rparr>"

definition linked_db :: database where
  "linked_db = unlinked_db\<lparr>t_connections := [sample_row]\<rparr>"

lemma sample_fields [simp]:
  "ce_gcm (sample_conn_env p) = sample_gcm" "ce_loader (sample_conn_env p) = sample_loader"
  "ce_draw (sample_conn_env p) = sample_draw" "ce_probe (sample_conn_env p) = p"
  "cn_id sample_row = ''u1gi1''" "cn_instance sample_row = ''gi1''" "gi_id sample_instance = ''gi1''"
  by (simp_all add: sample_conn_env_def sample_row_def sample_instance_def)

lemma sample_normalize: "normalize_gitlab_base_url (rc_api sample_client) True ''https://g'' = Inr ''https://g''"
proof -
  have t: "js_trim ''https://g'' = ''https://g''" by (rule js_trim_plain) (simp add: is_js_space_def)
  moreover have "has_scheme ''https://g''"
    by (simp add: has_scheme_def scheme_char_def is_digit_def starts_with_def)
  ultimately show ?thesis
    by (simp add: normalize_gitlab_base_url_def Let_def sample_client_def sample_url_def origin_of_def
        js_lower_def lower_char_def)
qed

lemma sample_tested:
  "test_pat (sample_conn_env sample_probe) ''https://g'' pat True unlinked_db =
     Inr (sample_instance, \<lparr>idn_user = ''7'', idn_username = ''ann'', idn_email = None, idn_name = None\<rparr>)"
  by (simp add: test_pat_def sample_conn_env_def sample_normalize unlinked_db_def sample_instance_def
      sample_probe_def)

lemma sample_linked:
  "link_connection (sample_conn_env sample_probe) ''u1'' ''gi1''
     \<lparr>idn_user = ''7'', idn_username = ''ann'', idn_email = None, idn_name = None\<rparr> unlinked_db =
     Inr (sample_row, linked_db)"
  by (simp add: link_connection_def create_connection_def sample_conn_env_def unlinked_db_def linked_db_def
      sample_row_def sample_db_def sample_user_def empty_db_def Let_def)

lemma sample_linked_store:
  "\<exists>r db'. store_credential sample_gcm sample_loader sample_draw ''u1gi1'' ''glpat-1'' linked_db = (Inr r, db')"
proof -
  have t: "js_trim ''glpat-1'' = ''glpat-1''" "js_trim ''u1gi1'' = ''u1gi1''" "js_trim ''cr1'' = ''cr1''"
    by (rule js_trim_plain, simp add: is_js_space_def)+
  have "\<exists>r db'. insert_active sample_gcm sample_loader sample_draw ''u1gi1'' ''glpat-1'' linked_db = Inr (r, db')"
    by (simp add: insert_active_def seal_def build_pat_aad_def assert_version_def t
        assert_binding_id_def envelope_version_v1_def sample_loader_def sample_draw_def starts_with_def
        max_safe_integer_def linked_db_def unlinked_db_def sample_db_def empty_db_def sample_row_def
        split: prod.split)
  then show ?thesis
    by (auto simp: store_credential_def sample_pat run_tx_def lock_active_credential_ids_def
        linked_db_def unlinked_db_def sample_db_def empty_db_def)
qed

lemma linked_no_credentials: "t_credentials linked_db = []"
  by (simp add: linked_db_def unlinked_db_def sample_db_def empty_db_def)

lemma sample_saved:
  "\<exists>v db'. save_connection (sample_conn_env sample_probe) ''u1'' ''https://g'' ''glpat-1'' True unlinked_db = (Inr v, db')"
proof -
  obtain r db' where "store_credential sample_gcm sample_loader sample_draw ''u1gi1'' ''glpat-1'' linked_db = (Inr r, db')"
    using sample_linked_store by blast
  then show ?thesis
    using sample_linked
    by (simp add: save_connection_def sample_tested linked_no_credentials Let_def)
qed

lemma sample_save_refused:
  "save_connection (sample_conn_env sample_probe) ''u1'' ''https://g'' [] True unlinked_db =
     (Inl (Provider_Failed (Cred_Error Invalid_Pat)), linked_db)"
  using sample_linked
  by (simp add: save_connection_def sample_tested linked_no_credentials store_credential_def
      assert_valid_pat_def)

lemma linked_reachable: "conn_reachable linked_db"
proof (rule conn_next)
  show "conn_reachable unlinked_db"
    by (rule conn_next [OF conn_start], rule other_step) (simp add: unlinked_db_def empty_db_def)
  show "conn_step unlinked_db linked_db"
    using save_step [of unlinked_db "sample_conn_env sample_probe" "''u1''" "''https://g''" "[]" True]
    by (simp add: sample_save_refused)
qed


theorem saved_connection_usable_witness:
  "\<exists>v db'. save_connection (sample_conn_env sample_probe) ''u1'' ''https://g'' ''glpat-1'' True unlinked_db = (Inr v, db') \<and>
     get_access_token sample_gcm sample_loader (cv_id v) db' = Inr ''glpat-1''"
proof -
  obtain v db' where sv: "save_connection (sample_conn_env sample_probe) ''u1'' ''https://g'' ''glpat-1'' True unlinked_db =
      (Inr v, db')" using sample_saved by blast
  have "creds_ok unlinked_db"
    using sample_creds_ok by (simp add: creds_ok_def unlinked_db_def)
  from saved_connection_usable [OF sv _ _ this] sample_gcm_ok sample_draw_nonce sv show ?thesis
    by auto
qed

theorem failed_save_relabels_witness:
  "\<exists>c. c \<in> set (t_connections linked_db) \<and> cn_status c = Conn_Active \<and> cn_gl_user c = ''7'' \<and> t_credentials linked_db = []"
proof -
  from failed_save_relabels [OF sample_save_refused] show ?thesis
    by (auto simp: sample_probe_def linked_no_credentials)
qed

theorem revoked_connection_unusable_witness:
  "\<exists>db'. delete_connection (sample_conn_env sample_probe) ''u1'' ''u1gi1'' linked_db = (Inr (), db') \<and>
     get_access_token sample_gcm sample_loader ''u1gi1'' db' = Inl (Cred_Error No_Active_Credential)"
proof -
  obtain db' where d: "delete_connection (sample_conn_env sample_probe) ''u1'' ''u1gi1'' linked_db = (Inr (), db')"
    by (simp add: delete_connection_def linked_db_def sample_row_def update_connection_def Let_def
        invalidate_credential_def)
  from revoked_connection_unusable [OF disjI1 [OF d]] d show ?thesis by blast
qed

theorem rejection_is_gitlabs_witness:
  "\<exists>t0 rq r. rq_token rq = ''glpat-1'' \<and> he_send sample_http t0 rq = Some r \<and> hr_status r = 401"
proof -
  have "gitlab_identity_probe sample_client 0 sample_instance ''glpat-1'' = Inl Gl_Unauthorized"
  proof -
    have al: "create_gitlab_allowlist (rc_api sample_client) True [(''https://g'', False)] = Inr [(''https://g'', False)]"
      by (simp add: create_gitlab_allowlist_def sample_normalize find_entry_def)
    have "(rc_env sample_client)\<lparr>he_allow := [(''https://g'', False)], he_token := ''glpat-1''\<rparr> = sample_http"
      by (simp add: sample_client_def sample_http_def)
    moreover have "build_api_url (rc_api sample_client) ''https://g'' ''/api/v4/user'' [] = Inr (sample_url, [])"
      by (simp add: build_api_url_def sample_client_def sample_url_def starts_with_def)
    ultimately show ?thesis
      using sample_request [of Global_Scope] al
      by (auto simp: gitlab_identity_probe_def create_read_client_def sample_instance_def
          get_current_user_def get_json_def)
  qed
  then have "test_pat (sample_conn_env (gitlab_identity_probe sample_client 0)) ''https://g'' ''glpat-1'' True unlinked_db =
      Inl (Policy Credential_Rejected)"
    by (simp add: test_pat_def sample_conn_env_def sample_normalize unlinked_db_def sample_instance_def)
  from rejection_is_gitlabs [OF _ this, of sample_client 0] show ?thesis
    by (simp add: sample_client_def)
qed

end
