(* ===== verification/AllowlistAdmin.thy ===== *)
theory AllowlistAdmin
  imports QueueProtocol Connections
begin

text \<open>
  \<open>AllowlistAdminService\<close> of \<open>packages/domain/src/allowlist-admin.ts\<close>: which GitLab instances and
  projects ReviewPulse may touch. Taking one away removes, in one transaction, what depends on
  it: cached answers, opt-ins and queued work. The foreign keys of the schema decide the rest: a
  project allowlist row goes with its instance, a connection forbids the deletion.
\<close>

datatype admin_error =
    Bad_Base_Url gitlab_error
  | Project_Id_Not_Numeric
  | Admin_Unique_Violation
  | Admin_Foreign_Key_Violation
  | Admin_Record_Not_Found

record instance_view =
  iv_id :: string
  iv_base_url :: string
  iv_label :: "string option"
  iv_internal :: bool

record allow_view =
  av_id :: string
  av_instance :: string
  av_project :: string
  av_path :: "string option"

definition instance_view_of :: "instance_row \<Rightarrow> instance_view" where
  "instance_view_of g = \<lparr>iv_id = gi_id g, iv_base_url = gi_base_url g, iv_label = gi_label g,
     iv_internal = gi_internal g\<rparr>"

definition allow_view_of :: "allow_row \<Rightarrow> allow_view" where
  "allow_view_of a = \<lparr>av_id = al_id a, av_instance = al_instance a, av_project = al_project a,
     av_path = al_path a\<rparr>"

text \<open>A transaction that fails leaves the tables as they were.\<close>

definition admin_tx :: "database \<Rightarrow> admin_error + 'a \<times> database \<Rightarrow> (admin_error + 'a) \<times> database" where
  "admin_tx db r = (case r of Inl e \<Rightarrow> (Inl e, db) | Inr (a, db') \<Rightarrow> (Inr a, db'))"

section \<open>Instances\<close>

definition list_instances :: "database \<Rightarrow> instance_view list" where
  "list_instances db = map instance_view_of (sort_key gi_created_at (t_instances db))"

definition add_instance ::
    "url_api \<Rightarrow> string \<Rightarrow> instant \<Rightarrow> string \<Rightarrow> string option \<Rightarrow> bool \<Rightarrow> bool \<Rightarrow> database
       \<Rightarrow> (admin_error + instance_view) \<times> database" where
  "add_instance api gid now base_url label internal require_https db =
     (case normalize_gitlab_base_url api require_https base_url of
        Inl e \<Rightarrow> (Inl (Bad_Base_Url e), db)
      | Inr url \<Rightarrow>
          if \<exists>g \<in> set (t_instances db). gi_base_url g = url \<or> gi_id g = gid
          then (Inl Admin_Unique_Violation, db)
          else let row = \<lparr>gi_id = gid, gi_base_url = url, gi_label = label, gi_internal = internal,
                     gi_created_at = now\<rparr>
               in (Inr (instance_view_of row), db\<lparr>t_instances := t_instances db @ [row]\<rparr>))"

text \<open>\<open>gitLabInstanceAllowlist.delete\<close> under the foreign keys.\<close>

definition delete_instance :: "string \<Rightarrow> database \<Rightarrow> admin_error + unit \<times> database" where
  "delete_instance gid db =
     (if \<forall>g \<in> set (t_instances db). gi_id g \<noteq> gid then Inl Admin_Record_Not_Found
      else if \<exists>c \<in> set (t_connections db). cn_instance c = gid then Inl Admin_Foreign_Key_Violation
      else Inr ((), db\<lparr>t_instances := del_where (\<lambda>g. gi_id g = gid) (t_instances db),
             t_allowlist := del_where (\<lambda>a. al_instance a = gid) (t_allowlist db)\<rparr>))"

definition remove_instance :: "instant \<Rightarrow> string \<Rightarrow> database \<Rightarrow> (admin_error + unit) \<times> database" where
  "remove_instance now gid db = admin_tx db
     (delete_instance gid (db\<lparr>
        t_memberships := del_where (\<lambda>m. mb_instance m = gid) (t_memberships db),
        t_enables := del_where (\<lambda>e. en_instance e = gid) (t_enables db),
        t_jobs := block_instance_jobs now gid (t_jobs db)\<rparr>))"

section \<open>Projects\<close>

definition displayable :: "string option \<Rightarrow> string option" where
  "displayable path = (case path of None \<Rightarrow> None | Some p \<Rightarrow> if js_trim p \<noteq> [] then Some p else None)"

definition list_projects :: "string option \<Rightarrow> database \<Rightarrow> allow_view list" where
  "list_projects gid db =
     map (\<lambda>a. (allow_view_of a)\<lparr>av_path := displayable (al_path a)\<rparr>)
       (sort_key al_created_at (filter (\<lambda>a. case gid of None \<Rightarrow> True
          | Some i \<Rightarrow> i = [] \<or> al_instance a = i) (t_allowlist db)))"

definition add_project ::
    "string \<Rightarrow> instant \<Rightarrow> string \<Rightarrow> string \<Rightarrow> string option \<Rightarrow> database
       \<Rightarrow> (admin_error + allow_view) \<times> database" where
  "add_project aid now gid project path db =
     (let p = js_trim project in
      if \<not> all_digits p then (Inl Project_Id_Not_Numeric, db)
      else let shown = (case path of None \<Rightarrow> [] | Some s \<Rightarrow> js_trim s);
               row = \<lparr>al_id = aid, al_instance = gid, al_project = p,
                 al_path = (if shown \<noteq> [] then Some shown else None), al_created_at = now\<rparr>
           in if \<exists>a \<in> set (t_allowlist db). al_id a = aid \<or> (al_instance a = gid \<and> al_project a = p)
              then (Inl Admin_Unique_Violation, db)
              else if \<forall>g \<in> set (t_instances db). gi_id g \<noteq> gid then (Inl Admin_Foreign_Key_Violation, db)
              else (Inr (allow_view_of row), db\<lparr>t_allowlist := t_allowlist db @ [row]\<rparr>))"

definition remove_project :: "instant \<Rightarrow> string \<Rightarrow> database \<Rightarrow> database" where
  "remove_project now aid db =
     (case find (\<lambda>a. al_id a = aid) (t_allowlist db) of
        None \<Rightarrow> db
      | Some a \<Rightarrow>
          db\<lparr>t_memberships := del_where (\<lambda>m. mb_instance m = al_instance a \<and> mb_project m = al_project a)
               (t_memberships db),
             t_enables := del_where (\<lambda>e. en_instance e = al_instance a \<and> en_project e = al_project a)
               (t_enables db),
             t_jobs := block_project_jobs now (al_instance a) (al_project a) (t_jobs db),
             t_allowlist := del_where (\<lambda>x. al_id x = aid) (t_allowlist db)\<rparr>)"

section \<open>Lemmas\<close>

text \<open>The primary key and the unique index of the project allowlist.\<close>

definition allow_ok :: "allow_row list \<Rightarrow> bool" where
  "allow_ok rows \<longleftrightarrow> distinct (map al_id rows) \<and> distinct (map (\<lambda>a. (al_instance a, al_project a)) rows)"

lemma allow_ok_add:
  "allow_ok (t_allowlist db) \<Longrightarrow> allow_ok (t_allowlist (snd (add_project aid now gid p path db)))"
  by (auto simp: add_project_def Let_def allow_ok_def)

lemma distinct_del: "distinct (map k xs) \<Longrightarrow> distinct (map k (del_where P xs))"
  by (simp add: del_where_def distinct_map_filter)

lemma allow_ok_remove: "allow_ok (t_allowlist db) \<Longrightarrow> allow_ok (t_allowlist (remove_project now aid db))"
  by (auto simp: remove_project_def allow_ok_def distinct_del split: option.splits)

lemma block_instance_idle:
  "j \<in> set (block_instance_jobs now gid jobs) \<Longrightarrow> j_type j = project_sync_job_type \<Longrightarrow>
     j_instance j = Some gid \<Longrightarrow> \<not> is_active j"
  by (auto simp: block_instance_jobs_def set_upd_where blocked_row_def is_active_def)

lemma block_project_idle:
  "j \<in> set (block_project_jobs now gid p jobs) \<Longrightarrow> j_type j = project_sync_job_type \<Longrightarrow>
     j_instance j = Some gid \<Longrightarrow> j_project j = Some p \<Longrightarrow> \<not> is_active j"
  by (auto simp: block_project_jobs_def set_upd_where blocked_row_def is_active_def)

text \<open>No operation deletes a connection row.\<close>

definition keeps_rows :: "connection_row list \<Rightarrow> connection_row list \<Rightarrow> bool" where
  "keeps_rows rows rows' \<longleftrightarrow> (\<forall>c \<in> set rows. \<exists>c' \<in> set rows'. cn_id c' = cn_id c \<and> cn_instance c' = cn_instance c)"

lemma keeps_rows_refl [simp]: "keeps_rows rows rows"
  by (auto simp: keeps_rows_def)

lemma keeps_rows_upd [simp]:
  "(\<And>c. cn_id (f c) = cn_id c \<and> cn_instance (f c) = cn_instance c) \<Longrightarrow> keeps_rows rows (upd_where P f rows)"
  by (auto simp: keeps_rows_def set_upd_where)

lemma keeps_rows_append [simp]: "keeps_rows rows (rows @ xs)"
  by (auto simp: keeps_rows_def)

lemma keeps_rows_update_connection:
  assumes "update_connection cid now f db = Inr db'"
    and "\<And>c. cn_id (f c) = cn_id c \<and> cn_instance (f c) = cn_instance c"
  shows "keeps_rows (t_connections db) (t_connections db')"
  using conjunct1 [OF update_connection_Inr [OF assms(1)]] assms(2) by simp

lemma keeps_rows_link:
  assumes "link_connection env uid inst idn db = Inr (c, db1)"
  shows "keeps_rows (t_connections db) (t_connections db1)"
  using assms
  by (auto simp: link_connection_def create_connection_def Let_def split: option.splits sum.splits if_splits
      dest: keeps_rows_update_connection)

lemma keeps_rows_save: "keeps_rows (t_connections db) (t_connections (snd (save_connection env uid url pat rh db)))"
proof (cases "save_connection env uid url pat rh db")
  case (Pair r db')
  then show ?thesis
  proof (cases rule: save_connection_cases)
    case (linked gi idn c db1)
    from save_connection_parts [OF Pair this] obtain s db2 where
      "store_credential (ce_gcm env) (ce_loader env) (ce_draw env) (cn_id c) pat db1 = (s, db2) \<or>
        replace_credential (ce_gcm env) (ce_loader env) (ce_draw env) (cn_id c) pat db1 = (s, db2)"
      and r: "case s of
         Inl e \<Rightarrow> r = Inl (Provider_Failed e) \<and> db' = db2
       | Inr ref \<Rightarrow> r = Inr (view_of db' (Some (cref_hint ref)) c) \<and>
           db' = invalidate_user_instance uid (cn_instance c) (case idn_email idn of
             Some m \<Rightarrow> if m = [] then db2 else upsert_gitlab_email env uid m db2 | None \<Rightarrow> db2)"
      by blast
    then have "t_connections db2 = t_connections db1" using provider_proj by blast
    with r have "t_connections db' = t_connections db1" by (cases s) (simp_all split: option.splits)
    with keeps_rows_link [OF linked(2)] Pair show ?thesis by simp
  qed (simp_all add: Pair)
qed

lemma keeps_rows_drop:
  "drop_connection env uid c e db = (e', db') \<Longrightarrow> keeps_rows (t_connections db) (t_connections db')"
  by (auto simp: drop_connection_def Let_def split: sum.splits dest!: keeps_rows_update_connection)

lemma keeps_rows_retest: "keeps_rows (t_connections db) (t_connections (snd (retest_stored env uid cid db)))"
  by (auto simp: retest_stored_def Let_def split: option.splits sum.splits prod.splits
      dest!: keeps_rows_drop keeps_rows_update_connection)

lemma keeps_rows_delete: "keeps_rows (t_connections db) (t_connections (snd (delete_connection env uid cid db)))"
  by (auto simp: delete_connection_def Let_def split: option.splits sum.splits
      dest!: keeps_rows_update_connection)

lemma conn_step_keeps_rows: "conn_step db db' \<Longrightarrow> keeps_rows (t_connections db) (t_connections db')"
proof (induction rule: conn_step.induct)
  case (unauthorized_step c db aenv t)
  then show ?case by (simp add: handle_unauthorized_def Let_def)
next
  case (sync_step db cid)
  show ?case by (simp add: mark_connection_invalid_def)
qed (simp_all add: keeps_rows_save keeps_rows_delete keeps_rows_retest)

lemma keeps_rows_trans: "keeps_rows xs ys \<Longrightarrow> keeps_rows ys zs \<Longrightarrow> keeps_rows xs zs"
  by (fastforce simp: keeps_rows_def)

lemma conn_steps_keep_rows: "conn_step\<^sup>*\<^sup>* db db' \<Longrightarrow> keeps_rows (t_connections db) (t_connections db')"
  by (induction rule: rtranclp_induct) (auto intro: keeps_rows_trans conn_step_keeps_rows)

section \<open>Properties\<close>


text \<open>Removing an instance happens completely or not at all. When it succeeds, nothing refers to the
  instance any more and no job of it can run; when it fails, nothing has changed.\<close>

theorem remove_instance_all_or_nothing:
  assumes "remove_instance now gid db = (r, db')"
  shows "(\<exists>e. r = Inl e) \<and> db' = db \<or>
    r = Inr () \<and> gid \<notin> gi_id ` set (t_instances db') \<and> gid \<notin> cn_instance ` set (t_connections db') \<and>
    gid \<notin> al_instance ` set (t_allowlist db') \<and> gid \<notin> en_instance ` set (t_enables db') \<and>
    gid \<notin> mb_instance ` set (t_memberships db') \<and>
    filter (\<lambda>j. j_type j = project_sync_job_type \<and> j_instance j = Some gid \<and> is_active j) (t_jobs db') = [] \<and>
    {g \<in> set (t_instances db'). gi_id g \<noteq> gid} = {g \<in> set (t_instances db). gi_id g \<noteq> gid}"
  using assms
  by (auto simp: remove_instance_def admin_tx_def delete_instance_def set_del_where filter_empty_conv
      split: sum.splits if_splits dest: block_instance_idle)

text \<open>An instance that anybody ever connected to cannot be removed: whatever the users and services do
  to the connections afterwards, deletion of the connection included, the removal fails on the
  foreign key and its clean-up is rolled back.\<close>

theorem linked_instance_stays:
  assumes "c \<in> set (t_connections db)" and "conn_step\<^sup>*\<^sup>* db db'"
  shows "\<exists>e. remove_instance now (cn_instance c) db' = (Inl e, db')"
proof -
  obtain c' where "c' \<in> set (t_connections db')" "cn_instance c' = cn_instance c"
    using conn_steps_keep_rows [OF assms(2)] assms(1) by (auto simp: keeps_rows_def)
  then show ?thesis by (auto simp: remove_instance_def admin_tx_def delete_instance_def)
qed

section \<open>Witnesses\<close>


lemma unlinked_removal:
  "\<exists>db'. remove_instance 9 ''gi1'' unlinked_db = (Inr (), db')"
  by (simp add: remove_instance_def admin_tx_def delete_instance_def unlinked_db_def sample_instance_def)

theorem remove_instance_all_or_nothing_witness:
  "\<exists>db'. remove_instance 9 ''gi1'' unlinked_db = (Inr (), db') \<and> ''gi1'' \<notin> gi_id ` set (t_instances db')"
proof -
  obtain db' where r: "remove_instance 9 ''gi1'' unlinked_db = (Inr (), db')" using unlinked_removal by blast
  from remove_instance_all_or_nothing [OF r] r show ?thesis by auto
qed

theorem linked_instance_stays_witness:
  "\<exists>db' e. delete_connection (sample_conn_env sample_probe) ''u1'' ''u1gi1'' linked_db = (Inr (), db') \<and>
     remove_instance 9 ''gi1'' db' = (Inl e, db')"
proof -
  obtain db' where d: "delete_connection (sample_conn_env sample_probe) ''u1'' ''u1gi1'' linked_db = (Inr (), db')"
    by (simp add: delete_connection_def linked_db_def sample_row_def update_connection_def Let_def
        invalidate_credential_def)
  have "conn_step\<^sup>*\<^sup>* linked_db db'"
    using delete_step [of linked_db "sample_conn_env sample_probe" "''u1''" "''u1gi1''"] d by auto
  moreover have "sample_row \<in> set (t_connections linked_db)" by (simp add: linked_db_def)
  ultimately show ?thesis using linked_instance_stays [of sample_row linked_db db' 9] d by auto
qed

end
