(* ===== verification/EmailAlias.thy ===== *)
theory EmailAlias
  imports SyncStore
begin

text \<open>
  \<open>EmailAliasService\<close> of \<open>packages/domain/src/email-alias.ts\<close>: the addresses under which a user's
  commits are counted. GitLab's own addresses come from the connection service; a user adds and
  removes aliases. The unique index is on user and normalised address.
\<close>

datatype alias_error = Invalid_Email | Only_Aliases | Alias_Foreign_Key | Alias_Unique

record email_view =
  ev_id :: string
  ev_email :: string
  ev_norm :: string
  ev_source :: email_source
  ev_verif :: email_verification
  ev_primary :: bool

definition email_view_of :: "email_row \<Rightarrow> email_view" where
  "email_view_of e = \<lparr>ev_id = e_id e, ev_email = e_email e, ev_norm = e_norm e, ev_source = e_source e,
     ev_verif = e_verif e, ev_primary = e_primary e\<rparr>"

text \<open>\<open>orderBy\<close>: primary first, then the oldest.\<close>

definition list_emails :: "string \<Rightarrow> database \<Rightarrow> email_view list" where
  "list_emails uid db =
     map email_view_of (sort_key (\<lambda>e. (\<not> e_primary e, e_created_at e)) (filter (\<lambda>e. e_user e = uid) (t_emails db)))"

definition add_alias ::
    "(string \<Rightarrow> string) \<Rightarrow> string \<Rightarrow> instant \<Rightarrow> string \<Rightarrow> string \<Rightarrow> database
       \<Rightarrow> (alias_error + email_view) \<times> database" where
  "add_alias nfkc eid now uid email db =
     (let trimmed = js_trim email in
      case normalize_author_email nfkc (Some trimmed) of
        None \<Rightarrow> (Inl Invalid_Email, db)
      | Some nm \<Rightarrow>
          (case find (\<lambda>e. e_user e = uid \<and> e_norm e = nm) (t_emails db) of
             Some e \<Rightarrow> (Inr (email_view_of e), db)
           | None \<Rightarrow>
               let row = \<lparr>e_id = eid, e_user = uid, e_email = trimmed, e_norm = nm, e_source = User_Alias,
                     e_verif = User_Unverified, e_primary = False, e_created_at = now\<rparr>
               in if \<exists>e \<in> set (t_emails db). e_id e = eid then (Inl Alias_Unique, db)
                  else if \<forall>u \<in> set (t_users db). u_id u \<noteq> uid then (Inl Alias_Foreign_Key, db)
                  else (Inr (email_view_of row), db\<lparr>t_emails := t_emails db @ [row]\<rparr>)))"

definition remove_alias :: "string \<Rightarrow> string \<Rightarrow> database \<Rightarrow> (alias_error + unit) \<times> database" where
  "remove_alias uid eid db =
     (case find (\<lambda>e. e_id e = eid \<and> e_user e = uid) (t_emails db) of
        None \<Rightarrow> (Inr (), db)
      | Some e \<Rightarrow>
          if e_source e \<noteq> User_Alias then (Inl Only_Aliases, db)
          else (Inr (), db\<lparr>t_emails := del_where (\<lambda>x. e_id x = e_id e) (t_emails db)\<rparr>))"

text \<open>The primary key and the unique index.\<close>

definition emails_ok :: "email_row list \<Rightarrow> bool" where
  "emails_ok rows \<longleftrightarrow> distinct (map e_id rows) \<and> distinct (map (\<lambda>e. (e_user e, e_norm e)) rows)"

lemma add_alias_ok: "emails_ok (t_emails db) \<Longrightarrow> emails_ok (t_emails (snd (add_alias f eid now uid m db)))"
  by (auto simp: add_alias_def Let_def emails_ok_def find_None_iff split: option.splits)

lemma remove_alias_ok: "emails_ok (t_emails db) \<Longrightarrow> emails_ok (t_emails (snd (remove_alias uid eid db)))"
  by (auto simp: remove_alias_def emails_ok_def del_where_def distinct_map_filter split: option.splits)

lemma find_append_fresh: "\<forall>x \<in> set xs. \<not> P x \<Longrightarrow> P y \<Longrightarrow> find P (xs @ [y]) = Some y"
  by (induction xs) auto

lemma add_alias_Inr:
  assumes "add_alias f eid now uid m db = (Inr v, db')"
  shows "\<exists>n e. normalize_author_email f (Some (js_trim m)) = Some n \<and> e \<in> set (t_emails db') \<and>
    e_user e = uid \<and> email_view_of e = v \<and> e_norm e = n \<and>
    (db' = db \<or> db' = db\<lparr>t_emails := t_emails db @ [e]\<rparr> \<and> e_id e = eid \<and> e_source e = User_Alias \<and>
       (\<forall>x \<in> set (t_emails db). e_id x \<noteq> eid))"
proof -
  obtain n where n: "normalize_author_email f (Some (js_trim m)) = Some n"
    using assms by (auto simp: add_alias_def Let_def split: option.splits)
  show ?thesis
  proof (cases "find (\<lambda>e. e_user e = uid \<and> e_norm e = n) (t_emails db)")
    case (Some e)
    with assms n find_SomeD [OF Some] show ?thesis by (auto simp: add_alias_def)
  next
    case None
    with assms n show ?thesis by (auto simp: add_alias_def Let_def split: if_splits)
  qed
qed

text \<open>Aliases are a set of normalised addresses per user: adding an address that the user has, under
  any spelling with the same normal form, returns the row that is there and changes nothing, and
  removing a freshly added alias restores the table; GitLab's addresses and those of other users
  cannot be removed.\<close>

theorem alias_add_remove:
  assumes "emails_ok (t_emails db)" and "add_alias f eid now uid m db = (Inr v, db')"
    and "normalize_author_email f (Some (js_trim m')) = normalize_author_email f (Some (js_trim m))"
  shows "add_alias f eid' now' uid m' db' = (Inr v, db') \<and>
    (db' = db \<or> remove_alias uid (ev_id v) db' = (Inr (), db)) \<and>
    {e \<in> set (t_emails (snd (remove_alias uid x db))). e_source e \<noteq> User_Alias \<or> e_user e \<noteq> uid} =
      {e \<in> set (t_emails db). e_source e \<noteq> User_Alias \<or> e_user e \<noteq> uid}"
proof (intro conjI)
  from add_alias_Inr [OF assms(2)] obtain n e where n: "normalize_author_email f (Some (js_trim m)) = Some n"
    and e: "e \<in> set (t_emails db')" "e_user e = uid" "email_view_of e = v" "e_norm e = n"
    and db': "db' = db \<or> db' = db\<lparr>t_emails := t_emails db @ [e]\<rparr> \<and> e_id e = eid \<and> e_source e = User_Alias \<and>
      (\<forall>x \<in> set (t_emails db). e_id x \<noteq> eid)" by blast
  have ok: "emails_ok (t_emails db')" using add_alias_ok [OF assms(1), of f eid now uid m] assms(2) by simp
  obtain e' where f: "find (\<lambda>e. e_user e = uid \<and> e_norm e = n) (t_emails db') = Some e'"
    using e by (cases "find (\<lambda>e. e_user e = uid \<and> e_norm e = n) (t_emails db')") (auto simp: find_None_iff)
  moreover have "e' = e"
    using find_SomeD [OF f] e ok by (auto simp: emails_ok_def distinct_map inj_on_def)
  ultimately show "add_alias f eid' now' uid m' db' = (Inr v, db')"
    using n e assms(3) by (simp add: add_alias_def)
  show "db' = db \<or> remove_alias uid (ev_id v) db' = (Inr (), db)"
  proof -
    have "remove_alias uid eid (db\<lparr>t_emails := t_emails db @ [e]\<rparr>) = (Inr (), db)"
      if "e_id e = eid" "e_source e = User_Alias" "\<forall>x \<in> set (t_emails db). e_id x \<noteq> eid"
    proof -
      have "find (\<lambda>x. e_id x = eid \<and> e_user x = uid) (t_emails db @ [e]) = Some e"
        using that e(2) by (intro find_append_fresh) auto
      moreover have "del_where (\<lambda>x. e_id x = eid) (t_emails db @ [e]) = t_emails db"
        using that by (simp add: del_where_def filter_id_conv)
      ultimately show ?thesis using that by (simp add: remove_alias_def)
    qed
    moreover have "ev_id v = e_id e" using e(3) by (auto simp: email_view_of_def)
    ultimately show ?thesis using db' by auto
  qed
  show "{e \<in> set (t_emails (snd (remove_alias uid x db))). e_source e \<noteq> User_Alias \<or> e_user e \<noteq> uid} =
      {e \<in> set (t_emails db). e_source e \<noteq> User_Alias \<or> e_user e \<noteq> uid}"
  proof (cases "find (\<lambda>e. e_id e = x \<and> e_user e = uid) (t_emails db)")
    case None
    then show ?thesis by (simp add: remove_alias_def)
  next
    case (Some r)
    from find_SomeD [OF this] have "z = r" if "z \<in> set (t_emails db)" "e_id z = e_id r" for z
      using that assms(1) by (auto simp: emails_ok_def distinct_map inj_on_def)
    with Some find_SomeD [OF Some] show ?thesis by (auto simp: remove_alias_def set_del_where)
  qed
qed

text \<open>An alias of a user without addresses.\<close>

definition alias_db :: database where
  "alias_db = empty_db\<lparr>t_users := [\<lparr>u_id = ''u1'', u_email = ''a@x'', u_norm = ''a@x'', u_pw_hash = [],
     u_role = Developer, u_status = User_Active, u_created_by = None, u_invited_at = None,
     u_created_at = 0, u_last_login = None, u_failed = 0, u_locked_until = None\<rparr>]\<rparr>"

theorem alias_add_remove_witness:
  "\<exists>v db'. add_alias (\<lambda>s. s) ''e1'' 5 ''u1'' '' b@x'' alias_db = (Inr v, db') \<and>
     remove_alias ''u1'' (ev_id v) db' = (Inr (), alias_db) \<and>
     add_alias (\<lambda>s. s) ''e2'' 6 ''u1'' ''b@x'' db' = (Inr v, db')"
proof -
  have t: "js_trim '' b@x'' = ''b@x''" "js_trim ''b@x'' = ''b@x''"
    by (simp_all add: js_trim_def js_trim_start_def is_js_space_def)
  have n: "normalize_author_email (\<lambda>s. s) (Some ''b@x'') = Some ''b@x''"
    by (simp add: normalize_author_email_def js_lower_def lower_char_def starts_with_def)
  obtain v db' where a: "add_alias (\<lambda>s. s) ''e1'' 5 ''u1'' '' b@x'' alias_db = (Inr v, db')" and ne: "db' \<noteq> alias_db"
    by (simp add: add_alias_def t n alias_db_def empty_db_def Let_def)
  have "emails_ok (t_emails alias_db)" by (simp add: emails_ok_def alias_db_def empty_db_def)
  from alias_add_remove [OF this a, of "''b@x''"] a ne show ?thesis by (auto simp: t)
qed

end
