(* ===== verification/Redact.thy ===== *)
theory Redact
  imports Database "HOL-Library.AList"
begin

text \<open>
  \<open>packages/crypto/src/redact.ts\<close> and the audit writer (\<open>packages/app-auth/src/audit.ts\<close>): what may
  leave the process in logs, audit events and error payloads. A value is a tree of JavaScript
  values: no object occurs twice in one, so the mark of a cycle is never set.
\<close>

section \<open>Sensitive keys\<close>

definition redacted :: string where
  "redacted = ''[REDACTED]''"

definition exact_sensitive_keys :: "string list" where
  "exact_sensitive_keys = [''pat'', ''key'', ''iv'', ''tag'', ''sealed'', ''envelope'']"

definition sensitive_key_fragments :: "string list" where
  "sensitive_key_fragments = [''authorization'', ''privatetoken'', ''accesstoken'', ''encryptedpat'',
     ''ciphertext'', ''authtag'', ''token'', ''session'', ''password'', ''passwd'', ''secret'', ''nonce'',
     ''credentials'', ''apikey'']"

definition normalize_key :: "string \<Rightarrow> string" where
  "normalize_key k = filter (\<lambda>c. c \<noteq> CHR ''-'' \<and> c \<noteq> CHR ''_'' \<and> \<not> is_js_space c) (js_lower k)"

definition is_sensitive_key :: "string \<Rightarrow> bool" where
  "is_sensitive_key k \<longleftrightarrow>
     (let n = normalize_key k in n \<in> set exact_sensitive_keys \<or>
       list_ex (\<lambda>f. str_includes f n) sensitive_key_fragments)"

section \<open>Redaction\<close>

text \<open>The values that \<open>redactValue\<close> tells apart. A number that is not finite is \<open>V_Num None\<close>. A date carries its ISO text, a map its keys as text, an
  error its name, its message, its code where that is a string or a number, and its other own
  properties.\<close>

datatype js_value =
    V_Undefined
  | V_Null
  | V_Bool bool
  | V_Num "rat option"
  | V_Str string
  | V_Array "js_value list"
  | V_Object "(string \<times> js_value) list"
  | V_Map "(string \<times> js_value) list"
  | V_Set "js_value list"
  | V_Date string
  | V_Bytes "8 word list"
  | V_Error string string "(string + rat option) option" "(string \<times> js_value) list"

text \<open>\<open>out[name] = value\<close> for each entry in turn.\<close>

definition assign_all :: "(string \<times> 'v) list \<Rightarrow> (string \<times> 'v) list" where
  "assign_all kvs = fold (\<lambda>(k, v). AList.update k v) kvs []"

fun redact_value :: "js_value \<Rightarrow> js_value" where
  "redact_value (V_Array vs) = V_Array (map redact_value vs)"
| "redact_value (V_Error name msg code props) =
     V_Object ([(''name'', V_Str name), (''message'', V_Str msg)] @
       (case code of None \<Rightarrow> [] | Some (Inl c) \<Rightarrow> [(''code'', V_Str c)] | Some (Inr n) \<Rightarrow> [(''code'', V_Num n)]) @
       map (\<lambda>(k, v). (k, if is_sensitive_key k then V_Str redacted else redact_value v))
         (filter (\<lambda>(k, v). k \<notin> {''name'', ''message'', ''code''}) props))"
| "redact_value (V_Map kvs) =
     V_Object (assign_all (map (\<lambda>(k, v). (k, if is_sensitive_key k then V_Str redacted else redact_value v)) kvs))"
| "redact_value (V_Set vs) = V_Array (map redact_value vs)"
| "redact_value (V_Date d) = V_Str d"
| "redact_value (V_Bytes bs) = V_Str redacted"
| "redact_value (V_Object kvs) =
     V_Object (map (\<lambda>(k, v). (k, if is_sensitive_key k then V_Str redacted else redact_value v)) kvs)"
| "redact_value v = v"

text \<open>The same on JSON, which the audit writer stores.\<close>

fun of_json :: "json \<Rightarrow> js_value" where
  "of_json (JArr vs) = V_Array (map of_json vs)"
| "of_json (JObj ms) = V_Object (map (\<lambda>(k, v). (k, of_json v)) ms)"
| "of_json JNull = V_Null"
| "of_json (JBool b) = V_Bool b"
| "of_json (JNum n) = V_Num (Some n)"
| "of_json (JStr s) = V_Str s"

fun redact :: "json \<Rightarrow> json" where
  "redact (JArr vs) = JArr (map redact vs)"
| "redact (JObj ms) =
     JObj (map (\<lambda>(k, v). (k, if is_sensitive_key k then JStr redacted else redact v)) ms)"
| "redact v = v"

definition redact_headers :: "(string \<times> js_value) list \<Rightarrow> (string \<times> js_value) list" where
  "redact_headers hs =
     assign_all (map (\<lambda>(k, v). (k, if is_sensitive_key k then V_Str redacted else redact_value v)) hs)"

section \<open>Error payloads\<close>

text \<open>An error as the boundary sees it: whether it opted in, its code, its message.\<close>

record thrown_error =
  te_safe :: bool
  te_code :: "string option"
  te_message :: string

record error_payload =
  ep_code :: string
  ep_message :: string

definition unknown_error :: error_payload where
  "unknown_error = \<lparr>ep_code = ''INTERNAL_ERROR'', ep_message = ''Internal error''\<rparr>"

definition is_safe_domain_error :: "thrown_error \<Rightarrow> bool" where
  "is_safe_domain_error e \<longleftrightarrow> te_safe e \<and> (case te_code e of None \<Rightarrow> False | Some c \<Rightarrow> c \<noteq> [])"

definition to_safe_error_payload :: "thrown_error \<Rightarrow> error_payload" where
  "to_safe_error_payload e =
     (if is_safe_domain_error e then \<lparr>ep_code = the (te_code e), ep_message = te_message e\<rparr> else unknown_error)"

section \<open>Audit events\<close>

definition forbidden_meta_keys :: "string list" where
  "forbidden_meta_keys = [''password'', ''pat'', ''token'', ''session'', ''ciphertext'', ''nonce'', ''secret'',
     ''authorization'', ''private-token'', ''privatetoken'', ''accesstoken'']"

definition audit_key :: "string \<Rightarrow> string" where
  "audit_key k = filter (\<lambda>c. c \<noteq> CHR ''_'' \<and> c \<noteq> CHR ''-'') (js_lower k)"

text \<open>\<open>None\<close> is the thrown "audit meta must not include secrets". The foreign key on the actor is
  satisfied by every caller: the actor is a user that the call has just read.\<close>

definition audit_write :: "string \<Rightarrow> string option \<Rightarrow> (string \<times> json) list \<Rightarrow> database \<Rightarrow> database option" where
  "audit_write action actor meta db =
     (if list_ex (\<lambda>(k, v). audit_key k \<in> set forbidden_meta_keys) meta then None
      else Some (db\<lparr>t_audit := t_audit db @
        [\<lparr>au_actor = actor, au_action = action, au_meta = redact (JObj meta)\<rparr>]\<rparr>))"

section \<open>Lemmas\<close>

text \<open>Nothing is left under a sensitive key, at any depth.\<close>

fun discreet :: "json \<Rightarrow> bool" where
  "discreet (JArr vs) = list_all discreet vs"
| "discreet (JObj ms) = list_all (\<lambda>(k, v). if is_sensitive_key k then v = JStr redacted else discreet v) ms"
| "discreet v = True"

fun discreet_value :: "js_value \<Rightarrow> bool" where
  "discreet_value (V_Array vs) = list_all discreet_value vs"
| "discreet_value (V_Object kvs) = list_all (\<lambda>(k, v). if is_sensitive_key k then v = V_Str redacted else discreet_value v) kvs"
| "discreet_value (V_Bytes bs) = False"
| "discreet_value (V_Error name msg code props) = False"
| "discreet_value (V_Map kvs) = False"
| "discreet_value (V_Set vs) = False"
| "discreet_value (V_Date d) = False"
| "discreet_value v = True"

text \<open>The text under keys that are not sensitive.\<close>

fun kept_strings :: "json \<Rightarrow> string list" where
  "kept_strings (JStr s) = [s]"
| "kept_strings (JArr vs) = concat (map kept_strings vs)"
| "kept_strings (JObj ms) = concat (map (\<lambda>(k, v). if is_sensitive_key k then [] else kept_strings v) ms)"
| "kept_strings v = []"

lemma discreet_redact [simp]: "discreet (redact v)"
  by (induction v rule: redact.induct) (auto simp: list_all_iff)

lemma redact_discreet: "discreet v \<Longrightarrow> redact v = v"
  by (induction v rule: redact.induct) (auto simp: list_all_iff intro!: map_idI split: if_splits)

lemma kept_redact: "kept_strings (redact v) = kept_strings v"
proof (induction v rule: redact.induct)
  case (1 vs)
  then show ?case by (simp add: comp_def cong: map_cong)
next
  case (2 ms)
  have "(\<lambda>(k, v). if is_sensitive_key k then [] else kept_strings v) (case x of (k, v) \<Rightarrow>
      (k, if is_sensitive_key k then JStr redacted else redact v)) =
    (case x of (k, v) \<Rightarrow> if is_sensitive_key k then [] else kept_strings v)" if "x \<in> set ms" for x
    using 2 that by (cases x) auto
  then show ?case by (simp add: comp_def cong: map_cong)
qed simp_all

lemma redact_of_json: "redact_value (of_json v) = of_json (redact v)"
proof (induction v rule: redact.induct)
  case (2 ms)
  then show ?case by (auto simp: case_prod_unfold)
qed simp_all

lemma set_assign_all: "set (assign_all kvs) \<subseteq> set kvs"
proof -
  have "set (fold (\<lambda>(k, v). AList.update k v) kvs acc) \<subseteq> set kvs \<union> set acc" for acc
  proof (induction kvs arbitrary: acc)
    case (Cons p kvs)
    obtain k v where p: "p = (k, v)" by (cases p)
    have "set (AList.update k v acc) \<subseteq> insert (k, v) (set acc)" by (induction acc) auto
    with Cons [of "AList.update k v acc"] p show ?case by auto
  qed simp
  from this [of "[]"] show ?thesis by (simp add: assign_all_def)
qed

lemma error_keys_plain: "\<not> is_sensitive_key ''name''" "\<not> is_sensitive_key ''message''" "\<not> is_sensitive_key ''code''"
  by (simp_all add: is_sensitive_key_def normalize_key_def js_lower_def lower_char_def is_js_space_def
      exact_sensitive_keys_def sensitive_key_fragments_def starts_with_def Let_def)

lemma discreet_redact_value [simp]: "discreet_value (redact_value v)"
proof (induction v rule: redact_value.induct)
  case (2 name msg code props)
  have "list_all (\<lambda>(k, v). if is_sensitive_key k then v = V_Str redacted else discreet_value v)
      (case code of None \<Rightarrow> [] | Some (Inl c) \<Rightarrow> [(''code'', V_Str c)] | Some (Inr n) \<Rightarrow> [(''code'', V_Num n)])"
    by (simp add: error_keys_plain split: option.split sum.split)
  with 2 show ?case by (auto simp: list_all_iff error_keys_plain)
next
  case (3 kvs)
  then show ?case using set_assign_all by (fastforce simp: list_all_iff)
qed (auto simp: list_all_iff)

lemma redact_discreet_value: "discreet_value v \<Longrightarrow> redact_value v = v"
  by (induction v rule: redact_value.induct) (auto simp: list_all_iff intro!: map_idI split: if_splits)


text \<open>The session id that the login and logout events carry is itself under a sensitive key.\<close>

lemma session_id_never_audited: "redact (JObj [(''sessionId'', JStr sid)]) = JObj [(''sessionId'', JStr redacted)]"
  by (simp add: is_sensitive_key_def normalize_key_def js_lower_def lower_char_def is_js_space_def
      sensitive_key_fragments_def starts_with_def Let_def)

text \<open>The entry \<open>private-token\<close> of the forbidden keys is dead: a key is compared without its dashes.\<close>

lemma audit_key_no_dash: "audit_key k \<noteq> ''private-token''"
proof
  assume "audit_key k = ''private-token''"
  then have "CHR ''-'' \<in> set (audit_key k)" by simp
  then show False by (simp add: audit_key_def)
qed

end
