(* ===== verification/AuthPolicy.thy ===== *)
theory AuthPolicy
  imports JsNumber Crypto Redact
begin

text \<open>
  The policies of \<open>packages/app-auth\<close> without state: e-mail normalisation (\<open>email.ts\<close>), the
  password rules (\<open>password.ts\<close>), the session policy and tokens (\<open>session-crypto.ts\<close>) and the
  guards on requests that change state (\<open>csrf.ts\<close>). Argon2 and HMAC-SHA256 are parameters.
\<close>

datatype auth_error =
    Invalid_Credentials | Account_Locked | Account_Deactivated | Auth_Forbidden | Auth_Unauthorized
  | Invalid_Input | Csrf_Failed | Origin_Failed | Session_Expired | Auth_Conflict | Auth_Not_Found
  | Rate_Limited | Audit_Refused | Auth_Db_Failed

section \<open>E-mail and password\<close>

definition normalize_email :: "(string \<Rightarrow> string) \<Rightarrow> string \<Rightarrow> auth_error + string" where
  "normalize_email nfkc input =
     (let n = js_lower (nfkc (js_trim input)) in
      if n = [] \<or> \<not> str_includes ''@'' n then Inl Invalid_Input
      else if 320 < length n then Inl Invalid_Input
      else Inr n)"

definition min_password_length :: nat where "min_password_length = 12"

definition max_password_length :: nat where "max_password_length = 200"

definition password_policy_ok :: "string \<Rightarrow> bool" where
  "password_policy_ok p \<longleftrightarrow>
     min_password_length \<le> length p \<and> length p \<le> max_password_length \<and> js_trim p = p \<and> js_trim p \<noteq> []"

definition hash_password :: "(string \<Rightarrow> string) \<Rightarrow> string \<Rightarrow> auth_error + string" where
  "hash_password argon_hash p = (if password_policy_ok p then Inr (argon_hash p) else Inl Invalid_Input)"

text \<open>\<open>argon_verify\<close> gives \<open>None\<close> where the library throws.\<close>

definition verify_password :: "(string \<Rightarrow> string \<Rightarrow> bool option) \<Rightarrow> string \<Rightarrow> string \<Rightarrow> bool" where
  "verify_password argon_verify h p \<longleftrightarrow> p \<noteq> [] \<and> h \<noteq> [] \<and> argon_verify h p = Some True"

section \<open>Session policy\<close>

record session_policy =
  sp_abs :: int
  sp_idle :: int
  sp_secret :: string
  sp_secure :: bool
  sp_cookie :: string
  sp_csrf_cookie :: string

definition session_abs_ttl_default :: int where "session_abs_ttl_default = 43200"

definition session_idle_ttl_default :: int where "session_idle_ttl_default = 7200"

definition parse_positive_int :: "string option \<Rightarrow> int \<Rightarrow> int" where
  "parse_positive_int raw fallback =
     (case raw of None \<Rightarrow> fallback
      | Some s \<Rightarrow>
          if js_trim s = [] then fallback
          else (case js_number s of None \<Rightarrow> fallback | Some v \<Rightarrow> if v \<le> 0 then fallback else \<lfloor>v\<rfloor>))"

definition resolve_secure_cookies :: "(string \<Rightarrow> string option) \<Rightarrow> bool" where
  "resolve_secure_cookies env =
     (let origin = js_lower (js_trim (case env ''APP_ORIGIN'' of None \<Rightarrow> [] | Some s \<Rightarrow> s)) in
      if starts_with ''http://'' origin then False
      else if env ''FORCE_SECURE_COOKIES'' = Some ''true'' then True
      else if env ''COOKIE_SECURE'' = Some ''false'' then False
      else env ''COOKIE_SECURE'' = Some ''true'' \<or> env ''NODE_ENV'' = Some ''production'')"

definition load_session_policy :: "(string \<Rightarrow> string option) \<Rightarrow> auth_error + session_policy" where
  "load_session_policy env =
     (let secret = (case env ''SESSION_SECRET'' of None \<Rightarrow> [] | Some s \<Rightarrow> s) in
      if length secret < 32 then Inl Invalid_Input
      else let secure = resolve_secure_cookies env in
        Inr \<lparr>sp_abs = parse_positive_int (env ''SESSION_ABS_TTL_SECONDS'') session_abs_ttl_default,
             sp_idle = parse_positive_int (env ''SESSION_IDLE_TTL_SECONDS'') session_idle_ttl_default,
             sp_secret = secret, sp_secure = secure,
             sp_cookie = (if secure then ''__Host-rp_session'' else ''rp_session''),
             sp_csrf_cookie = (if secure then ''__Host-rp_csrf'' else ''rp_csrf'')\<rparr>)"

text \<open>\<open>random\<close> is \<open>randomBytes(32)\<close>.\<close>

definition mint_token :: "8 word list \<Rightarrow> string" where
  "mint_token random = b64url_encode random"

definition hash_fingerprint :: "(string \<Rightarrow> string \<Rightarrow> string) \<Rightarrow> string option \<Rightarrow> string \<Rightarrow> string option" where
  "hash_fingerprint hmac v secret =
     (case v of None \<Rightarrow> None | Some s \<Rightarrow> if s = [] then None else Some (hmac secret (''fp:'' @ s)))"

section \<open>Guards on mutations\<close>

definition csrf_tokens_equal :: "string \<Rightarrow> string \<Rightarrow> bool" where
  "csrf_tokens_equal a b \<longleftrightarrow>
     (let l = utf8_encode a; r = utf8_encode b in
      if length l \<noteq> length r \<or> length l = 0 then False else l = r)"

definition assert_csrf :: "string option \<Rightarrow> string option \<Rightarrow> auth_error + unit" where
  "assert_csrf cookie submitted =
     (case (cookie, submitted) of
        (Some a, Some b) \<Rightarrow> if csrf_tokens_equal a b then Inr () else Inl Csrf_Failed
      | _ \<Rightarrow> Inl Csrf_Failed)"

definition strip_slash :: "string \<Rightarrow> string" where
  "strip_slash s = (if s \<noteq> [] \<and> last s = CHR ''/'' then butlast s else s)"

definition trimmed_header :: "string option \<Rightarrow> string option" where
  "trimmed_header h = (case h of None \<Rightarrow> None | Some s \<Rightarrow> if js_trim s = [] then None else Some (js_trim s))"

text \<open>\<open>url_origin\<close> is \<open>new URL(text).origin\<close>, \<open>None\<close> where it throws.\<close>

definition assert_origin ::
    "(string \<Rightarrow> string option) \<Rightarrow> string option \<Rightarrow> string option \<Rightarrow> string list \<Rightarrow> auth_error + unit" where
  "assert_origin url_origin origin referer allowed_origins =
     (let allowed = map strip_slash allowed_origins in
      case trimmed_header origin of
        Some o' \<Rightarrow> if strip_slash o' \<in> set allowed then Inr () else Inl Origin_Failed
      | None \<Rightarrow>
          (case trimmed_header referer of
             Some r \<Rightarrow>
               (case url_origin r of
                  Some ro \<Rightarrow> if ro \<in> set allowed then Inr () else Inl Origin_Failed
                | None \<Rightarrow> Inl Origin_Failed)
           | None \<Rightarrow> Inl Origin_Failed))"

section \<open>Lemmas\<close>

lemma csrf_tokens_equal_iff: "csrf_tokens_equal a b \<longleftrightarrow> a = b \<and> a \<noteq> []"
  using utf8_encode_inj [of a b] utf8_encode_Nil by (auto simp: csrf_tokens_equal_def Let_def)

text \<open>A plain HTTP origin never gets \<open>__Host-\<close> cookies, which a browser would drop.\<close>

lemma http_origin_plain_cookies:
  assumes "load_session_policy env = Inr p"
    and "starts_with ''http://'' (js_lower (js_trim (case env ''APP_ORIGIN'' of None \<Rightarrow> [] | Some s \<Rightarrow> s)))"
  shows "\<not> sp_secure p \<and> sp_cookie p = ''rp_session'' \<and> sp_csrf_cookie p = ''rp_csrf''"
  using assms by (auto simp: load_session_policy_def resolve_secure_cookies_def Let_def split: if_splits)

text \<open>\<open>parsePositiveInt\<close> rounds down after its test: a fraction below one gives a lifetime of 0.\<close>

lemma positive_int_may_be_zero:
  assumes "js_trim s \<noteq> []" and "js_number s = Some v" and "0 < v" and "v < 1"
  shows "parse_positive_int (Some s) fallback = 0"
proof -
  have "\<lfloor>v\<rfloor> = 0" using assms(3,4) by (simp add: floor_eq_iff)
  then show ?thesis using assms by (simp add: parse_positive_int_def)
qed

lemma positive_int_nonneg: "0 \<le> fallback \<Longrightarrow> 0 \<le> parse_positive_int raw fallback"
  by (auto simp: parse_positive_int_def split: option.splits)

end
