(* ===== verification/Sessions.thy ===== *)
theory Sessions
  imports AuthPolicy Membership
begin

text \<open>
  Who is logged in: \<open>session-service.ts\<close>, \<open>lockout.ts\<close>, \<open>local-password-provider.ts\<close> and
  \<open>user-admin.ts\<close> of \<open>packages/app-auth\<close>. The state is the database and the process-local table
  of failures per address. Parameters are HMAC, Argon2, the clock (one reading per numbered
  step of a call) and what the call draws at random.
\<close>

section \<open>State\<close>

record auth_state =
  as_db :: database
  as_buckets :: "string \<rightharpoonup> nat \<times> instant"

record auth_env =
  au_nfkc :: "string \<Rightarrow> string"
  au_hmac :: "string \<Rightarrow> string \<Rightarrow> string"
  au_verify :: "string \<Rightarrow> string \<Rightarrow> bool option"
  au_hash :: "string \<Rightarrow> string"
  au_policy :: session_policy
  au_now :: "nat \<Rightarrow> instant"
  au_token :: string
  au_sid :: string
  au_uid :: string

record auth_user =
  ar_id :: string
  ar_email :: string
  ar_norm :: string
  ar_role :: user_role
  ar_status :: user_status

record validated_session =
  vs_id :: string
  vs_user_id :: string
  vs_expires :: instant
  vs_last_seen :: instant
  vs_created :: instant
  vs_user :: auth_user
  vs_touched :: bool

record login_result =
  lr_user :: auth_user
  lr_token :: string
  lr_session :: string

definition auth_user_of :: "user_row \<Rightarrow> auth_user" where
  "auth_user_of u = \<lparr>ar_id = u_id u, ar_email = u_email u, ar_norm = u_norm u, ar_role = u_role u,
     ar_status = u_status u\<rparr>"

definition update_user :: "string \<Rightarrow> (user_row \<Rightarrow> user_row) \<Rightarrow> database \<Rightarrow> database" where
  "update_user uid f db = db\<lparr>t_users := upd_where (\<lambda>u. u_id u = uid) f (t_users db)\<rparr>"

definition find_user :: "string \<Rightarrow> database \<Rightarrow> user_row option" where
  "find_user uid db = find (\<lambda>u. u_id u = uid) (t_users db)"

text \<open>The audit writer at the end of an operation whose effects are already in the database.\<close>

definition audited :: "string \<Rightarrow> string option \<Rightarrow> (string \<times> json) list \<Rightarrow> 'a \<Rightarrow> database \<Rightarrow> (auth_error + 'a) \<times> database" where
  "audited action actor meta r db =
     (case audit_write action actor meta db of None \<Rightarrow> (Inl Audit_Refused, db) | Some db' \<Rightarrow> (Inr r, db'))"

section \<open>Sessions\<close>

definition revoke_where :: "(session_row \<Rightarrow> bool) \<Rightarrow> instant \<Rightarrow> database \<Rightarrow> database" where
  "revoke_where P now db =
     db\<lparr>t_sessions := upd_where (\<lambda>s. P s \<and> s_revoked_at s = None) (\<lambda>s. s\<lparr>s_revoked_at := Some now\<rparr>) (t_sessions db)\<rparr>"

definition new_session ::
    "auth_env \<Rightarrow> instant \<Rightarrow> string \<Rightarrow> string option \<Rightarrow> string option \<Rightarrow> string option \<Rightarrow> session_row" where
  "new_session env now uid agent ip prior =
     \<lparr>s_id = au_sid env, s_user = uid, s_token_hash = au_hmac env (sp_secret (au_policy env)) (au_token env),
      s_created_at = now, s_expires_at = now + sp_abs (au_policy env) * 1000, s_last_seen = now,
      s_rotated_from = prior, s_revoked_at = None,
      s_ua_hash = hash_fingerprint (au_hmac env) agent (sp_secret (au_policy env)),
      s_ip_hash = hash_fingerprint (au_hmac env) ip (sp_secret (au_policy env))\<rparr>"

definition create_session ::
    "auth_env \<Rightarrow> instant \<Rightarrow> string \<Rightarrow> string option \<Rightarrow> string option \<Rightarrow> string option \<Rightarrow> database
       \<Rightarrow> (auth_error + string \<times> session_row) \<times> database" where
  "create_session env now uid agent ip prior db =
     (let db1 = (case prior of
            None \<Rightarrow> db
          | Some p \<Rightarrow> if p = [] then db else revoke_where (\<lambda>s. s_id s = p \<and> s_user s = uid) now db);
          row = new_session env now uid agent ip prior
      in if \<exists>s \<in> set (t_sessions db1). s_id s = s_id row \<or> s_token_hash s = s_token_hash row
         then (Inl Auth_Db_Failed, db1)
         else if find_user uid db1 = None then (Inl Auth_Db_Failed, db1)
         else (Inr (au_token env, row), db1\<lparr>t_sessions := t_sessions db1 @ [row]\<rparr>))"

definition validate_token ::
    "auth_env \<Rightarrow> string option \<Rightarrow> database \<Rightarrow> (auth_error + validated_session) \<times> database" where
  "validate_token env token db =
     (case token of
        None \<Rightarrow> (Inl Auth_Unauthorized, db)
      | Some tok \<Rightarrow>
        if tok = [] then (Inl Auth_Unauthorized, db)
        else (case find (\<lambda>s. s_token_hash s = au_hmac env (sp_secret (au_policy env)) tok) (t_sessions db) of
          None \<Rightarrow> (Inl Auth_Unauthorized, db)
        | Some s \<Rightarrow>
          (case find_user (s_user s) db of
             None \<Rightarrow> (Inl Auth_Db_Failed, db)
           | Some u \<Rightarrow>
             if s_revoked_at s \<noteq> None then (Inl Auth_Unauthorized, db)
             else let now = au_now env 0 in
               if s_expires_at s \<le> now then (Inl Session_Expired, db)
               else if s_last_seen s + sp_idle (au_policy env) * 1000 \<le> now then
                 (Inl Session_Expired,
                  db\<lparr>t_sessions := upd_where (\<lambda>x. s_id x = s_id s) (\<lambda>x. x\<lparr>s_revoked_at := Some now\<rparr>) (t_sessions db)\<rparr>)
               else if u_status u \<noteq> User_Active then (Inl Account_Deactivated, db)
               else let touched = 60000 < now - s_last_seen s in
                 (Inr \<lparr>vs_id = s_id s, vs_user_id = s_user s, vs_expires = s_expires_at s,
                    vs_last_seen = (if touched then now else s_last_seen s), vs_created = s_created_at s,
                    vs_user = auth_user_of u, vs_touched = touched\<rparr>,
                  if touched then db\<lparr>t_sessions := upd_where (\<lambda>x. s_id x = s_id s)
                    (\<lambda>x. x\<lparr>s_last_seen := now\<rparr>) (t_sessions db)\<rparr> else db))))"

definition revoke_session ::
    "auth_env \<Rightarrow> string \<Rightarrow> string option \<Rightarrow> database \<Rightarrow> (auth_error + unit) \<times> database" where
  "revoke_session env sid actor db =
     audited ''logout'' actor [(''sessionId'', JStr sid)] () (revoke_where (\<lambda>s. s_id s = sid) (au_now env 0) db)"

definition revoke_all_for_user ::
    "instant \<Rightarrow> string \<Rightarrow> string option \<Rightarrow> database \<Rightarrow> (auth_error + nat) \<times> database" where
  "revoke_all_for_user now uid actor db =
     (let n = count_where (\<lambda>s. s_user s = uid \<and> s_revoked_at s = None) (t_sessions db) in
      audited ''sessions_revoked'' actor [(''targetUserId'', JStr uid), (''count'', JNum (of_nat n))] n
        (revoke_where (\<lambda>s. s_user s = uid) now db))"

section \<open>Lockout\<close>

definition failures_before_lock :: nat where "failures_before_lock = 5"

definition lock_ms :: int where "lock_ms = 900000"

definition ip_window_ms :: int where "ip_window_ms = 60000"

definition ip_max_failures :: nat where "ip_max_failures = 20"

definition ip_key :: "auth_env \<Rightarrow> string option \<Rightarrow> string" where
  "ip_key env ip =
     (case hash_fingerprint (au_hmac env) (Some (case ip of None \<Rightarrow> ''unknown'' | Some s \<Rightarrow> s)) (sp_secret (au_policy env)) of
        None \<Rightarrow> ''unknown'' | Some k \<Rightarrow> k)"

definition ip_allowed :: "auth_env \<Rightarrow> instant \<Rightarrow> string option \<Rightarrow> auth_state \<Rightarrow> bool" where
  "ip_allowed env now ip st =
     (case as_buckets st (ip_key env ip) of
        None \<Rightarrow> True
      | Some (n, reset) \<Rightarrow> \<not> (now < reset \<and> ip_max_failures \<le> n))"

definition user_locked :: "instant \<Rightarrow> user_row \<Rightarrow> bool" where
  "user_locked now u \<longleftrightarrow> (case u_locked_until u of None \<Rightarrow> False | Some t \<Rightarrow> now < t)"

definition count_failure :: "instant \<Rightarrow> user_row \<Rightarrow> user_row" where
  "count_failure now u =
     u\<lparr>u_failed := u_failed u + 1,
       u_locked_until := (if failures_before_lock \<le> u_failed u + 1 then Some (now + lock_ms) else u_locked_until u)\<rparr>"

definition record_failure :: "auth_env \<Rightarrow> instant \<Rightarrow> string option \<Rightarrow> string option \<Rightarrow> auth_state \<Rightarrow> auth_state" where
  "record_failure env now uid ip st =
     (let k = ip_key env ip;
          bucket = (case as_buckets st k of
              None \<Rightarrow> (1, now + ip_window_ms)
            | Some (n, reset) \<Rightarrow> if reset \<le> now then (1, now + ip_window_ms) else (n + 1, reset));
          st1 = st\<lparr>as_buckets := (as_buckets st)(k \<mapsto> bucket)\<rparr>
      in case uid of
           None \<Rightarrow> st1
         | Some u \<Rightarrow> st1\<lparr>as_db := update_user u (count_failure now) (as_db st1)\<rparr>)"

definition record_success :: "instant \<Rightarrow> string \<Rightarrow> database \<Rightarrow> database" where
  "record_success now uid = update_user uid (\<lambda>u. u\<lparr>u_failed := 0, u_locked_until := None, u_last_login := Some now\<rparr>)"

section \<open>Login\<close>

definition dummy_hash :: string where
  "dummy_hash = ''$argon2id$v=19$m=19456,t=2,p=1$'' @ replicate 22 CHR ''A'' @ ''$'' @ replicate 43 CHR ''A''"

record login_input =
  li_email :: string
  li_password :: string
  li_agent :: "string option"
  li_ip :: "string option"
  li_prior :: "string option"

definition role_text :: "user_role \<Rightarrow> string" where
  "role_text r = (case r of Admin \<Rightarrow> ''admin'' | Tech_Lead \<Rightarrow> ''tech_lead'' | Developer \<Rightarrow> ''developer'')"

definition refuse_login ::
    "auth_error \<Rightarrow> string option \<Rightarrow> string \<Rightarrow> auth_state \<Rightarrow> (auth_error + 'a) \<times> auth_state" where
  "refuse_login e uid reason st =
     (case audited ''login_failure'' uid [(''reason'', JStr reason)] () (as_db st) of
        (Inl e', db) \<Rightarrow> (Inl e', st\<lparr>as_db := db\<rparr>)
      | (Inr _, db) \<Rightarrow> (Inl e, st\<lparr>as_db := db\<rparr>))"

definition open_session :: "auth_env \<Rightarrow> user_row \<Rightarrow> login_input \<Rightarrow> database \<Rightarrow> (auth_error + login_result) \<times> database" where
  "open_session env u i db =
     (case create_session env (au_now env 4) (u_id u) (li_agent i) (li_ip i) (li_prior i)
         (record_success (au_now env 3) (u_id u) db) of
        (Inl e, db1) \<Rightarrow> (Inl e, db1)
      | (Inr (tok, s), db1) \<Rightarrow>
          audited ''login_success'' (Some (u_id u)) [(''sessionId'', JStr (s_id s)), (''role'', JStr (role_text (u_role u)))]
            \<lparr>lr_user = auth_user_of u, lr_token = tok, lr_session = s_id s\<rparr> db1)"

definition login :: "auth_env \<Rightarrow> login_input \<Rightarrow> auth_state \<Rightarrow> (auth_error + login_result) \<times> auth_state" where
  "login env i st =
     (if \<not> ip_allowed env (au_now env 0) (li_ip i) st then (Inl Rate_Limited, st)
      else case normalize_email (au_nfkc env) (li_email i) of
        Inl e \<Rightarrow> refuse_login Invalid_Credentials None ''bad_email'' (record_failure env (au_now env 1) None (li_ip i) st)
      | Inr norm' \<Rightarrow>
          (let user = find (\<lambda>u. u_norm u = norm') (t_users (as_db st));
               h = (case user of None \<Rightarrow> dummy_hash | Some u \<Rightarrow> u_pw_hash u);
               ok = verify_password (au_verify env) h (li_password i)
           in case user of
                None \<Rightarrow> refuse_login Invalid_Credentials None ''invalid_credentials''
                  (record_failure env (au_now env 1) None (li_ip i) st)
              | Some u \<Rightarrow>
                  if \<not> ok then refuse_login Invalid_Credentials (Some (u_id u)) ''invalid_credentials''
                    (record_failure env (au_now env 1) (Some (u_id u)) (li_ip i) st)
                  else if user_locked (au_now env 2) u then (Inl Account_Locked, st)
                  else if u_status u \<noteq> User_Active then refuse_login Account_Deactivated (Some (u_id u)) ''deactivated'' st
                  else (case open_session env u i (as_db st) of (r, db) \<Rightarrow> (r, st\<lparr>as_db := db\<rparr>))))"

end
