(* ===== verification/UserAdmin.thy ===== *)
theory UserAdmin
  imports Sessions
begin

text \<open>
  \<open>UserAdminService\<close> of \<open>packages/app-auth/src/user-admin.ts\<close>, and what holds of logins and
  sessions over any sequence of calls of the services of \<open>packages/app-auth\<close>.
\<close>

section \<open>Administration\<close>

definition create_user ::
    "auth_env \<Rightarrow> auth_user \<Rightarrow> string \<Rightarrow> string \<Rightarrow> user_role \<Rightarrow> bool \<Rightarrow> database \<Rightarrow> (auth_error + auth_user) \<times> database" where
  "create_user env actor email password role invited db =
     (if ar_role actor \<noteq> Admin then (Inl Auth_Forbidden, db)
      else case normalize_email (au_nfkc env) email of
        Inl e \<Rightarrow> (Inl e, db)
      | Inr n \<Rightarrow>
          (case hash_password (au_hash env) password of
             Inl e \<Rightarrow> (Inl e, db)
           | Inr h \<Rightarrow>
               let row = \<lparr>u_id = au_uid env, u_email = js_trim email, u_norm = n, u_pw_hash = h, u_role = role,
                     u_status = User_Active, u_created_by = Some (ar_id actor),
                     u_invited_at = (if invited then Some (au_now env 0) else None),
                     u_created_at = au_now env 0, u_last_login = None, u_failed = 0, u_locked_until = None\<rparr>
               in if \<exists>u \<in> set (t_users db). u_norm u = n \<or> u_id u = au_uid env then (Inl Auth_Conflict, db)
                  else audited (if invited then ''user_invited'' else ''user_created'') (Some (ar_id actor))
                    [(''targetUserId'', JStr (au_uid env)), (''role'', JStr (role_text role))] (auth_user_of row)
                    (db\<lparr>t_users := t_users db @ [row]\<rparr>)))"

definition list_users :: "auth_user \<Rightarrow> database \<Rightarrow> auth_error + auth_user list" where
  "list_users actor db =
     (if ar_role actor \<noteq> Admin then Inl Auth_Forbidden
      else Inr (map auth_user_of (sort_key u_created_at (t_users db))))"

text \<open>The end of both operations: the user's sessions are revoked, then the event is written.\<close>

definition revoke_and_audit ::
    "auth_env \<Rightarrow> string \<Rightarrow> auth_user \<Rightarrow> string \<Rightarrow> database \<Rightarrow> (auth_error + unit) \<times> database" where
  "revoke_and_audit env action actor uid db =
     (case revoke_all_for_user (au_now env 0) uid (Some (ar_id actor)) db of
        (Inl e, db1) \<Rightarrow> (Inl e, db1)
      | (Inr _, db1) \<Rightarrow> audited action (Some (ar_id actor)) [(''targetUserId'', JStr uid)] () db1)"

definition deactivate_user :: "auth_env \<Rightarrow> auth_user \<Rightarrow> string \<Rightarrow> database \<Rightarrow> (auth_error + unit) \<times> database" where
  "deactivate_user env actor uid db =
     (if ar_role actor \<noteq> Admin then (Inl Auth_Forbidden, db)
      else if ar_id actor = uid then (Inl Invalid_Input, db)
      else if find_user uid db = None then (Inl Auth_Not_Found, db)
      else revoke_and_audit env ''user_deactivated'' actor uid
        (invalidate_user uid (update_user uid (\<lambda>u. u\<lparr>u_status := User_Deactivated\<rparr>) db)))"

definition reset_password :: "auth_env \<Rightarrow> auth_user \<Rightarrow> string \<Rightarrow> string \<Rightarrow> database \<Rightarrow> (auth_error + unit) \<times> database" where
  "reset_password env actor uid password db =
     (if ar_role actor \<noteq> Admin then (Inl Auth_Forbidden, db)
      else case hash_password (au_hash env) password of
        Inl e \<Rightarrow> (Inl e, db)
      | Inr h \<Rightarrow>
          if find_user uid db = None then (Inl Auth_Not_Found, db)
          else revoke_and_audit env ''password_reset_by_admin'' actor uid
            (update_user uid (\<lambda>u. u\<lparr>u_pw_hash := h, u_failed := 0, u_locked_until := None\<rparr>) db))"

section \<open>Frame lemmas\<close>

lemma audited_tables [simp]:
  "t_users (snd (audited a w m r db)) = t_users db"
  "t_sessions (snd (audited a w m r db)) = t_sessions db"
  by (auto simp: audited_def audit_write_def split: option.splits)

lemma audited_pair: "audited a w m r db = (x, db') \<Longrightarrow> t_users db' = t_users db \<and> t_sessions db' = t_sessions db"
  using audited_tables [of a w m r db] by simp

lemma audited_Inr: "audited a w m r db = (Inr x, db') \<Longrightarrow> x = r"
  by (auto simp: audited_def split: option.splits)

lemma users_simps [simp]:
  "t_users (revoke_where P now db) = t_users db"
  "t_sessions (update_user uid f db) = t_sessions db"
  "t_users (update_user uid f db) = upd_where (\<lambda>u. u_id u = uid) f (t_users db)"
  "t_sessions (invalidate_user uid db) = t_sessions db" "t_users (invalidate_user uid db) = t_users db"
  by (simp_all add: revoke_where_def update_user_def invalidate_user_def delete_memberships_def)

section \<open>How a table evolves\<close>

text \<open>Keys stay unique and are never lost, and a row whose key was there before is related to the row
  that had it. The contract of the relation is a preorder.\<close>

definition evolves :: "('r \<Rightarrow> 'k) \<Rightarrow> ('r \<Rightarrow> 'r \<Rightarrow> bool) \<Rightarrow> 'r list \<Rightarrow> 'r list \<Rightarrow> bool" where
  "evolves key R xs ys \<longleftrightarrow> (distinct (map key xs) \<longrightarrow> distinct (map key ys)) \<and> key ` set xs \<subseteq> key ` set ys \<and>
     (\<forall>y \<in> set ys. key y \<in> key ` set xs \<longrightarrow> (\<exists>x \<in> set xs. key x = key y \<and> R x y))"

locale table_history =
  fixes key :: "'r \<Rightarrow> 'k" and R :: "'r \<Rightarrow> 'r \<Rightarrow> bool"
  assumes R_refl: "R x x"
    and R_trans: "R x y \<Longrightarrow> R y z \<Longrightarrow> R x z"
begin

lemma evolves_refl: "evolves key R xs xs"
  using R_refl by (auto simp: evolves_def)

lemma evolves_upd:
  assumes "\<And>x. key (f x) = key x" and "\<And>x. P x \<Longrightarrow> R x (f x)"
  shows "evolves key R xs (upd_where P f xs)"
proof -
  have m: "map key (upd_where P f xs) = map key xs" by (rule upd_where_map_key) (rule assms(1))
  then have "key ` set (upd_where P f xs) = key ` set xs" by (metis list.set_map)
  moreover have "\<exists>x \<in> set xs. key x = key y \<and> R x y" if y: "y \<in> set (upd_where P f xs)" for y
  proof -
    obtain x where "x \<in> set xs" "y = (if P x then f x else x)" using y by (auto simp: upd_where_def)
    then show ?thesis using assms R_refl by (intro bexI [of _ x]) auto
  qed
  ultimately show ?thesis using m by (auto simp: evolves_def)
qed

lemma evolves_new: "key r \<notin> key ` set xs \<Longrightarrow> evolves key R xs (xs @ [r])"
  using R_refl by (auto simp: evolves_def)

lemma evolves_trans:
  assumes "evolves key R xs ys" and "evolves key R ys zs"
  shows "evolves key R xs zs"
proof -
  have "\<exists>x \<in> set xs. key x = key z \<and> R x z" if z: "z \<in> set zs" "key z \<in> key ` set xs" for z
  proof -
    have "key z \<in> key ` set ys" using assms(1) z(2) by (auto simp: evolves_def)
    then obtain y where y: "y \<in> set ys" "key y = key z" "R y z" using assms(2) z(1) by (auto simp: evolves_def)
    then have "key y \<in> key ` set xs" using z(2) by simp
    then obtain x where "x \<in> set xs" "key x = key y" "R x y" using assms(1) y(1) by (auto simp: evolves_def)
    then show ?thesis using y R_trans by (intro bexI [of _ x]) auto
  qed
  moreover have "key ` set xs \<subseteq> key ` set zs" using assms unfolding evolves_def by (meson subset_trans)
  moreover have "distinct (map key xs) \<longrightarrow> distinct (map key zs)" using assms by (simp add: evolves_def)
  ultimately show ?thesis unfolding evolves_def by blast
qed

end

definition same_user :: "user_row \<Rightarrow> user_row \<Rightarrow> bool" where
  "same_user u v \<longleftrightarrow> (u_status u \<noteq> User_Active \<longrightarrow> u_status v \<noteq> User_Active)"

definition same_session :: "session_row \<Rightarrow> session_row \<Rightarrow> bool" where
  "same_session s t \<longleftrightarrow> s_user s = s_user t \<and> s_token_hash s = s_token_hash t \<and> s_created_at s = s_created_at t \<and>
     s_expires_at s = s_expires_at t \<and> (s_revoked_at s \<noteq> None \<longrightarrow> s_revoked_at t \<noteq> None)"

interpretation users: table_history u_id same_user
  by unfold_locales (auto simp: same_user_def)

interpretation sess: table_history s_id same_session
  by unfold_locales (auto simp: same_session_def)

definition db_evolves :: "database \<Rightarrow> database \<Rightarrow> bool" where
  "db_evolves db db' \<longleftrightarrow> evolves u_id same_user (t_users db) (t_users db') \<and>
     evolves s_id same_session (t_sessions db) (t_sessions db')"

lemma db_evolves_refl [simp]: "t_users db' = t_users db \<Longrightarrow> t_sessions db' = t_sessions db \<Longrightarrow> db_evolves db db'"
  by (simp add: db_evolves_def users.evolves_refl sess.evolves_refl)

lemma db_evolves_trans: "db_evolves a b \<Longrightarrow> db_evolves b c \<Longrightarrow> db_evolves a c"
  unfolding db_evolves_def using users.evolves_trans sess.evolves_trans by blast

lemma db_evolves_audited: "db_evolves a b \<Longrightarrow> db_evolves a (snd (audited x w m r b))"
  by (erule db_evolves_trans, rule db_evolves_refl) (rule audited_tables)+

lemma db_evolves_update_user:
  assumes "\<And>u. u_id (f u) = u_id u" and "\<And>u. same_user u (f u)"
  shows "db_evolves db (update_user uid f db)"
  using assms by (simp add: db_evolves_def sess.evolves_refl users.evolves_upd)

lemma db_evolves_revoke: "db_evolves db (revoke_where P now db)"
  by (auto simp: db_evolves_def users.evolves_refl revoke_where_def same_session_def intro!: sess.evolves_upd)

lemma create_session_evolves: "db_evolves db (snd (create_session env now uid agent ip prior db))"
proof -
  define db1 where "db1 = (case prior of None \<Rightarrow> db
    | Some p \<Rightarrow> if p = [] then db else revoke_where (\<lambda>s. s_id s = p \<and> s_user s = uid) now db)"
  have e: "db_evolves db db1" by (auto simp: db1_def intro: db_evolves_revoke split: option.splits)
  let ?row = "new_session env now uid agent ip prior"
  have "snd (create_session env now uid agent ip prior db) = db1 \<or>
      s_id ?row \<notin> s_id ` set (t_sessions db1) \<and>
      snd (create_session env now uid agent ip prior db) = db1\<lparr>t_sessions := t_sessions db1 @ [?row]\<rparr>"
    by (auto simp: create_session_def Let_def db1_def [symmetric])
  moreover have "db_evolves db1 (db1\<lparr>t_sessions := t_sessions db1 @ [?row]\<rparr>)"
    if "s_id ?row \<notin> s_id ` set (t_sessions db1)"
    using that by (simp add: db_evolves_def users.evolves_refl sess.evolves_new)
  ultimately show ?thesis using e db_evolves_trans by metis
qed

lemma validate_evolves: "db_evolves db (snd (validate_token env tok db))"
  by (auto simp: validate_token_def Let_def db_evolves_def users.evolves_refl sess.evolves_refl same_session_def
      intro!: sess.evolves_upd split: option.splits)

lemma revoke_session_evolves: "db_evolves db (snd (revoke_session env sid actor db))"
  unfolding revoke_session_def by (intro db_evolves_audited db_evolves_revoke)

lemma revoke_all_evolves: "db_evolves db (snd (revoke_all_for_user now uid actor db))"
  unfolding revoke_all_for_user_def Let_def by (intro db_evolves_audited db_evolves_revoke)

lemma revoke_and_audit_evolves: "db_evolves db (snd (revoke_and_audit env action actor uid db))"
  using revoke_all_evolves [of db "au_now env 0" uid "Some (ar_id actor)"]
  by (auto simp: revoke_and_audit_def intro: db_evolves_audited split: prod.splits sum.splits)

lemma deactivate_evolves: "db_evolves db (snd (deactivate_user env actor uid db))"
proof -
  have "db_evolves db (invalidate_user uid (update_user uid (\<lambda>u. u\<lparr>u_status := User_Deactivated\<rparr>) db))"
  proof (rule db_evolves_trans)
    show "db_evolves db (update_user uid (\<lambda>u. u\<lparr>u_status := User_Deactivated\<rparr>) db)"
      by (rule db_evolves_update_user) (simp_all add: same_user_def)
    show "db_evolves (update_user uid (\<lambda>u. u\<lparr>u_status := User_Deactivated\<rparr>) db)
        (invalidate_user uid (update_user uid (\<lambda>u. u\<lparr>u_status := User_Deactivated\<rparr>) db))"
      by (rule db_evolves_refl) simp_all
  qed
  from db_evolves_trans [OF this revoke_and_audit_evolves] show ?thesis by (simp add: deactivate_user_def)
qed

lemma reset_evolves: "db_evolves db (snd (reset_password env actor uid password db))"
proof -
  have "db_evolves db (update_user uid (\<lambda>u. u\<lparr>u_pw_hash := h, u_failed := 0, u_locked_until := None\<rparr>) db)" for h
    by (rule db_evolves_update_user) (simp_all add: same_user_def)
  from db_evolves_trans [OF this revoke_and_audit_evolves] show ?thesis
    by (simp add: reset_password_def split: sum.splits)
qed

lemma create_user_evolves: "db_evolves db (snd (create_user env actor email password role invited db))"
  by (auto simp: create_user_def Let_def db_evolves_def sess.evolves_refl users.evolves_refl
      intro!: users.evolves_new split: sum.splits)

lemma record_failure_evolves: "db_evolves (as_db st) (as_db (record_failure env now uid ip st))"
  by (auto simp: record_failure_def Let_def count_failure_def same_user_def intro!: db_evolves_update_user split: option.splits)

lemma refuse_login_evolves: "db_evolves a (as_db st) \<Longrightarrow> db_evolves a (as_db (snd (refuse_login e uid r st)))"
  using db_evolves_audited [of a "as_db st" "''login_failure''" uid "[(''reason'', JStr r)]" "()"]
  by (auto simp: refuse_login_def split: prod.splits sum.splits)

lemma open_session_evolves: "db_evolves db (snd (open_session env u i db))"
proof -
  have "db_evolves db (record_success (au_now env 3) (u_id u) db)"
    unfolding record_success_def by (rule db_evolves_update_user) (simp_all add: same_user_def)
  note e = db_evolves_trans [OF this create_session_evolves]
  let ?c = "create_session env (au_now env 4) (u_id u) (li_agent i) (li_ip i) (li_prior i)
    (record_success (au_now env 3) (u_id u) db)"
  show ?thesis
  proof (cases ?c)
    case (Pair r db1)
    then have "db_evolves db db1" using e [of env "au_now env 4" "u_id u" "li_agent i" "li_ip i" "li_prior i"] by simp
    then show ?thesis
      by (cases r) (auto simp: open_session_def Pair intro: db_evolves_audited split: prod.splits)
  qed
qed

text \<open>Where a login may leave the state.\<close>

lemma login_induct:
  assumes "P st" and "\<And>st' e w r. P st' \<Longrightarrow> P (snd (refuse_login e w r st' :: (auth_error + login_result) \<times> auth_state))"
    and "\<And>w. P (record_failure env (au_now env 1) w (li_ip i) st)"
    and "\<And>u. P (st\<lparr>as_db := snd (open_session env u i (as_db st))\<rparr>)"
  shows "P (snd (login env i st))"
proof (cases "normalize_email (au_nfkc env) (li_email i)")
  case (Inl e)
  with assms(1-3) show ?thesis by (simp add: login_def)
next
  case (Inr n)
  show ?thesis
  proof (cases "find (\<lambda>u. u_norm u = n) (t_users (as_db st))")
    case None
    with Inr assms(1-3) show ?thesis by (simp add: login_def Let_def)
  next
    case (Some u)
    obtain r db where o: "open_session env u i (as_db st) = (r, db)" by (cases "open_session env u i (as_db st)")
    with assms(4) [of u] have "P (st\<lparr>as_db := db\<rparr>)" by simp
    with Some Inr assms(1-3) o show ?thesis by (simp add: login_def Let_def)
  qed
qed

lemma login_evolves: "db_evolves (as_db st) (as_db (snd (login env i st)))"
  by (rule login_induct) (simp_all add: open_session_evolves refuse_login_evolves record_failure_evolves)

lemma revoke_and_audit_users [simp]: "t_users (snd (revoke_and_audit env action actor uid db)) = t_users db"
proof -
  have u: "t_users (snd (revoke_all_for_user (au_now env 0) uid (Some (ar_id actor)) db)) = t_users db"
    by (simp add: revoke_all_for_user_def Let_def)
  then show ?thesis
    by (cases "revoke_all_for_user (au_now env 0) uid (Some (ar_id actor)) db";
        cases "fst (revoke_all_for_user (au_now env 0) uid (Some (ar_id actor)) db)")
      (simp_all add: revoke_and_audit_def)
qed

end
