(* ===== verification/WebErrors.thy ===== *)
theory WebErrors
  imports AllowlistAdmin EmailAlias UserAdmin
begin

text \<open>
  What the web server sees of an error: whether its class opted in to be shown, its code and its
  fixed message. The classes are those of \<open>packages/app-auth\<close>, \<open>packages/gitlab-client\<close>,
  \<open>packages/credentials\<close>, \<open>packages/crypto\<close> and \<open>packages/domain\<close>; an error of the database
  driver has a code and a text of the driver, and did not opt in; a plain \<open>Error\<close> has no code.
\<close>

definition plain_error :: "string \<Rightarrow> thrown_error" where
  "plain_error msg = \<lparr>te_safe = False, te_code = None, te_message = msg\<rparr>"

definition driver_error :: "string \<Rightarrow> string \<Rightarrow> thrown_error" where
  "driver_error code msg = \<lparr>te_safe = False, te_code = Some code, te_message = msg\<rparr>"

definition safe_error :: "string \<Rightarrow> string \<Rightarrow> thrown_error" where
  "safe_error code msg = \<lparr>te_safe = True, te_code = Some code, te_message = msg\<rparr>"

text \<open>\<open>Auth_Db_Failed\<close> is a unique key that a session's random id or token hash hit, with the code of
  the driver.\<close>

fun auth_thrown :: "string \<Rightarrow> auth_error \<Rightarrow> thrown_error" where
  "auth_thrown drv Invalid_Credentials = safe_error ''AUTH_INVALID_CREDENTIALS'' ''Invalid email or password''"
| "auth_thrown drv Account_Locked = safe_error ''AUTH_ACCOUNT_LOCKED'' ''Account is temporarily locked''"
| "auth_thrown drv Account_Deactivated = safe_error ''AUTH_ACCOUNT_DEACTIVATED'' ''Account is deactivated''"
| "auth_thrown drv Auth_Unauthorized = safe_error ''AUTH_UNAUTHORIZED'' ''Authentication required''"
| "auth_thrown drv Auth_Forbidden = safe_error ''AUTH_FORBIDDEN'' ''Forbidden''"
| "auth_thrown drv Invalid_Input = safe_error ''AUTH_INVALID_INPUT'' ''Invalid input''"
| "auth_thrown drv Csrf_Failed = safe_error ''AUTH_CSRF'' ''CSRF validation failed''"
| "auth_thrown drv Origin_Failed = safe_error ''AUTH_ORIGIN'' ''Origin validation failed''"
| "auth_thrown drv Session_Expired = safe_error ''AUTH_SESSION_EXPIRED'' ''Session expired''"
| "auth_thrown drv Auth_Conflict = safe_error ''AUTH_CONFLICT'' ''Resource conflict''"
| "auth_thrown drv Auth_Not_Found = safe_error ''AUTH_NOT_FOUND'' ''Resource not found''"
| "auth_thrown drv Rate_Limited = safe_error ''AUTH_RATE_LIMITED'' ''Too many requests''"
| "auth_thrown drv Audit_Refused = plain_error ''audit meta must not include secrets''"
| "auth_thrown drv Auth_Db_Failed = driver_error ''P2002'' drv"

fun gitlab_message :: "gitlab_error \<Rightarrow> string" where
  "gitlab_message Gl_Invalid_Config = ''GitLab instance configuration is invalid''"
| "gitlab_message Gl_Ssrf_Blocked = ''Request blocked by GitLab egress policy''"
| "gitlab_message Gl_Redirect_Rejected = ''GitLab redirect rejected''"
| "gitlab_message Gl_Unauthorized = ''GitLab credential is not authorized''"
| "gitlab_message Gl_Forbidden = ''GitLab request forbidden''"
| "gitlab_message Gl_Not_Found = ''GitLab resource not found''"
| "gitlab_message Gl_Project_Forbidden = ''GitLab project access is forbidden''"
| "gitlab_message Gl_Project_Not_Found = ''GitLab project was not found''"
| "gitlab_message (Gl_Rate_Limited r) = ''GitLab rate limit exceeded''"
| "gitlab_message Gl_Timeout = ''GitLab request timed out''"
| "gitlab_message Gl_Aborted = ''GitLab request was aborted''"
| "gitlab_message (Gl_Upstream_Unavailable r) = ''GitLab is unavailable''"
| "gitlab_message (Gl_Unexpected_Status s) = ''GitLab returned an unexpected status''"
| "gitlab_message Gl_Malformed_Response = ''GitLab response was malformed''"
| "gitlab_message Gl_Response_Too_Large = ''GitLab response exceeded the size limit''"
| "gitlab_message Gl_Pagination_Limit = ''GitLab pagination limit exceeded''"

definition gitlab_thrown :: "gitlab_error \<Rightarrow> thrown_error" where
  "gitlab_thrown e = safe_error (gitlab_error_code e) (gitlab_message e)"

fun credential_thrown :: "cred_error \<Rightarrow> thrown_error" where
  "credential_thrown Invalid_Pat = safe_error ''INVALID_PAT''
     ''Personal access token must be a non-empty string with no surrounding or control whitespace''"
| "credential_thrown Invalid_Invalidation_Reason = safe_error ''INVALID_INVALIDATION_REASON''
     ''Invalidation reason is not one of the supported values''"
| "credential_thrown Connection_Not_Found = safe_error ''CONNECTION_NOT_FOUND'' ''GitLab connection does not exist''"
| "credential_thrown Active_Credential_Exists = safe_error ''ACTIVE_CREDENTIAL_EXISTS''
     ''Connection already has an active credential; use replaceCredential''"
| "credential_thrown No_Active_Credential = safe_error ''NO_ACTIVE_CREDENTIAL'' ''Connection has no active credential''"
| "credential_thrown Concurrent_Credential_Replace = safe_error ''CONCURRENT_CREDENTIAL_REPLACE''
     ''Another credential change for this connection won the race; retry''"
| "credential_thrown Credential_Unreadable = safe_error ''CREDENTIAL_UNREADABLE''
     ''Stored credential could not be opened with the configured key''"
| "credential_thrown Credential_Store_Failed = safe_error ''CREDENTIAL_STORE_FAILED'' ''Credential could not be persisted''"

fun crypto_thrown :: "crypto_error \<Rightarrow> thrown_error" where
  "crypto_thrown Invalid_Key_Material = safe_error ''INVALID_KEY_MATERIAL''
     ''Encryption key must be standard base64 decoding to exactly 32 bytes''"
| "crypto_thrown Invalid_Key_Version = safe_error ''INVALID_KEY_VERSION''
     ''Encryption key version must be a positive integer label such as v1''"
| "crypto_thrown Key_Version_Mismatch = safe_error ''KEY_VERSION_MISMATCH''
     ''Sealed secret key version does not match the configured current key version''"
| "crypto_thrown Unsupported_Envelope_Version = safe_error ''UNSUPPORTED_ENVELOPE_VERSION'' ''Unsupported envelope version''"
| "crypto_thrown Malformed_Envelope = safe_error ''MALFORMED_ENVELOPE'' ''Sealed secret envelope is malformed''"
| "crypto_thrown Invalid_Aad_Context = safe_error ''INVALID_AAD_CONTEXT''
     ''Additional authenticated data context is missing or invalid''"
| "crypto_thrown Decryption_Failed = safe_error ''DECRYPTION_FAILED'' ''Sealed secret failed authenticated decryption''"
| "crypto_thrown Empty_Plaintext = safe_error ''EMPTY_PLAINTEXT'' ''Secret must be a non-empty string''"

fun provider_thrown :: "provider_error \<Rightarrow> thrown_error" where
  "provider_thrown (Cred_Error e) = credential_thrown e"
| "provider_thrown (Crypto_Error e) = crypto_thrown e"

fun policy_message :: "policy_reason \<Rightarrow> string" where
  "policy_message Not_Allowlisted = ''GitLab URL is not allowlisted''"
| "policy_message Credential_Rejected = ''GitLab credential was rejected''"
| "policy_message Identity_Already_Linked = ''This GitLab identity is already linked to another account''"
| "policy_message Connection_Missing = ''Connection not found''"
| "policy_message No_Credential = ''No active credential''"

definition policy_error :: "string \<Rightarrow> thrown_error" where
  "policy_error msg = safe_error ''CONNECTION_POLICY'' msg"

fun connection_thrown :: "string \<Rightarrow> connection_error \<Rightarrow> thrown_error" where
  "connection_thrown drv (Policy r) = policy_error (policy_message r)"
| "connection_thrown drv (Client_Failed e) = gitlab_thrown e"
| "connection_thrown drv (Provider_Failed e) = provider_thrown e"
| "connection_thrown drv Unique_Violation = driver_error ''P2002'' drv"
| "connection_thrown drv Foreign_Key_Violation = driver_error ''P2003'' drv"

fun access_thrown :: "access_error \<Rightarrow> thrown_error" where
  "access_thrown (Access_Policy msg) = policy_error msg"
| "access_thrown (Access_Provider e) = provider_thrown e"
| "access_thrown (Access_Probe (Probe_Gitlab e)) = gitlab_thrown e"
| "access_thrown (Access_Probe Probe_Other) = plain_error []"

fun admin_thrown :: "string \<Rightarrow> admin_error \<Rightarrow> thrown_error" where
  "admin_thrown drv (Bad_Base_Url e) = gitlab_thrown e"
| "admin_thrown drv Project_Id_Not_Numeric = plain_error ''gitlab_project_id must be numeric''"
| "admin_thrown drv Admin_Unique_Violation = driver_error ''P2002'' drv"
| "admin_thrown drv Admin_Foreign_Key_Violation = driver_error ''P2003'' drv"
| "admin_thrown drv Admin_Record_Not_Found = driver_error ''P2025'' drv"

fun alias_thrown :: "string \<Rightarrow> alias_error \<Rightarrow> thrown_error" where
  "alias_thrown drv Invalid_Email = plain_error ''Invalid email address''"
| "alias_thrown drv Only_Aliases = plain_error ''Only user-added aliases can be removed''"
| "alias_thrown drv Alias_Foreign_Key = driver_error ''P2003'' drv"
| "alias_thrown drv Alias_Unique = driver_error ''P2002'' drv"

lemmas thrown_defs = plain_error_def driver_error_def safe_error_def gitlab_thrown_def policy_error_def

end
