(* ===== verification/WebHttp.thy ===== *)
theory WebHttp
  imports WebErrors
begin

text \<open>
  The request helpers of the web server, \<open>apps/web/src/server/http.ts\<close>, and the wiring of
  \<open>server/services.ts\<close> that a request goes through. A header is looked up by its name in lower case.
  Next's cookie jar, \<open>new URL\<close> and the number format of \<open>String(value)\<close> are parameters.
\<close>

section \<open>Requests and responses\<close>

record web_request =
  rq_header :: "string \<Rightarrow> string option"
  rq_jar :: "string \<Rightarrow> string option"
  rq_body :: string
  rq_origin :: string
  rq_param :: "string \<Rightarrow> string option"

record web_cookie =
  ck_name :: string
  ck_value :: string
  ck_http_only :: bool
  ck_secure :: bool
  ck_max_age :: int

text \<open>A redirect has its base, its path and the query parameters that were set.\<close>

datatype web_body = Body_Json json | Body_Redirect string string "(string \<times> string) list"

record web_response =
  wr_status :: nat
  wr_body :: web_body
  wr_cookies :: "web_cookie list"

record web_env =
  we_process :: "string \<Rightarrow> string option"
  we_auth :: auth_env
  we_conn :: connection_env
  we_clock :: "nat \<Rightarrow> instant"
  we_probe :: "nat \<Rightarrow> connection_row \<Rightarrow> string \<Rightarrow> string list \<Rightarrow> probe_error + probe_result"
  we_now :: "nat \<Rightarrow> instant"
  we_new_id :: string
  we_csrf :: string
  we_url_origin :: "string \<Rightarrow> string option"
  we_number :: "rat \<Rightarrow> string"
  we_iso :: "instant \<Rightarrow> string"
  we_driver :: string

record web_state =
  ws_auth :: auth_state
  ws_tick :: nat

abbreviation ws_db :: "web_state \<Rightarrow> database" where
  "ws_db st \<equiv> as_db (ws_auth st)"

definition with_db :: "database \<Rightarrow> web_state \<Rightarrow> web_state" where
  "with_db db st = st\<lparr>ws_auth := (ws_auth st)\<lparr>as_db := db\<rparr>\<rparr>"

text \<open>\<open>getServices\<close>: the session policy, the key and the lifetimes of cached answers come from the
  process environment, and connections and project access share one credential provider. It throws
  where one of them is unusable.\<close>

record services =
  sx_auth :: auth_env
  sx_conn :: connection_env
  sx_access :: access_env

fun ttl_thrown :: "ttl_error \<Rightarrow> thrown_error" where
  "ttl_thrown Bad_Ttl = plain_error ''MEMBERSHIP_CACHE_TTL_SECONDS must be a positive integer''"
| "ttl_thrown Bad_Negative_Ttl = plain_error ''MEMBERSHIP_CACHE_NEGATIVE_TTL_SECONDS must be a positive integer''"

definition env_cache_ttls :: "(string \<Rightarrow> string option) \<Rightarrow> ttl_error + cache_ttls" where
  "env_cache_ttls env =
     (case membership_cache_ttl_from_env env of
        Inl e \<Rightarrow> Inl e
      | Inr ttl \<Rightarrow>
          (case membership_cache_negative_ttl_from_env env ttl of
             Inl e \<Rightarrow> Inl e | Inr neg \<Rightarrow> Inr (new_membership_cache ttl (Some neg))))"

definition get_services :: "web_env \<Rightarrow> thrown_error + services" where
  "get_services env =
     (case load_session_policy (we_process env) of
        Inl e \<Rightarrow> Inl (auth_thrown (we_driver env) e)
      | Inr p \<Rightarrow>
          (case create_env_key_loader (we_process env) of
             Inl e \<Rightarrow> Inl (crypto_thrown e)
           | Inr kl \<Rightarrow>
               (case env_cache_ttls (we_process env) of
                  Inl e \<Rightarrow> Inl (ttl_thrown e)
                | Inr ttls \<Rightarrow>
                    Inr \<lparr>sx_auth = (we_auth env)\<lparr>au_policy := p\<rparr>, sx_conn = (we_conn env)\<lparr>ce_loader := kl\<rparr>,
                      sx_access = \<lparr>ax_ttls = ttls, ax_now = we_clock env,
                        ax_token = get_access_token (ce_gcm (we_conn env)) kl, ax_invalidate = invalidate_credential,
                        ax_probe = we_probe env\<rparr>\<rparr>)))"

text \<open>The clock readings after the first \<open>k\<close>.\<close>

definition later :: "nat \<Rightarrow> auth_env \<Rightarrow> auth_env" where
  "later k a = a\<lparr>au_now := (\<lambda>n. au_now a (k + n))\<rparr>"

section \<open>Percent encoding\<close>

text \<open>\<open>percentDecode\<close> of the URL standard: a \<open>%\<close> that no two hexadecimal digits follow stays.\<close>

fun percent_decode :: "string \<Rightarrow> byte list" where
  "percent_decode [] = []"
| "percent_decode (c # cs) =
     (if c \<noteq> CHR ''%'' then utf8_char c @ percent_decode cs
      else case cs of
        a # b # rest \<Rightarrow>
          (case (hex_val a, hex_val b) of
             (Some x, Some y) \<Rightarrow> of_nat (16 * x + y) # percent_decode rest
           | _ \<Rightarrow> utf8_char c @ percent_decode cs)
      | _ \<Rightarrow> utf8_char c @ percent_decode cs)"

text \<open>\<open>decodeURIComponent\<close>, \<open>None\<close> where it throws: a \<open>%\<close> without its digits, or bytes that are not
  the UTF-8 of the model's characters.\<close>

fun percents_ok :: "string \<Rightarrow> bool" where
  "percents_ok [] = True"
| "percents_ok (c # cs) =
     (if c \<noteq> CHR ''%'' then percents_ok cs
      else case cs of
        a # b # rest \<Rightarrow> hex_val a \<noteq> None \<and> hex_val b \<noteq> None \<and> percents_ok rest
      | _ \<Rightarrow> False)"

definition decode_uri_component :: "string \<Rightarrow> string option" where
  "decode_uri_component s =
     (let bs = percent_decode s; t = utf8_decode bs in
      if percents_ok s \<and> utf8_encode t = bs then Some t else None)"

section \<open>Cookies\<close>

definition app_origin :: "(string \<Rightarrow> string option) \<Rightarrow> thrown_error + string" where
  "app_origin env =
     (let configured = js_trim (case env ''APP_ORIGIN'' of
            Some s \<Rightarrow> s
          | None \<Rightarrow> (case env ''NEXT_PUBLIC_APP_ORIGIN'' of Some s \<Rightarrow> s | None \<Rightarrow> []))
      in if configured = [] then Inl (plain_error ''APP_ORIGIN is not configured'')
         else Inr (strip_slash configured))"

definition allowed_origins :: "(string \<Rightarrow> string option) \<Rightarrow> thrown_error + string list" where
  "allowed_origins env = (case app_origin env of Inl e \<Rightarrow> Inl e | Inr o' \<Rightarrow> Inr [o'])"

definition session_cookie :: "session_policy \<Rightarrow> string \<Rightarrow> web_cookie" where
  "session_cookie p token = \<lparr>ck_name = sp_cookie p, ck_value = token, ck_http_only = True,
     ck_secure = sp_secure p, ck_max_age = sp_abs p\<rparr>"

definition cleared_session_cookie :: "session_policy \<Rightarrow> web_cookie" where
  "cleared_session_cookie p = \<lparr>ck_name = sp_cookie p, ck_value = [], ck_http_only = True,
     ck_secure = sp_secure p, ck_max_age = 0\<rparr>"

definition csrf_cookie :: "session_policy \<Rightarrow> string \<Rightarrow> web_cookie" where
  "csrf_cookie p token = \<lparr>ck_name = sp_csrf_cookie p, ck_value = token, ck_http_only = False,
     ck_secure = sp_secure p, ck_max_age = sp_abs p\<rparr>"

definition read_session_token :: "session_policy \<Rightarrow> web_request \<Rightarrow> string option" where
  "read_session_token p rq = rq_jar rq (sp_cookie p)"

text \<open>The first part whose key matches decides, even when its value cannot be decoded.\<close>

fun read_parts :: "string list \<Rightarrow> string \<Rightarrow> thrown_error + string option" where
  "read_parts [] name = Inr None"
| "read_parts (part # parts) name =
     (case split_on CHR ''='' (js_trim part) of
        raw # rest \<Rightarrow>
          if raw = name then
            (case decode_uri_component (join_with ''='' rest) of
               None \<Rightarrow> Inl (plain_error ''URI malformed'')
             | Some v \<Rightarrow> Inr (Some v))
          else read_parts parts name
      | [] \<Rightarrow> read_parts parts name)"

definition read_cookie :: "string \<Rightarrow> string \<Rightarrow> thrown_error + string option" where
  "read_cookie header name = read_parts (split_on CHR '';'' header) name"

definition header_text :: "web_request \<Rightarrow> string \<Rightarrow> string" where
  "header_text rq h = (case rq_header rq h of None \<Rightarrow> [] | Some s \<Rightarrow> s)"

section \<open>Forms\<close>

text \<open>\<open>String(value)\<close>. An element of an array that is null prints as nothing.\<close>

fun js_string :: "(rat \<Rightarrow> string) \<Rightarrow> json \<Rightarrow> string" where
  "js_string num JNull = ''null''"
| "js_string num (JBool b) = (if b then ''true'' else ''false'')"
| "js_string num (JNum n) = num n"
| "js_string num (JStr s) = s"
| "js_string num (JArr vs) = join_with '','' (map (\<lambda>v. if v = JNull then [] else js_string num v) vs)"
| "js_string num (JObj ms) = ''[object Object]''"

text \<open>\<open>Object.entries(body)\<close>, \<open>None\<close> where it throws.\<close>

definition js_entries :: "json \<Rightarrow> (string \<times> json) list option" where
  "js_entries body =
     (case body of
        JNull \<Rightarrow> None
      | JBool b \<Rightarrow> Some []
      | JNum n \<Rightarrow> Some []
      | JStr s \<Rightarrow> Some (zip (map show_nat [0..<length s]) (map (\<lambda>c. JStr [c]) s))
      | JArr vs \<Rightarrow> Some (zip (map show_nat [0..<length vs]) vs)
      | JObj ms \<Rightarrow> Some ms)"

text \<open>\<open>new URLSearchParams(text)\<close>.\<close>

definition form_decode :: "string \<Rightarrow> string" where
  "form_decode s = utf8_decode (percent_decode (map (\<lambda>c. if c = CHR ''+'' then CHR '' '' else c) s))"

definition form_pair :: "string \<Rightarrow> string \<times> string" where
  "form_pair s = (case split_on CHR ''='' s of
      [] \<Rightarrow> ([], []) | k # rest \<Rightarrow> (form_decode k, form_decode (join_with ''='' rest)))"

definition url_search_params :: "string \<Rightarrow> (string \<times> string) list" where
  "url_search_params s =
     map form_pair (filter (\<lambda>p. p \<noteq> [])
       (split_on CHR ''&'' (if starts_with ''?'' s then tl s else s)))"

definition parse_form :: "(rat \<Rightarrow> string) \<Rightarrow> web_request \<Rightarrow> thrown_error + (string \<rightharpoonup> string)" where
  "parse_form num rq =
     (if str_includes ''application/json'' (header_text rq ''content-type'') then
        (case json_parse (rq_body rq) of
           None \<Rightarrow> Inl (plain_error ''Unexpected token in JSON'')
         | Some body \<Rightarrow>
             (case js_entries body of
                None \<Rightarrow> Inl (plain_error ''Cannot convert undefined or null to object'')
              | Some kvs \<Rightarrow>
                  Inr (map_of (map (\<lambda>(k, v). (k, js_string num v)) (filter (\<lambda>(k, v). v \<noteq> JNull) kvs)))))
      else Inr (map_of (url_search_params (rq_body rq))))"

section \<open>Responses\<close>

definition error_code :: "thrown_error \<Rightarrow> string" where
  "error_code e = (case te_code e of Some c \<Rightarrow> c | None \<Rightarrow> ep_code (to_safe_error_payload e))"

definition mapped_status :: "string \<Rightarrow> nat \<Rightarrow> nat" where
  "mapped_status code status =
     (if code = ''AUTH_UNAUTHORIZED'' \<or> code = ''AUTH_SESSION_EXPIRED'' then 401
      else if code = ''AUTH_FORBIDDEN'' then 403
      else if code = ''AUTH_RATE_LIMITED'' \<or> code = ''AUTH_ACCOUNT_LOCKED'' then 429
      else if code = ''AUTH_CSRF'' \<or> code = ''AUTH_ORIGIN'' then 403
      else status)"

definition error_json :: "string \<Rightarrow> string \<Rightarrow> json" where
  "error_json code msg = JObj [(''error'', JObj [(''code'', JStr code), (''message'', JStr msg)])]"

definition json_response :: "json \<Rightarrow> nat \<Rightarrow> web_response" where
  "json_response v status = \<lparr>wr_status = status, wr_body = Body_Json v, wr_cookies = []\<rparr>"

definition json_error :: "thrown_error \<Rightarrow> nat \<Rightarrow> web_response" where
  "json_error e status =
     json_response (error_json (error_code e) (ep_message (to_safe_error_payload e)))
       (mapped_status (error_code e) status)"

definition wants_json :: "web_request \<Rightarrow> bool" where
  "wants_json rq \<longleftrightarrow> str_includes ''application/json'' (header_text rq ''content-type'') \<or>
     str_includes ''application/json'' (header_text rq ''accept'')"

text \<open>\<open>NextResponse.redirect\<close> answers 307.\<close>

definition redirect_to :: "string \<Rightarrow> string \<Rightarrow> (string \<times> string) list \<Rightarrow> web_response" where
  "redirect_to base path query = \<lparr>wr_status = 307, wr_body = Body_Redirect base path query, wr_cookies = []\<rparr>"

text \<open>\<open>formRedirect\<close> throws where the origin is missing or cannot be parsed.\<close>

definition form_redirect :: "web_env \<Rightarrow> string \<Rightarrow> (string \<times> string) list \<Rightarrow> thrown_error + web_response" where
  "form_redirect env path query =
     (case app_origin (we_process env) of
        Inl e \<Rightarrow> Inl e
      | Inr base \<Rightarrow>
          (case we_url_origin env base of
             None \<Rightarrow> Inl (plain_error ''Invalid URL'')
           | Some o' \<Rightarrow> Inr (redirect_to o' path query)))"

section \<open>Guards\<close>

definition require_user ::
    "web_env \<Rightarrow> auth_env \<Rightarrow> web_request \<Rightarrow> database \<Rightarrow> (thrown_error + auth_user \<times> string) \<times> database" where
  "require_user env a rq db =
     (case validate_token a (read_session_token (au_policy a) rq) db of
        (Inl e, db1) \<Rightarrow> (Inl (auth_thrown (we_driver env) e), db1)
      | (Inr v, db1) \<Rightarrow> (Inr (vs_user v, vs_id v), db1))"

definition require_admin ::
    "web_env \<Rightarrow> auth_env \<Rightarrow> web_request \<Rightarrow> database \<Rightarrow> (thrown_error + auth_user \<times> string) \<times> database" where
  "require_admin env a rq db =
     (case require_user env a rq db of
        (Inl e, db1) \<Rightarrow> (Inl e, db1)
      | (Inr (u, sid), db1) \<Rightarrow>
          if ar_role u \<noteq> Admin then (Inl (auth_thrown (we_driver env) Auth_Forbidden), db1)
          else (Inr (u, sid), db1))"

text \<open>The origin, then the token of the cookie against \<open>submitted\<close>.\<close>

definition check_mutation ::
    "web_env \<Rightarrow> session_policy \<Rightarrow> web_request \<Rightarrow> string option \<Rightarrow> thrown_error + unit" where
  "check_mutation env p rq submitted =
     (case allowed_origins (we_process env) of
        Inl e \<Rightarrow> Inl e
      | Inr allowed \<Rightarrow>
          (case assert_origin (we_url_origin env) (rq_header rq ''origin'') (rq_header rq ''referer'') allowed of
             Inl e \<Rightarrow> Inl (auth_thrown (we_driver env) e)
           | Inr _ \<Rightarrow>
               (case read_cookie (header_text rq ''cookie'') (sp_csrf_cookie p) of
                  Inl e \<Rightarrow> Inl e
                | Inr cookie \<Rightarrow>
                    (case assert_csrf cookie submitted of
                       Inl e \<Rightarrow> Inl (auth_thrown (we_driver env) e)
                     | Inr _ \<Rightarrow> Inr ()))))"

definition opt_or :: "'a option \<Rightarrow> 'a option \<Rightarrow> 'a option" where
  "opt_or a b = (case a of None \<Rightarrow> b | Some _ \<Rightarrow> a)"

definition assert_mutation_guards :: "web_env \<Rightarrow> web_request \<Rightarrow> thrown_error + unit" where
  "assert_mutation_guards env rq =
     (case get_services env of
        Inl e \<Rightarrow> Inl e
      | Inr sx \<Rightarrow> check_mutation env (au_policy (sx_auth sx)) rq
          (opt_or (rq_header rq ''x-csrf-token'') (rq_header rq ''x-xsrf-token'')))"

section \<open>Lemmas\<close>

lemma percent_decode_plain: "CHR ''%'' \<notin> set s \<Longrightarrow> percent_decode s = utf8_encode s"
  by (induction s) (auto simp: utf8_encode_def)

lemma form_decode_plain: "CHR ''%'' \<notin> set s \<Longrightarrow> CHR ''+'' \<notin> set s \<Longrightarrow> form_decode s = s"
proof -
  assume s: "CHR ''%'' \<notin> set s" "CHR ''+'' \<notin> set s"
  then have "map (\<lambda>c. if c = CHR ''+'' then CHR '' '' else c) s = s" by (intro map_idI) auto
  with s show ?thesis by (simp add: form_decode_def percent_decode_plain)
qed

lemma decode_uri_plain: "CHR ''%'' \<notin> set s \<Longrightarrow> decode_uri_component s = Some s"
proof -
  assume s: "CHR ''%'' \<notin> set s"
  then have "percents_ok s" by (induction s) auto
  with s show ?thesis by (simp add: decode_uri_component_def percent_decode_plain Let_def)
qed

end
