(* ===== verification/WebRoutes.thy ===== *)
theory WebRoutes
  imports WebHttp
begin

text \<open>
  The API routes of the web server, \<open>apps/web/src/app/api\<close>: each takes a request and the state and
  returns a response, or the error with which it leaves the route when even its handler throws, and
  the new state. \<open>action_route\<close> is the code that the routes with an \<open>action\<close> field share word for word.
\<close>

section \<open>What the routes share\<close>

type_synonym route_result = "(thrown_error + web_response) \<times> web_state"

definition form_text :: "(string \<rightharpoonup> string) \<Rightarrow> string \<Rightarrow> string" where
  "form_text form k = (case form k of None \<Rightarrow> [] | Some s \<Rightarrow> s)"

definition form_or :: "(string \<rightharpoonup> string) \<Rightarrow> string \<Rightarrow> string \<Rightarrow> string" where
  "form_or form k d = (case form k of None \<Rightarrow> d | Some s \<Rightarrow> s)"

definition submitted_token :: "(string \<rightharpoonup> string) \<Rightarrow> web_request \<Rightarrow> string option" where
  "submitted_token form rq = opt_or (form ''csrf'') (rq_header rq ''x-csrf-token'')"

definition ok_json :: json where
  "ok_json = JObj [(''ok'', JBool True)]"

definition opt_json :: "string option \<Rightarrow> json" where
  "opt_json s = (case s of None \<Rightarrow> JNull | Some t \<Rightarrow> JStr t)"

text \<open>The answer of a successful action, to a client that wants JSON or to a form.\<close>

definition answer ::
    "web_env \<Rightarrow> bool \<Rightarrow> json \<Rightarrow> string \<Rightarrow> (string \<times> string) list \<Rightarrow> thrown_error + web_response" where
  "answer env js v path query = (if js then Inr (json_response v 200) else form_redirect env path query)"

definition unknown_action :: "web_env \<Rightarrow> bool \<Rightarrow> string \<Rightarrow> thrown_error + web_response" where
  "unknown_action env js path =
     (if js then Inr (json_response (JObj [(''error'', JObj [(''message'', JStr ''Unknown action'')])]) 400)
      else form_redirect env path [(''error'', ''unknown_action'')])"

definition failed :: "web_env \<Rightarrow> bool \<Rightarrow> string \<Rightarrow> thrown_error \<Rightarrow> thrown_error + web_response" where
  "failed env js path e = (if js then Inr (json_error e 400) else form_redirect env path [(''error'', ''1'')])"

text \<open>A service call inside a route, and the audit event after it.\<close>

definition call ::
    "('e \<Rightarrow> thrown_error) \<Rightarrow> ('e + 'a) \<times> database \<Rightarrow> ('a \<Rightarrow> web_state \<Rightarrow> route_result) \<Rightarrow> web_state \<Rightarrow> route_result" where
  "call conv r k st =
     (case r of
        (Inl e, db) \<Rightarrow> (Inl (conv e), with_db db st)
      | (Inr x, db) \<Rightarrow> k x (with_db db st))"

definition audit_then ::
    "web_env \<Rightarrow> string \<Rightarrow> string \<Rightarrow> (string \<times> json) list \<Rightarrow> thrown_error + web_response \<Rightarrow> web_state \<Rightarrow> route_result" where
  "audit_then env action uid meta resp st =
     call (auth_thrown (we_driver env)) (audited action (Some uid) meta () (ws_db st)) (\<lambda>_ st'. (resp, st')) st"

text \<open>Guards, then the action as the user of the session; whatever throws is answered by \<open>failed\<close>.\<close>

definition action_route ::
    "web_env \<Rightarrow> web_request \<Rightarrow> bool \<Rightarrow> string
       \<Rightarrow> (services \<Rightarrow> bool \<Rightarrow> (string \<rightharpoonup> string) \<Rightarrow> auth_user \<Rightarrow> web_state \<Rightarrow> route_result) \<Rightarrow> web_state \<Rightarrow> route_result" where
  "action_route env rq admin path act st =
     (case get_services env of
        Inl e \<Rightarrow> (Inl e, st)
      | Inr sx \<Rightarrow>
          let js = wants_json rq; a = sx_auth sx in
          (case parse_form (we_number env) rq of
             Inl e \<Rightarrow> (failed env js path e, st)
           | Inr form \<Rightarrow>
               (case check_mutation env (au_policy a) rq (submitted_token form rq) of
                  Inl e \<Rightarrow> (failed env js path e, st)
                | Inr _ \<Rightarrow>
                    (case (if admin then require_admin else require_user) env a rq (ws_db st) of
                       (Inl e, db1) \<Rightarrow> (failed env js path e, with_db db1 st)
                     | (Inr (u, sid), db1) \<Rightarrow>
                         (case act (sx\<lparr>sx_auth := later 1 a\<rparr>) js form u (with_db db1 st) of
                            (Inl e, st2) \<Rightarrow> (failed env js path e, st2)
                          | (Inr r, st2) \<Rightarrow> (Inr r, st2))))))"

section \<open>Sessions\<close>

text \<open>\<open>api/auth/login\<close>. Both answers lead to the origin of the request.\<close>

definition login_failed :: "web_request \<Rightarrow> thrown_error \<Rightarrow> web_response" where
  "login_failed rq e =
     (if wants_json rq
      then json_response (error_json (ep_code (to_safe_error_payload e)) (ep_message (to_safe_error_payload e))) 401
      else redirect_to (rq_origin rq) ''/login'' [(''error'', ''1'')])"

definition prior_session :: "auth_env \<Rightarrow> web_request \<Rightarrow> database \<Rightarrow> string option \<times> database" where
  "prior_session a rq db =
     (case read_session_token (au_policy a) rq of
        None \<Rightarrow> (None, db)
      | Some t \<Rightarrow>
          if t = [] then (None, db)
          else (case validate_token a (Some t) db of
            (Inl _, db1) \<Rightarrow> (None, db1)
          | (Inr v, db1) \<Rightarrow> (Some (vs_id v), db1)))"

definition client_ip :: "web_request \<Rightarrow> string option" where
  "client_ip rq = map_option (\<lambda>h. js_trim (hd (split_on CHR '','' h @ [[]]))) (rq_header rq ''x-forwarded-for'')"

definition login_input_of :: "web_request \<Rightarrow> (string \<rightharpoonup> string) \<Rightarrow> string option \<Rightarrow> login_input" where
  "login_input_of rq form prior =
     \<lparr>li_email = form_text form ''email'', li_password = form_text form ''password'',
      li_agent = rq_header rq ''user-agent'', li_ip = client_ip rq, li_prior = prior\<rparr>"

definition login_response :: "web_env \<Rightarrow> session_policy \<Rightarrow> web_request \<Rightarrow> login_result \<Rightarrow> web_response" where
  "login_response env p rq r =
     (if wants_json rq
      then json_response (JObj [(''ok'', JBool True), (''user'', JObj [(''id'', JStr (ar_id (lr_user r))),
        (''email'', JStr (ar_email (lr_user r))), (''role'', JStr (role_text (ar_role (lr_user r))))])]) 200
      else redirect_to (rq_origin rq) ''/dashboard'' [])
     \<lparr>wr_cookies := [session_cookie p (lr_token r), csrf_cookie p (we_csrf env)]\<rparr>"

definition login_route :: "web_env \<Rightarrow> web_request \<Rightarrow> web_state \<Rightarrow> route_result" where
  "login_route env rq st =
     (case get_services env of
        Inl e \<Rightarrow> (Inl e, st)
      | Inr sx \<Rightarrow>
          let a = sx_auth sx in
          (case parse_form (we_number env) rq of
             Inl e \<Rightarrow> (Inr (login_failed rq e), st)
           | Inr form \<Rightarrow>
               (case check_mutation env (au_policy a) rq (submitted_token form rq) of
                  Inl e \<Rightarrow> (Inr (login_failed rq e), st)
                | Inr _ \<Rightarrow>
                    (case prior_session a rq (ws_db st) of
                       (prior, db1) \<Rightarrow>
                         (case login (later 1 a) (login_input_of rq form prior) (ws_auth (with_db db1 st)) of
                            (Inl e, s) \<Rightarrow> (Inr (login_failed rq (auth_thrown (we_driver env) e)), st\<lparr>ws_auth := s\<rparr>)
                          | (Inr r, s) \<Rightarrow> (Inr (login_response env (au_policy a) rq r), st\<lparr>ws_auth := s\<rparr>))))))"

text \<open>\<open>api/auth/logout\<close>.\<close>

definition logout_failed :: "web_request \<Rightarrow> thrown_error \<Rightarrow> web_response" where
  "logout_failed rq e =
     (if wants_json rq
      then json_response (error_json (ep_code (to_safe_error_payload e)) (ep_message (to_safe_error_payload e))) 401
      else redirect_to (rq_origin rq) ''/login'' [])"

definition signed_out :: "web_env \<Rightarrow> session_policy \<Rightarrow> web_response \<Rightarrow> web_response" where
  "signed_out env p r = r\<lparr>wr_cookies := [cleared_session_cookie p, csrf_cookie p (we_csrf env)]\<rparr>"

definition logout_route :: "web_env \<Rightarrow> web_request \<Rightarrow> web_state \<Rightarrow> route_result" where
  "logout_route env rq st =
     (case get_services env of
        Inl e \<Rightarrow> (Inl e, st)
      | Inr sx \<Rightarrow>
          let a = sx_auth sx in
          (case parse_form (we_number env) rq of
             Inl e \<Rightarrow> (Inr (logout_failed rq e), st)
           | Inr form \<Rightarrow>
               (case check_mutation env (au_policy a) rq (submitted_token form rq) of
                  Inl e \<Rightarrow> (Inr (logout_failed rq e), st)
                | Inr _ \<Rightarrow>
                    (case require_user env a rq (ws_db st) of
                       (Inl e, db1) \<Rightarrow> (Inr (logout_failed rq e), with_db db1 st)
                     | (Inr (u, sid), db1) \<Rightarrow>
                         (case revoke_session (later 1 a) sid (Some (ar_id u)) db1 of
                            (Inl e, db2) \<Rightarrow> (Inr (logout_failed rq (auth_thrown (we_driver env) e)), with_db db2 st)
                          | (Inr _, db2) \<Rightarrow>
                              (Inr (signed_out env (au_policy a)
                                 (if wants_json rq then json_response ok_json 200
                                  else redirect_to (rq_origin rq) ''/login'' [])), with_db db2 st))))))"

text \<open>\<open>api/auth/sessions/revoke-all\<close>.\<close>

definition revoke_all_action ::
    "web_env \<Rightarrow> services \<Rightarrow> bool \<Rightarrow> (string \<rightharpoonup> string) \<Rightarrow> auth_user \<Rightarrow> web_state \<Rightarrow> route_result" where
  "revoke_all_action env sx js form u st =
     call (auth_thrown (we_driver env))
       (revoke_all_for_user (au_now (sx_auth sx) 0) (ar_id u) (Some (ar_id u)) (ws_db st))
       (\<lambda>n st'. (map_sum id (signed_out env (au_policy (sx_auth sx)))
          (answer env js (JObj [(''ok'', JBool True), (''revoked'', JNum (of_nat n))]) ''/login'' []), st')) st"

definition revoke_all_route :: "web_env \<Rightarrow> web_request \<Rightarrow> web_state \<Rightarrow> route_result" where
  "revoke_all_route env rq = action_route env rq False ''/settings/security'' (revoke_all_action env)"

text \<open>\<open>api/auth/csrf\<close>. A path that begins with a slash is resolved against the application's origin as
  the URL standard does: tabs and line breaks are dropped, and where a second slash follows, either
  of them also written backwards, the text is a host.\<close>

definition safe_next :: "string option \<Rightarrow> string" where
  "safe_next next =
     (let n = (case next of None \<Rightarrow> ''/login'' | Some s \<Rightarrow> s) in
      if starts_with ''/'' n \<and> \<not> starts_with ''//'' n then n else ''/login'')"

definition url_slash :: "char \<Rightarrow> bool" where
  "url_slash c \<longleftrightarrow> c = CHR ''/'' \<or> c = CHR 0x5C"

definition names_host :: "string \<Rightarrow> bool" where
  "names_host path =
     (case filter (\<lambda>c. c \<notin> {CHR 0x09, CHR 0x0A, CHR 0x0D}) path of
        c # d # _ \<Rightarrow> url_slash c \<and> url_slash d
      | _ \<Rightarrow> False)"

definition resolve_origin :: "(string \<Rightarrow> string option) \<Rightarrow> string \<Rightarrow> string \<Rightarrow> string option" where
  "resolve_origin url_origin base path =
     (case url_origin base of
        None \<Rightarrow> None
      | Some o' \<Rightarrow>
          if names_host path then url_origin (takeWhile (\<lambda>c. c \<noteq> CHR '':'') o' @ '':'' @ path) else Some o')"

definition csrf_route :: "web_env \<Rightarrow> web_request \<Rightarrow> thrown_error + web_response" where
  "csrf_route env rq =
     (case get_services env of
        Inl e \<Rightarrow> Inl e
      | Inr sx \<Rightarrow>
          (case app_origin (we_process env) of
             Inl e \<Rightarrow> Inl e
           | Inr base \<Rightarrow>
               (case resolve_origin (we_url_origin env) base (safe_next (rq_param rq ''next'')) of
                  None \<Rightarrow> Inl (plain_error ''Invalid URL'')
                | Some o' \<Rightarrow>
                    Inr ((redirect_to o' (safe_next (rq_param rq ''next'')) [])
                      \<lparr>wr_cookies := [csrf_cookie (au_policy (sx_auth sx)) (we_csrf env)]\<rparr>))))"

end
