(* ===== verification/WebActions.thy ===== *)
theory WebActions
  imports WebRoutes
begin

text \<open>
  The routes of administration and settings, \<open>apps/web/src/app/api/admin\<close> and \<open>api/settings\<close>: the
  action that each form may ask for, and what each \<open>GET\<close> shows.
\<close>

type_synonym web_action =
  "web_env \<Rightarrow> services \<Rightarrow> bool \<Rightarrow> (string \<rightharpoonup> string) \<Rightarrow> auth_user \<Rightarrow> web_state \<Rightarrow> route_result"

definition is_production :: "web_env \<Rightarrow> bool" where
  "is_production env \<longleftrightarrow> we_process env ''NODE_ENV'' = Some ''production''"

section \<open>What the answers show\<close>

definition status_text :: "user_status \<Rightarrow> string" where
  "status_text s = (case s of User_Active \<Rightarrow> ''active'' | User_Deactivated \<Rightarrow> ''deactivated'')"

definition user_json :: "auth_user \<Rightarrow> json" where
  "user_json u = JObj [(''id'', JStr (ar_id u)), (''email'', JStr (ar_email u)), (''normalizedEmail'', JStr (ar_norm u)),
     (''role'', JStr (role_text (ar_role u))), (''status'', JStr (status_text (ar_status u)))]"

definition instance_json :: "instance_view \<Rightarrow> json" where
  "instance_json v = JObj [(''id'', JStr (iv_id v)), (''baseUrlNormalized'', JStr (iv_base_url v)),
     (''label'', opt_json (iv_label v)), (''internal'', JBool (iv_internal v))]"

definition allow_json :: "allow_view \<Rightarrow> json" where
  "allow_json v = JObj [(''id'', JStr (av_id v)), (''gitlabInstanceId'', JStr (av_instance v)),
     (''gitlabProjectId'', JStr (av_project v)), (''pathWithNamespace'', opt_json (av_path v))]"

definition connection_status_text :: "connection_status \<Rightarrow> string" where
  "connection_status_text s = (case s of Conn_Active \<Rightarrow> ''active'' | Conn_Invalid \<Rightarrow> ''invalid''
     | Conn_Superseded \<Rightarrow> ''superseded'' | Conn_Deleted \<Rightarrow> ''deleted'')"

definition connection_json :: "(instant \<Rightarrow> string) \<Rightarrow> connection_view \<Rightarrow> json" where
  "connection_json to_iso v = JObj [(''id'', JStr (cv_id v)), (''gitlabInstanceId'', JStr (cv_instance v)),
     (''baseUrlNormalized'', JStr (cv_base_url v)), (''gitlabUserId'', JStr (cv_gl_user v)),
     (''gitlabUsername'', JStr (cv_gl_name v)), (''status'', JStr (connection_status_text (cv_status v))),
     (''lastValidatedAt'', opt_json (map_option to_iso (cv_validated v))), (''patHintLast4'', opt_json (cv_hint v))]"

definition item_json :: "project_item \<Rightarrow> json" where
  "item_json i = JObj [(''gitlabInstanceId'', JStr (pi_instance i)), (''gitlabProjectId'', JStr (pi_project i)),
     (''pathWithNamespace'', opt_json (pi_path i)), (''name'', opt_json (pi_name i)),
     (''gitlabVisible'', JBool (pi_visible i)), (''enabled'', JBool (pi_enabled i)), (''error'', opt_json (pi_error i))]"

section \<open>Users\<close>

definition users_path :: string where "users_path = ''/settings/admin/users''"

text \<open>\<open>ROLES.has\<close>; an unknown role is refused before anything else is looked at.\<close>

definition role_of_text :: "string \<Rightarrow> user_role option" where
  "role_of_text s = (if s = ''admin'' then Some Admin else if s = ''tech_lead'' then Some Tech_Lead
     else if s = ''developer'' then Some Developer else None)"

definition users_action :: web_action where
  "users_action env sx js form actor st =
     (let action = form_or form ''action'' ''create''; err = auth_thrown (we_driver env) in
      if action = ''create'' \<or> action = ''invite'' then
        (case role_of_text (form_or form ''role'' ''developer'') of
           None \<Rightarrow> (Inl (err Invalid_Input), st)
         | Some role \<Rightarrow>
             call err (create_user (sx_auth sx) actor (form_text form ''email'') (form_text form ''password'') role
                 (action = ''invite'') (ws_db st))
               (\<lambda>u st'. (answer env js (JObj [(''ok'', JBool True), (''user'', user_json u)]) users_path [], st')) st)
      else if action = ''deactivate'' then
        call err (deactivate_user (sx_auth sx) actor (form_text form ''userId'') (ws_db st))
          (\<lambda>_ st'. (answer env js ok_json users_path [], st')) st
      else if action = ''reset_password'' then
        call err (reset_password (sx_auth sx) actor (form_text form ''userId'') (form_text form ''password'') (ws_db st))
          (\<lambda>_ st'. (answer env js ok_json users_path [], st')) st
      else (unknown_action env js users_path, st))"

definition users_route :: "web_env \<Rightarrow> web_request \<Rightarrow> web_state \<Rightarrow> route_result" where
  "users_route env rq = action_route env rq True users_path (users_action env)"

section \<open>Allowlist\<close>

definition allowlist_path :: string where "allowlist_path = ''/settings/admin/allowlist''"

definition allowlist_action :: web_action where
  "allowlist_action env sx js form user st =
     (let action = form_text form ''action''; err = admin_thrown (we_driver env); uid = ar_id user in
      if action = ''add_instance'' then
        call err (add_instance (ce_api (sx_conn sx)) (we_new_id env) (we_now env 0) (form_text form ''baseUrl'')
            (form ''label'') (form ''internal'' = Some ''true'') (is_production env) (ws_db st))
          (\<lambda>row. audit_then env ''allowlist_instance_added'' uid [(''instanceId'', JStr (iv_id row))]
             (answer env js (JObj [(''ok'', JBool True), (''instance'', instance_json row)]) allowlist_path [])) st
      else if action = ''remove_instance'' then
        call err (remove_instance (we_now env 0) (form_text form ''instanceId'') (ws_db st))
          (\<lambda>_. audit_then env ''allowlist_instance_removed'' uid [(''instanceId'', JStr (form_text form ''instanceId''))]
             (answer env js ok_json allowlist_path [])) st
      else if action = ''add_project'' then
        call err (add_project (we_new_id env) (we_now env 0) (form_text form ''gitlabInstanceId'')
            (form_text form ''gitlabProjectId'') (form ''pathWithNamespace'') (ws_db st))
          (\<lambda>row. audit_then env ''allowlist_project_added'' uid [(''projectAllowlistId'', JStr (av_id row))]
             (answer env js (JObj [(''ok'', JBool True), (''project'', allow_json row)]) allowlist_path [])) st
      else if action = ''remove_project'' then
        call err (Inr (), remove_project (we_now env 0) (form_text form ''id'') (ws_db st))
          (\<lambda>_. audit_then env ''allowlist_project_removed'' uid [(''projectAllowlistId'', JStr (form_text form ''id''))]
             (answer env js ok_json allowlist_path [])) st
      else (unknown_action env js allowlist_path, st))"

definition allowlist_route :: "web_env \<Rightarrow> web_request \<Rightarrow> web_state \<Rightarrow> route_result" where
  "allowlist_route env rq = action_route env rq True allowlist_path (allowlist_action env)"

section \<open>E-mail addresses\<close>

definition security_path :: string where "security_path = ''/settings/security''"

definition emails_action :: web_action where
  "emails_action env sx js form user st =
     (let action = form_or form ''action'' ''add''; err = alias_thrown (we_driver env); uid = ar_id user in
      if action = ''add'' then
        call err (add_alias (au_nfkc (sx_auth sx)) (we_new_id env) (we_now env 0) uid (form_text form ''email'') (ws_db st))
          (\<lambda>row. audit_then env ''email_alias_added'' uid [(''emailId'', JStr (ev_id row))]
             (answer env js ok_json security_path [])) st
      else if action = ''remove'' then
        call err (remove_alias uid (form_text form ''emailId'') (ws_db st))
          (\<lambda>_. audit_then env ''email_alias_removed'' uid [(''emailId'', JStr (form_text form ''emailId''))]
             (answer env js ok_json security_path [])) st
      else (unknown_action env js security_path, st))"

definition emails_route :: "web_env \<Rightarrow> web_request \<Rightarrow> web_state \<Rightarrow> route_result" where
  "emails_route env rq = action_route env rq False security_path (emails_action env)"

section \<open>Projects\<close>

definition projects_path :: string where "projects_path = ''/settings/projects''"

definition projects_action :: web_action where
  "projects_action env sx js form user st =
     (let action = form_or form ''action'' ''enable''; uid = ar_id user;
          p = \<lparr>pr_instance = form_text form ''gitlabInstanceId'', pr_project = form_text form ''gitlabProjectId''\<rparr>;
          meta = [(''gitlabInstanceId'', JStr (pr_instance p)), (''gitlabProjectId'', JStr (pr_project p))] in
      if action = ''enable'' then
        (case enable_project (sx_access sx) uid p (ws_tick st) (ws_db st) of
           (Inl e, t, db) \<Rightarrow> (Inl (access_thrown e), (with_db db st)\<lparr>ws_tick := t\<rparr>)
         | (Inr _, t, db) \<Rightarrow> audit_then env ''project_enabled'' uid meta (answer env js ok_json projects_path [])
             ((with_db db st)\<lparr>ws_tick := t\<rparr>))
      else if action = ''disable'' then
        audit_then env ''project_disabled'' uid meta (answer env js ok_json projects_path [])
          (with_db (disable_project uid p (ws_db st)) st)
      else (unknown_action env js projects_path, st))"

definition projects_route :: "web_env \<Rightarrow> web_request \<Rightarrow> web_state \<Rightarrow> route_result" where
  "projects_route env rq = action_route env rq False projects_path (projects_action env)"

section \<open>GitLab connections\<close>

definition gitlab_path :: string where "gitlab_path = ''/settings/gitlab''"

definition tested_json :: "gl_identity \<Rightarrow> json" where
  "tested_json i = JObj [(''ok'', JBool True), (''user'', JObj [(''id'', JStr (idn_user i)),
     (''username'', JStr (idn_username i)), (''name'', opt_json (idn_name i))])]"

definition connected_json :: "web_env \<Rightarrow> connection_view \<Rightarrow> json" where
  "connected_json env v = JObj [(''ok'', JBool True), (''connection'', connection_json (we_iso env) v)]"

definition gitlab_action :: web_action where
  "gitlab_action env sx js form user st =
     (let action = form_or form ''action'' ''save''; err = connection_thrown (we_driver env);
          uid = ar_id user; cid = form_text form ''connectionId'' in
      if action = ''save'' \<or> action = ''replace'' then
        call err (save_connection (sx_conn sx) uid (form_text form ''baseUrl'') (form_text form ''pat'')
            (is_production env) (ws_db st))
          (\<lambda>v. audit_then env (if action = ''replace'' then ''gitlab_connection_replaced'' else ''gitlab_connection_created'')
             uid [(''connectionId'', JStr (cv_id v))] (answer env js (connected_json env v) gitlab_path [])) st
      else if action = ''test'' then
        call err (test_pat (sx_conn sx) (form_text form ''baseUrl'') (form_text form ''pat'')
            (is_production env) (ws_db st), ws_db st)
          (\<lambda>(gi, idn). audit_then env ''gitlab_connection_tested'' uid [(''gitlabUsername'', JStr (idn_username idn))]
             (answer env js (tested_json idn) gitlab_path [(''tested'', ''1'')])) st
      else if action = ''retest'' then
        call err (retest_stored (sx_conn sx) uid cid (ws_db st))
          (\<lambda>v st'. (answer env js (connected_json env v) gitlab_path [], st')) st
      else if action = ''delete'' then
        call err (delete_connection (sx_conn sx) uid cid (ws_db st))
          (\<lambda>_. audit_then env ''gitlab_connection_deleted'' uid [(''connectionId'', JStr cid)]
             (answer env js ok_json gitlab_path [])) st
      else (unknown_action env js gitlab_path, st))"

definition gitlab_route :: "web_env \<Rightarrow> web_request \<Rightarrow> web_state \<Rightarrow> route_result" where
  "gitlab_route env rq = action_route env rq False gitlab_path (gitlab_action env)"

section \<open>Reading\<close>

text \<open>A \<open>GET\<close> of an API: the user or administrator of the session, then what is shown.\<close>

definition read_route ::
    "web_env \<Rightarrow> web_request \<Rightarrow> bool \<Rightarrow> nat \<Rightarrow> (services \<Rightarrow> auth_user \<Rightarrow> web_state \<Rightarrow> (thrown_error + json) \<times> web_state) \<Rightarrow> web_state
       \<Rightarrow> web_response \<times> web_state" where
  "read_route env rq admin status show_for st =
     (case get_services env of
        Inl e \<Rightarrow> (json_error e status, st)
      | Inr sx \<Rightarrow>
          (case (if admin then require_admin else require_user) env (sx_auth sx) rq (ws_db st) of
             (Inl e, db1) \<Rightarrow> (json_error e status, with_db db1 st)
           | (Inr (u, sid), db1) \<Rightarrow>
               (case show_for sx u (with_db db1 st) of
                  (Inl e, st2) \<Rightarrow> (json_error e status, st2)
                | (Inr v, st2) \<Rightarrow> (json_response v 200, st2))))"

definition users_get :: "web_env \<Rightarrow> web_request \<Rightarrow> web_state \<Rightarrow> web_response \<times> web_state" where
  "users_get env rq = read_route env rq True 403 (\<lambda>sx u st.
     (map_sum (auth_thrown (we_driver env)) (\<lambda>us. JObj [(''users'', JArr (map user_json us))]) (list_users u (ws_db st)), st))"

definition allowlist_get :: "web_env \<Rightarrow> web_request \<Rightarrow> web_state \<Rightarrow> web_response \<times> web_state" where
  "allowlist_get env rq = read_route env rq True 403 (\<lambda>sx u st.
     (Inr (JObj [(''instances'', JArr (map instance_json (list_instances (ws_db st)))),
        (''projects'', JArr (map allow_json (list_projects None (ws_db st))))]), st))"

definition projects_get :: "web_env \<Rightarrow> web_request \<Rightarrow> web_state \<Rightarrow> web_response \<times> web_state" where
  "projects_get env rq = read_route env rq False 401 (\<lambda>sx u st.
     case list_for_user (sx_access sx) (ar_id u) (ws_tick st) (ws_db st) of
       (its, t, db) \<Rightarrow> (Inr (JObj [(''projects'', JArr (map item_json its))]), (with_db db st)\<lparr>ws_tick := t\<rparr>))"

definition gitlab_get :: "web_env \<Rightarrow> web_request \<Rightarrow> web_state \<Rightarrow> web_response \<times> web_state" where
  "gitlab_get env rq = read_route env rq False 401 (\<lambda>sx u st.
     (Inr (JObj [(''connections'', JArr (map (connection_json (we_iso env))
        (list_connections_for_user (ar_id u) (ws_db st))))]), st))"

section \<open>The server\<close>

datatype web_post = Post_Login | Post_Logout | Post_Revoke_All | Post_Users | Post_Allowlist | Post_Emails | Post_Projects | Post_Gitlab

definition serve_post :: "web_env \<Rightarrow> web_post \<Rightarrow> web_request \<Rightarrow> web_state \<Rightarrow> route_result" where
  "serve_post env p =
     (case p of Post_Login \<Rightarrow> login_route env | Post_Logout \<Rightarrow> logout_route env | Post_Revoke_All \<Rightarrow> revoke_all_route env
      | Post_Users \<Rightarrow> users_route env | Post_Allowlist \<Rightarrow> allowlist_route env | Post_Emails \<Rightarrow> emails_route env
      | Post_Projects \<Rightarrow> projects_route env | Post_Gitlab \<Rightarrow> gitlab_route env)"

datatype web_get = Get_Users | Get_Allowlist | Get_Projects | Get_Gitlab

definition serve_get :: "web_env \<Rightarrow> web_get \<Rightarrow> web_request \<Rightarrow> web_state \<Rightarrow> web_response \<times> web_state" where
  "serve_get env g =
     (case g of Get_Users \<Rightarrow> users_get env | Get_Allowlist \<Rightarrow> allowlist_get env | Get_Projects \<Rightarrow> projects_get env
      | Get_Gitlab \<Rightarrow> gitlab_get env)"

end
