(* ===== verification/Metrics.thy ===== *)
theory Metrics
  imports Scheduler
begin

text \<open>
  The reference metrics of \<open>packages/domain/src/metrics\<close> and the rule set they are shown with
  (\<open>kpi-rules.ts\<close>): weekly commit frequency and commits tagged \<open>[AI]\<close>, counted once per commit,
  over the week of Asia/Ho_Chi_Minh (a fixed offset of seven hours). The default notes of the
  two metrics that are not configured are constructors: their text is for display only.
\<close>

section \<open>Types\<close>

record metric_commit =
  mc_instance :: string
  mc_project :: string
  mc_sha :: string
  mc_title :: "string option"
  mc_norm :: "string option"
  mc_authored :: instant

datatype metric_status = Metric_Ok | Metric_Unknown | Metric_Not_Configured

datatype policy_note = Note_Text string | Loc_Not_Locked | Mr_Size_Deferred

record metric_dto =
  md_metric :: string
  md_value :: "nat option"
  md_unit :: "string option"
  md_min :: "rat option"
  md_max :: "rat option"
  md_source :: string
  md_calculated :: instant
  md_verif :: "string option"
  md_rule_version :: string
  md_detection :: "string option"
  md_status :: metric_status
  md_note :: "policy_note option"

definition kpi_ruleset_version :: string where
  "kpi_ruleset_version = ''dev-kpi-ref-2026.08.1''"

definition kpi_ruleset_role :: string where
  "kpi_ruleset_role = ''DEV''"

section \<open>The AI tag\<close>

text \<open>\<open>/\[[Aa][Ii]\]/\<close>.\<close>

definition ai_tags :: "string list" where
  "ai_tags = [''[AI]'', ''[Ai]'', ''[aI]'', ''[ai]'']"

definition subject_has_ai_tag :: "string option \<Rightarrow> bool" where
  "subject_has_ai_tag title =
     (case title of None \<Rightarrow> False
      | Some t \<Rightarrow> t \<noteq> [] \<and> list_ex (\<lambda>tag. str_includes tag t) ai_tags)"

definition commit_key :: "metric_commit \<Rightarrow> string" where
  "commit_key c = mc_instance c @ [nul] @ mc_project c @ [nul] @ mc_sha c"

definition count_ai_assisted_commits :: "metric_commit list \<Rightarrow> nat" where
  "count_ai_assisted_commits cs =
     length (uniq (map commit_key (filter (\<lambda>c. subject_has_ai_tag (mc_title c)) cs)))"

section \<open>Commit frequency\<close>

definition excluded_from_frequency :: "bool \<Rightarrow> bool \<Rightarrow> metric_commit \<Rightarrow> bool" where
  "excluded_from_frequency exclude_merge exclude_bot c \<longleftrightarrow>
     exclude_merge \<and> (case mc_title c of None \<Rightarrow> False | Some t \<Rightarrow> starts_with ''merge '' (js_lower t)) \<or>
     exclude_bot \<and> (case mc_norm c of None \<Rightarrow> False | Some m \<Rightarrow> str_includes ''bot'' (js_lower m))"

definition count_commit_frequency :: "metric_commit list \<Rightarrow> instant \<Rightarrow> instant \<Rightarrow> bool \<Rightarrow> bool \<Rightarrow> nat" where
  "count_commit_frequency cs start stop exclude_merge exclude_bot =
     length (uniq (map commit_key (filter (\<lambda>c. start \<le> mc_authored c \<and> mc_authored c < stop \<and>
       \<not> excluded_from_frequency exclude_merge exclude_bot c) cs)))"

definition day_ms :: int where "day_ms = 86400000"

definition offset_ms :: int where "offset_ms = 25200000"

text \<open>\<open>getUTCDay\<close>: the epoch was a Thursday. \<open>Date.UTC\<close> of the date fields is the start of the day.\<close>

definition week_window :: "instant \<Rightarrow> instant \<times> instant" where
  "week_window now =
     (let day = (now + offset_ms) div day_ms;
          weekday = (day + 4) mod 7;
          from_monday = (weekday + 6) mod 7;
          start = (day - from_monday) * day_ms - offset_ms
      in (start, start + 7 * day_ms))"

section \<open>Composition\<close>

definition rule_by_key :: "kpi_rule_row list \<Rightarrow> string \<Rightarrow> kpi_rule_row option" where
  "rule_by_key rules key = find (\<lambda>r. kr_key r = key \<and> kr_status r = Rule_Active) rules"

text \<open>The property names of a \<open>MetricDto\<close> and those that \<open>assertNoForbiddenMetricFields\<close> rejects:
  \<open>toPublicMetric\<close> throws when they meet.\<close>

definition metric_keys :: "string list" where
  "metric_keys = [''metric'', ''value'', ''unit'', ''reference_range'', ''source'', ''calculated_at'',
     ''verification_status'', ''rule_version'', ''detection_rule'', ''status'', ''reference_policy_note'']"

definition forbidden_metric_keys :: "string list" where
  "forbidden_metric_keys = [''score'', ''grade'', ''pass'', ''fail'', ''verdict'', ''dat'', ''khong_dat'',
     ''prompts_inferred'']"

definition to_public_metric :: "metric_dto \<Rightarrow> metric_dto option" where
  "to_public_metric d = (if list_ex (\<lambda>k. k \<in> set metric_keys) forbidden_metric_keys then None else Some d)"

definition base_dto :: "string \<Rightarrow> kpi_rule_row option \<Rightarrow> instant \<Rightarrow> (metric_dto \<Rightarrow> metric_dto) \<Rightarrow> metric_dto option" where
  "base_dto metric rule calc extras = to_public_metric (extras
     \<lparr>md_metric = metric, md_value = None, md_unit = Option.bind rule kr_unit,
      md_min = Option.bind rule kr_min, md_max = Option.bind rule kr_max, md_source = ''gitlab'',
      md_calculated = calc, md_verif = None, md_rule_version = kpi_ruleset_version,
      md_detection = Option.bind rule kr_detection, md_status = Metric_Ok, md_note = None\<rparr>)"

definition unit_or :: "kpi_rule_row option \<Rightarrow> string \<Rightarrow> string option" where
  "unit_or rule dflt = (case Option.bind rule kr_unit of None \<Rightarrow> Some dflt | Some u \<Rightarrow> Some u)"

definition calculate_reference_metrics ::
    "metric_commit list \<Rightarrow> kpi_rule_row list \<Rightarrow> instant \<Rightarrow> string option \<Rightarrow> metric_dto list option" where
  "calculate_reference_metrics cs rules now note =
     (let (start, stop) = week_window now;
          in_window = filter (\<lambda>c. start \<le> mc_authored c \<and> mc_authored c < stop) cs;
          freq_rule = rule_by_key rules ''commit_frequency'';
          ai_rule = rule_by_key rules ''ai_assisted_commits'';
          loc_rule = rule_by_key rules ''loc_weekly'';
          mr_rule = rule_by_key rules ''mr_size''
      in those [
        base_dto ''commit_frequency'' freq_rule now (\<lambda>d. d\<lparr>
          md_value := Some (count_commit_frequency cs start stop True True),
          md_unit := unit_or freq_rule ''commits_per_week'', md_status := Metric_Ok,
          md_verif := Some ''observed''\<rparr>),
        base_dto ''ai_assisted_commits'' ai_rule now (\<lambda>d. d\<lparr>
          md_value := Some (count_ai_assisted_commits in_window), md_unit := unit_or ai_rule ''commits'',
          md_status := Metric_Ok, md_verif := Some ''self_reported'',
          md_detection := (case Option.bind ai_rule kr_detection of
             None \<Rightarrow> Some (CHR 0x5C # ''[[Aa][Ii]'' @ [CHR 0x5C, CHR '']'']) | Some r \<Rightarrow> Some r)\<rparr>),
        base_dto ''loc_weekly'' loc_rule now (\<lambda>d. d\<lparr>
          md_value := None, md_unit := unit_or loc_rule ''loc_per_week'',
          md_status := Metric_Not_Configured,
          md_note := Some (case note of Some n \<Rightarrow> Note_Text n | None \<Rightarrow> Loc_Not_Locked)\<rparr>),
        base_dto ''mr_size'' mr_rule now (\<lambda>d. d\<lparr>
          md_value := None, md_unit := unit_or mr_rule ''lines_per_mr'',
          md_status := Metric_Not_Configured, md_note := Some Mr_Size_Deferred\<rparr>)])"

text \<open>\<open>KpiRulesStore.loadDevReference\<close>.\<close>

definition load_dev_reference :: "string \<Rightarrow> database \<Rightarrow> kpi_ruleset_row option" where
  "load_dev_reference version db =
     find (\<lambda>s. ks_role s = kpi_ruleset_role \<and> ks_version s = version) (t_rulesets db)"

section \<open>Lemmas\<close>

lemma to_public_metric_Some [simp]: "to_public_metric d = Some d"
  by (simp add: to_public_metric_def forbidden_metric_keys_def metric_keys_def)

text \<open>The window is the week that contains the instant; it starts on a Monday, at midnight of the
  offset.\<close>

lemma week_window_contains:
  assumes "week_window now = (start, stop)"
  shows "start \<le> now \<and> now < stop \<and> stop = start + 7 * day_ms \<and>
    (start + offset_ms) mod day_ms = 0 \<and> ((start + offset_ms) div day_ms + 4) mod 7 = 1"
proof -
  define day where "day = (now + offset_ms) div day_ms"
  define k where "k = ((day + 4) mod 7 + 6) mod 7"
  have k: "0 \<le> k" "k \<le> 6" "(day - k + 4) mod 7 = 1" unfolding k_def by presburger+
  have d: "day * day_ms \<le> now + offset_ms" "now + offset_ms < day * day_ms + day_ms"
    using div_mult_mod_eq [of "now + offset_ms" day_ms] pos_mod_bound [of day_ms "now + offset_ms"]
      pos_mod_sign [of day_ms "now + offset_ms"] by (simp_all add: day_def day_ms_def)
  have s: "start = (day - k) * day_ms - offset_ms" "stop = start + 7 * day_ms"
    using assms by (auto simp: week_window_def Let_def day_def k_def)
  have m: "start + offset_ms = (day - k) * day_ms" using s(1) by simp
  then have "(start + offset_ms) mod day_ms = 0" "(start + offset_ms) div day_ms = day - k"
    by (simp_all add: day_ms_def)
  moreover have "start \<le> now" "now < stop" using k d by (simp_all add: s day_ms_def)
  ultimately show ?thesis using s k by simp
qed

lemma week_window_unique:
  assumes "start \<le> t" "t < start + 7 * day_ms" "(start + offset_ms) mod day_ms = 0"
    and "((start + offset_ms) div day_ms + 4) mod 7 = 1"
  shows "week_window t = (start, start + 7 * day_ms)"
proof -
  obtain m where m: "start + offset_ms = m * day_ms" using assms(3) by (auto simp: mod_eq_0_iff_dvd dvd_def mult.commute)
  have d: "(m + 4) mod 7 = 1" using assms(4) by (simp add: m day_ms_def)
  define day where "day = (t + offset_ms) div day_ms"
  have b: "m * day_ms \<le> t + offset_ms" "t + offset_ms < (m + 7) * day_ms"
    using assms(1,2) m by (simp_all add: algebra_simps)
  then have "m \<le> day" "day < m + 7" by (simp_all add: day_def day_ms_def)
  then have "day - ((day + 4) mod 7 + 6) mod 7 = m" using d by presburger
  with m show ?thesis by (simp add: week_window_def Let_def day_def)
qed

text \<open>The start of a week is in that week, its end in the next.\<close>

lemma week_window_end:
  assumes "week_window now = (start, stop)"
  shows "week_window stop = (stop, stop + 7 * day_ms)"
proof (rule week_window_unique)
  note w = week_window_contains [OF assms]
  have s: "stop + offset_ms = (start + offset_ms) + 7 * day_ms" using w by simp
  show "(stop + offset_ms) mod day_ms = 0" unfolding s using w by simp
  show "((stop + offset_ms) div day_ms + 4) mod 7 = 1"
  proof -
    have "(stop + offset_ms) div day_ms = (start + offset_ms) div day_ms + 7"
      unfolding s by (simp add: day_ms_def)
    moreover have "(a + 7 + 4) mod 7 = (a + 4) mod 7" for a :: int by presburger
    ultimately show ?thesis using w by simp
  qed
qed (simp_all add: day_ms_def)

text \<open>Counting keys counts commits: the separator does not occur in instance and project ids.\<close>

definition commit_id :: "metric_commit \<Rightarrow> string \<times> string \<times> string" where
  "commit_id c = (mc_instance c, mc_project c, mc_sha c)"

definition plain_commits :: "metric_commit set \<Rightarrow> bool" where
  "plain_commits cs \<longleftrightarrow> (\<forall>c \<in> cs. nul \<notin> set (mc_instance c) \<and> nul \<notin> set (mc_project c))"

lemma commit_key_inj:
  assumes "plain_commits cs" "c \<in> cs" "d \<in> cs" "commit_key c = commit_key d"
  shows "commit_id c = commit_id d"
proof -
  have n: "nul \<notin> set (mc_instance c)" "nul \<notin> set (mc_instance d)" "nul \<notin> set (mc_project c)"
    "nul \<notin> set (mc_project d)" using assms(1-3) by (auto simp: plain_commits_def)
  have "target_key (mc_instance c) (mc_project c @ [nul] @ mc_sha c) =
      target_key (mc_instance d) (mc_project d @ [nul] @ mc_sha d)"
    using assms(4) by (simp add: commit_key_def target_key_def)
  from target_key_inj [OF n(1,2) this] have "mc_instance c = mc_instance d"
    "target_key (mc_project c) (mc_sha c) = target_key (mc_project d) (mc_sha d)"
    by (simp_all add: target_key_def)
  with target_key_inj [OF n(3,4)] show ?thesis by (simp add: commit_id_def)
qed

lemma count_keys:
  assumes "plain_commits (set cs)"
  shows "length (uniq (map commit_key cs)) = card (commit_id ` set cs)"
proof -
  have "length (uniq (map commit_key cs)) = card (commit_key ` set cs)"
    by (metis distinct_card distinct_uniq list.set_map set_uniq)
  also have "commit_key ` set cs = (\<lambda>(i, p, h). i @ [nul] @ p @ [nul] @ h) ` (commit_id ` set cs)"
    by (auto simp: commit_key_def commit_id_def image_iff)
  also have "card \<dots> = card (commit_id ` set cs)"
  proof (rule card_image, rule inj_onI)
    fix x y assume "x \<in> commit_id ` set cs" "y \<in> commit_id ` set cs"
      and eq: "(\<lambda>(i, p, h). i @ [nul] @ p @ [nul] @ h) x = (\<lambda>(i, p, h). i @ [nul] @ p @ [nul] @ h) y"
    then obtain c d where "c \<in> set cs" "d \<in> set cs" "x = commit_id c" "y = commit_id d" by auto
    with eq show "x = y"
      using commit_key_inj [OF assms] by (simp add: commit_key_def commit_id_def)
  qed
  finally show ?thesis .
qed

definition counted_frequency :: "metric_commit \<Rightarrow> instant \<Rightarrow> instant \<Rightarrow> bool" where
  "counted_frequency c start stop \<longleftrightarrow> start \<le> mc_authored c \<and> mc_authored c < stop \<and>
     \<not> excluded_from_frequency True True c"

text \<open>The two metrics that are computed.\<close>

lemma calculated:
  assumes "week_window now = (start, stop)" and "plain_commits (set cs)"
  shows "\<exists>f a l m. calculate_reference_metrics cs rules now note = Some [f, a, l, m] \<and>
    md_metric f = ''commit_frequency'' \<and> md_metric a = ''ai_assisted_commits'' \<and>
    md_value f = Some (card (commit_id ` {c \<in> set cs. counted_frequency c start stop})) \<and>
    md_value a = Some (card (commit_id ` {c \<in> set cs. start \<le> mc_authored c \<and> mc_authored c < stop \<and>
      subject_has_ai_tag (mc_title c)})) \<and>
    md_value l = None \<and> md_value m = None"
proof -
  have "plain_commits (set (filter P cs))" for P using assms(2) by (auto simp: plain_commits_def)
  then show ?thesis
    using assms(1)
    by (simp add: calculate_reference_metrics_def base_dto_def count_commit_frequency_def
        count_ai_assisted_commits_def count_keys counted_frequency_def Let_def conj_assoc)
qed

lemma metrics_calculated: "\<exists>ms. calculate_reference_metrics cs rules now note = Some ms"
  by (cases "week_window now") (simp add: calculate_reference_metrics_def base_dto_def Let_def)

end
