(* ===== verification/Dashboard.thy ===== *)
theory Dashboard
  imports Metrics ProjectAccess EmailAlias
begin

text \<open>
  \<open>DashboardQueryService\<close> of \<open>packages/domain/src/dashboard-query.ts\<close>: what a user sees. The
  authorised projects come from \<open>ProjectAccess\<close>; the cached commits and merge requests of these
  projects in the window are shown newest first, the metrics are computed and a snapshot of each
  is kept, at most one per user, scope, metric, rule version and window.
\<close>

section \<open>Types\<close>

record dashboard_filters =
  df_from :: "instant option"
  df_to :: "instant option"
  df_author :: "string option"
  df_limit :: "int option"

record commit_view =
  dc_row :: commit_row
  dc_mismatch :: bool

record mr_view =
  dm_row :: mr_row
  dm_mismatch :: bool

record dashboard_result =
  dr_projects :: "project_ref list"
  dr_emails :: "email_view list"
  dr_start :: instant
  dr_end :: instant
  dr_commits :: "commit_view list"
  dr_open :: "mr_view list"
  dr_merged :: "mr_view list"
  dr_all :: "mr_view list"
  dr_metrics :: "metric_dto list"
  dr_mismatches :: nat

section \<open>Queries\<close>

definition result_limit :: "int option \<Rightarrow> nat" where
  "result_limit l = nat (min (max (case l of None \<Rightarrow> 100 | Some n \<Rightarrow> n) 1) 500)"

definition author_filter :: "string option \<Rightarrow> string option" where
  "author_filter a =
     (case a of None \<Rightarrow> None | Some s \<Rightarrow> if s \<noteq> [] \<and> js_trim s \<noteq> [] then Some (js_lower (js_trim s)) else None)"

definition author_matches :: "string option \<Rightarrow> string option \<Rightarrow> bool" where
  "author_matches want have_norm \<longleftrightarrow> (case want of None \<Rightarrow> True | Some a \<Rightarrow> have_norm = Some a)"

definition commit_project :: "commit_row \<Rightarrow> project_ref" where
  "commit_project c = \<lparr>pr_instance = cc_instance c, pr_project = cc_project c\<rparr>"

definition mr_project_of :: "mr_row \<Rightarrow> project_ref" where
  "mr_project_of m = \<lparr>pr_instance = mr_instance m, pr_project = mr_project m\<rparr>"

definition window_commits :: "project_ref list \<Rightarrow> instant \<Rightarrow> instant \<Rightarrow> string option \<Rightarrow> database \<Rightarrow> commit_row list" where
  "window_commits ps start stop want db =
     filter (\<lambda>c. commit_project c \<in> set ps \<and> start \<le> cc_authored_at c \<and> cc_authored_at c < stop \<and>
       author_matches want (cc_norm c)) (t_commits db)"

definition window_mrs :: "project_ref list \<Rightarrow> instant \<Rightarrow> instant \<Rightarrow> string option \<Rightarrow> database \<Rightarrow> mr_row list" where
  "window_mrs ps start stop want db =
     filter (\<lambda>m. mr_project_of m \<in> set ps \<and> start \<le> mr_updated_at m \<and> mr_updated_at m < stop \<and>
       author_matches want (mr_norm m)) (t_mrs db)"

definition mismatch :: "string set \<Rightarrow> string option \<Rightarrow> bool" where
  "mismatch emails have_norm \<longleftrightarrow>
     (case have_norm of None \<Rightarrow> True | Some n \<Rightarrow> if n = [] then True else n \<notin> emails)"

definition to_metric_commit :: "commit_row \<Rightarrow> metric_commit" where
  "to_metric_commit c = \<lparr>mc_instance = cc_instance c, mc_project = cc_project c, mc_sha = cc_sha c,
     mc_title = cc_title c, mc_norm = cc_norm c, mc_authored = cc_authored_at c\<rparr>"

section \<open>Snapshots\<close>

definition snapshot_scope :: "project_ref list \<Rightarrow> string" where
  "snapshot_scope ps =
     (case ps of [p] \<Rightarrow> pr_instance p @ '':'' @ pr_project p | _ \<Rightarrow> ''multi:'' @ show_nat (length ps))"

definition status_text :: "metric_status \<Rightarrow> string" where
  "status_text s =
     (case s of Metric_Ok \<Rightarrow> ''ok'' | Metric_Unknown \<Rightarrow> ''unknown'' | Metric_Not_Configured \<Rightarrow> ''not_configured'')"

definition snapshot_of :: "string \<Rightarrow> string \<Rightarrow> instant \<Rightarrow> instant \<Rightarrow> metric_dto \<Rightarrow> snapshot_row" where
  "snapshot_of uid scope start stop m =
     \<lparr>sn_user = uid, sn_scope = scope, sn_metric = md_metric m, sn_value = map_option of_nat (md_value m),
      sn_unit = md_unit m, sn_verification = md_verif m, sn_rule_version = md_rule_version m,
      sn_source = md_source m, sn_detection = md_detection m, sn_calculated_at = md_calculated m,
      sn_window_start = start, sn_window_end = stop, sn_status = status_text (md_status m)\<rparr>"

type_synonym snapshot_key = "string \<times> string \<times> string \<times> string \<times> instant \<times> instant"

definition snapshot_key :: "snapshot_row \<Rightarrow> snapshot_key" where
  "snapshot_key s = (sn_user s, sn_scope s, sn_metric s, sn_rule_version s, sn_window_start s, sn_window_end s)"

definition persist_snapshot :: "string \<Rightarrow> string \<Rightarrow> instant \<Rightarrow> instant \<Rightarrow> metric_dto \<Rightarrow> database \<Rightarrow> database" where
  "persist_snapshot uid scope start stop m db =
     (if \<exists>s \<in> set (t_snapshots db). snapshot_key s = (uid, scope, md_metric m, md_rule_version m, start, stop)
      then db
      else db\<lparr>t_snapshots := t_snapshots db @ [snapshot_of uid scope start stop m]\<rparr>)"

definition persist_snapshots ::
    "string \<Rightarrow> project_ref list \<Rightarrow> metric_dto list \<Rightarrow> instant \<Rightarrow> instant \<Rightarrow> database \<Rightarrow> database" where
  "persist_snapshots uid ps ms start stop =
     fold (persist_snapshot uid (snapshot_scope ps) start stop) ms"

section \<open>The query\<close>

definition dashboard_rules :: "database \<Rightarrow> kpi_rule_row list" where
  "dashboard_rules db = (case load_dev_reference kpi_ruleset_version db of None \<Rightarrow> [] | Some s \<Rightarrow> ks_rules s)"

definition dashboard_window :: "dashboard_filters \<Rightarrow> instant \<Rightarrow> instant \<times> instant" where
  "dashboard_window f now =
     (let (start, stop) = week_window now
      in (case df_from f of None \<Rightarrow> start | Some t \<Rightarrow> t, case df_to f of None \<Rightarrow> stop | Some t \<Rightarrow> t))"

text \<open>The metrics of the window: all commits of the authorised projects, whatever the author filter.\<close>

definition window_metrics :: "project_ref list \<Rightarrow> instant \<Rightarrow> instant \<Rightarrow> database \<Rightarrow> metric_dto list option" where
  "window_metrics ps start stop db =
     calculate_reference_metrics (map to_metric_commit (window_commits ps start stop None db))
       (dashboard_rules db) stop None"

definition dashboard_rows ::
    "string \<Rightarrow> dashboard_filters \<Rightarrow> project_ref list \<Rightarrow> instant \<Rightarrow> instant \<Rightarrow> metric_dto list \<Rightarrow> database \<Rightarrow> dashboard_result" where
  "dashboard_rows uid f ps start stop metrics db =
     (let n = result_limit (df_limit f);
          emails = list_emails uid db;
          known = ev_norm ` set emails;
          want = author_filter (df_author f);
          cs = map (\<lambda>c. \<lparr>dc_row = c, dc_mismatch = mismatch known (cc_norm c)\<rparr>)
            (take n (sort_key (\<lambda>c. - cc_authored_at c) (window_commits ps start stop want db)));
          mrs = map (\<lambda>m. \<lparr>dm_row = m, dm_mismatch = mismatch known (mr_norm m)\<rparr>)
            (take n (sort_key (\<lambda>m. - mr_updated_at m) (window_mrs ps start stop want db)))
      in \<lparr>dr_projects = ps, dr_emails = emails, dr_start = start, dr_end = stop, dr_commits = cs,
          dr_open = filter (\<lambda>m. mr_state (dm_row m) = Some ''opened'' \<or> mr_state (dm_row m) = Some ''open'') mrs,
          dr_merged = filter (\<lambda>m. mr_state (dm_row m) = Some ''merged'') mrs, dr_all = mrs,
          dr_metrics = metrics,
          dr_mismatches = count_where dc_mismatch cs + count_where dm_mismatch mrs\<rparr>)"

definition dashboard_query ::
    "access_env \<Rightarrow> string \<Rightarrow> dashboard_filters \<Rightarrow> nat \<Rightarrow> database \<Rightarrow> (dashboard_result \<times> database) option" where
  "dashboard_query env uid f t db =
     (let (ps, t1, db1) = authorized_project_ids env uid t db;
          (start, stop) = dashboard_window f (ax_now env t1)
      in if ps = [] then
           map_option (\<lambda>ms.
             (\<lparr>dr_projects = ps, dr_emails = list_emails uid db1, dr_start = start, dr_end = stop,
               dr_commits = [], dr_open = [], dr_merged = [], dr_all = [], dr_metrics = ms,
               dr_mismatches = 0\<rparr>, db1))
             (calculate_reference_metrics [] (dashboard_rules db1) (ax_now env (t1 + 1)) None)
         else
           map_option (\<lambda>ms.
             (dashboard_rows uid f ps start stop ms db1, persist_snapshots uid ps ms start stop db1))
             (window_metrics ps start stop db1))"

section \<open>Lemmas\<close>

lemma dashboard_query_Some:
  assumes "dashboard_query env uid f t db = Some (r, db')"
    and "authorized_project_ids env uid t db = (ps, t1, db1)" and "ps \<noteq> []"
    and "dashboard_window f (ax_now env t1) = (start, stop)"
  shows "\<exists>ms. window_metrics ps start stop db1 = Some ms \<and> r = dashboard_rows uid f ps start stop ms db1 \<and>
    db' = persist_snapshots uid ps ms start stop db1"
  using assms by (auto simp: dashboard_query_def)

lemma persist_snapshot_appends:
  "\<exists>new. t_snapshots (persist_snapshot uid scope start stop m db) = t_snapshots db @ new \<and>
     (distinct (map snapshot_key (t_snapshots db)) \<longrightarrow>
      distinct (map snapshot_key (t_snapshots (persist_snapshot uid scope start stop m db))))"
  by (auto simp: persist_snapshot_def snapshot_key_def snapshot_of_def)

lemma persist_fold:
  "\<exists>new. t_snapshots (fold (persist_snapshot uid scope start stop) ms db) = t_snapshots db @ new \<and>
     (distinct (map snapshot_key (t_snapshots db)) \<longrightarrow>
      distinct (map snapshot_key (t_snapshots (fold (persist_snapshot uid scope start stop) ms db))))"
proof (induction ms arbitrary: db)
  case (Cons m ms)
  from Cons [of "persist_snapshot uid scope start stop m db"] persist_snapshot_appends [of uid scope start stop m db]
  show ?case by (metis append.assoc comp_apply fold_Cons)
qed simp

lemma persist_has:
  "m \<in> set ms \<Longrightarrow> (uid, scope, md_metric m, md_rule_version m, start, stop) \<in>
     snapshot_key ` set (t_snapshots (fold (persist_snapshot uid scope start stop) ms db))"
proof (induction ms arbitrary: db)
  case (Cons x ms)
  have "(uid, scope, md_metric x, md_rule_version x, start, stop) \<in>
      snapshot_key ` set (t_snapshots (persist_snapshot uid scope start stop x db))"
    by (auto simp: persist_snapshot_def snapshot_key_def snapshot_of_def image_iff)
  moreover obtain new where "t_snapshots (fold (persist_snapshot uid scope start stop) ms
      (persist_snapshot uid scope start stop x db)) =
    t_snapshots (persist_snapshot uid scope start stop x db) @ new"
    using persist_fold by blast
  ultimately show ?case
    using Cons.IH [of "persist_snapshot uid scope start stop x db"] Cons.prems by (cases "m = x") auto
qed simp

lemma sorted_take_rest:
  assumes "sorted_wrt R xs" and "c \<in> set xs"
  shows "c \<in> set (take n xs) \<or> (\<forall>d \<in> set (take n xs). R d c)"
proof -
  have "sorted_wrt R (take n xs @ drop n xs)" using assms(1) by simp
  moreover have "c \<in> set (take n xs) \<union> set (drop n xs)"
    using assms(2) by (metis append_take_drop_id set_append)
  ultimately show ?thesis unfolding sorted_wrt_append by blast
qed

lemma author_matches_None [simp]: "author_matches None n"
  by (simp add: author_matches_def)

text \<open>Finding out the authorised projects leaves alone the tables that the dashboard shows.\<close>

definition shown_tables :: "database \<Rightarrow> commit_row list \<times> mr_row list \<times> snapshot_row list \<times> email_row list \<times> kpi_ruleset_row list" where
  "shown_tables db = (t_commits db, t_mrs db, t_snapshots db, t_emails db, t_rulesets db)"

definition keeps_shown :: "access_env \<Rightarrow> bool" where
  "keeps_shown env \<longleftrightarrow> (\<forall>now c r d. shown_tables (ax_invalidate env now c r d) = shown_tables d)"

lemma write_membership_shown [simp]: "shown_tables (write_membership ttls u p a n db) = shown_tables db"
  by (simp add: shown_tables_def write_membership_def put_membership_def)

lemma record_answers_shown:
  "record_answers env conn pr qs out t db = (out', t', db') \<Longrightarrow> shown_tables db' = shown_tables db"
  by (induction qs arbitrary: out t db) (fastforce split: option.splits)+

lemma keep_path_shown: "shown_tables (fold (\<lambda>a. keep_path (vis (al_project a)) a) rows db) = shown_tables db"
  by (induction rows arbitrary: db)
    (simp_all add: keep_path_def remember_project_path_def shown_tables_def split: option.splits)

lemma resolve_shown:
  assumes "resolve_visibility env conn ids t db = (res, t', db')" and "keeps_shown env"
  shows "shown_tables db' = shown_tables db"
  using assms(1)
proof (cases rule: resolve_cases)
  case (failed e)
  have "shown_tables (handle_unauthorized env conn n db) = shown_tables (ax_invalidate env (ax_now env n) (cn_id conn) Gitlab_Unauthorized db)" for n
    by (simp add: handle_unauthorized_def Let_def invalidate_user_instance_def delete_memberships_def shown_tables_def)
  with failed assms(2) show ?thesis by (simp add: keeps_shown_def)
next
  case (probed pr pat qs out')
  then show ?thesis using record_answers_shown by blast
qed simp_all

lemma list_connections_shown:
  assumes "keeps_shown env"
  shows "list_connections env allowed enabled cs t db = (its, t', db') \<Longrightarrow> shown_tables db' = shown_tables db"
proof (induction cs arbitrary: t db its t' db')
  case (Cons c cs)
  let ?rows = "filter (\<lambda>a. al_instance a = cn_instance c) allowed"
  show ?case
  proof (cases "?rows = []")
    case True
    with Cons show ?thesis by simp
  next
    case False
    obtain res t1 db1 where r: "resolve_visibility env c (map al_project ?rows) t db = (res, t1, db1)"
      by (cases "resolve_visibility env c (map al_project ?rows) t db")
    obtain db2 rest where "list_connections env allowed enabled cs t1 db2 = (rest, t', db')"
      and "shown_tables db2 = shown_tables db1"
      using Cons.prems False r by (cases res) (auto simp: Let_def keep_path_shown split: prod.splits)
    with Cons.IH resolve_shown [OF r assms] show ?thesis by metis
  qed
qed simp

lemma authorized_shown:
  "keeps_shown env \<Longrightarrow> authorized_project_ids env uid t db = (ps, t1, db1) \<Longrightarrow> shown_tables db1 = shown_tables db"
  by (auto simp: authorized_project_ids_def list_for_user_def split: prod.splits dest: list_connections_shown)

lemma window_rows_shown:
  "shown_tables db1 = shown_tables db \<Longrightarrow> window_commits ps start stop want db1 = window_commits ps start stop want db \<and>
     window_mrs ps start stop want db1 = window_mrs ps start stop want db \<and> dashboard_rules db1 = dashboard_rules db"
  by (simp add: shown_tables_def window_commits_def window_mrs_def dashboard_rules_def load_dev_reference_def)

section \<open>Properties\<close>


text \<open>C29. The metrics count commits of the authorised projects once each, whatever the author filter, and
  only those that are both in the window of the dashboard and in the week of its end: without a
  \<open>to\<close> filter, or with one on a week's boundary, that is the week after, so that the metrics shown
  are always 0.\<close>

theorem dashboard_metrics_of_end_week:
  assumes "dashboard_query env uid f t db = Some (r, db')"
    and "authorized_project_ids env uid t db = (ps, t1, db1)" and "ps \<noteq> []" and "keeps_shown env"
    and "plain_commits (to_metric_commit ` set (t_commits db))"
    and "week_window (dr_end r) = (ws, we)"
  shows "\<exists>freq ai. take 2 (dr_metrics r) = [freq, ai] \<and> md_metric freq = ''commit_frequency'' \<and>
    md_metric ai = ''ai_assisted_commits'' \<and>
    md_value freq = Some (card (commit_id ` {c \<in> to_metric_commit ` set (window_commits ps (dr_start r) (dr_end r) None db).
      counted_frequency c ws (dr_end r)})) \<and>
    md_value ai = Some (card (commit_id ` {c \<in> to_metric_commit ` set (window_commits ps (dr_start r) (dr_end r) None db).
      ws \<le> mc_authored c \<and> subject_has_ai_tag (mc_title c)})) \<and>
    (df_to f = None \<or> dr_end r = ws \<longrightarrow> md_value freq = Some 0 \<and> md_value ai = Some 0)"
proof -
  obtain start stop where w: "dashboard_window f (ax_now env t1) = (start, stop)" by (cases "dashboard_window f (ax_now env t1)")
  note sh = window_rows_shown [OF authorized_shown [OF assms(4,2)]]
  from dashboard_query_Some [OF assms(1-3) w] obtain ms where m: "window_metrics ps start stop db1 = Some ms"
    and r: "r = dashboard_rows uid f ps start stop ms db1" by blast
  have end_eq: "dr_start r = start" "dr_end r = stop" "dr_metrics r = ms" by (simp_all add: r dashboard_rows_def Let_def)
  let ?cs = "to_metric_commit ` set (window_commits ps start stop None db)"
  have before: "mc_authored c < stop" if "c \<in> ?cs" for c
    using that by (auto simp: window_commits_def to_metric_commit_def)
  have wk: "ws \<le> stop" "stop < we" using week_window_contains [of stop ws we] assms(6) end_eq by simp_all
  have "plain_commits (set (map to_metric_commit (window_commits ps start stop None db)))"
    using assms(5) by (auto simp: plain_commits_def window_commits_def)
  from calculated [OF _ this, of stop ws we "dashboard_rules db" None] assms(6) end_eq m obtain freq ai l s where
    ms: "ms = [freq, ai, l, s]" "md_metric freq = ''commit_frequency''" "md_metric ai = ''ai_assisted_commits''"
    "md_value freq = Some (card (commit_id ` {c \<in> ?cs. counted_frequency c ws we}))"
    "md_value ai = Some (card (commit_id ` {c \<in> ?cs. ws \<le> mc_authored c \<and> mc_authored c < we \<and>
       subject_has_ai_tag (mc_title c)}))"
    by (auto simp: window_metrics_def sh)
  have sets: "{c \<in> ?cs. counted_frequency c ws we} = {c \<in> ?cs. counted_frequency c ws stop}"
    "{c \<in> ?cs. ws \<le> mc_authored c \<and> mc_authored c < we \<and> subject_has_ai_tag (mc_title c)} =
      {c \<in> ?cs. ws \<le> mc_authored c \<and> subject_has_ai_tag (mc_title c)}"
    using before wk by (force simp: counted_frequency_def)+
  have "ws = stop" if "df_to f = None"
    using that w assms(6) end_eq week_window_end [of "ax_now env t1"]
    by (cases "week_window (ax_now env t1)") (simp add: dashboard_window_def)
  moreover have "{c \<in> ?cs. counted_frequency c stop stop} = {}" "{c \<in> ?cs. stop \<le> mc_authored c \<and> subject_has_ai_tag (mc_title c)} = {}"
    using before by (force simp: counted_frequency_def)+
  ultimately have "md_value freq = Some 0 \<and> md_value ai = Some 0" if "df_to f = None \<or> stop = ws"
    using that ms(4,5) unfolding sets by (metis card.empty image_empty)
  then have zero: "df_to f = None \<or> stop = ws \<longrightarrow> md_value freq = Some 0 \<and> md_value ai = Some 0" by blast
  have two: "take 2 ms = [freq, ai]" by (simp add: ms(1))
  show ?thesis unfolding end_eq
    using two ms(2,3) ms(4,5) [unfolded sets] zero by blast
qed

text \<open>Snapshots are append-only: a query keeps every snapshot as it is, adds at most one per user,
  scope, metric, rule version and window, and afterwards each metric shown has one.\<close>

theorem snapshots_append_only:
  assumes "dashboard_query env uid f t db = Some (r, db')"
    and "authorized_project_ids env uid t db = (ps, t1, db1)" and "ps \<noteq> []" and "keeps_shown env"
    and "distinct (map snapshot_key (t_snapshots db))"
  shows "(\<exists>new. t_snapshots db' = t_snapshots db @ new) \<and> distinct (map snapshot_key (t_snapshots db')) \<and>
    (\<lambda>m. (uid, snapshot_scope ps, md_metric m, md_rule_version m, dr_start r, dr_end r)) ` set (dr_metrics r)
      \<subseteq> snapshot_key ` set (t_snapshots db')"
proof -
  obtain start stop where w: "dashboard_window f (ax_now env t1) = (start, stop)" by (cases "dashboard_window f (ax_now env t1)")
  from dashboard_query_Some [OF assms(1-3) w] obtain ms where r: "r = dashboard_rows uid f ps start stop ms db1"
    and db': "db' = persist_snapshots uid ps ms start stop db1" by blast
  have "dr_start r = start" "dr_end r = stop" "dr_metrics r = ms" by (simp_all add: r dashboard_rows_def Let_def)
  then show ?thesis
    using authorized_shown [OF assms(4,2)] persist_fold [of uid "snapshot_scope ps" start stop ms db1] assms(5)
      persist_has [of _ ms uid "snapshot_scope ps" start stop db1]
    by (auto simp: db' persist_snapshots_def shown_tables_def)
qed

section \<open>Witnesses\<close>

text \<open>The user of \<open>sample_db\<close> with one commit of this week in the cache.\<close>

definition sample_commit :: commit_row where
  "sample_commit = \<lparr>cc_instance = ''gi1'', cc_project = ''42'', cc_sha = ''c1'', cc_email = Some ''a@x'',
     cc_norm = Some ''a@x'', cc_authored_at = 1700000000000, cc_title = Some ''[AI] x'', cc_url = None,
     cc_raw_at = 0\<rparr>"

definition commit_db :: database where
  "commit_db = sample_db\<lparr>t_commits := [sample_commit]\<rparr>"

definition no_filters :: dashboard_filters where
  "no_filters = \<lparr>df_from = None, df_to = None, df_author = None, df_limit = None\<rparr>"

lemma commit_db_authorized:
  "\<exists>db'. authorized_project_ids sample_access ''u1'' 0 commit_db = ([sample_project], 3, db')"
proof -
  have cs: "filter (\<lambda>c. cn_user c = ''u1'' \<and> cn_status c = Conn_Active) (t_connections commit_db) =
      [sample_connection ''u1'' ''gi1'']"
    by (simp add: sample_db_def sample_connection_def commit_db_def)
  have al: "t_allowlist commit_db = [\<lparr>al_id = ''a1'', al_instance = ''gi1'', al_project = ''42'',
      al_path = None, al_created_at = 0\<rparr>]"
    by (simp add: sample_db_def commit_db_def)
  have "\<exists>db1. resolve_visibility sample_access c [''42''] t commit_db =
     (Inr [''42'' \<mapsto> Vis_Allowed (Some \<lparr>vp_id = 42, vp_path = ''g/p'', vp_name = ''p''\<rparr>)], t + 3, db1)" for c t
    by (simp add: resolve_visibility_def cached_visibility_def lookup_fresh_many_def sample_db_def commit_db_def
        empty_db_def probe_allowlisted_projects_def sample_access_def fun_eq_iff)
  from this [of "sample_connection ''u1'' ''gi1''" 0] obtain db1 where
    "resolve_visibility sample_access (sample_connection ''u1'' ''gi1'') [''42''] 0 commit_db =
      (Inr [''42'' \<mapsto> Vis_Allowed (Some \<lparr>vp_id = 42, vp_path = ''g/p'', vp_name = ''p''\<rparr>)], 3, db1)"
    by auto
  then show ?thesis
    unfolding authorized_project_ids_def list_for_user_def cs al
    by (simp add: sample_connection_def item_of_entry_def sample_project_def)
      (force simp: sample_db_def commit_db_def Let_def)
qed

lemma sample_keeps_shown: "keeps_shown sample_access"
  by (simp add: keeps_shown_def sample_access_def invalidate_credential_def shown_tables_def)

lemma sample_query:
  "\<exists>r db' db1. dashboard_query sample_access ''u1'' no_filters 0 commit_db = Some (r, db') \<and>
     authorized_project_ids sample_access ''u1'' 0 commit_db = ([sample_project], 3, db1) \<and>
     dr_start r = 1699808400000 \<and> dr_end r = 1700413200000"
proof -
  obtain db1 where db1: "authorized_project_ids sample_access ''u1'' 0 commit_db = ([sample_project], 3, db1)"
    using commit_db_authorized by blast
  have w: "dashboard_window no_filters (ax_now sample_access 3) = (1699808400000, 1700413200000)"
    by (simp add: dashboard_window_def no_filters_def sample_access_def week_window_def day_ms_def offset_ms_def)
  obtain ms where "window_metrics [sample_project] 1699808400000 1700413200000 db1 = Some ms"
    unfolding window_metrics_def using metrics_calculated by blast
  with db1 w show ?thesis
    by (simp add: dashboard_query_def dashboard_rows_def Let_def)
qed

lemma sample_window: "window_commits [sample_project] 1699808400000 1700413200000 None commit_db = [sample_commit]"
  by (simp add: window_commits_def commit_db_def sample_commit_def commit_project_def sample_project_def)


theorem dashboard_metrics_of_end_week_witness:
  "\<exists>r db' freq ai. dashboard_query sample_access ''u1'' no_filters 0 commit_db = Some (r, db') \<and>
     window_commits [sample_project] (dr_start r) (dr_end r) None commit_db = [sample_commit] \<and>
     take 2 (dr_metrics r) = [freq, ai] \<and> md_value freq = Some 0 \<and> md_value ai = Some 0"
proof -
  obtain r db' db1 where q: "dashboard_query sample_access ''u1'' no_filters 0 commit_db = Some (r, db')"
    "authorized_project_ids sample_access ''u1'' 0 commit_db = ([sample_project], 3, db1)"
    "dr_start r = 1699808400000" "dr_end r = 1700413200000" using sample_query by blast
  have "plain_commits (to_metric_commit ` set (t_commits commit_db))"
    by (simp add: plain_commits_def commit_db_def sample_commit_def to_metric_commit_def nul_def char_of_def)
  moreover have "week_window (dr_end r) = (1700413200000, 1701018000000)"
    by (simp add: q week_window_def day_ms_def offset_ms_def)
  ultimately show ?thesis
    using dashboard_metrics_of_end_week [OF q(1,2) _ sample_keeps_shown] q sample_window
    by (fastforce simp: no_filters_def)
qed

theorem snapshots_append_only_witness:
  "\<exists>r db'. dashboard_query sample_access ''u1'' no_filters 0 commit_db = Some (r, db') \<and>
     distinct (map snapshot_key (t_snapshots db'))"
proof -
  obtain r db' db1 where q: "dashboard_query sample_access ''u1'' no_filters 0 commit_db = Some (r, db')"
    "authorized_project_ids sample_access ''u1'' 0 commit_db = ([sample_project], 3, db1)" using sample_query by blast
  have "distinct (map snapshot_key (t_snapshots commit_db))" by (simp add: commit_db_def sample_db_def empty_db_def)
  with snapshots_append_only [OF q _ sample_keeps_shown] q(1) show ?thesis by simp
qed

end
