(* ===== verification/WebPages.thy ===== *)
theory WebPages
  imports WebActions Dashboard
begin

text \<open>
  The server side of the pages, \<open>apps/web/src/app\<close>: which page is answered with a redirect, whose data it reads,
  and what it shows of it, in the order of the page, with the forms it offers. Static text is named by a key
  (\<open>Label\<close>); headings, help texts, icons and layout are left out. The date parser and the
  \<open>vi-VN\<close> date format are parameters.
\<close>

section \<open>What a page shows\<close>

text \<open>A form has its address, the fields whose values are fixed (hidden inputs and the submit button), the inputs
  with their default values, and whether its button is enabled. \<open>Search\<close> is a form that reloads its page.\<close>

record page_form =
  pf_action :: string
  pf_fixed :: "(string \<times> string) list"
  pf_inputs :: "(string \<times> string) list"
  pf_enabled :: bool

datatype page_item = Text string | Label string | Link string | Form page_form | Search string "(string \<times> string) list"

record page =
  pg_active :: string
  pg_nav :: "string list"
  pg_viewer :: auth_user
  pg_items :: "page_item list"

datatype page_result = Page_Redirect string | Page_Failed thrown_error | Page_Shown page

record page_env =
  pe_web :: web_env
  pe_format :: "instant \<Rightarrow> string"
  pe_date :: "string \<Rightarrow> instant option"

definition post_form :: "string \<Rightarrow> string \<Rightarrow> (string \<times> string) list \<Rightarrow> (string \<times> string) list \<Rightarrow> page_item" where
  "post_form csrf act fixed inputs =
     Form \<lparr>pf_action = act, pf_fixed = (''csrf'', csrf) # fixed, pf_inputs = inputs, pf_enabled = True\<rparr>"

section \<open>Labels\<close>

definition text_or_dash :: "string option \<Rightarrow> page_item" where
  "text_or_dash v = (case v of None \<Rightarrow> Label ''dash'' | Some s \<Rightarrow> Text s)"

definition form_error_message :: "string option \<Rightarrow> page_item list" where
  "form_error_message code =
     (case code of None \<Rightarrow> [] | Some c \<Rightarrow>
        if c = [] then [] else if c = ''unknown_action'' then [Label ''unknown_action''] else [Label ''request_failed''])"

definition format_date_time :: "page_env \<Rightarrow> instant option \<Rightarrow> page_item" where
  "format_date_time pe v = text_or_dash (map_option (pe_format pe) v)"

definition source_label :: "email_source \<Rightarrow> page_item" where
  "source_label s = Label (case s of User_Alias \<Rightarrow> ''user_alias'' | Gitlab_Primary \<Rightarrow> ''gitlab_primary''
     | Gitlab_Secondary \<Rightarrow> ''gitlab_secondary'')"

definition verification_label :: "email_verification \<Rightarrow> page_item" where
  "verification_label v = Label (case v of Gitlab_Verified \<Rightarrow> ''gitlab_verified'' | Gitlab_Unverified \<Rightarrow> ''gitlab_unverified''
     | User_Unverified \<Rightarrow> ''user_unverified'')"

section \<open>The frame\<close>

definition admin_items :: "string list" where
  "admin_items = [''/settings/admin/users'', ''/settings/admin/allowlist'']"

definition main_items :: "string list" where
  "main_items = [''/dashboard'', ''/settings/security'', ''/settings/gitlab'', ''/settings/projects'']"

text \<open>\<open>AppShell\<close>, rendered after the page itself, asks for the user once more.\<close>

definition app_shell ::
    "web_env \<Rightarrow> auth_env \<Rightarrow> web_request \<Rightarrow> string \<Rightarrow> string \<Rightarrow> page_item list \<Rightarrow> web_state \<Rightarrow> page_result \<times> web_state" where
  "app_shell env a rq active csrf is st =
     (case require_user env a rq (ws_db st) of
        (Inl _, db1) \<Rightarrow> (Page_Redirect ''/login'', with_db db1 st)
      | (Inr (u, sid), db1) \<Rightarrow>
          (Page_Shown \<lparr>pg_active = active, pg_nav = main_items @ (if ar_role u = Admin then admin_items else []),
             pg_viewer = u, pg_items = post_form csrf ''/api/auth/logout'' [] [] # is\<rparr>, with_db db1 st))"

type_synonym page_content =
  "services \<Rightarrow> string \<Rightarrow> auth_user \<Rightarrow> web_state \<Rightarrow> (thrown_error + page_item list) \<times> web_state"

text \<open>What the pages have in common. An exception of the page itself is not caught.\<close>

definition framed_page ::
    "web_env \<Rightarrow> web_request \<Rightarrow> bool \<Rightarrow> string \<Rightarrow> page_item list \<Rightarrow> page_content \<Rightarrow> web_state \<Rightarrow> page_result \<times> web_state" where
  "framed_page env rq admin path alerts content st =
     (case get_services env of
        Inl e \<Rightarrow> (Page_Failed e, st)
      | Inr sx \<Rightarrow>
          let a = sx_auth sx in
          (case rq_jar rq (sp_csrf_cookie (au_policy a)) of
             None \<Rightarrow> (Page_Redirect (''/api/auth/csrf?next='' @ path), st)
           | Some csrf \<Rightarrow>
               if csrf = [] then (Page_Redirect (''/api/auth/csrf?next='' @ path), st)
               else case (if admin then require_admin else require_user) env a rq (ws_db st) of
                 (Inl e, db1) \<Rightarrow> (Page_Failed e, with_db db1 st)
               | (Inr (u, sid), db1) \<Rightarrow>
                   (case content sx csrf u (with_db db1 st) of
                      (Inl e, st2) \<Rightarrow> (Page_Failed e, st2)
                    | (Inr is, st2) \<Rightarrow> app_shell env (later 1 a) rq path csrf (alerts @ is) st2)))"

section \<open>Security\<close>

text \<open>\<open>Math.round(seconds / unit)\<close>.\<close>

definition round_div :: "int \<Rightarrow> int \<Rightarrow> int" where
  "round_div x unit = (2 * x + unit) div (2 * unit)"

definition email_items :: "string \<Rightarrow> email_view \<Rightarrow> page_item list" where
  "email_items csrf e =
     [Text (ev_email e)] @ (if ev_primary e then [Label ''primary''] else []) @
     [source_label (ev_source e), verification_label (ev_verif e),
      if ev_source e = User_Alias
      then post_form csrf ''/api/settings/emails'' [(''action'', ''remove''), (''emailId'', ev_id e)] []
      else Label ''dash'']"

definition security_content :: "web_env \<Rightarrow> page_content" where
  "security_content env sx csrf u st =
     (let p = au_policy (sx_auth sx); es = list_emails (ar_id u) (ws_db st); num = (\<lambda>n. Text (we_number env (of_int n))) in
      (Inr ([Text (ar_email u), num (round_div (sp_abs p) 3600), num (round_div (sp_idle p) 60),
          post_form csrf ''/api/auth/sessions/revoke-all'' [] [], post_form csrf ''/api/auth/logout'' [] []] @
        (if es = [] then [Label ''no_emails''] else concat (map (email_items csrf) es)) @
        [post_form csrf ''/api/settings/emails'' [(''action'', ''add'')] [(''email'', [])]]), st))"

definition security_page :: "web_env \<Rightarrow> web_request \<Rightarrow> web_state \<Rightarrow> page_result \<times> web_state" where
  "security_page env rq = framed_page env rq False security_path (form_error_message (rq_param rq ''error'')) (security_content env)"

section \<open>GitLab connections\<close>

definition connection_items :: "page_env \<Rightarrow> string \<Rightarrow> connection_view \<Rightarrow> page_item list" where
  "connection_items pe csrf c =
     [Text (cv_base_url c), Label (connection_status_text (cv_status c)), Text (cv_gl_name c)] @
     (case cv_hint c of None \<Rightarrow> [] | Some h \<Rightarrow> if h = [] then [] else [Text h]) @
     [format_date_time pe (cv_validated c),
      post_form csrf ''/api/settings/gitlab'' [(''connectionId'', cv_id c), (''action'', ''retest'')] [],
      post_form csrf ''/api/settings/gitlab'' [(''action'', ''delete''), (''connectionId'', cv_id c)] []]"

definition gitlab_content :: "page_env \<Rightarrow> web_request \<Rightarrow> page_content" where
  "gitlab_content pe rq sx csrf u st =
     (let cs = list_connections_for_user (ar_id u) (ws_db st) in
      (Inr ((case rq_param rq ''tested'' of None \<Rightarrow> [] | Some t \<Rightarrow> if t = [] then [] else [Label ''token_valid'']) @
        (if cs = [] then [Label ''not_connected''] else concat (map (connection_items pe csrf) cs)) @
        [post_form csrf ''/api/settings/gitlab'' [(''action'', ''save'')] [(''baseUrl'', []), (''pat'', [])]]), st))"

definition gitlab_page :: "page_env \<Rightarrow> web_request \<Rightarrow> web_state \<Rightarrow> page_result \<times> web_state" where
  "gitlab_page pe rq = framed_page (pe_web pe) rq False gitlab_path (form_error_message (rq_param rq ''error'')) (gitlab_content pe rq)"

section \<open>Projects\<close>

definition project_items :: "string \<Rightarrow> project_item \<Rightarrow> page_item list" where
  "project_items csrf i =
     [Text (case pi_path i of None \<Rightarrow> pi_project i | Some s \<Rightarrow> s), Text (pi_project i)] @
     (case pi_error i of None \<Rightarrow> [] | Some e \<Rightarrow> if e = [] then [] else [Text e]) @
     [Label (if pi_visible i then ''visible'' else ''not_visible''), Label (if pi_enabled i then ''enabled'' else ''not_enabled''),
      Form \<lparr>pf_action = ''/api/settings/projects'',
        pf_fixed = [(''csrf'', csrf), (''gitlabInstanceId'', pi_instance i), (''gitlabProjectId'', pi_project i),
          (''action'', if pi_enabled i then ''disable'' else ''enable'')],
        pf_inputs = [], pf_enabled = pi_visible i \<or> pi_enabled i\<rparr>]"

definition projects_content :: page_content where
  "projects_content sx csrf u st =
     (let cs = list_connections_for_user (ar_id u) (ws_db st) in
      case list_for_user (sx_access sx) (ar_id u) (ws_tick st) (ws_db st) of
        (its, t, db) \<Rightarrow>
          (Inr (if cs = [] then [Label ''not_connected'', Link gitlab_path]
             else if its = [] then [Label ''no_projects''] else concat (map (project_items csrf) its)),
           (with_db db st)\<lparr>ws_tick := t\<rparr>))"

definition projects_page :: "web_env \<Rightarrow> web_request \<Rightarrow> web_state \<Rightarrow> page_result \<times> web_state" where
  "projects_page env rq = framed_page env rq False projects_path (form_error_message (rq_param rq ''error'')) projects_content"

section \<open>Administration\<close>

definition user_items :: "string \<Rightarrow> auth_user \<Rightarrow> auth_user \<Rightarrow> page_item list" where
  "user_items csrf actor u =
     [Text (ar_email u)] @ (if ar_id u = ar_id actor then [Label ''own_account''] else []) @
     [Label (role_text (ar_role u)), Label (WebActions.status_text (ar_status u))] @
     (if ar_status u = User_Active
      then post_form csrf ''/api/admin/users'' [(''action'', ''reset_password''), (''userId'', ar_id u)] [(''password'', [])] #
        (if ar_id u = ar_id actor then []
         else [post_form csrf ''/api/admin/users'' [(''action'', ''deactivate''), (''userId'', ar_id u)] []])
      else [Label ''dash''])"

definition users_content :: "web_env \<Rightarrow> page_content" where
  "users_content env sx csrf actor st =
     (map_sum (auth_thrown (we_driver env)) (\<lambda>us.
        Text (show_nat (length us)) # concat (map (user_items csrf actor) us) @
        [post_form csrf ''/api/admin/users'' [(''action'', ''create'')]
           [(''email'', []), (''password'', []), (''role'', ''developer'')]])
        (list_users actor (ws_db st)), st)"

definition users_page :: "web_env \<Rightarrow> web_request \<Rightarrow> web_state \<Rightarrow> page_result \<times> web_state" where
  "users_page env rq = framed_page env rq True users_path (form_error_message (rq_param rq ''error'')) (users_content env)"

definition instance_items :: "string \<Rightarrow> instance_view \<Rightarrow> page_item list" where
  "instance_items csrf g =
     [Text (iv_base_url g), text_or_dash (iv_label g), Label (if iv_internal g then ''internal'' else ''public''),
      post_form csrf ''/api/admin/allowlist'' [(''action'', ''remove_instance''), (''instanceId'', iv_id g)] []]"

text \<open>\<open>instanceById\<close>: of instances with one id the last would be found.\<close>

definition allow_items :: "string \<Rightarrow> instance_view list \<Rightarrow> allow_view \<Rightarrow> page_item list" where
  "allow_items csrf gs p =
     [Text (case av_path p of None \<Rightarrow> av_project p | Some s \<Rightarrow> s), Text (av_project p),
      Text (case map_of (rev (map (\<lambda>g. (iv_id g, iv_base_url g)) gs)) (av_instance p) of
        None \<Rightarrow> av_instance p | Some s \<Rightarrow> s),
      post_form csrf ''/api/admin/allowlist'' [(''action'', ''remove_project''), (''id'', av_id p)] []]"

definition allowlist_content :: page_content where
  "allowlist_content sx csrf u st =
     (let gs = list_instances (ws_db st); ps = list_projects None (ws_db st) in
      (Inr ((if gs = [] then [Label ''no_instances''] else concat (map (instance_items csrf) gs)) @
        [post_form csrf ''/api/admin/allowlist'' [(''action'', ''add_instance'')]
           [(''baseUrl'', []), (''label'', []), (''internal'', [])]] @
        (if ps = [] then [Label ''no_projects''] else concat (map (allow_items csrf gs) ps)) @
        (if gs = [] then [Label ''add_instance_first'']
         else [post_form csrf ''/api/admin/allowlist'' [(''action'', ''add_project'')]
           [(''gitlabInstanceId'', []), (''gitlabProjectId'', []), (''pathWithNamespace'', [])]])), st))"

definition allowlist_page :: "web_env \<Rightarrow> web_request \<Rightarrow> web_state \<Rightarrow> page_result \<times> web_state" where
  "allowlist_page env rq = framed_page env rq True allowlist_path (form_error_message (rq_param rq ''error'')) allowlist_content"

section \<open>The dashboard\<close>

definition parse_date_param :: "page_env \<Rightarrow> string option \<Rightarrow> instant option" where
  "parse_date_param pe raw =
     (case raw of None \<Rightarrow> None | Some s \<Rightarrow> if s = [] \<or> js_trim s = [] then None else pe_date pe s)"

definition author_param :: "string option \<Rightarrow> string option" where
  "author_param raw =
     (case raw of None \<Rightarrow> None | Some s \<Rightarrow> if s = [] \<or> js_trim s = [] then None else Some (js_lower (js_trim s)))"

definition filters_of :: "page_env \<Rightarrow> (string \<Rightarrow> string option) \<Rightarrow> dashboard_filters" where
  "filters_of pe param = \<lparr>df_from = parse_date_param pe (param ''from''), df_to = parse_date_param pe (param ''to''),
     df_author = author_param (param ''author''), df_limit = None\<rparr>"

text \<open>\<open>toISOString().slice(0, 10)\<close>, and the filter form that a window is shown in.\<close>

definition to_input_date :: "page_env \<Rightarrow> instant \<Rightarrow> string" where
  "to_input_date pe t = take 10 (we_iso (pe_web pe) t)"

definition filter_inputs :: "page_env \<Rightarrow> string option \<Rightarrow> instant \<Rightarrow> instant \<Rightarrow> (string \<times> string) list" where
  "filter_inputs pe author start stop =
     [(''from'', to_input_date pe start), (''to'', to_input_date pe (stop - 1)),
      (''author'', case author of None \<Rightarrow> [] | Some a \<Rightarrow> a)]"

definition option_label :: "email_verification \<Rightarrow> page_item" where
  "option_label v = Label (case v of Gitlab_Verified \<Rightarrow> ''gitlab_verified'' | _ \<Rightarrow> ''unverified'')"

definition metric_labels :: "string list" where
  "metric_labels = [''commit_frequency'', ''ai_assisted_commits'', ''loc_weekly'', ''mr_size'']"

definition format_metric_value :: "metric_dto \<Rightarrow> page_item" where
  "format_metric_value m =
     (case md_value m of
        None \<Rightarrow> Label ''not_configured''
      | Some v \<Rightarrow>
          if md_status m = Metric_Not_Configured then Label ''not_configured''
          else Text (show_nat v @ (case md_unit m of None \<Rightarrow> [] | Some u \<Rightarrow> if u = [] then [] else '' '' @ u)))"

definition metric_hint :: "web_env \<Rightarrow> metric_dto \<Rightarrow> page_item list" where
  "metric_hint env m =
     (if md_min m \<noteq> None \<or> md_max m \<noteq> None
      then [text_or_dash (map_option (we_number env) (md_min m)), text_or_dash (map_option (we_number env) (md_max m))]
      else case md_note m of
        Some (Note_Text t) \<Rightarrow> [Text t]
      | Some Loc_Not_Locked \<Rightarrow> [Label ''loc_not_locked'']
      | Some Mr_Size_Deferred \<Rightarrow> [Label ''mr_size_deferred'']
      | None \<Rightarrow> [Text (md_source m), Text (md_rule_version m)]) @
     (case md_verif m of None \<Rightarrow> [] | Some v \<Rightarrow> if v = [] then [] else [Text v])"

definition metric_items :: "web_env \<Rightarrow> metric_dto \<Rightarrow> page_item list" where
  "metric_items env m =
     [if md_metric m \<in> set metric_labels then Label (md_metric m) else Text (md_metric m), format_metric_value m] @
     metric_hint env m"

definition url_link :: "string option \<Rightarrow> page_item" where
  "url_link u = (case u of None \<Rightarrow> Label ''dash'' | Some l \<Rightarrow> if l = [] then Label ''dash'' else Link l)"

definition commit_items :: "page_env \<Rightarrow> commit_view \<Rightarrow> page_item list" where
  "commit_items pe v =
     (let c = dc_row v in
      [Text (case cc_title c of None \<Rightarrow> take 8 (cc_sha c) | Some t \<Rightarrow> t), Text (cc_project c), Text (take 8 (cc_sha c))] @
      (if dc_mismatch v then [Label ''email_mismatch''] else []) @
      [text_or_dash (cc_email c), format_date_time pe (Some (cc_authored_at c)), url_link (cc_url c)])"

definition state_tone :: "string option \<Rightarrow> string" where
  "state_tone s = (if s = Some ''merged'' then ''success'' else if s = Some ''opened'' \<or> s = Some ''open'' then ''accent''
     else ''neutral'')"

definition mr_items :: "page_env \<Rightarrow> mr_view \<Rightarrow> page_item list" where
  "mr_items pe v =
     (let m = dm_row v in
      [Text (we_number (pe_web pe) (of_int (mr_iid m))), Text (case mr_title m of None \<Rightarrow> [] | Some t \<Rightarrow> t), Text (mr_project m)] @
      (if dm_mismatch v then [Label ''email_mismatch''] else []) @
      [Label (state_tone (mr_state m)), text_or_dash (mr_state m), text_or_dash (mr_email m),
       format_date_time pe (Some (mr_updated_at m)), url_link (mr_url m)])"

definition dashboard_items :: "page_env \<Rightarrow> string option \<Rightarrow> connection_view list \<Rightarrow> dashboard_result \<Rightarrow> page_item list" where
  "dashboard_items pe author cs r =
     (if cs = [] then [Label ''not_connected'', Link gitlab_path]
      else if dr_projects r = [] then [Label ''no_projects'', Link projects_path] else []) @
     [Search ''/dashboard'' (filter_inputs pe author (dr_start r) (dr_end r))] @
     concat (map (\<lambda>e. [Text (ev_email e), option_label (ev_verif e)]) (dr_emails r)) @
     concat (map (metric_items (pe_web pe)) (dr_metrics r)) @
     (if 0 < dr_mismatches r then [Text (show_nat (dr_mismatches r)), Link security_path] else []) @
     [format_date_time pe (Some (dr_start r)), format_date_time pe (Some (dr_end r))] @
     (if dr_commits r = [] then [Label ''no_commits''] else concat (map (commit_items pe) (dr_commits r))) @
     (if dr_all r = [] then [Label ''no_merge_requests''] else concat (map (mr_items pe) (dr_all r)))"

text \<open>The query reads the clock after the projects are known, and once more where there are none. The least
  time value has none before it, of which \<open>toISOString\<close> could be asked.\<close>

definition least_date :: instant where
  "least_date = - 8640000000000000"

definition dashboard_content :: "page_env \<Rightarrow> web_request \<Rightarrow> page_content" where
  "dashboard_content pe rq sx csrf u st =
     (let f = filters_of pe (rq_param rq);
          (ps, t1, _) = authorized_project_ids (sx_access sx) (ar_id u) (ws_tick st) (ws_db st) in
      case dashboard_query (sx_access sx) (ar_id u) f (ws_tick st) (ws_db st) of
        None \<Rightarrow> (Inl (plain_error ''Forbidden metric field present''), st)
      | Some (r, db) \<Rightarrow>
          (if dr_end r \<le> least_date then Inl (plain_error ''Invalid time value'')
           else Inr (dashboard_items pe (df_author f) (list_connections_for_user (ar_id u) db) r),
           (with_db db st)\<lparr>ws_tick := t1 + (if ps = [] then 2 else 1)\<rparr>))"

definition dashboard_page :: "page_env \<Rightarrow> web_request \<Rightarrow> web_state \<Rightarrow> page_result \<times> web_state" where
  "dashboard_page pe rq = framed_page (pe_web pe) rq False ''/dashboard'' [] (dashboard_content pe rq)"

section \<open>The login page\<close>

datatype login_shown = Login_Redirect string | Login_Failed thrown_error | Login_Shown "page_item list"

definition login_page :: "web_env \<Rightarrow> web_request \<Rightarrow> login_shown" where
  "login_page env rq =
     (case get_services env of
        Inl e \<Rightarrow> Login_Failed e
      | Inr sx \<Rightarrow>
          (case rq_jar rq (sp_csrf_cookie (au_policy (sx_auth sx))) of
             None \<Rightarrow> Login_Redirect ''/api/auth/csrf?next=/login''
           | Some csrf \<Rightarrow>
               if csrf = [] then Login_Redirect ''/api/auth/csrf?next=/login''
               else Login_Shown
                 ((case rq_param rq ''error'' of None \<Rightarrow> [] | Some e \<Rightarrow> if e = [] then [] else [Label ''login_failed'']) @
                  [post_form csrf ''/api/auth/login'' [] [(''email'', []), (''password'', [])]])))"

section \<open>The server\<close>

datatype web_page = Dashboard_Page | Security_Page | Gitlab_Page | Projects_Page | Users_Page | Allowlist_Page

definition show_page :: "page_env \<Rightarrow> web_page \<Rightarrow> web_request \<Rightarrow> web_state \<Rightarrow> page_result \<times> web_state" where
  "show_page pe g =
     (case g of Dashboard_Page \<Rightarrow> dashboard_page pe | Security_Page \<Rightarrow> security_page (pe_web pe) | Gitlab_Page \<Rightarrow> gitlab_page pe
      | Projects_Page \<Rightarrow> projects_page (pe_web pe) | Users_Page \<Rightarrow> users_page (pe_web pe)
      | Allowlist_Page \<Rightarrow> allowlist_page (pe_web pe))"

end
