(* ===== verification/Interface.thy ===== *)
theory Interface
  imports WebPages
begin

text \<open>
  The components of \<open>apps/web/src/components/ui\<close>: each renders an element tree from its properties.
  An element has its attributes in the order of the markup; a handler is an attribute that names what
  it calls. \<open>Browser\<close> gives the part of a browser that the confirmation dialog relies on: which
  button can be pressed, and what a pressed button posts. The icons are an element each.
\<close>

section \<open>Elements\<close>

datatype html = Html_Text string | Elem string "(string \<times> string) list" "html list"

text \<open>A child that is \<open>null\<close> renders nothing, and so does a text that is missing or empty where the
  markup tests it.\<close>

definition when_text :: "string option \<Rightarrow> (string \<Rightarrow> html) \<Rightarrow> html list" where
  "when_text v f = (case v of None \<Rightarrow> [] | Some s \<Rightarrow> if s = [] then [] else [f s])"

definition when_node :: "html option \<Rightarrow> html list" where
  "when_node v = (case v of None \<Rightarrow> [] | Some h \<Rightarrow> [h])"

definition class_attr :: "string \<Rightarrow> (string \<times> string) list" where
  "class_attr c = [(''class'', c)]"

text \<open>The frame of every icon; its name stands for the paths in it.\<close>

definition icon :: "string \<Rightarrow> nat \<Rightarrow> html" where
  "icon name px =
     Elem ''svg'' [(''width'', show_nat px), (''height'', show_nat px), (''viewBox'', ''0 0 24 24''),
       (''fill'', ''none''), (''stroke'', ''currentColor''), (''strokeWidth'', ''1.7''),
       (''strokeLinecap'', ''round''), (''strokeLinejoin'', ''round''), (''aria-hidden'', ''true''),
       (''focusable'', ''false'')] [Elem ''path'' [(''data-icon'', name)] []]"

section \<open>Buttons\<close>

datatype button_variant = Primary_Button | Secondary_Button | Danger_Button | Ghost_Button

definition variant_name :: "button_variant \<Rightarrow> string" where
  "variant_name v = (case v of Primary_Button \<Rightarrow> ''primary'' | Secondary_Button \<Rightarrow> ''secondary''
     | Danger_Button \<Rightarrow> ''danger'' | Ghost_Button \<Rightarrow> ''ghost'')"

definition button_classes :: "button_variant \<Rightarrow> bool \<Rightarrow> bool \<Rightarrow> string option \<Rightarrow> string" where
  "button_classes variant small block extra =
     join_with '' '' (filter (\<lambda>c. c \<noteq> [])
       [''rp-btn'', ''rp-btn--'' @ variant_name variant, if small then ''rp-btn--sm'' else [],
        if block then ''rp-btn--block'' else [], case extra of None \<Rightarrow> [] | Some e \<Rightarrow> e])"

text \<open>The properties are spread first; the class and the type come after them.\<close>

definition button :: "button_variant \<Rightarrow> bool \<Rightarrow> bool \<Rightarrow> string option \<Rightarrow> (string \<times> string) list \<Rightarrow> html list \<Rightarrow> html" where
  "button variant small block extra props children =
     Elem ''button''
       (AList.update ''type'' (case map_of props ''type'' of None \<Rightarrow> ''button'' | Some t \<Rightarrow> t)
         (AList.update ''class'' (button_classes variant small block extra) props)) children"

definition button_link :: "string \<Rightarrow> button_variant \<Rightarrow> bool \<Rightarrow> bool \<Rightarrow> html list \<Rightarrow> html" where
  "button_link href variant small block children =
     Elem ''a'' [(''href'', href), (''class'', button_classes variant small block None)] children"

section \<open>Fields\<close>

definition text_input :: "string \<Rightarrow> bool \<Rightarrow> bool \<Rightarrow> (string \<times> string) list \<Rightarrow> html" where
  "text_input i help invalid props =
     Elem ''input'' (props @ [(''id'', i), (''class'', ''rp-input'')] @
       (if invalid then [(''aria-invalid'', ''true'')] else []) @
       (if help then [(''aria-describedby'', i @ ''-help'')] else [])) []"

definition select_input :: "string \<Rightarrow> (string \<times> string) list \<Rightarrow> html list \<Rightarrow> html" where
  "select_input i props children =
     Elem ''select'' (props @ [(''id'', i), (''class'', ''rp-select'')]) children"

definition checkbox :: "string \<Rightarrow> string \<Rightarrow> (string \<times> string) list \<Rightarrow> html" where
  "checkbox i label props =
     Elem ''label'' [(''class'', ''rp-checkbox''), (''for'', i)]
       [Elem ''input'' (props @ [(''id'', i), (''type'', ''checkbox'')]) [], Elem ''span'' [] [Html_Text label]]"

definition field :: "string \<Rightarrow> string \<Rightarrow> string option \<Rightarrow> string option \<Rightarrow> bool \<Rightarrow> html list \<Rightarrow> html" where
  "field i label help err required children =
     Elem ''div'' (class_attr ''rp-field'')
       ([Elem ''label'' [(''class'', ''rp-label''), (''for'', i)]
          (Html_Text label # (if required
             then [Html_Text '' '', Elem ''span'' [(''class'', ''rp-required''), (''aria-hidden'', ''true'')] [Html_Text ''*'']]
             else []))] @ children @
        when_text help (\<lambda>h. Elem ''p'' [(''class'', ''rp-help''), (''id'', i @ ''-help'')] [Html_Text h]) @
        when_text err (\<lambda>e. Elem ''p'' [(''class'', ''rp-field-error''), (''id'', i @ ''-error'')] [Html_Text e]))"

section \<open>Texts and frames\<close>

datatype alert_tone = Tone_Success | Tone_Danger | Tone_Warning | Tone_Info

definition tone_icon :: "alert_tone \<Rightarrow> html" where
  "tone_icon t = icon (case t of Tone_Success \<Rightarrow> ''check-circle'' | Tone_Info \<Rightarrow> ''info'' | _ \<Rightarrow> ''alert-circle'') 17"

definition tone_name :: "alert_tone \<Rightarrow> string" where
  "tone_name t = (case t of Tone_Success \<Rightarrow> ''success'' | Tone_Danger \<Rightarrow> ''danger''
     | Tone_Warning \<Rightarrow> ''warning'' | Tone_Info \<Rightarrow> ''info'')"

definition alert :: "alert_tone \<Rightarrow> string option \<Rightarrow> html option \<Rightarrow> html" where
  "alert tone title children =
     Elem ''div'' [(''class'', ''rp-alert rp-alert--'' @ tone_name tone),
         (''role'', if tone = Tone_Danger then ''alert'' else ''status'')]
       [tone_icon tone,
        Elem ''div'' [] (when_text title (\<lambda>t. Elem ''div'' (class_attr ''rp-alert-title'') [Html_Text t]) @
          (case children of None \<Rightarrow> [] | Some c \<Rightarrow> [Elem ''div'' [] [c]]))]"

definition badge :: "string \<Rightarrow> html list \<Rightarrow> html" where
  "badge tone children = Elem ''span'' (class_attr (''rp-badge rp-badge--'' @ tone)) children"

definition card :: "html list \<Rightarrow> html" where
  "card children = Elem ''section'' (class_attr ''rp-card'') children"

definition card_head :: "string \<Rightarrow> string option \<Rightarrow> html option \<Rightarrow> html option \<Rightarrow> html" where
  "card_head title description ic actions =
     Elem ''div'' (class_attr ''rp-card-head'')
       (Elem ''div'' [] (Elem ''h2'' (class_attr ''rp-card-title'') (when_node ic @ [Html_Text title]) #
          when_text description (\<lambda>d. Elem ''p'' (class_attr ''rp-card-desc'') [Html_Text d])) #
        (case actions of None \<Rightarrow> [] | Some a \<Rightarrow> [Elem ''div'' (class_attr ''rp-card-actions'') [a]]))"

definition card_body :: "html list \<Rightarrow> html" where
  "card_body children = Elem ''div'' (class_attr ''rp-card-body'') children"

definition empty_state :: "string \<Rightarrow> string option \<Rightarrow> html option \<Rightarrow> html option \<Rightarrow> html" where
  "empty_state title description ic action =
     Elem ''div'' (class_attr ''rp-empty'')
       ([Elem ''div'' (class_attr ''rp-empty-icon'') [case ic of None \<Rightarrow> icon ''inbox'' 22 | Some i \<Rightarrow> i],
         Elem ''p'' (class_attr ''rp-empty-title'') [Html_Text title]] @
        when_text description (\<lambda>d. Elem ''p'' (class_attr ''rp-empty-desc'') [Html_Text d]) @ when_node action)"

definition page_header :: "string \<Rightarrow> string option \<Rightarrow> html option \<Rightarrow> html option \<Rightarrow> html" where
  "page_header title description ic actions =
     Elem ''div'' (class_attr ''rp-page-head'')
       (Elem ''div'' [] (Elem ''h1'' (class_attr ''rp-page-title'') (when_node ic @ [Html_Text title]) #
          when_text description (\<lambda>d. Elem ''p'' (class_attr ''rp-page-desc'') [Html_Text d])) #
        (case actions of None \<Rightarrow> [] | Some a \<Rightarrow> [Elem ''div'' (class_attr ''rp-page-actions'') [a]]))"

definition skeleton :: "string \<Rightarrow> string \<Rightarrow> html" where
  "skeleton width height =
     Elem ''div'' [(''class'', ''rp-skeleton''), (''style'', ''width:'' @ width @ '';height:'' @ height)] []"

definition skeleton_card :: "nat \<Rightarrow> html" where
  "skeleton_card rows =
     Elem ''div'' (class_attr ''rp-card'')
       [Elem ''div'' (class_attr ''rp-card-body'')
          (skeleton ''180px'' ''20px'' # replicate rows (skeleton ''100%'' ''14px''))]"

definition data_table :: "string \<Rightarrow> string list \<Rightarrow> html list \<Rightarrow> html" where
  "data_table caption columns children =
     Elem ''div'' (class_attr ''rp-table-wrap'')
       [Elem ''table'' (class_attr ''rp-table'')
          [Elem ''caption'' (class_attr ''rp-visually-hidden'') [Html_Text caption],
           Elem ''thead'' [] [Elem ''tr'' [] (map (\<lambda>c. Elem ''th'' [(''scope'', ''col'')] [Html_Text c]) columns)],
           Elem ''tbody'' [] children]]"

section \<open>The confirmation dialog\<close>

text \<open>A button that opens a modal dialog, whose form posts the fields. \<open>title_id\<close> and \<open>desc_id\<close> are
  the identifiers of \<open>useId\<close>.\<close>

definition confirm_dialog ::
    "string \<Rightarrow> string \<Rightarrow> string \<Rightarrow> (string \<times> string) list \<Rightarrow> string \<Rightarrow> html option \<Rightarrow> string \<Rightarrow> string \<Rightarrow> string
       \<Rightarrow> html list" where
  "confirm_dialog title_id desc_id action fs trigger_label trigger_icon title description confirm_label =
     [button Danger_Button True False None [(''onClick'', ''showModal'')]
        (when_node trigger_icon @ [Html_Text trigger_label]),
      Elem ''dialog'' [(''class'', ''rp-dialog''), (''aria-labelledby'', title_id), (''aria-describedby'', desc_id)]
        [Elem ''form'' [(''method'', ''post''), (''action'', action), (''class'', ''rp-dialog-body'')]
          (map (\<lambda>(name, value). Elem ''input'' [(''type'', ''hidden''), (''name'', name), (''value'', value)] []) fs @
           [Elem ''h2'' [(''class'', ''rp-dialog-title''), (''id'', title_id)] [Html_Text title],
            Elem ''p'' [(''class'', ''rp-dialog-desc''), (''id'', desc_id)] [Html_Text description],
            Elem ''div'' (class_attr ''rp-dialog-actions'')
              [button Ghost_Button False False None [(''onClick'', ''close'')] [Html_Text ''cancel''],
               button Danger_Button False False None [(''type'', ''submit'')] [Html_Text confirm_label]]])]]"

section \<open>Browser\<close>

type_synonym posted = "string \<times> (string \<times> string) list"

text \<open>The fields that a form posts, and the buttons of a tree with the dialog and the form around them.\<close>

fun hidden_fields :: "html \<Rightarrow> (string \<times> string) list" where
  "hidden_fields (Html_Text _) = []"
| "hidden_fields (Elem tag attrs cs) =
     (case (tag = ''input'', map_of attrs ''name'', map_of attrs ''value'') of
        (True, Some n, Some v) \<Rightarrow> [(n, v)] | _ \<Rightarrow> []) @ concat (map hidden_fields cs)"

record press_target =
  pt_in_dialog :: bool
  pt_form :: "posted option"
  pt_type :: string
  pt_click :: "string option"

fun buttons_of :: "bool \<Rightarrow> posted option \<Rightarrow> html \<Rightarrow> press_target list" where
  "buttons_of dlg frm (Html_Text _) = []"
| "buttons_of dlg frm (Elem tag attrs cs) =
     (if tag = ''button''
      then [\<lparr>pt_in_dialog = dlg, pt_form = frm,
        pt_type = (case map_of attrs ''type'' of None \<Rightarrow> ''submit'' | Some t \<Rightarrow> t), pt_click = map_of attrs ''onClick''\<rparr>]
      else []) @
     concat (map (buttons_of (dlg \<or> tag = ''dialog'')
       (if tag = ''form'' then Some (case map_of attrs ''action'' of None \<Rightarrow> [] | Some a \<Rightarrow> a, concat (map hidden_fields cs))
        else frm)) cs)"

datatype ui_event = Press nat | Escape

text \<open>While the dialog is closed only the buttons outside it can be pressed, while it is open only
  those in it. The step gives the new state of the dialog and what is posted.\<close>

definition ui_step :: "press_target list \<Rightarrow> bool \<Rightarrow> ui_event \<Rightarrow> bool \<times> posted option" where
  "ui_step targets opened ev =
     (case ev of
        Escape \<Rightarrow> (False, None)
      | Press i \<Rightarrow>
          if i < length targets \<and> pt_in_dialog (targets ! i) = opened then
            (let b = targets ! i in
             (if pt_click b = Some ''showModal'' then True else if pt_click b = Some ''close'' then False else opened,
              if pt_type b = ''submit'' then pt_form b else None))
          else (opened, None))"

fun ui_run :: "press_target list \<Rightarrow> bool \<Rightarrow> ui_event list \<Rightarrow> posted list" where
  "ui_run targets opened [] = []"
| "ui_run targets opened (ev # evs) =
     (case ui_step targets opened ev of
        (o1, p) \<Rightarrow> (case p of None \<Rightarrow> [] | Some x \<Rightarrow> [x]) @ ui_run targets o1 evs)"

section \<open>Lemmas\<close>

text \<open>A button without a type of its own never submits the form around it.\<close>

lemma button_type:
  "buttons_of dlg frm (button v s b e props cs) =
     \<lparr>pt_in_dialog = dlg, pt_form = frm,
       pt_type = (case map_of props ''type'' of None \<Rightarrow> ''button'' | Some t \<Rightarrow> t),
       pt_click = map_of props ''onClick''\<rparr> # concat (map (buttons_of dlg frm) cs)"
  by (simp add: button_def update_conv')

text \<open>The description that an input with \<open>help\<close> names is in the field around it when that has a help
  text.\<close>

fun ids_of :: "html \<Rightarrow> string list" where
  "ids_of (Html_Text _) = []"
| "ids_of (Elem tag attrs cs) = (case map_of attrs ''id'' of None \<Rightarrow> [] | Some i \<Rightarrow> [i]) @ concat (map ids_of cs)"

lemma field_describes_input:
  "h \<noteq> [] \<Longrightarrow> i @ ''-help'' \<in> set (ids_of (field i label (Some h) err required [text_input i True invalid props]))"
  by (simp add: field_def when_text_def)

text \<open>The buttons of the confirmation dialog: one outside it, which opens it, and two in it.\<close>

lemma hidden_inputs:
  "concat (map hidden_fields (map (\<lambda>(name, value).
     Elem ''input'' [(''type'', ''hidden''), (''name'', name), (''value'', value)] []) fs)) = fs"
  by (induction fs) auto

lemma hidden_input_no_button:
  "concat (map (buttons_of dlg frm) (map (\<lambda>(name, value).
     Elem ''input'' [(''type'', ''hidden''), (''name'', name), (''value'', value)] []) fs)) = []"
  by (induction fs) auto

lemma dialog_buttons:
  assumes "trigger_icon = None \<or> trigger_icon = Some (icon n k)"
  shows "concat (map (buttons_of False None)
      (confirm_dialog title_id desc_id action fs trigger_label trigger_icon title description confirm_label)) =
    [\<lparr>pt_in_dialog = False, pt_form = None, pt_type = ''button'', pt_click = Some ''showModal''\<rparr>,
     \<lparr>pt_in_dialog = True, pt_form = Some (action, fs), pt_type = ''button'', pt_click = Some ''close''\<rparr>,
     \<lparr>pt_in_dialog = True, pt_form = Some (action, fs), pt_type = ''submit'', pt_click = None\<rparr>]"
proof -
  have hb: "hidden_fields (button v s b e props [Html_Text t]) = []" for v s b e props t
    by (simp add: button_def)
  show ?thesis
    using assms by (auto simp: confirm_dialog_def button_type when_node_def class_attr_def hb icon_def
        hidden_inputs [simplified] hidden_input_no_button [simplified])
qed

text \<open>Whatever is pressed, a dialog that starts closed posts nothing but its form with its fields, and
  only after its trigger and then its confirming button were pressed with neither the cancel button
  nor Escape between them.\<close>

definition dialog_targets :: "posted \<Rightarrow> press_target list" where
  "dialog_targets f =
     [\<lparr>pt_in_dialog = False, pt_form = None, pt_type = ''button'', pt_click = Some ''showModal''\<rparr>,
      \<lparr>pt_in_dialog = True, pt_form = Some f, pt_type = ''button'', pt_click = Some ''close''\<rparr>,
      \<lparr>pt_in_dialog = True, pt_form = Some f, pt_type = ''submit'', pt_click = None\<rparr>]"

definition confirmed :: "ui_event list \<Rightarrow> bool" where
  "confirmed evs \<longleftrightarrow> (\<exists>ys zs. evs = ys @ Press 2 # zs \<and> Press 1 \<notin> set ys \<and> Escape \<notin> set ys)"

lemma confirmed_Cons: "confirmed evs \<Longrightarrow> ev \<noteq> Press 1 \<Longrightarrow> ev \<noteq> Escape \<Longrightarrow> confirmed (ev # evs)"
  unfolding confirmed_def by (metis append_Cons set_ConsD)

lemma ui_step_cases:
  obtains (escape) "ev = Escape" "ui_step (dialog_targets f) opened ev = (False, None)"
    | (opens) "ev = Press 0" "\<not> opened" "ui_step (dialog_targets f) opened ev = (True, None)"
    | (cancel) "ev = Press 1" "opened" "ui_step (dialog_targets f) opened ev = (False, None)"
    | (post) "ev = Press 2" "opened" "ui_step (dialog_targets f) opened ev = (True, Some f)"
    | (inert) "ui_step (dialog_targets f) opened ev = (opened, None)" "ev \<noteq> Escape" "opened \<Longrightarrow> ev \<noteq> Press 1"
proof (cases ev)
  case (Press i)
  consider "i = 0" | "i = 1" | "i = 2" | "3 \<le> i" by linarith
  then show thesis
    using Press opens cancel post inert
    by cases (cases opened; simp add: ui_step_def dialog_targets_def Let_def)+
qed (use escape in \<open>simp add: ui_step_def\<close>)

lemma dialog_posts_confirmed:
  "set (ui_run (dialog_targets f) opened evs) \<subseteq> {f} \<and>
   (ui_run (dialog_targets f) opened evs \<noteq> [] \<longrightarrow>
      (opened \<and> confirmed evs) \<or> (\<exists>xs ys. evs = xs @ Press 0 # ys \<and> confirmed ys))"
proof (induction evs arbitrary: opened)
  case (Cons ev evs)
  have later: "\<exists>xs ys. ev # evs = xs @ Press 0 # ys \<and> confirmed ys"
    if "\<exists>xs ys. evs = xs @ Press 0 # ys \<and> confirmed ys"
    using that by (metis append_Cons)
  show ?case
  proof (cases rule: ui_step_cases [of ev f opened])
    case escape
    then have eq: "ui_run (dialog_targets f) opened (ev # evs) = ui_run (dialog_targets f) False evs" by simp
    show ?thesis unfolding eq using Cons.IH [of False] later by blast
  next
    case opens
    then have eq: "ui_run (dialog_targets f) opened (ev # evs) = ui_run (dialog_targets f) True evs" by simp
    have "confirmed evs \<Longrightarrow> \<exists>xs ys. ev # evs = xs @ Press 0 # ys \<and> confirmed ys"
      by (rule exI [of _ "[]"], rule exI [of _ evs]) (simp add: opens)
    then show ?thesis unfolding eq using Cons.IH [of True] later by blast
  next
    case cancel
    then have eq: "ui_run (dialog_targets f) opened (ev # evs) = ui_run (dialog_targets f) False evs" by simp
    show ?thesis unfolding eq using Cons.IH [of False] later by blast
  next
    case post
    then have eq: "ui_run (dialog_targets f) opened (ev # evs) = f # ui_run (dialog_targets f) True evs" by simp
    have "confirmed (ev # evs)"
      unfolding confirmed_def by (rule exI [of _ "[]"], rule exI [of _ evs]) (simp add: post)
    then show ?thesis unfolding eq using Cons.IH [of True] post by auto
  next
    case inert
    then have eq: "ui_run (dialog_targets f) opened (ev # evs) = ui_run (dialog_targets f) opened evs" by simp
    have "opened \<and> confirmed evs \<Longrightarrow> confirmed (ev # evs)"
      using confirmed_Cons inert by blast
    then show ?thesis unfolding eq using Cons.IH [of opened] later by blast
  qed
qed simp

text \<open>The pages offer the forms of \<open>WebPages\<close> that destroy something in such a dialog: what it posts is
  the address and the fixed fields of the form.\<close>

lemma confirmed_form_posts:
  assumes "trigger_icon = None \<or> trigger_icon = Some (icon n k)"
    and "x \<in> set (ui_run (concat (map (buttons_of False None)
      (confirm_dialog title_id desc_id (pf_action frm) (pf_fixed frm) trigger_label trigger_icon title
        description confirm_label))) False evs)"
  shows "x = (pf_action frm, pf_fixed frm) \<and> (\<exists>xs ys. evs = xs @ Press 0 # ys \<and> confirmed ys)"
proof -
  have t: "concat (map (buttons_of False None)
      (confirm_dialog title_id desc_id (pf_action frm) (pf_fixed frm) trigger_label trigger_icon title
        description confirm_label)) = dialog_targets (pf_action frm, pf_fixed frm)"
    using dialog_buttons [OF assms(1)] by (simp add: dialog_targets_def)
  from dialog_posts_confirmed [of "(pf_action frm, pf_fixed frm)" False evs] assms(2) [unfolded t]
  show ?thesis by fastforce
qed

end
