(* ===== verification/LiveProbe.thy ===== *)
theory LiveProbe
  imports Connections
begin

text \<open>
  \<open>createAllowlistedProjectProbe\<close> of \<open>packages/domain/src/project-access.ts\<close>: the probe that the
  service uses in production. It builds a read client for the connection's instance with the user's
  token and asks for each project with one GET, five at a time. The theory follows an authorised
  project and a row of the membership cache down to the HTTP answers that they rest on.
\<close>

section \<open>The probe\<close>

text \<open>What a probe sees of the outside: the URL parser, the network during the request for a project,
  and which of the requests in flight ends next.\<close>

record live_world =
  lw_api :: url_api
  lw_param_of :: "url \<Rightarrow> string \<Rightarrow> string option"
  lw_iso :: "instant \<Rightarrow> string"
  lw_http :: "nat \<Rightarrow> string \<Rightarrow> http_env"
  lw_pick :: "nat \<Rightarrow> nat \<Rightarrow> nat"

definition default_probe_concurrency :: nat where
  "default_probe_concurrency = 5"

text \<open>The client of the probe, for the request that asks for the project \<open>q\<close>.\<close>

definition probe_client ::
    "live_world \<Rightarrow> instance_row \<Rightarrow> string \<Rightarrow> nat \<Rightarrow> gitlab_error + (string \<Rightarrow> read_client)" where
  "probe_client w inst pat t =
     bind_err (create_gitlab_allowlist (lw_api w) True [(gi_base_url inst, gi_internal inst)]) (\<lambda>al.
     bind_err (create_read_client (lw_api w) (lw_param_of w) (lw_iso w) (gi_base_url inst) (lw_http w t []))
       (\<lambda>rc. Inr (\<lambda>q. rc\<lparr>rc_env := (lw_http w t q)\<lparr>he_allow := al, he_token := pat\<rparr>\<rparr>)))"

definition probe_response :: "(string \<Rightarrow> read_client) \<Rightarrow> string \<Rightarrow> probe_error + gl_project" where
  "probe_response rc q =
     (case get_project (rc q) 0 q of Inl e \<Rightarrow> Inl (Probe_Gitlab e) | Inr p \<Rightarrow> Inr p)"

text \<open>The pool, run until it has an outcome, which takes one completion per project at most.\<close>

fun run_pool ::
    "(nat \<Rightarrow> nat) \<Rightarrow> (string \<Rightarrow> probe_error + gl_project) \<Rightarrow> string list \<Rightarrow> nat \<Rightarrow> pool \<Rightarrow> pool" where
  "run_pool pick resp ids 0 s = s"
| "run_pool pick resp ids (Suc n) s =
     (if pool_outcome s \<noteq> None then s
      else run_pool pick resp ids n
        (pool_complete resp ids (po_running s ! (pick n mod length (po_running s))) s))"

definition live_probe ::
    "live_world \<Rightarrow> nat \<Rightarrow> instance_row list \<Rightarrow> nat \<Rightarrow> connection_row \<Rightarrow> string \<Rightarrow> string list
       \<Rightarrow> probe_error + probe_result" where
  "live_probe w concurrency instances t conn pat ids =
     (if ids = [] then Inr \<lparr>pb_visible = Map.empty, pb_failed = Map.empty\<rparr>
      else case find (\<lambda>g. gi_id g = cn_instance conn) instances of
        None \<Rightarrow> Inl Probe_Other
      | Some inst \<Rightarrow>
          (case probe_client w inst pat t of
             Inl e \<Rightarrow> Inl (Probe_Gitlab e)
           | Inr rc \<Rightarrow>
               (case pool_outcome (run_pool (lw_pick w t) (probe_response rc) ids (length ids)
                   (pool_start ids concurrency)) of
                  Some r \<Rightarrow> r
                | None \<Rightarrow> Inl Probe_Other)))"

text \<open>The service with the probe of production.\<close>

definition live_access :: "live_world \<Rightarrow> database \<Rightarrow> access_env \<Rightarrow> access_env" where
  "live_access w db env =
     env\<lparr>ax_probe := live_probe w default_probe_concurrency (t_instances db)\<rparr>"

section \<open>The pool ends\<close>

lemma run_pool_ok:
  assumes "pool_reach resp ids conc k s" and "0 < conc"
  shows "\<exists>m. pool_reach resp ids conc m (run_pool pick resp ids n s) \<and>
    (pool_outcome (run_pool pick resp ids n s) = None \<longrightarrow> m = k + n)"
  using assms(1)
proof (induction n arbitrary: k s)
  case 0
  then show ?case by auto
next
  case (Suc n)
  show ?case
  proof (cases "pool_outcome s")
    case None
    with pool_reach_ok [OF Suc.prems assms(2)] have "po_running s \<noteq> []"
      by (auto simp: pool_outcome_def split: option.splits if_splits)
    then have "pool_reach resp ids conc (Suc k)
        (pool_complete resp ids (po_running s ! (pick n mod length (po_running s))) s)"
      by (intro pool_reach.pool_step [OF Suc.prems]) simp
    from Suc.IH [OF this] None show ?thesis by simp
  next
    case (Some r)
    with Suc.prems show ?thesis by auto
  qed
qed

text \<open>The outcome of the pool is what the answers say, whatever request ends first.\<close>

lemma run_pool_outcome:
  assumes "0 < conc"
  shows "case pool_outcome (run_pool pick resp ids (length ids) (pool_start ids conc)) of
      None \<Rightarrow> False
    | Some (Inl e) \<Rightarrow> (\<exists>q \<in> set ids. abort_of resp q = Some e)
    | Some (Inr r) \<Rightarrow>
        (\<forall>q \<in> set ids. pb_visible r q = visible_of resp q \<and> pb_failed r q = failed_of resp q \<and>
           abort_of resp q = None)"
proof -
  let ?s = "run_pool pick resp ids (length ids) (pool_start ids conc)"
  obtain m where m: "pool_reach resp ids conc m ?s" "pool_outcome ?s = None \<longrightarrow> m = length ids"
    using run_pool_ok [OF pool_reach.pool_init assms, of resp ids pick "length ids"] by auto
  note ok = pool_reach_ok [OF m(1) assms]
  have "pool_outcome ?s \<noteq> None"
  proof
    assume none: "pool_outcome ?s = None"
    with m(2) have "m = length ids" by simp
    moreover have "m + length (po_running ?s) = po_next ?s" "po_next ?s \<le> length ids"
      using ok by (simp_all add: pool_ok_def)
    ultimately have "length (po_running ?s) = 0" by linarith
    then have "po_running ?s = []" by blast
    with none show False by (auto simp: pool_outcome_def split: option.splits)
  qed
  moreover have "finished_ids ids ?s \<subseteq> set ids" using ok by (auto simp: finished_ids_def pool_ok_def)
  ultimately show ?thesis
    using ok finished_all [OF ok] by (auto simp: pool_ok_def pool_outcome_def split: option.splits if_splits)
qed

lemma probe_answer_denied:
  "visible_of resp q = None \<Longrightarrow> failed_of resp q = None \<Longrightarrow> abort_of resp q = None \<Longrightarrow>
     resp q = Inl (Probe_Gitlab Gl_Project_Forbidden) \<or> resp q = Inl (Probe_Gitlab Gl_Project_Not_Found)"
  by (auto simp: visible_of_def failed_of_def abort_of_def probe_answer_of_def
      split: sum.splits probe_error.splits if_splits)

lemma probe_answer_visible: "visible_of resp q \<noteq> None \<Longrightarrow> \<exists>p. resp q = Inr p"
  by (auto simp: visible_of_def probe_answer_of_def split: sum.splits probe_error.splits if_splits)

section \<open>The answers of GitLab\<close>

text \<open>GitLab answered the request for the project \<open>q\<close> of the client \<open>rc\<close>, which carried the client's
  token and went to the client's own instance, with the status \<open>s\<close>.\<close>

definition project_answer :: "read_client \<Rightarrow> string \<Rightarrow> int \<Rightarrow> bool" where
  "project_answer rc q s \<longleftrightarrow>
     (\<exists>e base t0 rq r. encode_project_id q = Inr e \<and> ua_parse (rc_api rc) (rc_origin rc) = Some base \<and>
        rq_url rq = ua_set_pathname (rc_api rc) (''/api/v4/projects/'' @ e) base \<and>
        origin_of (rq_url rq) = origin_of base \<and> rq_query rq = [] \<and>
        rq_token rq = he_token (rc_env rc) \<and> he_send (rc_env rc) t0 rq = Some r \<and> hr_status r = s)"

lemma attempt_success:
  assumes "attempt env target scope t = (Inr x, rq)"
  shows "\<exists>q r. rq = Some q \<and> he_send env t q = Some r \<and> 200 \<le> hr_status r \<and> hr_status r < 300"
  using assms
  by (auto simp: attempt_def Let_def handle_response_def split: sum.splits option.splits if_splits)

lemma request_json_answer:
  assumes "request_json env target scope t = (res, lg)"
    and "(\<exists>x. res = Inr x) \<or> (\<exists>e. res = Inl e \<and> verdict_status e = Some s)"
  shows "\<exists>t0 rq r. rq_url rq = fst target \<and> rq_query rq = snd target \<and> rq_token rq = he_token env \<and>
    he_send env t0 rq = Some r \<and>
    (case res of Inr _ \<Rightarrow> 200 \<le> hr_status r \<and> hr_status r < 300 | Inl _ \<Rightarrow> hr_status r = s)"
proof -
  note l = attempts_log [OF assms(1) [unfolded request_json_def]]
  have res: "res \<noteq> Inl Gl_Aborted" "res \<noteq> Inl Gl_Timeout" "res \<noteq> Inl (Gl_Upstream_Unavailable None)"
    using assms(2) by (auto simp: verdict_status_def)
  with l have "lg \<noteq> []" by auto
  with l res have "last lg \<in> set lg" "lg_result (last lg) = res" by auto
  with l obtain t0 where a: "attempt env target scope t0 = (res, lg_request (last lg))"
    by (auto simp: list_all_iff log_entry_ok_def)
  obtain rq r where rq: "lg_request (last lg) = Some rq" "he_send env t0 rq = Some r"
    "case res of Inr _ \<Rightarrow> 200 \<le> hr_status r \<and> hr_status r < 300 | Inl _ \<Rightarrow> hr_status r = s"
  proof (cases res)
    case (Inr x)
    with attempt_success [of env target scope t0 x] a that show ?thesis by auto
  next
    case (Inl e)
    with attempt_verdict [of env target scope t0 e _ s] a assms(2) that show ?thesis by fastforce
  qed
  from a [unfolded rq(1)] have "rq_url rq = fst target \<and> rq_query rq = snd target \<and> rq_token rq = he_token env"
    by (rule attempt_request) simp
  with rq show ?thesis by blast
qed

lemma get_project_answer:
  assumes "get_project rc t q = res"
    and "(\<exists>p. res = Inr p) \<or> (\<exists>e. res = Inl e \<and> verdict_status e = Some s)"
  shows "\<exists>n. project_answer rc q n \<and> (case res of Inr _ \<Rightarrow> 200 \<le> n \<and> n < 300 | Inl _ \<Rightarrow> n = s)"
proof -
  have enc: "encode_project_id q = Inl e \<Longrightarrow> e = Gl_Invalid_Config" for e
    by (auto simp: encode_project_id_def Let_def split: if_splits)
  obtain e where e: "encode_project_id q = Inr e"
    using assms enc by (cases "encode_project_id q") (auto simp: get_project_def)
  obtain u query where u: "build_api_url (rc_api rc) (rc_origin rc) (''/api/v4/projects/'' @ e) [] = Inr (u, query)"
  proof (cases "build_api_url (rc_api rc) (rc_origin rc) (''/api/v4/projects/'' @ e) []")
    case (Inl e')
    then have "res = Inl e'" using assms(1) e by (simp add: get_project_def get_json_def)
    with assms(2) build_api_url_error [OF Inl] have False by auto
    then show thesis ..
  next
    case (Inr x)
    with that show thesis by (cases x) simp
  qed
  then have query: "query = []" by (auto simp: build_api_url_def Let_def split: if_splits option.splits)
  obtain raw lg where raw: "request_json (rc_env rc) (u, query) Project_Scope t = (raw, lg)"
    by (cases "request_json (rc_env rc) (u, query) Project_Scope t")
  have res: "res = bind_err raw (\<lambda>r. map_project (rr_json r))"
    using assms(1) e u raw by (simp add: get_project_def get_json_def)
  have "(\<exists>x. raw = Inr x) \<or> (\<exists>e. raw = Inl e \<and> verdict_status e = Some s)"
    using assms(2) res by (cases raw) auto
  from request_json_answer [OF raw this] obtain t0 rq r where
    rq: "rq_url rq = u" "rq_query rq = query" "rq_token rq = he_token (rc_env rc)"
      "he_send (rc_env rc) t0 rq = Some r"
      "case raw of Inr _ \<Rightarrow> 200 \<le> hr_status r \<and> hr_status r < 300 | Inl _ \<Rightarrow> hr_status r = s" by auto
  obtain base where "ua_parse (rc_api rc) (rc_origin rc) = Some base"
    "u = ua_set_pathname (rc_api rc) (''/api/v4/projects/'' @ e) base" "origin_of u = origin_of base"
    using build_api_url_Inr [OF u] by blast
  then have "project_answer rc q (hr_status r)"
    unfolding project_answer_def
    by (intro exI [of _ e] exI [of _ base] exI [of _ t0] exI [of _ rq] exI [of _ r])
      (use e rq(1-4) query in simp)
  moreover have "case res of Inr _ \<Rightarrow> 200 \<le> hr_status r \<and> hr_status r < 300 | Inl _ \<Rightarrow> hr_status r = s"
  proof (cases raw)
    case (Inr x)
    then show ?thesis
      using rq(5) res assms(2) mapper_errors(2) by (cases "map_project (rr_json x)") fastforce+
  qed (use rq(5) res in simp)
  ultimately show ?thesis by blast
qed

section \<open>What the service rests on\<close>

text \<open>GitLab answered a request for the project \<open>p\<close> with a status of \<open>S\<close>: the request went to the
  instance of the project as the database has it and carried the token that the provider gave for a
  connection of the user to this instance.\<close>

definition gitlab_answered ::
    "live_world \<Rightarrow> database \<Rightarrow> access_env \<Rightarrow> string \<Rightarrow> project_ref \<Rightarrow> int set \<Rightarrow> bool" where
  "gitlab_answered w db env uid p S \<longleftrightarrow>
     (\<exists>c \<in> set (t_connections db). \<exists>inst \<in> set (t_instances db). \<exists>t d pat rc s.
        cn_user c = uid \<and> cn_instance c = pr_instance p \<and> gi_id inst = pr_instance p \<and>
        ax_token env (cn_id c) d = Inr pat \<and> probe_client w inst pat t = Inr rc \<and>
        project_answer (rc (pr_project p)) (pr_project p) s \<and> s \<in> S)"

lemma probe_response_answer:
  assumes "probe_client w inst pat t = Inr rc"
  shows "probe_response rc q = Inr p \<Longrightarrow> \<exists>s. project_answer (rc q) q s \<and> s \<in> {200..<300}"
    and "probe_response rc q = Inl (Probe_Gitlab e) \<Longrightarrow> verdict_status e = Some s \<Longrightarrow> project_answer (rc q) q s"
proof -
  show "\<exists>s. project_answer (rc q) q s \<and> s \<in> {200..<300}" if "probe_response rc q = Inr p"
  proof -
    from that have "get_project (rc q) 0 q = Inr p" by (simp add: probe_response_def split: sum.splits)
    from get_project_answer [OF this, of 0] show ?thesis by auto
  qed
  show "project_answer (rc q) q s" if "probe_response rc q = Inl (Probe_Gitlab e)" "verdict_status e = Some s"
  proof -
    from that have "get_project (rc q) 0 q = Inl e" by (simp add: probe_response_def split: sum.splits)
    from get_project_answer [OF this, of s] that(2) show ?thesis by auto
  qed
qed

lemma live_probe_answer:
  assumes "live_probe w n instances t conn pat ids = Inr pr" and "q \<in> set ids" and "0 < n"
    and "pb_failed pr q = None"
  shows "\<exists>inst \<in> set instances. \<exists>rc s. gi_id inst = cn_instance conn \<and> probe_client w inst pat t = Inr rc \<and>
    project_answer (rc q) q s \<and> s \<in> (if pb_visible pr q \<noteq> None then {200..<300} else {403, 404})"
proof -
  have "ids \<noteq> []" using assms(2) by auto
  then obtain inst rc where i: "find (\<lambda>g. gi_id g = cn_instance conn) instances = Some inst"
    and rc: "probe_client w inst pat t = Inr rc"
    and out: "pool_outcome (run_pool (lw_pick w t) (probe_response rc) ids (length ids) (pool_start ids n)) =
      Some (Inr pr)"
    using assms(1) by (auto simp: live_probe_def split: option.splits sum.splits)
  from run_pool_outcome [OF assms(3), where pick = "lw_pick w t" and resp = "probe_response rc" and ids = ids] out assms(2)
  have a: "pb_visible pr q = visible_of (probe_response rc) q" "pb_failed pr q = failed_of (probe_response rc) q"
    "abort_of (probe_response rc) q = None" by simp_all
  have "\<exists>s. project_answer (rc q) q s \<and> s \<in> (if pb_visible pr q \<noteq> None then {200..<300} else {403, 404})"
  proof (cases "pb_visible pr q")
    case None
    with a assms(4) probe_answer_denied [of "probe_response rc" q]
    have "probe_response rc q = Inl (Probe_Gitlab Gl_Project_Forbidden) \<or>
        probe_response rc q = Inl (Probe_Gitlab Gl_Project_Not_Found)" by simp
    with probe_response_answer(2) [OF rc, of q Gl_Project_Forbidden 403]
      probe_response_answer(2) [OF rc, of q Gl_Project_Not_Found 404] None
    show ?thesis by (auto simp: verdict_status_def)
  next
    case (Some v)
    with a(1) have "visible_of (probe_response rc) q \<noteq> None" by (metis option.distinct(1))
    then obtain p where "probe_response rc q = Inr p" using probe_answer_visible by blast
    from probe_response_answer(1) [OF rc this] Some show ?thesis by simp
  qed
  moreover have "inst \<in> set instances" "gi_id inst = cn_instance conn" using i by (auto simp: find_Some_iff)
  ultimately show ?thesis using rc by blast
qed

lemma answered_by_gitlab:
  assumes "probe_answered (live_access w db env) (set (t_connections db)) uid p shown"
  shows "gitlab_answered w db env uid p (if shown then {200..<300} else {403, 404})"
proof -
  obtain t c d pat ids pr where c: "c \<in> set (t_connections db)" "ax_token env (cn_id c) d = Inr pat"
    "live_probe w default_probe_concurrency (t_instances db) t c pat ids = Inr pr" "cn_user c = uid"
    "cn_instance c = pr_instance p" "pr_project p \<in> set ids" "pb_failed pr (pr_project p) = None"
    "shown = (pb_visible pr (pr_project p) \<noteq> None)"
    using assms by (auto simp: probe_answered_def live_access_def)
  from live_probe_answer [OF c(3,6) _ c(7)] c(5,8)
  obtain inst rc s where "inst \<in> set (t_instances db)" "gi_id inst = pr_instance p"
    "probe_client w inst pat t = Inr rc" "project_answer (rc (pr_project p)) (pr_project p) s"
    "s \<in> (if shown then {200..<300} else {403, 404})"
    by (auto simp: default_probe_concurrency_def)
  with c show ?thesis unfolding gitlab_answered_def by blast
qed

text \<open>The client of a probe speaks to the instance of the database with the token it was given.\<close>

lemma probe_client_fields:
  "probe_client w inst pat t = Inr rc \<Longrightarrow>
     rc_origin (rc q) = gi_base_url inst \<and> he_token (rc_env (rc q)) = pat \<and> rc_api (rc q) = lw_api w \<and>
     create_gitlab_allowlist (lw_api w) True [(gi_base_url inst, gi_internal inst)] = Inr (he_allow (rc_env (rc q)))"
  by (auto simp: probe_client_def create_read_client_def split: sum.splits if_splits)

text \<open>The listing of a user, with the lemmas of the service.\<close>

lemma listing_evidence:
  assumes "authorized_project_ids env uid t db = (ps, t', db')"
    and "\<And>now c r d. t_memberships (ax_invalidate env now c r d) = t_memberships d"
  shows "cache_from env (set (t_connections db)) db db'"
    and "p \<in> set ps \<Longrightarrow> evidence env (set (t_connections db)) uid p t db"
proof -
  obtain its where its: "list_for_user env uid t db = (its, t', db')"
    and ps: "ps = map (\<lambda>i. \<lparr>pr_instance = pi_instance i, pr_project = pi_project i\<rparr>)
      (filter (\<lambda>i. pi_enabled i \<and> pi_visible i \<and> pi_error i = None) its)"
    using assms(1) by (auto simp: authorized_project_ids_def split: prod.splits)
  note items = list_connections_items [OF its [unfolded list_for_user_def] assms(2),
      of "set (t_connections db)"]
  show "cache_from env (set (t_connections db)) db db'" using items by auto
  show "evidence env (set (t_connections db)) uid p t db" if "p \<in> set ps"
    using items that by (fastforce simp: ps list_all_iff item_ok_def)
qed

section \<open>Property\<close>

text \<open>C19. What a listing reports and remembers rests on answers of GitLab. A project is authorised only
  on a fresh allowed row of the user for it or on a 2xx answer to a request of this service, and a
  new row of the membership cache says allowed only on a 2xx and denied only on a 403 or 404. The
  request asked for this project at its own instance and carried the token that the credential
  provider gave for the user's own connection; whatever else happens (a rate limit, an outage, an
  abort, an address that is not permitted) leaves no row.\<close>

theorem live_listing_rests_on_answers:
  assumes "authorized_project_ids (live_access w db env) uid t db = (ps, t', db')"
    and "ax_invalidate env = invalidate_credential"
  shows "(\<forall>m \<in> set (t_memberships db'). m \<in> set (t_memberships db) \<or>
      gitlab_answered w db env (mb_user m) (row_project m) (if mb_allowed m then {200..<300} else {403, 404})) \<and>
    (\<forall>p \<in> set ps. gitlab_answered w db env uid p {200..<300} \<or>
      (\<exists>m \<in> set (t_memberships db). membership_for uid p m \<and> mb_allowed m \<and>
        (\<exists>t0 \<ge> t. ax_now env t0 < mb_expires_at m)))"
proof -
  have inv: "t_memberships (ax_invalidate (live_access w db env) now c r d) = t_memberships d" for now c r d
    by (simp add: live_access_def assms(2))
  note l = listing_evidence [OF assms(1) inv]
  have "m \<in> set (t_memberships db) \<or>
      gitlab_answered w db env (mb_user m) (row_project m) (if mb_allowed m then {200..<300} else {403, 404})"
    if "m \<in> set (t_memberships db')" for m
    using l(1) that answered_by_gitlab by (fastforce simp: cache_from_def)
  moreover have "gitlab_answered w db env uid p {200..<300} \<or>
      (\<exists>m \<in> set (t_memberships db). membership_for uid p m \<and> mb_allowed m \<and>
        (\<exists>t0 \<ge> t. ax_now env t0 < mb_expires_at m))" if "p \<in> set ps" for p
    using l(2) [OF that] answered_by_gitlab [of w db env uid p True]
    by (auto simp: evidence_def live_access_def)
  ultimately show ?thesis by blast
qed

text \<open>A sample: GitLab answers 404 for the project 42.\<close>

definition sample_live :: live_world where
  "sample_live =
     \<lparr>lw_api = rc_api sample_client, lw_param_of = rc_param_of sample_client, lw_iso = rc_iso sample_client,
      lw_http = (\<lambda>_ _. sample_http\<lparr>he_send := \<lambda>_ _. Some \<lparr>hr_status = 404, hr_headers = Map.empty, hr_body = []\<rparr>\<rparr>),
      lw_pick = (\<lambda>_ _. 0)\<rparr>"

definition sample_live_db :: database where
  "sample_live_db = sample_db\<lparr>t_instances := [sample_instance]\<rparr>"

lemma sample_not_found:
  "\<exists>rc. probe_client sample_live sample_instance ''glpat-1'' t = Inr rc \<and>
     get_project (rc ''42'') 0 ''42'' = Inl Gl_Project_Not_Found"
proof -
  let ?env = "sample_http\<lparr>he_send := \<lambda>_ _. Some \<lparr>hr_status = 404, hr_headers = Map.empty, hr_body = []\<rparr>\<rparr>"
  let ?rc = "sample_client\<lparr>rc_env := ?env\<rparr>"
  have al: "create_gitlab_allowlist (rc_api sample_client) True [(''https://g'', False)] = Inr [(''https://g'', False)]"
    by (simp add: create_gitlab_allowlist_def sample_normalize find_entry_def)
  have env: "?env\<lparr>he_allow := [(''https://g'', False)], he_token := ''glpat-1''\<rparr> = ?env"
    by (simp add: sample_http_def)
  have "probe_client sample_live sample_instance ''glpat-1'' t = Inr (\<lambda>q. ?rc)"
    using al env
    by (simp add: probe_client_def sample_live_def sample_instance_def create_read_client_def)
      (simp add: sample_client_def sample_http_def)
  moreover have "get_project ?rc 0 ''42'' = Inl Gl_Project_Not_Found"
  proof -
    obtain d where d: "ssrf_check [(''https://g'', False)]
        (\<lambda>_. Some [\<lparr>ra_address = show_ipv4 [1, 2, 3, 4], ra_family = 4\<rparr>]) sample_url = Inr d"
      using sample_check by blast
    then obtain rq where a: "attempt ?env (sample_url, []) Project_Scope (Suc (Suc 0)) = (Inl Gl_Project_Not_Found, Some rq)"
      by (simp add: attempt_def sample_http_def pat_credential_def handle_response_def Let_def)
    have "request_json ?env (sample_url, []) Project_Scope 0 =
        (Inl Gl_Project_Not_Found, [\<lparr>lg_start = 1, lg_timeout = 15000, lg_request = Some rq,
           lg_result = Inl Gl_Project_Not_Found\<rparr>])"
      using attempts_permanent [of ?env 1 45000 "(sample_url, [])" Project_Scope Gl_Project_Not_Found
          "Some rq" 3 1 None] a
      by (simp add: request_json_def is_retryable_def sample_http_def default_limits_def)
    moreover have "build_api_url (rc_api ?rc) (rc_origin ?rc) ''/api/v4/projects/42'' [] = Inr (sample_url, [])"
      by (simp add: build_api_url_def sample_client_def sample_url_def starts_with_def)
    moreover have "encode_project_id ''42'' = Inr ''42''"
      by (simp add: encode_project_id_def encode_uri_component_def js_trim_def js_trim_start_def
          is_js_space_def unreserved_def is_digit_def)
    ultimately show ?thesis by (simp add: get_project_def get_json_def)
  qed
  ultimately show ?thesis by blast
qed

lemma sample_live_probe:
  assumes "cn_instance c = ''gi1''"
  shows "live_probe sample_live 5 [sample_instance] t c ''glpat-1'' [''42''] =
    Inr \<lparr>pb_visible = Map.empty, pb_failed = Map.empty\<rparr>"
proof -
  obtain rc where rc: "probe_client sample_live sample_instance ''glpat-1'' t = Inr rc"
    "get_project (rc ''42'') 0 ''42'' = Inl Gl_Project_Not_Found" using sample_not_found by blast
  have "probe_answer_of (probe_response rc ''42'') = Answer_Denied"
    by (simp add: probe_response_def rc(2) probe_answer_of_def)
  then show ?thesis
    using assms rc(1)
    by (simp add: live_probe_def sample_instance_def pool_start_def pool_outcome_def pool_complete_def
        take_next_def sample_live_def Let_def upt_rec)
qed

lemma sample_live_resolve:
  "\<exists>db1. resolve_visibility (live_access sample_live sample_live_db sample_access)
      (sample_connection ''u1'' ''gi1'') [''42''] 0 sample_live_db = (Inr [''42'' \<mapsto> Vis_Denied], 3, db1) \<and>
     (\<exists>m. t_memberships db1 = [m] \<and> mb_user m = ''u1'' \<and> row_project m = sample_project \<and> \<not> mb_allowed m)"
proof -
  let ?env = "live_access sample_live sample_live_db sample_access" and ?c = "sample_connection ''u1'' ''gi1''"
  have c: "cn_instance ?c = ''gi1''" "cn_user ?c = ''u1''" by (simp_all add: sample_connection_def)
  have gi: "t_instances sample_live_db = [sample_instance]" "t_memberships sample_live_db = []"
    by (simp_all add: sample_live_db_def sample_db_def empty_db_def)
  have cache: "cached_visibility ?env ?c [''42''] 0 sample_live_db = Map.empty"
    by (simp add: cached_visibility_def lookup_fresh_many_def gi fun_eq_iff)
  have probe: "probe_allowlisted_projects ?env ?c [''42''] (Suc 0) sample_live_db =
      Inr \<lparr>pb_visible = Map.empty, pb_failed = Map.empty\<rparr>"
    using sample_live_probe [OF c(1), of "Suc 0"]
    by (simp add: probe_allowlisted_projects_def live_access_def sample_access_def
        default_probe_concurrency_def gi)
  show ?thesis
    by (simp add: resolve_visibility_def cache probe c)
      (simp add: write_membership_def put_membership_def upsert_where_def gi row_project_def sample_project_def
        Let_def)
qed

lemma sample_live_listing:
  "\<exists>db'. authorized_project_ids (live_access sample_live sample_live_db sample_access) ''u1'' 0 sample_live_db =
     ([], 3, db') \<and>
     (\<exists>m. t_memberships db' = [m] \<and> mb_user m = ''u1'' \<and> row_project m = sample_project \<and> \<not> mb_allowed m)"
proof -
  have cs: "filter (\<lambda>c. cn_user c = ''u1'' \<and> cn_status c = Conn_Active) (t_connections sample_live_db) =
      [sample_connection ''u1'' ''gi1'']"
    by (simp add: sample_live_db_def sample_db_def sample_connection_def)
  have al: "t_allowlist sample_live_db = [\<lparr>al_id = ''a1'', al_instance = ''gi1'', al_project = ''42'',
      al_path = None, al_created_at = 0\<rparr>]"
    by (simp add: sample_live_db_def sample_db_def)
  have c: "cn_instance (sample_connection ''u1'' ''gi1'') = ''gi1''" by (simp add: sample_connection_def)
  obtain db1 where res: "resolve_visibility (live_access sample_live sample_live_db sample_access)
      (sample_connection ''u1'' ''gi1'') [''42''] 0 sample_live_db = (Inr [''42'' \<mapsto> Vis_Denied], 3, db1)"
    and m: "\<exists>m. t_memberships db1 = [m] \<and> mb_user m = ''u1'' \<and> row_project m = sample_project \<and> \<not> mb_allowed m"
    using sample_live_resolve by blast
  have kp: "keep_path (Some Vis_Denied) a d = d" for a d
    by (simp add: keep_path_def entry_ref_def blank_to_null_def)
  have "authorized_project_ids (live_access sample_live sample_live_db sample_access) ''u1'' 0 sample_live_db =
      ([], 3, db1)"
    unfolding authorized_project_ids_def list_for_user_def cs al
    by (simp add: c res kp item_of_entry_def Let_def)
  with m show ?thesis by blast
qed

theorem live_listing_rests_on_answers_witness:
  "\<exists>db'. authorized_project_ids (live_access sample_live sample_live_db sample_access) ''u1'' 0 sample_live_db =
     ([], 3, db') \<and> t_memberships db' \<noteq> [] \<and>
     gitlab_answered sample_live sample_live_db sample_access ''u1'' sample_project {403, 404}"
proof -
  obtain db' m where db': "authorized_project_ids (live_access sample_live sample_live_db sample_access) ''u1'' 0
      sample_live_db = ([], 3, db')" and m: "t_memberships db' = [m]" "mb_user m = ''u1''"
      "row_project m = sample_project" "\<not> mb_allowed m"
    using sample_live_listing by blast
  have "t_memberships sample_live_db = []" by (simp add: sample_live_db_def sample_db_def empty_db_def)
  with live_listing_rests_on_answers [OF db'] m db' show ?thesis
    by (auto simp: sample_access_def)
qed

end
