(* ===== verification/QueueLifecycle.thy ===== *)
theory QueueLifecycle
  imports QueueProtocol
begin

text \<open>
  The queue as its clients think of it: for each project an automaton with three kinds of state.
  The project is idle, it has a job that waits with some number of attempts behind it, or a worker
  holds its job. The theory gives this abstract specification and shows that the concurrent queue
  of \<open>QueueProtocol\<close> refines it: every transaction moves a project along an edge of the automaton
  or leaves it where it is.
\<close>

section \<open>The automaton\<close>

datatype phase = Idle | Waiting nat | Held nat string

text \<open>A job starts to wait with no attempt behind it. Taking it counts as an attempt, up to the
  fifth. It is given back with the attempts it has, or, when its sync was only put off, with one
  less. A job that has ended, or that the administrator has stopped, leaves its project idle.\<close>

fun phase_edge :: "phase \<Rightarrow> phase \<Rightarrow> bool" where
  "phase_edge Idle (Waiting n) \<longleftrightarrow> n = 0"
| "phase_edge (Waiting n) (Held m w) \<longleftrightarrow> m = n + 1 \<and> m \<le> 5"
| "phase_edge (Waiting n) Idle \<longleftrightarrow> True"
| "phase_edge (Held n w) (Waiting m) \<longleftrightarrow> m < 5 \<and> (m = n \<or> m + 1 = n)"
| "phase_edge (Held n w) Idle \<longleftrightarrow> True"
| "phase_edge _ _ \<longleftrightarrow> False"

definition phase_step :: "phase \<Rightarrow> phase \<Rightarrow> bool" where
  "phase_step a b \<longleftrightarrow> a = b \<or> phase_edge a b"

inductive phase_run :: "phase \<Rightarrow> phase \<Rightarrow> bool" where
  rest: "phase_run a a"
| move: "phase_run a b \<Longrightarrow> phase_step b c \<Longrightarrow> phase_run a c"

text \<open>The abstraction: the phase of a row, and that of a project's active row.\<close>

definition row_phase :: "job_row \<Rightarrow> phase" where
  "row_phase j =
     (case (j_status j, j_claimed_by j) of
        (Pending, _) \<Rightarrow> Waiting (j_attempts j)
      | (Running, Some w) \<Rightarrow> Held (j_attempts j) w
      | _ \<Rightarrow> Idle)"

definition phase_of :: "project_ref \<Rightarrow> queue_sys \<Rightarrow> phase" where
  "phase_of p s = (case find (active_for p) (qs_jobs s) of None \<Rightarrow> Idle | Some j \<Rightarrow> row_phase j)"

section \<open>The active row of a project\<close>

lemma count_le_1_unique:
  assumes "count_where Q rows \<le> 1" "x \<in> set rows" "y \<in> set rows" "Q x" "Q y"
  shows "x = y"
proof -
  have "x \<in> set (filter Q rows)" "y \<in> set (filter Q rows)" using assms by auto
  with assms(1) show ?thesis
    by (cases "filter Q rows"; cases "tl (filter Q rows)") (auto simp: count_where_def)
qed

lemma active_row_Some:
  assumes "jobs_ok jobs"
  shows "find (active_for p) jobs = Some j \<longleftrightarrow> j \<in> set jobs \<and> active_for p j"
proof
  assume "j \<in> set jobs \<and> active_for p j"
  moreover then obtain k where k: "find (active_for p) jobs = Some k"
    by (cases "find (active_for p) jobs") (auto simp: find_None_iff)
  moreover from k have "k \<in> set jobs \<and> active_for p k" by (auto simp: find_Some_iff)
  ultimately show "find (active_for p) jobs = Some j"
    using assms count_le_1_unique [of "active_for p" jobs j k]
    by (auto simp: jobs_ok_def single_active_def)
qed (auto simp: find_Some_iff)

lemma active_row_None: "find (active_for p) jobs = None \<longleftrightarrow> (\<forall>j \<in> set jobs. \<not> active_for p j)"
  by (auto simp: find_None_iff)

lemma row_phase_inactive: "\<not> is_active j \<Longrightarrow> row_phase j = Idle"
  by (auto simp: row_phase_def is_active_def split: job_status.splits)

text \<open>An update of active rows moves the phase of a project as it moves the phase of its row.\<close>

lemma phase_upd_where:
  assumes ok: "jobs_ok (qs_jobs s)" and f: "keeps_identity f"
    and act: "\<And>j. P j \<Longrightarrow> is_active (f j) \<Longrightarrow> is_active j"
    and row: "\<And>j. row_ok j \<Longrightarrow> P j \<Longrightarrow> is_active j \<Longrightarrow> phase_edge (row_phase j) (row_phase (f j)) \<or> row_phase (f j) = row_phase j"
    and ok': "jobs_ok (upd_where P f (qs_jobs s))"
  shows "phase_step (phase_of p s) (phase_of p (s\<lparr>qs_jobs := upd_where P f (qs_jobs s)\<rparr>))"
proof (cases "find (active_for p) (qs_jobs s)")
  case None
  then have "find (active_for p) (upd_where P f (qs_jobs s)) = None"
    using no_new_active_upd [OF f act] by (auto simp: active_row_None no_new_active_def)
  with None show ?thesis by (simp add: phase_of_def phase_step_def)
next
  case (Some j)
  then have j: "j \<in> set (qs_jobs s)" "active_for p j" by (simp_all add: active_row_Some [OF ok])
  let ?j = "if P j then f j else j"
  have in': "?j \<in> set (upd_where P f (qs_jobs s))" using j by (auto simp: set_upd_where)
  have "phase_of p (s\<lparr>qs_jobs := upd_where P f (qs_jobs s)\<rparr>) = row_phase ?j"
  proof (cases "is_active ?j")
    case True
    with j f have "active_for p ?j" by (auto simp: active_for_def keeps_identityD)
    with in' have "find (active_for p) (upd_where P f (qs_jobs s)) = Some ?j"
      by (simp only: active_row_Some [OF ok'])
    then show ?thesis by (simp add: phase_of_def)
  next
    case False
    have "\<not> active_for p (if P k then f k else k)" if k: "k \<in> set (qs_jobs s)" for k
    proof
      assume a: "active_for p (if P k then f k else k)"
      then have "active_for p k" using f act by (auto simp: active_for_def keeps_identityD split: if_splits)
      with k Some have "k = j" using active_row_Some [OF ok, of p k] by simp
      with a False show False by (auto simp: active_for_def split: if_splits)
    qed
    then have "\<forall>k \<in> set (upd_where P f (qs_jobs s)). \<not> active_for p k"
      unfolding set_upd_where by blast
    then have "find (active_for p) (upd_where P f (qs_jobs s)) = None"
      by (simp only: active_row_None)
    with False show ?thesis by (simp add: phase_of_def row_phase_inactive)
  qed
  moreover have "row_ok j" using ok j by (auto simp: jobs_ok_def list_all_iff)
  moreover have "is_active j" using j by (simp add: active_for_def)
  ultimately show ?thesis
    using row [of j] Some by (auto simp: phase_of_def phase_step_def)
qed

section \<open>The phase of a row under each update\<close>

lemma claim_phase:
  "claimable now locked j \<Longrightarrow> phase_edge (row_phase j) (row_phase (claim_row t w j))"
  by (auto simp: row_phase_def claim_row_def claimable_def max_sync_job_attempts_def)

lemma running_phase:
  "row_ok j \<Longrightarrow> j_status j = Running \<Longrightarrow>
     \<exists>w. row_phase j = Held (j_attempts j) w \<and> 1 \<le> j_attempts j \<and> j_attempts j \<le> 5"
  by (auto simp: row_phase_def row_ok_def max_sync_job_attempts_def)

lemma complete_phase: "row_phase (complete_row now j) = Idle"
  by (simp add: row_phase_def complete_row_def)

lemma fail_phase:
  "row_phase (fail_row now e r j) =
     (if r \<noteq> None \<and> j_attempts j < 5 then Waiting (j_attempts j) else Idle)"
  by (auto simp: row_phase_def fail_row_def Let_def max_sync_job_attempts_def)

lemma recover_phase:
  "row_phase (recover_row now j) = (if j_attempts j < 5 then Waiting (j_attempts j) else Idle)"
  by (auto simp: row_phase_def recover_row_def Let_def max_sync_job_attempts_def)

lemma reschedule_phase: "row_phase (reschedule_row now ra j) = Waiting (j_attempts j - 1)"
  by (simp add: row_phase_def reschedule_row_def)

lemma blocked_phase: "row_phase (blocked_row now m j) = Idle"
  by (simp add: row_phase_def blocked_row_def)

lemma heartbeat_phase: "row_phase (heartbeat_row now j) = row_phase j"
  by (simp add: row_phase_def heartbeat_row_def split: job_status.split option.split)

lemma active_phase: "row_ok j \<Longrightarrow> is_active j \<Longrightarrow> row_phase j \<noteq> Idle"
  by (auto simp: row_phase_def row_ok_def is_active_def)

lemmas row_phases =
  complete_phase fail_phase recover_phase reschedule_phase blocked_phase heartbeat_phase

lemma phase_own_update:
  assumes ok: "jobs_ok (qs_jobs s)" and f: "keeps_identity f"
    and ok': "jobs_ok (snd (own_update jid w f (qs_jobs s)))"
    and row: "\<And>j v. row_phase j = Held (j_attempts j) v \<Longrightarrow> 1 \<le> j_attempts j \<Longrightarrow> j_attempts j \<le> 5 \<Longrightarrow>
      phase_edge (row_phase j) (row_phase (f j)) \<or> row_phase (f j) = row_phase j"
  shows "phase_step (phase_of p s) (phase_of p (s\<lparr>qs_jobs := snd (own_update jid w f (qs_jobs s))\<rparr>))"
  unfolding own_update_def snd_conv
proof (rule phase_upd_where [OF ok f])
  show "is_active j" if "owned jid w j" for j
    using that by (simp add: owned_def is_active_def)
  show "phase_edge (row_phase j) (row_phase (f j)) \<or> row_phase (f j) = row_phase j"
    if "row_ok j" "owned jid w j" for j
    using running_phase [of j] row [of j] that by (auto simp: owned_def)
qed (use ok' in \<open>simp add: own_update_def\<close>)

lemma claim_as_upd_where:
  assumes "jobs_ok jobs"
  shows "snd (claim now locked w jobs) = jobs \<or>
    (\<exists>P. (\<forall>k. P k \<longrightarrow> claimable now locked k) \<and>
         snd (claim now locked w jobs) = upd_where P (claim_row now w) jobs)"
proof (cases "js_trim w = []")
  case False
  show ?thesis
  proof (rule claim_cases [OF assms False, of now locked])
    fix j s
    assume eq: "claim now locked w jobs =
        (Inr (Some s), upd_where (\<lambda>k. j_id k = j_id j) (claim_row now w) jobs)"
      and j: "earliest now locked jobs j"
    have "k = j" if "k \<in> set jobs" "j_id k = j_id j" for k
      using that j assms by (auto simp: earliest_def jobs_ok_def distinct_map inj_on_def)
    then have "upd_where (\<lambda>k. j_id k = j_id j) (claim_row now w) jobs =
        upd_where (\<lambda>k. j_id k = j_id j \<and> claimable now locked k) (claim_row now w) jobs"
      using j by (auto simp: upd_where_def earliest_def)
    with eq show ?thesis
      by (intro disjI2 exI [of _ "\<lambda>k. j_id k = j_id j \<and> claimable now locked k"]) simp
  qed simp
qed (simp add: claim_def)

section \<open>The refinement\<close>

lemma phase_insert:
  assumes inv: "queue_inv s" and lock: "qs_locks s q = Some r" and fresh: "jid \<notin> j_id ` set (qs_jobs s)"
  shows "phase_step (phase_of p s)
    (phase_of p (s\<lparr>qs_jobs := qs_jobs s @ [new_job jid q r now], qs_locks := (qs_locks s)(q := None)\<rparr>))"
proof -
  have none: "\<forall>j \<in> set (qs_jobs s). \<not> active_for q j" using inv lock by (auto simp: queue_inv_def)
  have new: "active_for p (new_job jid q r now) \<longleftrightarrow> p = q"
    by (cases p; cases q) (auto simp: active_for_def job_for_def new_job_def is_active_def)
  have find_append: "find Q (xs @ [x]) = (case find Q xs of None \<Rightarrow> if Q x then Some x else None | Some y \<Rightarrow> Some y)"
    for Q :: "job_row \<Rightarrow> bool" and xs x by (induction xs) auto
  have wait: "row_phase (new_job jid q r now) = Waiting 0" by (simp add: row_phase_def new_job_def)
  have "find (active_for q) (qs_jobs s) = None" using none by (simp add: active_row_None)
  then show ?thesis
    by (cases "p = q"; cases "find (active_for p) (qs_jobs s)")
      (simp_all add: phase_of_def phase_step_def find_append new wait)
qed

lemma phase_step_refl [simp]: "phase_step a a"
  by (simp add: phase_step_def)

lemma queue_step_phase: "queue_step s t \<Longrightarrow> queue_inv s \<Longrightarrow> phase_step (phase_of p s) (phase_of p t)"
proof (induction rule: queue_step.induct)
  case (insert_begin s q run_after)
  then show ?case by (simp add: phase_of_def)
next
  case (insert_commit s q run_after jid now)
  then show ?case by (intro phase_insert)
next
  case (insert_abort s q run_after)
  then show ?case by (simp add: phase_of_def)
next
  case (claim_step s now locked w)
  then have ok: "jobs_ok (qs_jobs s)" by (simp add: queue_inv_def)
  from claim_as_upd_where [OF ok, of now locked w] show ?case
  proof
    assume "\<exists>P. (\<forall>k. P k \<longrightarrow> claimable now locked k) \<and>
        snd (claim now locked w (qs_jobs s)) = upd_where P (claim_row now w) (qs_jobs s)"
    then obtain P where P: "\<And>k. P k \<Longrightarrow> claimable now locked k"
      "snd (claim now locked w (qs_jobs s)) = upd_where P (claim_row now w) (qs_jobs s)" by blast
    have "jobs_ok (upd_where P (claim_row now w) (qs_jobs s))"
      using jobs_ok_claim [OF ok, of now locked w] by (simp add: P(2))
    then show ?thesis
      unfolding P(2) by (intro phase_upd_where [OF ok])
        (use P(1) in \<open>auto simp: row_keep claimable_def is_active_def intro!: claim_phase\<close>)
  qed simp
next
  case (complete_step s now jid w)
  then have ok: "jobs_ok (qs_jobs s)" by (simp add: queue_inv_def)
  then show ?case using complete_q.oper_invar [OF ok, of now jid w] unfolding complete_def
    by (intro phase_own_update) (simp_all add: row_keep row_phases)
next
  case (fail_step s now jid w err retry_at)
  then have ok: "jobs_ok (qs_jobs s)" by (simp add: queue_inv_def)
  then show ?case using fail_q.oper_invar [OF ok, of now jid w err retry_at] unfolding fail_def
    by (intro phase_own_update) (simp_all add: row_keep row_phases)
next
  case (reschedule_step s now jid w run_after)
  then have ok: "jobs_ok (qs_jobs s)" by (simp add: queue_inv_def)
  then show ?case using reschedule_q.oper_invar [OF ok, of now jid w run_after] unfolding reschedule_def
    by (intro phase_own_update) (auto simp: row_keep row_phases)
next
  case (blocked_step s now jid w err)
  then have ok: "jobs_ok (qs_jobs s)" by (simp add: queue_inv_def)
  then show ?case using blocked_q.oper_invar [OF ok, of now jid w err] unfolding sync_blocked_def
    by (intro phase_own_update) (simp_all add: row_keep row_phases)
next
  case (heartbeat_step s now jid w)
  then have ok: "jobs_ok (qs_jobs s)" by (simp add: queue_inv_def)
  then show ?case using heartbeat_q.oper_invar [OF ok, of now jid w] unfolding heartbeat_def
    by (intro phase_own_update) (simp_all add: row_keep row_phases)
next
  case (recover_step s now stale_seconds)
  then have ok: "jobs_ok (qs_jobs s)" by (simp add: queue_inv_def)
  have "phase_edge (row_phase j) (row_phase (recover_row now j))"
    if "row_ok j" "stale_claim now stale_seconds j" for j
    using running_phase [of j] that by (auto simp: stale_claim_def recover_phase)
  then show ?case
    using jobs_ok_recover [OF ok, of now stale_seconds] unfolding recover_stale_claims_def snd_conv
    by (intro phase_upd_where [OF ok]) (auto simp: row_keep stale_claim_def is_active_def)
next
  case (remove_project_step s now inst proj)
  then have ok: "jobs_ok (qs_jobs s)" by (simp add: queue_inv_def)
  have "phase_edge (row_phase j) Idle" if "row_ok j" "is_active j" for j
    using active_phase [OF that] by (cases "row_phase j") auto
  then show ?case
    using jobs_ok_block_project [OF ok, of now inst proj] unfolding block_project_jobs_def
    by (intro phase_upd_where [OF ok]) (auto simp: row_keep blocked_phase)
next
  case (remove_instance_step s now inst)
  then have ok: "jobs_ok (qs_jobs s)" by (simp add: queue_inv_def)
  have "phase_edge (row_phase j) Idle" if "row_ok j" "is_active j" for j
    using active_phase [OF that] by (cases "row_phase j") auto
  then show ?case
    using jobs_ok_block_instance [OF ok, of now inst] unfolding block_instance_jobs_def
    by (intro phase_upd_where [OF ok]) (auto simp: row_keep blocked_phase)
qed

text \<open>The abstraction is exact: a project is held by a worker just when its active row runs with that
  worker's claim, and it waits just when its active row is pending.\<close>

lemma phase_of_iff:
  assumes "queue_inv s"
  shows "phase_of p s = Held n w \<longleftrightarrow>
      (\<exists>j \<in> set (qs_jobs s). active_for p j \<and> j_status j = Running \<and> j_claimed_by j = Some w \<and> j_attempts j = n)"
    and "phase_of p s = Waiting n \<longleftrightarrow>
      (\<exists>j \<in> set (qs_jobs s). active_for p j \<and> j_status j = Pending \<and> j_attempts j = n)"
proof -
  have ok: "jobs_ok (qs_jobs s)" using assms by (simp add: queue_inv_def)
  have ph: "phase_of p s = c \<longleftrightarrow> (\<exists>j \<in> set (qs_jobs s). active_for p j \<and> row_phase j = c)" if "c \<noteq> Idle" for c
  proof (cases "find (active_for p) (qs_jobs s)")
    case None
    then have "\<forall>j \<in> set (qs_jobs s). \<not> active_for p j" by (simp only: active_row_None)
    with None that show ?thesis by (auto simp: phase_of_def)
  next
    case (Some j)
    then have "k = j" if "k \<in> set (qs_jobs s)" "active_for p k" for k
      using that active_row_Some [OF ok, of p k] by simp
    with Some active_row_Some [OF ok, of p j] show ?thesis by (auto simp: phase_of_def)
  qed
  have row: "row_phase j = Held n w \<longleftrightarrow>
      j_status j = Running \<and> j_claimed_by j = Some w \<and> j_attempts j = n"
    "row_phase j = Waiting n \<longleftrightarrow> j_status j = Pending \<and> j_attempts j = n" for j
    by (auto simp: row_phase_def split: job_status.splits option.splits)
  show "phase_of p s = Held n w \<longleftrightarrow>
      (\<exists>j \<in> set (qs_jobs s). active_for p j \<and> j_status j = Running \<and> j_claimed_by j = Some w \<and> j_attempts j = n)"
    by (simp add: ph row)
  show "phase_of p s = Waiting n \<longleftrightarrow>
      (\<exists>j \<in> set (qs_jobs s). active_for p j \<and> j_status j = Pending \<and> j_attempts j = n)"
    by (simp add: ph row)
qed

lemma reachable_phase_run: "queue_reachable s \<Longrightarrow> phase_run Idle (phase_of p s)"
proof (induction rule: queue_reachable.induct)
  case start
  then show ?case by (simp add: phase_of_def init_queue_def phase_run.rest)
next
  case (step s t)
  then show ?case
    using queue_step_phase [OF step(2) reachable_queue_inv [OF step(1)]] by (blast intro: phase_run.move)
qed

text \<open>No run of the automaton goes past five attempts, so none of the queue does.\<close>

fun phase_attempts :: "phase \<Rightarrow> nat" where
  "phase_attempts Idle = 0"
| "phase_attempts (Waiting n) = n"
| "phase_attempts (Held n w) = n"

lemma phase_run_attempts: "phase_run a b \<Longrightarrow> phase_attempts a \<le> 5 \<Longrightarrow> phase_attempts b \<le> 5"
proof (induction rule: phase_run.induct)
  case (move a b c)
  then show ?case by (cases b; cases c) (auto simp: phase_step_def)
qed

section \<open>Property\<close>

text \<open>C3. The queue refines a small automaton for each project. Whatever transactions interleave, the
  project is idle, its job waits with n attempts behind it, or a worker holds the job, and each
  transaction moves it along an edge or leaves it: a job starts to wait with no attempts, a worker
  takes it from waiting only (never from another worker) and that counts as one of five attempts,
  and it goes back to waiting with the same attempts, or one less, and fewer than five.\<close>

theorem queue_refines_lifecycle:
  assumes "queue_reachable s" and "queue_step s t"
  shows "phase_run Idle (phase_of p s) \<and> phase_step (phase_of p s) (phase_of p t) \<and>
    (\<forall>n w. phase_of p s = Held n w \<longleftrightarrow>
      (\<exists>j \<in> set (qs_jobs s). active_for p j \<and> j_status j = Running \<and> j_claimed_by j = Some w \<and> j_attempts j = n)) \<and>
    (\<forall>n. phase_of p s = Waiting n \<longleftrightarrow>
      (\<exists>j \<in> set (qs_jobs s). active_for p j \<and> j_status j = Pending \<and> j_attempts j = n))"
  using reachable_phase_run [OF assms(1)] queue_step_phase [OF assms(2) reachable_queue_inv [OF assms(1)]]
    phase_of_iff [OF reachable_queue_inv [OF assms(1)]] by simp

theorem queue_refines_lifecycle_witness:
  "phase_step (phase_of sample_project sample_queue) (phase_of sample_project sample_running) \<and>
   phase_of sample_project sample_queue = Waiting 0 \<and>
   phase_of sample_project sample_running = Held 1 ''w1''"
proof -
  have step: "queue_step sample_queue sample_running"
    unfolding sample_running_def by (rule queue_step.claim_step)
  have "phase_of sample_project sample_queue = Waiting 0"
    by (simp add: phase_of_def sample_queue_def active_for_def job_for_def is_active_def new_job_def
        row_phase_def)
  moreover have "phase_of sample_project sample_running = Held 1 ''w1''"
    by (simp add: phase_of_def sample_running_def sample_claim active_for_def job_for_def is_active_def
        new_job_def claim_row_def row_phase_def)
  ultimately show ?thesis
    using queue_refines_lifecycle [OF sample_reachable step, of sample_project] by simp
qed

end
