(* ===== verification/EnvCheck.thy ===== *)
theory EnvCheck
  imports WebHttp
begin

text \<open>
  The configuration of the processes: \<open>packages/db/src/env.ts\<close> (the preflight of web and worker and the
  worker's numbers) and the merge of \<open>load-env.ts\<close>. \<open>new URL\<close> is a parameter: its origin, protocol and
  path, \<open>None\<close> where it throws.
\<close>

record env_url =
  eu_origin :: string
  eu_protocol :: string
  eu_pathname :: string

type_synonym env = "string \<Rightarrow> string option"

section \<open>Results\<close>

record env_issue =
  ei_key :: string
  ei_message :: string

record env_check =
  er_ok :: bool
  er_issues :: "env_issue list"
  er_warnings :: "env_issue list"

definition issue :: "string \<Rightarrow> string \<Rightarrow> env_issue" where
  "issue k m = \<lparr>ei_key = k, ei_message = m\<rparr>"

definition env_raw :: "env \<Rightarrow> string \<Rightarrow> string" where
  "env_raw env k = (case env k of None \<Rightarrow> [] | Some s \<Rightarrow> s)"

definition env_text :: "env \<Rightarrow> string \<Rightarrow> string" where
  "env_text env k = js_trim (env_raw env k)"

section \<open>The worker's numbers\<close>

record sync_runtime_config =
  sc_overlap :: int
  sc_poll :: int
  sc_budget :: int
  sc_stale :: int

definition runtime_env_defaults :: "(string \<times> int) list" where
  "runtime_env_defaults = [(''COMMIT_LOOKBACK_OVERLAP_SECONDS'', 900), (''SYNC_POLL_INTERVAL_SECONDS'', 60),
     (''SYNC_JOB_BUDGET_SECONDS'', 60), (''SYNC_STALE_CLAIM_SECONDS'', 300)]"

definition sync_runtime_keys :: "string list" where
  "sync_runtime_keys = map fst runtime_env_defaults"

text \<open>\<open>Number.isSafeInteger(n) && n > 0\<close>.\<close>

definition safe_positive :: "string \<Rightarrow> int option" where
  "safe_positive s = (case js_positive_int s of
     Some n \<Rightarrow> if n \<le> max_safe_integer then Some n else None | None \<Rightarrow> None)"

definition parse_positive_integer :: "env \<Rightarrow> string \<Rightarrow> string + int" where
  "parse_positive_integer env k =
     (let raw = env_text env k in
      if raw = [] then Inr (the (map_of runtime_env_defaults k))
      else case safe_positive raw of None \<Rightarrow> Inl (k @ '' must be a positive integer'') | Some n \<Rightarrow> Inr n)"

definition parse_sync_runtime_config :: "env \<Rightarrow> string + sync_runtime_config" where
  "parse_sync_runtime_config env =
     (case parse_positive_integer env ''COMMIT_LOOKBACK_OVERLAP_SECONDS'' of Inl e \<Rightarrow> Inl e | Inr overlap \<Rightarrow>
      (case parse_positive_integer env ''SYNC_POLL_INTERVAL_SECONDS'' of Inl e \<Rightarrow> Inl e | Inr poll \<Rightarrow>
       (case parse_positive_integer env ''SYNC_JOB_BUDGET_SECONDS'' of Inl e \<Rightarrow> Inl e | Inr budget \<Rightarrow>
        (case parse_positive_integer env ''SYNC_STALE_CLAIM_SECONDS'' of Inl e \<Rightarrow> Inl e | Inr stale \<Rightarrow>
           Inr \<lparr>sc_overlap = overlap, sc_poll = poll, sc_budget = budget, sc_stale = stale\<rparr>))))"

section \<open>Checks\<close>

definition decode_canonical_key :: "string \<Rightarrow> byte list option" where
  "decode_canonical_key v =
     (if \<not> padded_run is_std_b64 v then None
      else let b = b64_decode v in if b = [] \<or> b64_encode b \<noteq> v then None else Some b)"

definition key_issues :: "string \<Rightarrow> string \<Rightarrow> env_issue list" where
  "key_issues not_canonical v =
     (case decode_canonical_key v of
        None \<Rightarrow> [issue ''TOKEN_ENCRYPTION_KEY'' not_canonical]
      | Some b \<Rightarrow> if length b \<noteq> 32 then [issue ''TOKEN_ENCRYPTION_KEY'' ''must decode to exactly 32 bytes''] else [])"

definition database_issues :: "string \<Rightarrow> env_issue list" where
  "database_issues v =
     (if \<not> starts_with ''postgresql://'' v \<and> \<not> starts_with ''postgres://'' v
      then [issue ''DATABASE_URL'' ''must start with postgresql:// or postgres://''] else [])"

definition env_result :: "env_issue list \<Rightarrow> env_issue list \<Rightarrow> env_check" where
  "env_result issues warnings = \<lparr>er_ok = (issues = []), er_issues = issues, er_warnings = warnings\<rparr>"

definition validate_wp0_env :: "env \<Rightarrow> env_check" where
  "validate_wp0_env env =
     (let k = env_text env ''TOKEN_ENCRYPTION_KEY''; s = env_text env ''SESSION_SECRET''; d = env_text env ''DATABASE_URL'' in
      env_result
        ((if k \<noteq> [] then key_issues ''must be canonical standard base64'' k else []) @
         (if s \<noteq> [] \<and> length s < 32 then [issue ''SESSION_SECRET'' ''must be at least 32 characters when set''] else []) @
         (if d \<noteq> [] then database_issues d else [])) [])"

text \<open>\<open>/^v([1-9][0-9]*)$/\<close>.\<close>

definition key_version_label :: "string \<Rightarrow> bool" where
  "key_version_label v \<longleftrightarrow>
     (case v of c # d # ds \<Rightarrow> c = CHR ''v'' \<and> is_digit d \<and> d \<noteq> CHR ''0'' \<and> list_all is_digit ds | _ \<Rightarrow> False)"

definition origin_issues :: "(string \<Rightarrow> env_url option) \<Rightarrow> string \<Rightarrow> env_issue list" where
  "origin_issues new_url v =
     (if v = [] then [issue ''APP_ORIGIN'' ''required for CSRF Origin checks (e.g. http://localhost:3000)'']
      else case new_url v of
        None \<Rightarrow> [issue ''APP_ORIGIN'' ''must be a valid absolute URL origin'']
      | Some u \<Rightarrow>
          if strip_slash v \<noteq> eu_origin u then [issue ''APP_ORIGIN'' ''must be a bare origin (no path or trailing slash)'']
          else [])"

text \<open>The loop over the entries stops at the first bad one.\<close>

fun entry_issues :: "(string \<Rightarrow> env_url option) \<Rightarrow> string list \<Rightarrow> env_issue list" where
  "entry_issues new_url [] = []"
| "entry_issues new_url (entry # entries) =
     (let raw = (if starts_with ''internal:'' entry then drop 9 entry else entry) in
      case new_url raw of
        None \<Rightarrow> [issue ''GITLAB_URL_ALLOWLIST'' ''contains an unparseable entry'']
      | Some u \<Rightarrow>
          if eu_protocol u \<noteq> ''https:'' \<and> eu_protocol u \<noteq> ''http:''
          then [issue ''GITLAB_URL_ALLOWLIST'' ''each entry must be an http(s) origin'']
          else if eu_pathname u \<noteq> ''/'' \<and> eu_pathname u \<noteq> []
          then [issue ''GITLAB_URL_ALLOWLIST'' ''each entry must be an origin (no path)'']
          else entry_issues new_url entries)"

definition positive_issues :: "(string \<Rightarrow> int option) \<Rightarrow> env \<Rightarrow> string \<Rightarrow> env_issue list" where
  "positive_issues parse env k =
     (let v = env_text env k in
      if v \<noteq> [] \<and> parse v = None then [issue k ''must be a positive integer when set''] else [])"

text \<open>The dash is given by its UTF-8 bytes.\<close>

definition empty_allowlist_warning :: env_issue where
  "empty_allowlist_warning = issue ''GITLAB_URL_ALLOWLIST''
     (''empty '' @ [CHR 0xE2, CHR 0x80, CHR 0x94] @ '' Settings uses the DB instance allowlist (WP4); set this only if tooling needs an env allowlist'')"

definition validate_runtime_env :: "(string \<Rightarrow> env_url option) \<Rightarrow> env \<Rightarrow> env_check" where
  "validate_runtime_env new_url env =
     (let d = env_text env ''DATABASE_URL''; s = env_raw env ''SESSION_SECRET''; k = env_raw env ''TOKEN_ENCRYPTION_KEY'';
          v = env_text env ''TOKEN_ENCRYPTION_KEY_VERSION''; al = env_text env ''GITLAB_URL_ALLOWLIST'' in
      env_result
        ((if d = [] then [issue ''DATABASE_URL'' ''required''] else database_issues d) @
         (if s = [] then [issue ''SESSION_SECRET'' ''required'']
          else if length s < 32 then [issue ''SESSION_SECRET'' ''must be at least 32 characters''] else []) @
         (if k = [] then [issue ''TOKEN_ENCRYPTION_KEY'' ''required'']
          else key_issues ''must be canonical standard base64 (no whitespace; round-trip)'' k) @
         (if v = [] then [issue ''TOKEN_ENCRYPTION_KEY_VERSION'' ''required'']
          else if \<not> key_version_label v
          then [issue ''TOKEN_ENCRYPTION_KEY_VERSION'' ''must match v<positive-integer> (e.g. v1)''] else []) @
         origin_issues new_url (env_text env ''APP_ORIGIN'') @
         (if al = [] then [] else entry_issues new_url (filter (\<lambda>e. e \<noteq> []) (map js_trim (tokens_of al)))) @
         concat (map (positive_issues js_positive_int env) [''MEMBERSHIP_CACHE_TTL_SECONDS'', ''MEMBERSHIP_CACHE_NEGATIVE_TTL_SECONDS'']) @
         concat (map (positive_issues safe_positive env) sync_runtime_keys))
        (if al = [] then [empty_allowlist_warning] else []))"

section \<open>Reports\<close>

definition summarize :: "env_issue list \<Rightarrow> string list" where
  "summarize is = map (\<lambda>i. ei_key i @ '': '' @ ei_message i) is"

definition summarize_env_issues :: "env_check \<Rightarrow> string list" where
  "summarize_env_issues r = summarize (er_issues r)"

definition summarize_env_warnings :: "env_check \<Rightarrow> string list" where
  "summarize_env_warnings r = summarize (er_warnings r)"

text \<open>The lines printed, and the error when there are issues.\<close>

definition assert_runtime_env :: "(string \<Rightarrow> env_url option) \<Rightarrow> env \<Rightarrow> (string + unit) \<times> string list" where
  "assert_runtime_env new_url env =
     (let r = validate_runtime_env new_url env; ws = summarize_env_warnings r; is = summarize_env_issues r;
          log = (if ws \<noteq> [] then ''[reviewpulse:preflight] warnings:'' # map (\<lambda>l. ''  - '' @ l) ws else []) @
            (if is \<noteq> [] then ''[reviewpulse:preflight] missing or invalid environment:'' # map (\<lambda>l. ''  - '' @ l) is else [])
      in (if is \<noteq> [] then Inl (''Environment preflight failed ('' @ show_nat (length is) @
             '' issue(s)). See messages above (keys only; values never logged).'') else Inr (), log))"

text \<open>The merge of a parsed \<open>.env\<close> into the process: set keys win, and \<open>NODE_ENV\<close> is never taken.\<close>

definition merge_env :: "(string \<times> string) list \<Rightarrow> env \<Rightarrow> env" where
  "merge_env parsed env =
     fold (\<lambda>(k, v) e. if k = ''NODE_ENV'' \<or> e k \<noteq> None then e else e(k \<mapsto> v)) parsed env"

text \<open>\<open>findMonorepoRoot\<close>: a path is the list of its directories, \<open>is_root\<close> says where \<open>package.json\<close> and
  \<open>apps\<close> both exist. The walk makes at most ten steps and stops at the file system's root.\<close>

fun walk_up :: "(string list \<Rightarrow> bool) \<Rightarrow> nat \<Rightarrow> string list \<Rightarrow> string list option" where
  "walk_up is_root 0 dir = None"
| "walk_up is_root (Suc n) dir =
     (if is_root dir then Some dir else if butlast dir = dir then None else walk_up is_root n (butlast dir))"

definition find_monorepo_root ::
    "(string list \<Rightarrow> bool) \<Rightarrow> string list \<Rightarrow> string list \<Rightarrow> string + string list" where
  "find_monorepo_root is_root start cwd =
     (case walk_up is_root 10 start of
        Some d \<Rightarrow> Inr d
      | None \<Rightarrow>
          if is_root cwd then Inr cwd
          else let parent = butlast (butlast cwd) in
            if is_root parent then Inr parent
            else Inl ''Could not locate ReviewPulse monorepo root for .env loading'')"

text \<open>\<open>loadMonorepoEnv\<close>: \<open>dotenv d\<close> is the parsed \<open>.env\<close> of the directory \<open>d\<close>, \<open>None\<close> when there is none;
  the state is the flag on \<open>globalThis\<close> and the process environment. The result is the root whose file
  was read.\<close>

definition load_monorepo_env ::
    "bool \<Rightarrow> (string list \<Rightarrow> bool) \<Rightarrow> (string list \<Rightarrow> (string \<times> string) list option) \<Rightarrow> string list \<Rightarrow> string list \<Rightarrow>
     bool \<times> env \<Rightarrow> (string + string list option) \<times> bool \<times> env" where
  "load_monorepo_env force is_root dotenv start cwd = (\<lambda>(loaded, env).
     if loaded \<and> \<not> force then (Inr None, loaded, env)
     else case find_monorepo_root is_root start cwd of
       Inl e \<Rightarrow> (Inl e, loaded, env)
     | Inr dir \<Rightarrow>
         (case dotenv dir of
            Some parsed \<Rightarrow> (Inr (Some dir), True, merge_env parsed env)
          | None \<Rightarrow> (Inr None, True, env)))"

section \<open>Lemmas\<close>

lemma canonical_key_material:
  "decode_key_material s = Inr k \<longleftrightarrow> decode_canonical_key s = Some k \<and> length k = 32"
  by (auto simp: decode_key_material_def decode_canonical_key_def Let_def key_bytes_def padded_run_def)

lemma safe_positive_pos: "safe_positive s = Some n \<Longrightarrow> 0 < n \<and> n \<le> max_safe_integer"
  by (auto simp: safe_positive_def js_positive_int_pos split: option.splits if_splits)

lemma positive_issues_none: "positive_issues f env k = [] \<longleftrightarrow> env_text env k = [] \<or> f (env_text env k) \<noteq> None"
  by (auto simp: positive_issues_def Let_def)

lemma parse_positive_ok:
  assumes "positive_issues safe_positive env k = []" and "k \<in> set sync_runtime_keys"
  shows "\<exists>n. parse_positive_integer env k = Inr n \<and> 0 < n \<and> n \<le> max_safe_integer"
proof -
  from assms(2) have d: "\<exists>n. map_of runtime_env_defaults k = Some n \<and> 0 < n \<and> n \<le> max_safe_integer"
    by (auto simp: sync_runtime_keys_def runtime_env_defaults_def max_safe_integer_def)
  from assms(1) [unfolded positive_issues_none] show ?thesis
    using d by (auto simp: parse_positive_integer_def Let_def safe_positive_pos)
qed

lemma parse_sync_ok:
  assumes "\<And>k. k \<in> set sync_runtime_keys \<Longrightarrow> positive_issues safe_positive env k = []"
  shows "\<exists>c. parse_sync_runtime_config env = Inr c \<and> 0 < sc_overlap c \<and> 0 < sc_poll c \<and> 0 < sc_budget c \<and> 0 < sc_stale c \<and>
    sc_poll c \<le> max_safe_integer \<and> sc_stale c \<le> max_safe_integer"
proof -
  have k: "\<exists>n. parse_positive_integer env k = Inr n \<and> 0 < n \<and> n \<le> max_safe_integer" if "k \<in> set sync_runtime_keys" for k
    using parse_positive_ok [OF assms [OF that] that] .
  obtain a b c d where
    "parse_positive_integer env ''COMMIT_LOOKBACK_OVERLAP_SECONDS'' = Inr a" "0 < a"
    "parse_positive_integer env ''SYNC_POLL_INTERVAL_SECONDS'' = Inr b" "0 < b" "b \<le> max_safe_integer"
    "parse_positive_integer env ''SYNC_JOB_BUDGET_SECONDS'' = Inr c" "0 < c"
    "parse_positive_integer env ''SYNC_STALE_CLAIM_SECONDS'' = Inr d" "0 < d" "d \<le> max_safe_integer"
    using k [of "''COMMIT_LOOKBACK_OVERLAP_SECONDS''"] k [of "''SYNC_POLL_INTERVAL_SECONDS''"]
      k [of "''SYNC_JOB_BUDGET_SECONDS''"] k [of "''SYNC_STALE_CLAIM_SECONDS''"]
    by (auto simp: sync_runtime_keys_def runtime_env_defaults_def)
  then show ?thesis by (simp add: parse_sync_runtime_config_def)
qed

lemma blank_text: "blank (env k) \<longleftrightarrow> env_text env k = []"
  by (simp add: blank_def env_text_def env_raw_def js_trim_def js_trim_start_def split: option.splits)

lemma js_trim_nil [simp]: "js_trim [] = []"
  by (simp add: js_trim_def js_trim_start_def)

lemma env_text_nil: "env_text env k \<noteq> [] \<Longrightarrow> env k \<noteq> None \<and> the (env k) \<noteq> [] \<and> js_trim (the (env k)) = env_text env k"
  by (auto simp: env_text_def env_raw_def split: option.splits)

lemma env_ttls_ok:
  assumes "positive_issues js_positive_int env ''MEMBERSHIP_CACHE_TTL_SECONDS'' = []"
    and "positive_issues js_positive_int env ''MEMBERSHIP_CACHE_NEGATIVE_TTL_SECONDS'' = []"
  shows "\<exists>t. env_cache_ttls env = Inr t \<and> 0 < negative_ttl_seconds t \<and> negative_ttl_seconds t \<le> ttl_seconds t"
proof -
  obtain ttl where t: "membership_cache_ttl_from_env env = Inr ttl" "0 < ttl"
    using assms(1) unfolding positive_issues_none membership_cache_ttl_from_env_def
      parse_membership_cache_ttl_seconds_def blank_text
    by (cases "env_text env ''MEMBERSHIP_CACHE_TTL_SECONDS'' = []")
      (auto simp: default_membership_cache_ttl_seconds_def env_text_nil js_positive_int_pos)
  obtain neg where n: "membership_cache_negative_ttl_from_env env ttl = Inr neg" "0 < neg"
    using assms(2) t(2) unfolding positive_issues_none membership_cache_negative_ttl_from_env_def
      parse_membership_cache_negative_ttl_seconds_def blank_text
    by (cases "env_text env ''MEMBERSHIP_CACHE_NEGATIVE_TTL_SECONDS'' = []")
      (auto simp: default_membership_cache_negative_ttl_seconds_def env_text_nil js_positive_int_pos)
  from t n show ?thesis by (simp add: env_cache_ttls_def new_membership_cache_def)
qed

lemma key_version_digits:
  assumes "key_version_label (env_text env k)"
  shows "parse_key_version_label (the (env k)) =
      (if int (digits_val (tl (env_text env k))) \<le> max_safe_integer
       then Inr (int (digits_val (tl (env_text env k)))) else Inl Invalid_Key_Version)"
    and "1 \<le> digits_val (tl (env_text env k))" and "env_text env k \<noteq> []"
proof -
  from assms obtain d ds where t: "env_text env k = CHR ''v'' # d # ds" "is_digit d" "d \<noteq> CHR ''0''" "list_all is_digit ds"
    by (auto simp: key_version_label_def split: list.splits)
  then have j: "js_trim (the (env k)) = CHR ''v'' # d # ds" using env_text_nil [of env k] by simp
  have "code_of d \<noteq> code_of CHR ''0''" using t(3) by (simp only: of_char_eq_iff) simp
  then have "digit_val d \<noteq> 0" using t(2) by (auto simp: is_digit_def digit_val_def)
  then have "0 < digits_val (d # ds)" by (simp add: digits_val_Cons)
  then show v: "1 \<le> digits_val (tl (env_text env k))" by (simp add: t(1))
  show "env_text env k \<noteq> []" by (simp add: t(1))
  show "parse_key_version_label (the (env k)) =
      (if int (digits_val (tl (env_text env k))) \<le> max_safe_integer
       then Inr (int (digits_val (tl (env_text env k)))) else Inl Invalid_Key_Version)"
    using v t by (simp add: parse_key_version_label_def j Let_def all_digits_def)
qed

lemma key_issues_none: "key_issues m v = [] \<longleftrightarrow> (\<exists>k. decode_key_material v = Inr k)"
  by (auto simp: key_issues_def canonical_key_material split: option.splits)

lemma env_loader:
  assumes "env_raw env ''TOKEN_ENCRYPTION_KEY'' \<noteq> []" and "key_issues m (env_raw env ''TOKEN_ENCRYPTION_KEY'') = []"
    and "key_version_label (env_text env ''TOKEN_ENCRYPTION_KEY_VERSION'')"
  shows "if int (digits_val (tl (env_text env ''TOKEN_ENCRYPTION_KEY_VERSION''))) \<le> max_safe_integer
    then \<exists>kl. create_env_key_loader env = Inr kl \<and> loader_ok kl
    else create_env_key_loader env = Inl Invalid_Key_Version"
proof -
  note v = key_version_digits [OF assms(3)]
  from env_text_nil [OF v(3)] obtain l where l: "env ''TOKEN_ENCRYPTION_KEY_VERSION'' = Some l" "l \<noteq> []" by auto
  from assms(1) obtain s where s: "env ''TOKEN_ENCRYPTION_KEY'' = Some s" "s \<noteq> []"
    by (auto simp: env_raw_def split: option.splits)
  from assms(2) obtain k where k: "decode_key_material s = Inr k"
    by (auto simp: key_issues_none env_raw_def s)
  then have "length k = key_bytes" by (simp add: decode_key_iff)
  with v(1,2) s l k show ?thesis
    by (simp add: create_env_key_loader_def create_static_key_loader_def loader_ok_def)
qed

text \<open>The origin of a preflighted environment is its own origin.\<close>

lemma env_origin:
  assumes "origin_issues new_url (env_text p ''APP_ORIGIN'') = []"
    and idem: "\<And>s u. new_url s = Some u \<Longrightarrow> eu_origin u \<noteq> ''null'' \<Longrightarrow> \<exists>v. new_url (eu_origin u) = Some v \<and> eu_origin v = eu_origin u"
    and "new_url ''null'' = None" and "new_url ''null/'' = None"
  shows "\<exists>o' u. app_origin p = Inr o' \<and> new_url o' = Some u \<and> eu_origin u = o'"
proof -
  let ?v = "env_text p ''APP_ORIGIN''"
  from assms(1) obtain u where v: "?v \<noteq> []" "new_url ?v = Some u" "strip_slash ?v = eu_origin u"
    by (auto simp: origin_issues_def split: if_splits option.splits)
  have "eu_origin u \<noteq> ''null''"
  proof
    assume "eu_origin u = ''null''"
    with v(3) have "?v = ''null'' \<or> ?v = ''null/''"
      by (cases ?v rule: rev_cases) (auto simp: strip_slash_def split: if_splits)
    with v(2) assms(3,4) show False by auto
  qed
  from idem [OF v(2) this] obtain u' where u: "new_url (eu_origin u) = Some u'" "eu_origin u' = eu_origin u" by blast
  obtain s where "p ''APP_ORIGIN'' = Some s" "js_trim s = ?v"
    using env_text_nil [OF v(1)] by auto
  with v have "app_origin p = Inr (eu_origin u)" by (simp add: app_origin_def Let_def)
  with u show ?thesis by blast
qed

section \<open>Loading\<close>

lemma merge_env_apply:
  assumes "distinct (map fst parsed)"
  shows "merge_env parsed env k = (if env k \<noteq> None \<or> k = ''NODE_ENV'' then env k else map_of parsed k)"
  using assms
proof (induction parsed arbitrary: env)
  case (Cons kv parsed)
  obtain a v where kv: "kv = (a, v)" by fastforce
  with Cons.prems have "map_of parsed a = None" by (simp add: map_of_eq_None_iff)
  with kv Cons show ?case by (auto simp: merge_env_def)
qed (simp add: merge_env_def)

text \<open>The directory found is a root, at or above the start, and no directory below it on the way is one.\<close>

lemma walk_up_root:
  "walk_up is_root n dir = Some d \<Longrightarrow> is_root d \<and> (\<exists>m < n. d = (butlast ^^ m) dir \<and> (\<forall>i < m. \<not> is_root ((butlast ^^ i) dir)))"
proof (induction n arbitrary: dir)
  case (Suc n)
  show ?case
  proof (cases "is_root dir")
    case False
    with Suc.prems have "walk_up is_root n (butlast dir) = Some d" by (auto split: if_splits)
    from Suc.IH [OF this] obtain m where m: "is_root d" "m < n" "d = (butlast ^^ m) (butlast dir)"
      "\<forall>i < m. \<not> is_root ((butlast ^^ i) (butlast dir))" by blast
    have "\<not> is_root ((butlast ^^ i) dir)" if "i < Suc m" for i
      using that m(4) False by (cases i) (simp_all add: funpow_Suc_right del: funpow.simps)
    with m show ?thesis
      by (intro conjI exI [of _ "Suc m"]) (simp_all add: funpow_Suc_right del: funpow.simps)
  qed (use Suc.prems in \<open>auto intro!: exI [of _ 0]\<close>)
qed simp

section \<open>The preflight\<close>

lemma preflight_parts:
  assumes "er_issues (validate_runtime_env new_url p) = []"
  shows "32 \<le> length (env_raw p ''SESSION_SECRET'')" and "env_raw p ''TOKEN_ENCRYPTION_KEY'' \<noteq> []"
    and "\<exists>m. key_issues m (env_raw p ''TOKEN_ENCRYPTION_KEY'') = []"
    and "key_version_label (env_text p ''TOKEN_ENCRYPTION_KEY_VERSION'')"
    and "origin_issues new_url (env_text p ''APP_ORIGIN'') = []"
    and "positive_issues js_positive_int p ''MEMBERSHIP_CACHE_TTL_SECONDS'' = []"
    and "positive_issues js_positive_int p ''MEMBERSHIP_CACHE_NEGATIVE_TTL_SECONDS'' = []"
    and "\<And>k. k \<in> set sync_runtime_keys \<Longrightarrow> positive_issues safe_positive p k = []"
  using assms by (simp_all add: validate_runtime_env_def env_result_def Let_def split: if_splits) blast+

text \<open>C37. A process that passes the preflight with \<open>new URL\<close> of its server has what it needs: the worker's four
  numbers parse and are positive, the one allowed origin is a URL whose origin it is, so that a form's
  redirect never fails, and the services are built, with a key of 32 bytes, a secret of at least 32
  characters and membership lifetimes that are positive and ordered -- if the number in the key version's label is
  a safe integer; otherwise the preflight has passed a label that stops every request with \<open>Invalid_Key_Version\<close>.
  The hypotheses on URLs: an origin other than \<open>null\<close> is a URL with that origin, and \<open>null\<close> is not a URL.\<close>

theorem preflight_sound:
  assumes "er_issues (validate_runtime_env new_url p) = []"
    and "we_process env = p" and "we_url_origin env = (\<lambda>s. map_option eu_origin (new_url s))"
    and "\<And>s u. new_url s = Some u \<Longrightarrow> eu_origin u \<noteq> ''null'' \<Longrightarrow> \<exists>v. new_url (eu_origin u) = Some v \<and> eu_origin v = eu_origin u"
    and "new_url ''null'' = None" and "new_url ''null/'' = None"
  shows "(\<exists>c. parse_sync_runtime_config p = Inr c \<and> 0 < sc_overlap c \<and> 0 < sc_poll c \<and> 0 < sc_budget c \<and> 0 < sc_stale c) \<and>
    (\<exists>o'. allowed_origins p = Inr [o'] \<and> we_url_origin env o' = Some o' \<and>
      form_redirect env = (\<lambda>path query. Inr (redirect_to o' path query))) \<and>
    (if int (digits_val (tl (env_text p ''TOKEN_ENCRYPTION_KEY_VERSION''))) \<le> max_safe_integer
     then \<exists>sx. get_services env = Inr sx \<and> loader_ok (ce_loader (sx_conn sx)) \<and>
       32 \<le> length (sp_secret (au_policy (sx_auth sx))) \<and> 0 < negative_ttl_seconds (ax_ttls (sx_access sx)) \<and>
       negative_ttl_seconds (ax_ttls (sx_access sx)) \<le> ttl_seconds (ax_ttls (sx_access sx))
     else get_services env = Inl (crypto_thrown Invalid_Key_Version))"
proof -
  note q = preflight_parts [OF assms(1)]
  obtain o' u where o': "app_origin p = Inr o'" "new_url o' = Some u" "eu_origin u = o'"
    using env_origin [OF q(5)] assms(4-6) by metis
  then have r: "allowed_origins p = Inr [o'] \<and> we_url_origin env o' = Some o' \<and>
      form_redirect env = (\<lambda>path query. Inr (redirect_to o' path query))"
    using assms(2,3) by (auto simp: allowed_origins_def form_redirect_def intro!: ext)
  obtain t where t: "env_cache_ttls p = Inr t" "0 < negative_ttl_seconds t" "negative_ttl_seconds t \<le> ttl_seconds t"
    using env_ttls_ok [OF q(6,7)] by blast
  obtain pol where pol: "load_session_policy p = Inr pol" "sp_secret pol = env_raw p ''SESSION_SECRET''"
    using q(1) by (simp add: load_session_policy_def env_raw_def Let_def split: option.splits)
  from q(3) obtain m where "key_issues m (env_raw p ''TOKEN_ENCRYPTION_KEY'') = []" by blast
  note kl = env_loader [OF q(2) this q(4)]
  have s: "if int (digits_val (tl (env_text p ''TOKEN_ENCRYPTION_KEY_VERSION''))) \<le> max_safe_integer
     then \<exists>sx. get_services env = Inr sx \<and> loader_ok (ce_loader (sx_conn sx)) \<and>
       32 \<le> length (sp_secret (au_policy (sx_auth sx))) \<and> 0 < negative_ttl_seconds (ax_ttls (sx_access sx)) \<and>
       negative_ttl_seconds (ax_ttls (sx_access sx)) \<le> ttl_seconds (ax_ttls (sx_access sx))
     else get_services env = Inl (crypto_thrown Invalid_Key_Version)"
    using kl t pol q(1) by (auto simp: get_services_def assms(2) split: if_splits)
  from parse_sync_ok [OF q(8)] r s show ?thesis by blast
qed

end
