(* ===== verification/AuthProperties.thy ===== *)
theory AuthProperties
  imports UserAdmin
begin

text \<open>
  What holds of logins and sessions in every state that the services of \<open>packages/app-auth\<close> can
  reach, whatever calls are made and in whatever order.
\<close>

section \<open>Every call\<close>

text \<open>All calls run under one session policy and one HMAC; the clock, the random draws and the
  arguments differ from call to call.\<close>

inductive auth_step :: "session_policy \<Rightarrow> auth_state \<Rightarrow> auth_state \<Rightarrow> bool" for pol where
  login_step: "au_policy env = pol \<Longrightarrow> auth_step pol st (snd (login env i st))"
| validate_step: "au_policy env = pol \<Longrightarrow> auth_step pol st (st\<lparr>as_db := snd (validate_token env tok (as_db st))\<rparr>)"
| logout_step: "auth_step pol st (st\<lparr>as_db := snd (revoke_session env sid actor (as_db st))\<rparr>)"
| revoke_all_step: "auth_step pol st (st\<lparr>as_db := snd (revoke_all_for_user now uid who (as_db st))\<rparr>)"
| create_step: "auth_step pol st (st\<lparr>as_db := snd (create_user env admin email password role invited (as_db st))\<rparr>)"
| deactivate_step: "auth_step pol st (st\<lparr>as_db := snd (deactivate_user env admin uid (as_db st))\<rparr>)"
| reset_step: "auth_step pol st (st\<lparr>as_db := snd (reset_password env admin uid password (as_db st))\<rparr>)"
| other_step: "t_users (as_db st') = t_users (as_db st) \<Longrightarrow> t_sessions (as_db st') = t_sessions (as_db st) \<Longrightarrow>
    auth_step pol st st'"

lemma auth_step_evolves: "auth_step pol st st' \<Longrightarrow> db_evolves (as_db st) (as_db st')"
  by (induction rule: auth_step.induct)
    (simp_all add: login_evolves validate_evolves revoke_session_evolves revoke_all_evolves create_user_evolves
      deactivate_evolves reset_evolves)

lemma auth_steps_evolve: "(auth_step pol)\<^sup>*\<^sup>* st st' \<Longrightarrow> db_evolves (as_db st) (as_db st')"
  by (induction rule: rtranclp_induct) (auto intro: db_evolves_trans auth_step_evolves)

section \<open>Successful calls\<close>

lemma validate_Inr:
  assumes "validate_token env tok db = (Inr v, db')"
  obtains s u where "s \<in> set (t_sessions db)" "find_user (s_user s) db = Some u" "s_revoked_at s = None"
    and "u_status u = User_Active" "vs_id v = s_id s" "vs_user v = auth_user_of u" "vs_user_id v = s_user s"
    and "au_now env 0 < s_expires_at s" "au_now env 0 < s_last_seen s + sp_idle (au_policy env) * 1000"
    and "\<exists>t. tok = Some t \<and> s_token_hash s = au_hmac env (sp_secret (au_policy env)) t"
proof -
  obtain t where t: "tok = Some t" "t \<noteq> []" using assms by (cases tok) (auto simp: validate_token_def split: if_splits)
  obtain s where f: "find (\<lambda>s. s_token_hash s = au_hmac env (sp_secret (au_policy env)) t) (t_sessions db) = Some s"
    using assms t by (auto simp: validate_token_def split: option.splits)
  obtain u where u: "find_user (s_user s) db = Some u"
    using assms t f by (auto simp: validate_token_def split: option.splits)
  show thesis
    using assms t f u find_SomeD [OF f]
    by (intro that [of s u]) (auto simp: validate_token_def Let_def split: if_splits)
qed

lemma find_user_id: "find_user uid db = Some u \<Longrightarrow> u \<in> set (t_users db) \<and> u_id u = uid"
  by (auto simp: find_user_def dest: find_SomeD)

lemma login_Inr:
  assumes "login env i st = (Inr r, st')"
  obtains u where "u \<in> set (t_users (as_db st))" "u_status u = User_Active" "\<not> user_locked (au_now env 2) u"
    and "verify_password (au_verify env) (u_pw_hash u) (li_password i)" "lr_user r = auth_user_of u"
    and "normalize_email (au_nfkc env) (li_email i) = Inr (u_norm u)"
proof -
  have no: "refuse_login e w x y \<noteq> (Inr (r :: login_result), z)" for e w x y z
    by (auto simp: refuse_login_def split: prod.splits sum.splits)
  obtain n where n: "normalize_email (au_nfkc env) (li_email i) = Inr n"
    using assms no by (auto simp: login_def split: if_splits sum.splits)
  obtain u where f: "find (\<lambda>u. u_norm u = n) (t_users (as_db st)) = Some u"
    using assms n no by (auto simp: login_def Let_def split: if_splits option.splits)
  have o: "open_session env u i (as_db st) = (Inr r, as_db st')" "\<not> user_locked (au_now env 2) u"
    "u_status u = User_Active" "verify_password (au_verify env) (u_pw_hash u) (li_password i)"
    using assms n f no by (auto simp: login_def Let_def split: if_splits prod.splits)
  have "lr_user r = auth_user_of u"
    using o(1) by (auto simp: open_session_def dest: audited_Inr split: prod.splits sum.splits)
  with o n find_SomeD [OF f] show thesis by (intro that [of u]) auto
qed

lemma audited_total: "list_all (\<lambda>(k, v). audit_key k \<notin> set forbidden_meta_keys) m \<Longrightarrow>
    \<exists>db'. audited a w m r db = (Inr r, db') \<and> t_users db' = t_users db \<and> t_sessions db' = t_sessions db"
  by (auto simp: audited_def audit_write_def list_ex_iff list_all_iff)

text \<open>An account that is there and not active stays so.\<close>

definition shut_out :: "string \<Rightarrow> database \<Rightarrow> bool" where
  "shut_out uid db \<longleftrightarrow> uid \<in> u_id ` set (t_users db) \<and> (\<forall>u \<in> set (t_users db). u_id u = uid \<longrightarrow> u_status u \<noteq> User_Active)"

lemma shut_out_evolves:
  assumes "db_evolves db db'" and "shut_out uid db"
  shows "shut_out uid db'"
proof -
  have e: "evolves u_id same_user (t_users db) (t_users db')" using assms(1) by (simp add: db_evolves_def)
  have "u_status u \<noteq> User_Active" if "u \<in> set (t_users db')" "u_id u = uid" for u
  proof -
    have "u_id u \<in> u_id ` set (t_users db)" using assms(2) that(2) by (simp add: shut_out_def)
    with e that(1) obtain x where "x \<in> set (t_users db)" "u_id x = u_id u" "same_user x u"
      by (auto simp: evolves_def)
    with assms(2) that(2) show ?thesis by (auto simp: same_user_def shut_out_def)
  qed
  moreover have "uid \<in> u_id ` set (t_users db')" using e assms(2) by (auto simp: evolves_def shut_out_def)
  ultimately show ?thesis by (simp add: shut_out_def)
qed

lemma deactivated_rows:
  assumes "deactivate_user env admin uid db = (Inr (), db1)"
  shows "shut_out uid db1"
proof -
  have f: "find_user uid db \<noteq> None"
    and r: "revoke_and_audit env ''user_deactivated'' admin uid
      (invalidate_user uid (update_user uid (\<lambda>u. u\<lparr>u_status := User_Deactivated\<rparr>) db)) = (Inr (), db1)"
    using assms by (auto simp: deactivate_user_def split: if_splits)
  have eq: "t_users db1 = upd_where (\<lambda>u. u_id u = uid) (\<lambda>u. u\<lparr>u_status := User_Deactivated\<rparr>) (t_users db)"
    using r revoke_and_audit_users [of env "''user_deactivated''" admin uid] by (metis snd_conv users_simps(3,5))
  have m: "map u_id (t_users db1) = map u_id (t_users db)"
    unfolding eq by (rule upd_where_map_key) simp
  have "uid \<in> u_id ` set (t_users db)" using f by (auto simp: find_user_def find_None_iff)
  with m have "uid \<in> u_id ` set (t_users db1)" by (metis list.set_map)
  moreover have "u_status u \<noteq> User_Active" if u: "u \<in> set (t_users db1)" "u_id u = uid" for u
  proof -
    obtain x where "u = (if u_id x = uid then x\<lparr>u_status := User_Deactivated\<rparr> else x)"
      using u(1) unfolding eq upd_where_def set_map by blast
    with u(2) show ?thesis by (cases "u_id x = uid") simp_all
  qed
  ultimately show ?thesis by (simp add: shut_out_def)
qed

text \<open>The lifetimes.\<close>

definition expiry_ok :: "session_policy \<Rightarrow> database \<Rightarrow> bool" where
  "expiry_ok pol db \<longleftrightarrow> list_all (\<lambda>s. s_expires_at s = s_created_at s + sp_abs pol * 1000) (t_sessions db)"

lemma expiry_ok_same: "t_sessions db' = t_sessions db \<Longrightarrow> expiry_ok pol db' = expiry_ok pol db"
  by (simp add: expiry_ok_def)

lemma expiry_ok_audited [simp]: "expiry_ok pol (snd (audited x w m r db)) = expiry_ok pol db"
  by (simp add: expiry_ok_def)

lemma expiry_ok_revoke [simp]: "expiry_ok pol db \<Longrightarrow> expiry_ok pol (revoke_where P now db)"
  by (auto simp: expiry_ok_def revoke_where_def list_all_iff set_upd_where)

lemma expiry_ok_users [simp]:
  "expiry_ok pol (update_user uid f db) = expiry_ok pol db" "expiry_ok pol (invalidate_user uid db) = expiry_ok pol db"
  "expiry_ok pol (record_success now uid db) = expiry_ok pol db"
  by (simp_all add: expiry_ok_def record_success_def)

lemma expiry_ok_create:
  assumes "expiry_ok (au_policy env) db"
  shows "expiry_ok (au_policy env) (snd (create_session env now uid agent ip prior db))"
proof -
  have "expiry_ok (au_policy env) (case prior of None \<Rightarrow> db
      | Some p \<Rightarrow> if p = [] then db else revoke_where (\<lambda>s. s_id s = p \<and> s_user s = uid) now db)" (is "expiry_ok _ ?db1")
    using assms by (simp split: option.splits)
  moreover have "expiry_ok (au_policy env) (?db1\<lparr>t_sessions := t_sessions ?db1 @ [new_session env now uid agent ip prior]\<rparr>)"
    using calculation by (simp add: expiry_ok_def new_session_def)
  ultimately show ?thesis by (simp add: create_session_def Let_def)
qed

lemma expiry_ok_open:
  assumes "expiry_ok (au_policy env) db"
  shows "expiry_ok (au_policy env) (snd (open_session env u i db))"
proof -
  let ?c = "create_session env (au_now env 4) (u_id u) (li_agent i) (li_ip i) (li_prior i)
    (record_success (au_now env 3) (u_id u) db)"
  have "expiry_ok (au_policy env) (snd ?c)" using assms by (intro expiry_ok_create) simp
  then show ?thesis by (cases ?c; cases "fst ?c") (auto simp: open_session_def)
qed

lemma expiry_ok_refuse [simp]:
  "expiry_ok pol (as_db (snd (refuse_login e w r st))) = expiry_ok pol (as_db st)"
  using expiry_ok_audited [of pol "''login_failure''" w "[(''reason'', JStr r)]" "()" "as_db st"]
  by (auto simp: refuse_login_def simp del: expiry_ok_audited split: prod.splits sum.splits)

lemma expiry_ok_failure [simp]: "expiry_ok pol (as_db (record_failure env now uid ip st)) = expiry_ok pol (as_db st)"
  by (simp add: record_failure_def Let_def split: option.splits)

lemma expiry_ok_login:
  assumes "expiry_ok (au_policy env) (as_db st)"
  shows "expiry_ok (au_policy env) (as_db (snd (login env i st)))"
  by (rule login_induct) (simp_all add: assms expiry_ok_open)

lemma expiry_ok_validate: "expiry_ok pol db \<Longrightarrow> expiry_ok pol (snd (validate_token env tok db))"
  by (auto simp: validate_token_def Let_def expiry_ok_def list_all_iff set_upd_where split: option.splits)

lemma expiry_ok_revoke_all: "expiry_ok pol db \<Longrightarrow> expiry_ok pol (snd (revoke_all_for_user now uid w db))"
  by (simp add: revoke_all_for_user_def Let_def)

lemma expiry_ok_revoke_and_audit: "expiry_ok pol db \<Longrightarrow> expiry_ok pol (snd (revoke_and_audit env action admin uid db))"
  using expiry_ok_revoke_all [of pol db "au_now env 0" uid "Some (ar_id admin)"]
  by (auto simp: revoke_and_audit_def split: prod.splits sum.splits)

lemma auth_step_expiry: "auth_step pol st st' \<Longrightarrow> expiry_ok pol (as_db st) \<Longrightarrow> expiry_ok pol (as_db st')"
proof (induction rule: auth_step.induct)
  case (create_step st env admin email password role invited)
  have "t_sessions (snd (create_user env admin email password role invited (as_db st))) = t_sessions (as_db st)"
    by (simp add: create_user_def Let_def split: sum.splits)
  with create_step show ?case by (simp add: expiry_ok_def)
next
  case (deactivate_step st env admin uid)
  then show ?case by (auto simp: deactivate_user_def intro!: expiry_ok_revoke_and_audit)
next
  case (reset_step st env admin uid password)
  then show ?case by (auto simp: reset_password_def intro!: expiry_ok_revoke_and_audit split: sum.splits)
next
  case (other_step st' st)
  then show ?case using expiry_ok_same by blast
next
  case (login_step env st i)
  then show ?case using expiry_ok_login by blast
qed (simp_all add: expiry_ok_validate expiry_ok_revoke_all revoke_session_def)

lemma auth_steps_expiry: "(auth_step pol)\<^sup>*\<^sup>* st st' \<Longrightarrow> expiry_ok pol (as_db st) \<Longrightarrow> expiry_ok pol (as_db st')"
  by (induction rule: rtranclp_induct) (auto intro: auth_step_expiry)

section \<open>Failed logins\<close>

fun run_logins :: "(auth_env \<times> login_input) list \<Rightarrow> auth_state \<Rightarrow> (auth_error + login_result) list \<times> auth_state" where
  "run_logins [] st = ([], st)"
| "run_logins ((env, i) # cs) st =
     (let (r, st1) = login env i st; (rs, st2) = run_logins cs st1 in (r # rs, st2))"

text \<open>What the calls leave in the row of a user: each failure counts, and from the fifth on locks.\<close>

definition count_failures :: "(auth_env \<times> login_input) list \<Rightarrow> user_row \<Rightarrow> user_row" where
  "count_failures cs = fold (\<lambda>c. count_failure (au_now (fst c) 1)) cs"

lemma count_failures_fields [simp]:
  "u_id (count_failures cs u) = u_id u" "u_norm (count_failures cs u) = u_norm u"
  "u_pw_hash (count_failures cs u) = u_pw_hash u" "u_failed (count_failures cs u) = u_failed u + length cs"
  unfolding count_failures_def by (induction cs arbitrary: u) (simp_all add: count_failure_def)

lemma count_failures_lock:
  assumes "cs \<noteq> []" and "failures_before_lock \<le> u_failed u + length cs"
  shows "u_locked_until (count_failures cs u) = Some (au_now (fst (last cs)) 1 + lock_ms)"
  using assms
proof (induction cs rule: rev_induct)
  case (snoc c cs)
  have "count_failures (cs @ [c]) u = count_failure (au_now (fst c) 1) (count_failures cs u)"
    by (simp add: count_failures_def)
  with snoc.prems show ?case by (simp add: count_failure_def)
qed simp

lemma upd_where_twice:
  "(\<And>x. P (f x) = P x) \<Longrightarrow> upd_where P g (upd_where P f xs) = upd_where P (\<lambda>x. g (f x)) xs"
  by (simp add: upd_where_def)

lemma upd_where_id [simp]: "upd_where P (\<lambda>x. x) xs = xs"
  by (induction xs) simp_all

lemma refuse_login_tables [simp]:
  "t_users (as_db (snd (refuse_login e w r st))) = t_users (as_db st)"
  "t_sessions (as_db (snd (refuse_login e w r st))) = t_sessions (as_db st)"
  using audited_tables [of "''login_failure''" w "[(''reason'', JStr r)]" "()" "as_db st"]
  by (auto simp: refuse_login_def simp del: audited_tables split: prod.splits sum.splits)

lemma reason_allowed: "audit_key ''reason'' \<notin> set forbidden_meta_keys"
  by (simp add: audit_key_def forbidden_meta_keys_def js_lower_def lower_char_def)

lemma refuse_login_result [simp]: "fst (refuse_login e w r st) = Inl e"
proof -
  obtain db where "audited ''login_failure'' w [(''reason'', JStr r)] () (as_db st) = (Inr (), db)"
    using audited_total [of "[(''reason'', JStr r)]" "''login_failure''" w "()" "as_db st"] reason_allowed by auto
  then show ?thesis by (simp add: refuse_login_def)
qed

lemma open_session_not_invalid: "open_session env u i db \<noteq> (Inl Invalid_Credentials, db')"
  by (auto simp: open_session_def create_session_def audited_def Let_def split: prod.splits sum.splits option.splits if_splits)

lemma refused_only: "fst (refuse_login e w r st) = Inl Invalid_Credentials \<Longrightarrow> e = Invalid_Credentials"
  by (auto simp: refuse_login_def audited_def split: prod.splits sum.splits option.splits)

lemma failed_login_counts:
  assumes "login env i st = (Inl Invalid_Credentials, st')"
    and "normalize_email (au_nfkc env) (li_email i) = Inr n"
    and "find (\<lambda>u. u_norm u = n) (t_users (as_db st)) = Some u"
  shows "t_users (as_db st') = upd_where (\<lambda>x. u_id x = u_id u) (count_failure (au_now env 1)) (t_users (as_db st)) \<and>
    t_sessions (as_db st') = t_sessions (as_db st)"
proof -
  have "login env i st = refuse_login Invalid_Credentials (Some (u_id u)) ''invalid_credentials''
      (record_failure env (au_now env 1) (Some (u_id u)) (li_ip i) st)"
  proof (rule ccontr)
    assume other: "\<not> ?thesis"
    with assms have "login env i st = refuse_login Account_Deactivated (Some (u_id u)) ''deactivated'' st \<or>
        fst (open_session env u i (as_db st)) = Inl Invalid_Credentials"
      by (auto simp: login_def Let_def split: if_splits prod.splits)
    with assms(1) show False
      using refused_only [of Account_Deactivated "Some (u_id u)" "''deactivated''" st] open_session_not_invalid
      by (metis auth_error.distinct fst_conv prod.collapse)
  qed
  with assms(1) have st': "st' = snd (refuse_login Invalid_Credentials (Some (u_id u)) ''invalid_credentials''
      (record_failure env (au_now env 1) (Some (u_id u)) (li_ip i) st) :: (auth_error + login_result) \<times> auth_state)"
    by (metis snd_conv)
  show ?thesis unfolding st' by (simp add: record_failure_def Let_def)
qed

lemma find_unique:
  assumes "distinct (map k xs)" "x \<in> set xs" "\<And>y. P y \<longleftrightarrow> k y = k x"
  shows "find P xs = Some x"
proof (cases "find P xs")
  case None
  with assms show ?thesis by (auto simp: find_None_iff)
next
  case (Some y)
  with find_SomeD [OF Some] assms show ?thesis by (auto simp: distinct_map inj_on_def)
qed

lemma failed_logins_count:
  assumes "run_logins cs st = (rs, st')" and "list_all (\<lambda>r. r = Inl Invalid_Credentials) rs"
    and "list_all (\<lambda>c. normalize_email (au_nfkc (fst c)) (li_email (snd c)) = Inr (u_norm u)) cs"
    and "u \<in> set (t_users (as_db st))" "distinct (map u_norm (t_users (as_db st)))"
  shows "t_users (as_db st') = upd_where (\<lambda>x. u_id x = u_id u) (count_failures cs) (t_users (as_db st)) \<and>
    t_sessions (as_db st') = t_sessions (as_db st)"
  using assms
proof (induction cs arbitrary: st rs u)
  case Nil
  then show ?case by (simp add: count_failures_def)
next
  case (Cons c cs)
  obtain env i where c: "c = (env, i)" by (cases c)
  obtain r st1 where l: "login env i st = (r, st1)" by (cases "login env i st")
  obtain rs' where r: "run_logins cs st1 = (rs', st')" and rs: "rs = r # rs'"
    using Cons.prems(1) c l by (auto split: prod.splits)
  let ?f = "count_failure (au_now env 1)"
  have "find (\<lambda>x. u_norm x = u_norm u) (t_users (as_db st)) = Some u"
    using Cons.prems(4,5) by (intro find_unique) auto
  then have t1: "t_users (as_db st1) = upd_where (\<lambda>x. u_id x = u_id u) ?f (t_users (as_db st))"
    "t_sessions (as_db st1) = t_sessions (as_db st)"
    using failed_login_counts [of env i st st1 "u_norm u" u] Cons.prems(2,3) l rs c by auto
  have "map u_norm (t_users (as_db st1)) = map u_norm (t_users (as_db st))"
    unfolding t1 by (rule upd_where_map_key) (simp add: count_failure_def)
  then have d: "distinct (map u_norm (t_users (as_db st1)))" using Cons.prems(5) by simp
  have "?f u \<in> set (t_users (as_db st1))" using Cons.prems(4) unfolding t1 by (auto simp: set_upd_where)
  from Cons.IH [OF r _ _ this d] Cons.prems(2,3) rs
  have "t_users (as_db st') = upd_where (\<lambda>x. u_id x = u_id u) (count_failures cs) (t_users (as_db st1)) \<and>
      t_sessions (as_db st') = t_sessions (as_db st1)"
    by (simp add: count_failure_def)
  then show ?case
    using t1 by (simp add: upd_where_twice count_failure_def count_failures_def c fun_eq_iff)
qed

section \<open>Properties\<close>

text \<open>A deactivated user is shut out for good: after the deactivation, over any sequence of calls,
  nobody is ever logged in as that user and no session token is accepted as theirs.\<close>

theorem deactivated_user_shut_out:
  assumes "deactivate_user env admin uid (as_db st) = (Inr (), as_db st1)"
    and "(auth_step pol)\<^sup>*\<^sup>* st1 st2"
  shows "(\<forall>r st3. login env' i st2 = (Inr r, st3) \<longrightarrow> ar_id (lr_user r) \<noteq> uid) \<and>
    (\<forall>v db. validate_token env' tok (as_db st2) = (Inr v, db) \<longrightarrow> vs_user_id v \<noteq> uid \<and> ar_id (vs_user v) \<noteq> uid)"
proof -
  have off: "shut_out uid (as_db st2)"
    using shut_out_evolves [OF auth_steps_evolve [OF assms(2)] deactivated_rows [OF assms(1)]] .
  have "ar_id (lr_user r) \<noteq> uid" if "login env' i st2 = (Inr r, st3)" for r st3
    using that by (rule login_Inr) (use off in \<open>auto simp: auth_user_of_def shut_out_def\<close>)
  moreover have "vs_user_id v \<noteq> uid \<and> ar_id (vs_user v) \<noteq> uid"
    if "validate_token env' tok (as_db st2) = (Inr v, db)" for v db
    using that by (rule validate_Inr) (use off find_user_id in \<open>auto simp: auth_user_of_def shut_out_def\<close>)
  ultimately show ?thesis by blast
qed

text \<open>C38. A session that has been revoked, by logout, rotation, an idle timeout or an administrator, is
  never accepted again, and one that is accepted is within both of its lifetimes: it was opened less
  than the absolute lifetime ago and used less than the idle lifetime ago.\<close>

theorem accepted_session_live:
  assumes "(auth_step pol)\<^sup>*\<^sup>* st st'" and "expiry_ok pol (as_db st)" and "au_policy env = pol"
    and "validate_token env tok (as_db st') = (Inr v, db)"
  shows "(\<exists>s \<in> set (t_sessions (as_db st')). s_id s = vs_id v \<and> s_user s = vs_user_id v \<and> s_revoked_at s = None \<and>
      au_now env 0 < s_created_at s + sp_abs pol * 1000 \<and> au_now env 0 < s_last_seen s + sp_idle pol * 1000) \<and>
    (distinct (map s_id (t_sessions (as_db st))) \<longrightarrow>
      filter (\<lambda>s. s_id s = vs_id v \<and> (s_revoked_at s \<noteq> None \<or> s_user s \<noteq> vs_user_id v)) (t_sessions (as_db st)) = [])"
proof -
  from assms(4) obtain s where s: "s \<in> set (t_sessions (as_db st'))" "vs_id v = s_id s" "vs_user_id v = s_user s"
    "s_revoked_at s = None" "au_now env 0 < s_expires_at s" "au_now env 0 < s_last_seen s + sp_idle pol * 1000"
    by (rule validate_Inr) (use assms(3) in auto)
  have "s_expires_at s = s_created_at s + sp_abs pol * 1000"
    using auth_steps_expiry [OF assms(1,2)] s(1) by (auto simp: expiry_ok_def list_all_iff)
  moreover have "s_revoked_at x = None \<and> s_user x = s_user s"
    if "distinct (map s_id (t_sessions (as_db st)))" "x \<in> set (t_sessions (as_db st))" "s_id x = s_id s" for x
  proof -
    have "evolves s_id same_session (t_sessions (as_db st)) (t_sessions (as_db st'))"
      using auth_steps_evolve [OF assms(1)] by (simp add: db_evolves_def)
    moreover have "s_id s \<in> s_id ` set (t_sessions (as_db st))" using that(2,3) by (metis imageI)
    ultimately obtain y where "y \<in> set (t_sessions (as_db st))" "s_id y = s_id s" "same_session y s"
      using s(1) by (auto simp: evolves_def)
    moreover have "y = x" using calculation that by (auto simp: distinct_map inj_on_def)
    ultimately show ?thesis using s(4) by (auto simp: same_session_def)
  qed
  ultimately show ?thesis using s by (auto simp: filter_empty_conv)
qed


section \<open>Witnesses\<close>

definition sample_policy :: session_policy where
  "sample_policy = \<lparr>sp_abs = 43200, sp_idle = 7200, sp_secret = ''k'', sp_secure = False, sp_cookie = ''rp_session'',
     sp_csrf_cookie = ''rp_csrf''\<rparr>"

definition sample_auth :: auth_env where
  "sample_auth = \<lparr>au_nfkc = (\<lambda>s. s), au_hmac = (\<lambda>k t. k @ t), au_verify = (\<lambda>h p. Some (p = ''right'')),
     au_hash = (\<lambda>p. p), au_policy = sample_policy, au_now = (\<lambda>n. 1000 + int n), au_token = ''t'', au_sid = ''s1'',
     au_uid = ''u9''\<rparr>"

definition sample_login_user :: user_row where
  "sample_login_user = \<lparr>u_id = ''u1'', u_email = ''a@x'', u_norm = ''a@x'', u_pw_hash = ''h'', u_role = Developer,
     u_status = User_Active, u_created_by = None, u_invited_at = None, u_created_at = 0, u_last_login = None,
     u_failed = 4, u_locked_until = None\<rparr>"

definition sample_session :: session_row where
  "sample_session = \<lparr>s_id = ''s1'', s_user = ''u1'', s_token_hash = ''kt'', s_created_at = 0, s_expires_at = 43200000,
     s_last_seen = 0, s_rotated_from = None, s_revoked_at = None, s_ua_hash = None, s_ip_hash = None\<rparr>"

definition sample_auth_state :: auth_state where
  "sample_auth_state = \<lparr>as_db = empty_db\<lparr>t_users := [sample_login_user], t_sessions := [sample_session]\<rparr>,
     as_buckets = Map.empty\<rparr>"

definition sample_try :: "string \<Rightarrow> login_input" where
  "sample_try p = \<lparr>li_email = ''a@x'', li_password = p, li_agent = None, li_ip = None, li_prior = None\<rparr>"

lemma sample_email: "normalize_email (au_nfkc sample_auth) (li_email (sample_try p)) = Inr ''a@x''"
proof -
  have "js_trim ''a@x'' = ''a@x''" "js_lower ''a@x'' = ''a@x''"
    by (simp_all add: js_trim_def js_trim_start_def is_js_space_def js_lower_def lower_char_def)
  then show ?thesis by (simp add: normalize_email_def sample_auth_def sample_try_def starts_with_def)
qed

lemma sample_auth_simps [simp]:
  "t_users (as_db sample_auth_state) = [sample_login_user]" "t_sessions (as_db sample_auth_state) = [sample_session]"
  "as_buckets sample_auth_state = Map.empty" "u_norm sample_login_user = ''a@x''" "u_id sample_login_user = ''u1''"
  "au_policy sample_auth = sample_policy" "au_now sample_auth n = 1000 + int n" "li_ip (sample_try p) = None"
  "li_password (sample_try p) = p" "u_pw_hash sample_login_user = ''h''"
  by (simp_all add: sample_auth_state_def sample_login_user_def sample_auth_def sample_try_def)

lemma sample_verify [simp]: "verify_password (au_verify sample_auth) ''h'' p \<longleftrightarrow> p = ''right''"
  by (auto simp: verify_password_def sample_auth_def)

lemma sample_failure:
  "\<exists>st'. run_logins [(sample_auth, sample_try ''wrong'')] sample_auth_state = ([Inl Invalid_Credentials], st') \<and>
     ip_allowed sample_auth 1000 None st'"
proof -
  let ?st = "record_failure sample_auth 1001 (Some ''u1'') None sample_auth_state"
  let ?r = "refuse_login Invalid_Credentials (Some ''u1'') ''invalid_credentials'' ?st :: (auth_error + login_result) \<times> auth_state"
  have "login sample_auth (sample_try ''wrong'') sample_auth_state = ?r"
    by (simp add: login_def Let_def ip_allowed_def sample_email)
  moreover have "fst ?r = Inl Invalid_Credentials" by (rule refuse_login_result)
  moreover have "as_buckets (snd ?r) = as_buckets ?st"
    by (auto simp: refuse_login_def split: prod.splits sum.splits)
  moreover have "ip_allowed sample_auth 1000 None ?st"
    by (simp add: ip_allowed_def record_failure_def Let_def ip_max_failures_def)
  ultimately show ?thesis by (cases ?r) (simp add: ip_allowed_def)
qed


lemma sample_deactivated:
  "\<exists>db. deactivate_user sample_auth \<lparr>ar_id = ''a1'', ar_email = [], ar_norm = [], ar_role = Admin, ar_status = User_Active\<rparr>
     ''u1'' (as_db sample_auth_state) = (Inr (), db)"
proof -
  have k: "audit_key ''targetUserId'' \<notin> set forbidden_meta_keys" "audit_key ''count'' \<notin> set forbidden_meta_keys"
    by (simp_all add: audit_key_def forbidden_meta_keys_def js_lower_def lower_char_def)
  have all: "\<exists>n db1. revoke_all_for_user now u w db = (Inr n, db1)" for now u w db
  proof -
    let ?n = "count_where (\<lambda>s. s_user s = u \<and> s_revoked_at s = None) (t_sessions db)"
    show ?thesis
      using audited_total [of "[(''targetUserId'', JStr u), (''count'', JNum (of_nat ?n))]" "''sessions_revoked''" w ?n
        "revoke_where (\<lambda>s. s_user s = u) now db"] k
      by (auto simp: revoke_all_for_user_def Let_def)
  qed
  have "\<exists>db1. revoke_and_audit e a x u db = (Inr (), db1)" for e a x u db
  proof -
    obtain n db1 where r: "revoke_all_for_user (au_now e 0) u (Some (ar_id x)) db = (Inr n, db1)" using all by blast
    from audited_total [of "[(''targetUserId'', JStr u)]" a "Some (ar_id x)" "()" db1] k r
    show ?thesis by (auto simp: revoke_and_audit_def)
  qed
  then show ?thesis by (simp add: deactivate_user_def find_user_def)
qed

theorem deactivated_user_shut_out_witness:
  "\<exists>st1. \<not> (\<exists>r st3. login sample_auth (sample_try ''right'') st1 = (Inr r, st3) \<and> ar_id (lr_user r) = ''u1'')"
proof -
  obtain db where d: "deactivate_user sample_auth \<lparr>ar_id = ''a1'', ar_email = [], ar_norm = [], ar_role = Admin,
      ar_status = User_Active\<rparr> ''u1'' (as_db sample_auth_state) = (Inr (), as_db (sample_auth_state\<lparr>as_db := db\<rparr>))"
    using sample_deactivated by auto
  from deactivated_user_shut_out [OF d rtranclp.rtrancl_refl] show ?thesis by blast
qed

theorem accepted_session_live_witness:
  "\<exists>v db. validate_token sample_auth (Some ''t'') (as_db sample_auth_state) = (Inr v, db) \<and> vs_id v = ''s1'' \<and>
     s_revoked_at sample_session = None"
proof -
  have f: "find_user ''u1'' (as_db sample_auth_state) = Some sample_login_user" by (simp add: find_user_def)
  obtain v db where v: "validate_token sample_auth (Some ''t'') (as_db sample_auth_state) = (Inr v, db)" "vs_id v = ''s1''"
    using f by (simp add: validate_token_def Let_def sample_session_def sample_policy_def sample_auth_def
        sample_login_user_def [THEN arg_cong, of u_status])
  have "expiry_ok sample_policy (as_db sample_auth_state)"
    by (simp add: expiry_ok_def sample_session_def sample_policy_def)
  from accepted_session_live [OF rtranclp.rtrancl_refl this _ v(1)] v show ?thesis
    by (auto simp: filter_empty_conv)
qed

end
