(* ===== verification/Setup.thy ===== *)
theory Setup
  imports EnvCheck Dashboard AuthProperties
begin

text \<open>
  What happens around the running processes: the handles of the database connection
  (\<open>packages/db/src/index.ts\<close>), the health and readiness routes, the preflight and smoke scripts, the seed of
  the reference rules (\<open>seed-kpi-ref.ts\<close>) and the first administrator (\<open>apps/web/scripts/bootstrap-admin.ts\<close>).
\<close>

section \<open>The handles of the database connection\<close>

text \<open>The client and the pool that \<open>globalThis\<close> holds, the pools that are open, and the next one's number. A
  client is known by its pool.\<close>

record db_handles =
  dh_client :: "nat option"
  dh_pool :: "nat option"
  dh_open :: "nat list"
  dh_next :: nat

definition create_prisma_client :: "env \<Rightarrow> db_handles \<Rightarrow> (thrown_error + nat) \<times> db_handles" where
  "create_prisma_client env h =
     (if (case env ''DATABASE_URL'' of None \<Rightarrow> True | Some s \<Rightarrow> s = []) then (Inl (plain_error ''DATABASE_URL is required''), h)
      else let (pool, h1) = (case dh_pool h of
               Some p \<Rightarrow> (p, h)
             | None \<Rightarrow> (dh_next h, h\<lparr>dh_open := dh_next h # dh_open h, dh_next := dh_next h + 1\<rparr>))
        in (Inr pool, if env ''NODE_ENV'' = Some ''production'' then h1 else h1\<lparr>dh_pool := Some pool\<rparr>))"

definition get_prisma :: "env \<Rightarrow> db_handles \<Rightarrow> (thrown_error + nat) \<times> db_handles" where
  "get_prisma env h =
     (case dh_client h of
        Some p \<Rightarrow> (Inr p, h)
      | None \<Rightarrow>
          (case create_prisma_client env h of
             (Inl e, h1) \<Rightarrow> (Inl e, h1)
           | (Inr p, h1) \<Rightarrow> (Inr p, h1\<lparr>dh_client := Some p\<rparr>)))"

text \<open>\<open>answers\<close> says whether \<open>SELECT 1\<close> succeeds.\<close>

definition check_database_connectivity :: "env \<Rightarrow> bool \<Rightarrow> db_handles \<Rightarrow> bool \<times> db_handles" where
  "check_database_connectivity env answers h =
     (case get_prisma env h of (Inl _, h1) \<Rightarrow> (False, h1) | (Inr _, h1) \<Rightarrow> (answers, h1))"

text \<open>\<open>client_close\<close> is what \<open>$disconnect\<close> does: \<open>None\<close> where it throws, otherwise whether it ends the pool that it
  was given. An error of \<open>pool.end\<close> is ignored.\<close>

definition disconnect_database :: "bool option \<Rightarrow> db_handles \<Rightarrow> bool \<times> db_handles" where
  "disconnect_database client_close h =
     (let h1 = h\<lparr>dh_client := None, dh_pool := None\<rparr>;
          end_pool = (\<lambda>p x. x\<lparr>dh_open := filter (\<lambda>q. Some q \<noteq> p) (dh_open x)\<rparr>) in
      case (dh_client h, client_close) of
        (Some c, None) \<Rightarrow> (False, h1)
      | (Some c, Some True) \<Rightarrow> (True, end_pool (dh_pool h) (end_pool (Some c) h1))
      | _ \<Rightarrow> (True, end_pool (dh_pool h) h1))"

section \<open>Health and readiness\<close>

definition build_health_payload :: json where
  "build_health_payload = JObj [(''status'', JStr ''ok''), (''service'', JStr ''reviewpulse-web'')]"

definition health_response :: web_response where
  "health_response = json_response build_health_payload 200"

definition build_ready_payload :: "bool \<Rightarrow> json" where
  "build_ready_payload ok =
     (if \<not> ok then JObj [(''status'', JStr ''not_ready''), (''checks'', JObj [(''database'', JStr ''fail'')])]
      else JObj [(''status'', JStr ''ready''), (''checks'', JObj [(''database'', JStr ''ok'')])])"

definition ready_response :: "bool \<Rightarrow> web_response" where
  "ready_response ok = json_response (build_ready_payload ok) (if ok then 200 else 503)"

definition ready_forbidden :: "string list" where
  "ready_forbidden = [''DATABASE_URL'', ''TOKEN_ENCRYPTION_KEY'', ''SESSION_SECRET'', ''password'', ''postgresql://'',
     ''postgres://'', ''stack'', ''at Object'']"

definition assert_ready_payload_is_safe :: "json \<Rightarrow> string + unit" where
  "assert_ready_payload_is_safe payload =
     (case find (\<lambda>n. str_includes (js_lower n) (js_lower (json_stringify payload))) ready_forbidden of
        None \<Rightarrow> Inr ()
      | Some n \<Rightarrow> Inl (''ready payload leaked sensitive fragment: '' @ n))"

definition ready_route :: "env \<Rightarrow> bool \<Rightarrow> db_handles \<Rightarrow> web_response \<times> db_handles" where
  "ready_route env answers h =
     (case check_database_connectivity env answers h of (ok, h1) \<Rightarrow> (ready_response ok, h1))"

section \<open>Scripts\<close>

text \<open>The lines printed and the exit code; the process environment is the one after \<open>loadMonorepoEnv\<close>.\<close>

definition env_preflight :: "(string \<Rightarrow> env_url option) \<Rightarrow> bool \<Rightarrow> env \<Rightarrow> string list \<times> nat" where
  "env_preflight new_url loaded env =
     (let r = validate_runtime_env new_url env;
          first = ''[reviewpulse:preflight] root .env: '' @
            (if loaded then ''loaded'' else ''not found (using process.env only)'');
          lines = first # map (\<lambda>l. ''warning: '' @ l) (summarize_env_warnings r) @
            map (\<lambda>l. ''error: '' @ l) (summarize_env_issues r) in
      if er_ok r then (lines @ [''[reviewpulse:preflight] ok''], 0)
      else case assert_runtime_env new_url env of
        (Inl _, ls) \<Rightarrow> (lines @ ls, 1)
      | (Inr _, ls) \<Rightarrow> (lines @ ls @ [''[reviewpulse:preflight] ok''], 0))"

definition ready_smoke :: "env \<Rightarrow> bool \<Rightarrow> db_handles \<Rightarrow> (string \<times> nat) \<times> db_handles" where
  "ready_smoke env answers h =
     (case check_database_connectivity env answers h of
        (ok, h1) \<Rightarrow> (if ok then (json_stringify (JObj [(''check'', JStr ''database''), (''status'', JStr ''ok'')]), 0)
          else (json_stringify (JObj [(''check'', JStr ''database''), (''status'', JStr ''fail'')]), 1), h1))"

section \<open>The reference rules\<close>

definition seed_rule :: "string \<Rightarrow> rat option \<Rightarrow> rat option \<Rightarrow> string \<Rightarrow> string option \<Rightarrow> kpi_rule_row" where
  "seed_rule key lo hi unit detection = \<lparr>kr_key = key, kr_min = lo, kr_max = hi, kr_unit = Some unit,
     kr_detection = detection, kr_status = Rule_Active\<rparr>"

definition seed_rules :: "kpi_rule_row list" where
  "seed_rules =
     [seed_rule ''commit_frequency'' (Some 3) (Some 8) ''commits_per_week'' None,
      seed_rule ''ai_assisted_commits'' None None ''commits'' (Some (CHR 0x5C # ''[[Aa][Ii]'' @ [CHR 0x5C, CHR '']''])),
      seed_rule ''loc_weekly'' (Some 500) None ''loc_per_week'' None,
      seed_rule ''mr_size'' None (Some 400) ''lines_per_mr'' None]"

definition put_rule :: "kpi_rule_row \<Rightarrow> kpi_rule_row list \<Rightarrow> kpi_rule_row list" where
  "put_rule r rs =
     (if \<exists>x \<in> set rs. kr_key x = kr_key r then upd_where (\<lambda>x. kr_key x = kr_key r) (\<lambda>_. r) rs else rs @ [r])"

definition is_dev_ruleset :: "kpi_ruleset_row \<Rightarrow> bool" where
  "is_dev_ruleset s \<longleftrightarrow> ks_role s = ''DEV'' \<and> ks_version s = ''dev-kpi-ref-2026.08.1''"

text \<open>\<open>None\<close> where the new row's key is taken.\<close>

definition seed_kpi :: "string \<Rightarrow> database \<Rightarrow> database option" where
  "seed_kpi new_id db =
     (let sets = (if \<exists>s \<in> set (t_rulesets db). is_dev_ruleset s then t_rulesets db
            else t_rulesets db @ [\<lparr>ks_id = new_id, ks_role = ''DEV'', ks_version = ''dev-kpi-ref-2026.08.1'', ks_rules = []\<rparr>]) in
      if \<not> (\<exists>s \<in> set (t_rulesets db). is_dev_ruleset s) \<and> new_id \<in> ks_id ` set (t_rulesets db) then None
      else Some (db\<lparr>t_rulesets := upd_where is_dev_ruleset (\<lambda>s. s\<lparr>ks_rules := fold put_rule seed_rules (ks_rules s)\<rparr>) sets\<rparr>))"

section \<open>The first administrator\<close>

text \<open>\<open>argValue\<close>: the argument after the first occurrence of the flag.\<close>

fun arg_value :: "string \<Rightarrow> string list \<Rightarrow> string option" where
  "arg_value flag [] = None"
| "arg_value flag (x # xs) = (if x = flag then (case xs of [] \<Rightarrow> None | v # _ \<Rightarrow> Some v) else arg_value flag xs)"

definition arg_or_env :: "string \<Rightarrow> string \<Rightarrow> string list \<Rightarrow> env \<Rightarrow> string" where
  "arg_or_env flag key argv env =
     (case arg_value flag argv of
        Some v \<Rightarrow> v | None \<Rightarrow> (case env key of None \<Rightarrow> [] | Some s \<Rightarrow> s))"

definition drop_newline :: "string \<Rightarrow> string" where
  "drop_newline s = (if s \<noteq> [] \<and> last s = CHR 0x0A then butlast s else s)"

definition first_admin :: "auth_env \<Rightarrow> string \<Rightarrow> string \<Rightarrow> string \<Rightarrow> user_row" where
  "first_admin a email n h = \<lparr>u_id = au_uid a, u_email = js_trim email, u_norm = n, u_pw_hash = h, u_role = Admin,
     u_status = User_Active, u_created_by = None, u_invited_at = None, u_created_at = au_now a 0, u_last_login = None,
     u_failed = 0, u_locked_until = None\<rparr>"

text \<open>The exit code and the database; \<open>read_file\<close> is \<open>None\<close> where reading throws. The row stays when the audit event is
  refused.\<close>

definition bootstrap_admin ::
    "auth_env \<Rightarrow> (string \<Rightarrow> string option) \<Rightarrow> string list \<Rightarrow> env \<Rightarrow> database \<Rightarrow> nat \<times> database" where
  "bootstrap_admin a read_file argv env db =
     (case load_session_policy env of
        Inl _ \<Rightarrow> (1, db)
      | Inr _ \<Rightarrow>
          let email = arg_or_env ''--email'' ''BOOTSTRAP_ADMIN_EMAIL'' argv env;
              file = arg_or_env ''--password-file'' ''BOOTSTRAP_ADMIN_PASSWORD_FILE'' argv env in
          if email = [] \<or> file = [] then (2, db)
          else case read_file file of
            None \<Rightarrow> (1, db)
          | Some text \<Rightarrow>
              (case normalize_email (au_nfkc a) email of
                 Inl _ \<Rightarrow> (1, db)
               | Inr n \<Rightarrow>
                   if \<exists>u \<in> set (t_users db). u_norm u = n then (1, db)
                   else case hash_password (au_hash a) (drop_newline text) of
                     Inl _ \<Rightarrow> (1, db)
                   | Inr h \<Rightarrow>
                       if \<exists>u \<in> set (t_users db). u_id u = au_uid a then (1, db)
                       else (case audited ''user_created'' (Some (au_uid a)) [(''bootstrap'', JBool True), (''role'', JStr ''admin'')] ()
                              (db\<lparr>t_users := t_users db @ [first_admin a email n h]\<rparr>) of
                           (Inl _, db1) \<Rightarrow> (1, db1)
                         | (Inr _, db1) \<Rightarrow> (0, db1))))"

section \<open>Lemmas\<close>

text \<open>Outside production at most one pool is open, the one that \<open>globalThis\<close> holds, so that disconnecting closes it.
  In production the pool is not held: where the client leaves a pool open that it was given, it stays open.\<close>

definition init_handles :: db_handles where
  "init_handles = \<lparr>dh_client = None, dh_pool = None, dh_open = [], dh_next = 0\<rparr>"

inductive handle_step :: "env \<Rightarrow> db_handles \<Rightarrow> db_handles \<Rightarrow> bool" for env where
  used: "get_prisma env h = (r, h') \<Longrightarrow> handle_step env h h'"
| closed: "disconnect_database (Some d) h = (r, h') \<Longrightarrow> handle_step env h h'"

definition handles_ok :: "db_handles \<Rightarrow> bool" where
  "handles_ok h \<longleftrightarrow> dh_open h = (case dh_pool h of None \<Rightarrow> [] | Some p \<Rightarrow> [p]) \<and>
     (dh_client h \<noteq> None \<longrightarrow> dh_pool h = dh_client h)"

lemma disconnect_ok: "handles_ok h \<Longrightarrow> disconnect_database (Some d) h = (r, h') \<Longrightarrow> handles_ok h' \<and> dh_open h' = []"
  by (cases d) (auto simp: handles_ok_def disconnect_database_def Let_def split: option.splits)

lemma get_prisma_ok:
  "handles_ok h \<Longrightarrow> env ''NODE_ENV'' \<noteq> Some ''production'' \<Longrightarrow> get_prisma env h = (r, h') \<Longrightarrow> handles_ok h'"
  by (auto simp: handles_ok_def get_prisma_def create_prisma_client_def split: option.splits if_splits prod.splits sum.splits)

lemma handles_reachable:
  assumes "(handle_step env)\<^sup>*\<^sup>* init_handles h" and "env ''NODE_ENV'' \<noteq> Some ''production''"
  shows "handles_ok h"
  using assms(1)
proof (induction rule: rtranclp_induct)
  case (step y z)
  from step(2) show ?case by cases (use step(3) assms(2) get_prisma_ok disconnect_ok in blast)+
qed (simp add: handles_ok_def init_handles_def)

lemma disconnect_leaves_no_pool:
  assumes "(handle_step env)\<^sup>*\<^sup>* init_handles h" and "env ''NODE_ENV'' \<noteq> Some ''production''"
    and "disconnect_database (Some d) h = (r, h')"
  shows "dh_open h' = []"
  using disconnect_ok [OF handles_reachable [OF assms(1,2)] assms(3)] by blast

lemma production_pool_stays:
  assumes "env ''NODE_ENV'' = Some ''production''" and "get_prisma env init_handles = (Inr p, h)"
  shows "dh_open (snd (disconnect_database (Some False) h)) = [p]"
  using assms by (auto simp: get_prisma_def create_prisma_client_def init_handles_def disconnect_database_def Let_def
      split: if_splits option.splits)

text \<open>After the seed the rules are those of the seed, whatever they were, and the metrics refer to them; a second seed
  changes nothing.\<close>

lemma put_rule_simps [simp]:
  "put_rule r [] = [r]"
  "put_rule r (x # rs) = (if kr_key x = kr_key r then r # upd_where (\<lambda>x. kr_key x = kr_key r) (\<lambda>_. r) rs else x # put_rule r rs)"
  by (simp_all add: put_rule_def)

lemma find_other: "k \<noteq> kr_key r \<Longrightarrow>
    find (\<lambda>x. kr_key x = k \<and> kr_status x = s) (upd_where (\<lambda>x. kr_key x = kr_key r) (\<lambda>_. r) rs) =
    find (\<lambda>x. kr_key x = k \<and> kr_status x = s) rs"
  by (induction rs) auto

lemma rule_by_key_put: "kr_status r = Rule_Active \<Longrightarrow>
    rule_by_key (put_rule r rs) k = (if k = kr_key r then Some r else rule_by_key rs k)"
  by (induction rs) (auto simp: rule_by_key_def find_other)

lemma seeded_rules:
  "rule_by_key (fold put_rule seed_rules rs) k =
     (case find (\<lambda>r. kr_key r = k) seed_rules of Some r \<Rightarrow> Some r | None \<Rightarrow> rule_by_key rs k)"
  by (simp add: seed_rules_def rule_by_key_put seed_rule_def)

definition rule_fixed :: "kpi_rule_row \<Rightarrow> kpi_rule_row list \<Rightarrow> bool" where
  "rule_fixed r rs \<longleftrightarrow> r \<in> set rs \<and> (\<forall>x \<in> set rs. kr_key x = kr_key r \<longrightarrow> x = r)"

lemma put_rule_fixed: "rule_fixed r rs \<Longrightarrow> put_rule r rs = rs"
  by (auto simp: rule_fixed_def put_rule_def upd_where_def intro!: map_idI)

lemma fixed_put_rule: "q = r \<or> kr_key q \<noteq> kr_key r \<and> rule_fixed r rs \<Longrightarrow> rule_fixed r (put_rule q rs)"
  by (auto simp: rule_fixed_def put_rule_def set_upd_where image_iff)

lemma fold_put_fixed: "distinct (map kr_key qs) \<Longrightarrow> r \<in> set qs \<Longrightarrow> rule_fixed r (fold put_rule qs rs)"
proof (induction qs rule: rev_induct)
  case (snoc q qs)
  then show ?case by (cases "r = q") (auto intro!: fixed_put_rule)
qed simp

lemma fold_unchanged: "(\<And>r. r \<in> set qs \<Longrightarrow> f r x = x) \<Longrightarrow> fold f qs x = x"
  by (induction qs) auto

lemma seed_twice: "fold put_rule seed_rules (fold put_rule seed_rules rs) = fold put_rule seed_rules rs"
  by (intro fold_unchanged put_rule_fixed fold_put_fixed) (simp_all add: seed_rules_def seed_rule_def)

lemma is_dev_ruleset_rules [simp]: "is_dev_ruleset (s\<lparr>ks_rules := rs\<rparr>) = is_dev_ruleset s"
  by (simp add: is_dev_ruleset_def)

lemma seed_kpi_rulesets:
  assumes "seed_kpi new_id db = Some db'"
  shows "(\<exists>s \<in> set (t_rulesets db'). is_dev_ruleset s) \<and>
    (\<forall>s \<in> set (t_rulesets db'). is_dev_ruleset s \<longrightarrow> (\<exists>rs. ks_rules s = fold put_rule seed_rules rs))"
proof -
  have "is_dev_ruleset \<lparr>ks_id = new_id, ks_role = ''DEV'', ks_version = ''dev-kpi-ref-2026.08.1'', ks_rules = []\<rparr>"
    by (simp add: is_dev_ruleset_def)
  with assms obtain ss s where
    "t_rulesets db' = upd_where is_dev_ruleset (\<lambda>s. s\<lparr>ks_rules := fold put_rule seed_rules (ks_rules s)\<rparr>) ss"
    "s \<in> set ss" "is_dev_ruleset s"
    by (fastforce simp: seed_kpi_def Let_def split: if_splits)
  note r = this
  then have "s\<lparr>ks_rules := fold put_rule seed_rules (ks_rules s)\<rparr> \<in> set (t_rulesets db')" by (auto simp: set_upd_where)
  with r(3) have "\<exists>s \<in> set (t_rulesets db'). is_dev_ruleset s" by (metis is_dev_ruleset_rules)
  with r show ?thesis by (auto simp: set_upd_where)
qed

lemma seed_idempotent:
  assumes "seed_kpi new_id db = Some db'"
  shows "seed_kpi other_id db' = Some db'"
proof -
  note r = seed_kpi_rulesets [OF assms]
  have "s\<lparr>ks_rules := fold put_rule seed_rules (ks_rules s)\<rparr> = s" if "s \<in> set (t_rulesets db')" "is_dev_ruleset s" for s
    using r that seed_twice by (metis kpi_ruleset_row.surjective kpi_ruleset_row.update_convs(4))
  then have "upd_where is_dev_ruleset (\<lambda>s. s\<lparr>ks_rules := fold put_rule seed_rules (ks_rules s)\<rparr>) (t_rulesets db') = t_rulesets db'"
    by (auto simp: upd_where_def intro!: map_idI)
  with r show ?thesis by (auto simp: seed_kpi_def Let_def)
qed

lemma seed_sets_references:
  assumes "seed_kpi new_id db = Some db'" and "calculate_reference_metrics cs (dashboard_rules db') now note = Some ms"
  shows "map (\<lambda>m. (md_metric m, md_min m, md_max m)) ms =
    [(''commit_frequency'', Some 3, Some 8), (''ai_assisted_commits'', None, None), (''loc_weekly'', Some 500, None),
     (''mr_size'', None, Some 400)]"
proof -
  obtain s where s: "load_dev_reference kpi_ruleset_version db' = Some s"
    using seed_kpi_rulesets [OF assms(1)]
    by (cases "load_dev_reference kpi_ruleset_version db'")
      (auto simp: load_dev_reference_def find_None_iff is_dev_ruleset_def kpi_ruleset_role_def kpi_ruleset_version_def)
  then have "s \<in> set (t_rulesets db') \<and> is_dev_ruleset s"
    by (auto simp: load_dev_reference_def is_dev_ruleset_def kpi_ruleset_role_def kpi_ruleset_version_def dest: find_SomeD)
  then obtain rs where "dashboard_rules db' = fold put_rule seed_rules rs"
    using seed_kpi_rulesets [OF assms(1)] s by (auto simp: dashboard_rules_def)
  then have k: "rule_by_key (dashboard_rules db') k =
      (case find (\<lambda>r. kr_key r = k) seed_rules of Some r \<Rightarrow> Some r | None \<Rightarrow> rule_by_key rs k)" for k
    by (simp add: seeded_rules)
  have "rule_by_key (dashboard_rules db') ''commit_frequency'' = Some (seed_rules ! 0)"
    "rule_by_key (dashboard_rules db') ''ai_assisted_commits'' = Some (seed_rules ! 1)"
    "rule_by_key (dashboard_rules db') ''loc_weekly'' = Some (seed_rules ! 2)"
    "rule_by_key (dashboard_rules db') ''mr_size'' = Some (seed_rules ! 3)"
    by (simp_all add: k seed_rules_def seed_rule_def)
  with assms(2) show ?thesis
    by (cases "week_window now")
      (auto simp: calculate_reference_metrics_def base_dto_def Let_def seed_rules_def seed_rule_def)
qed

lemma find_append_none: "\<forall>x \<in> set xs. \<not> P x \<Longrightarrow> find P (xs @ ys) = find P ys"
  by (induction xs) auto

lemma open_session_succeeds:
  assumes "find_user (u_id u) db \<noteq> None" and "li_prior i = None"
    and "\<forall>s \<in> set (t_sessions db). s_id s \<noteq> au_sid b \<and> s_token_hash s \<noteq> au_hmac b (sp_secret (au_policy b)) (au_token b)"
  shows "\<exists>r db'. open_session b u i db = (Inr r, db') \<and> lr_user r = auth_user_of u \<and> lr_token r = au_token b"
proof -
  let ?db1 = "record_success (au_now b 3) (u_id u) db" and ?s = "new_session b (au_now b 4) (u_id u) (li_agent i) (li_ip i) None"
  have "find_user (u_id u) ?db1 \<noteq> None"
    using assms(1) by (auto simp: find_user_def record_success_def update_user_def find_None_iff set_upd_where)
  then have c: "create_session b (au_now b 4) (u_id u) (li_agent i) (li_ip i) (li_prior i) ?db1 =
      (Inr (au_token b, ?s), ?db1\<lparr>t_sessions := t_sessions ?db1 @ [?s]\<rparr>)"
    using assms(2,3) by (simp add: create_session_def Let_def new_session_def record_success_def update_user_def)
  have "list_all (\<lambda>(k, v). audit_key k \<notin> set forbidden_meta_keys)
      [(''sessionId'', JStr (s_id ?s)), (''role'', JStr (role_text (u_role u)))]"
    by (simp add: audit_key_def forbidden_meta_keys_def js_lower_def lower_char_def)
  from audited_total [OF this, of "''login_success''" "Some (u_id u)"
      "\<lparr>lr_user = auth_user_of u, lr_token = au_token b, lr_session = s_id ?s\<rparr>" "?db1\<lparr>t_sessions := t_sessions ?db1 @ [?s]\<rparr>"]
    c show ?thesis by (auto simp: open_session_def)
qed

text \<open>The administrator of the bootstrap can log in with the password of the file, and is one. Argon2 verifies what it
  hashed; the token drawn at the login is new and the address is not blocked.\<close>

lemma bootstrap_admin_logs_in:
  assumes "bootstrap_admin a read_file argv env db = (0, db')"
    and "file = arg_or_env ''--password-file'' ''BOOTSTRAP_ADMIN_PASSWORD_FILE'' argv env" and "read_file file = Some text"
    and "li_email i = arg_or_env ''--email'' ''BOOTSTRAP_ADMIN_EMAIL'' argv env" and "li_password i = drop_newline text"
    and "au_nfkc b = au_nfkc a" and "\<And>p. au_hash a p \<noteq> [] \<and> au_verify b (au_hash a p) p = Some True"
    and "ip_allowed b (au_now b 0) (li_ip i) st" and "as_db st = db'" and "li_prior i = None"
    and "\<forall>s \<in> set (t_sessions db). s_id s \<noteq> au_sid b \<and> s_token_hash s \<noteq> au_hmac b (sp_secret (au_policy b)) (au_token b)"
  shows "\<exists>r st'. login b i st = (Inr r, st') \<and> ar_role (lr_user r) = Admin \<and> lr_token r = au_token b"
proof -
  obtain n h where n: "normalize_email (au_nfkc a) (li_email i) = Inr n" "\<forall>u \<in> set (t_users db). u_norm u \<noteq> n"
    "hash_password (au_hash a) (drop_newline text) = Inr h"
    and u: "t_users db' = t_users db @ [first_admin a (li_email i) n h]" "t_sessions db' = t_sessions db"
    using assms(1-4)
    by (auto simp: bootstrap_admin_def Let_def dest: audited_pair split: sum.splits if_splits option.splits prod.splits)
  let ?u = "first_admin a (li_email i) n h"
  have f: "find (\<lambda>u. u_norm u = n) (t_users db') = Some ?u"
    using n(2) by (simp add: u first_admin_def find_append_none)
  have v: "verify_password (au_verify b) (u_pw_hash ?u) (li_password i)"
    using n(3) assms(5,7)
    by (auto simp: hash_password_def verify_password_def first_admin_def password_policy_ok_def min_password_length_def split: if_splits)
  obtain r db2 where o': "open_session b ?u i db' = (Inr r, db2)" "lr_user r = auth_user_of ?u" "lr_token r = au_token b"
    using open_session_succeeds [of ?u db' i b] assms(10,11) u by (auto simp: find_user_def find_None_iff)
  have "login b i st = (Inr r, st\<lparr>as_db := db2\<rparr>)"
    using assms(6,8,9) n(1) f v o' by (simp add: login_def Let_def user_locked_def first_admin_def)
  with o' show ?thesis by (simp add: auth_user_of_def first_admin_def)
qed

end
