(* ===== verification/Transport.thy ===== *)
theory Transport
  imports Http
begin

text \<open>
  The transport of \<open>packages/gitlab-client/src/transport.ts\<close>: the options of a request to Node's
  \<open>http\<close> and \<open>https\<close> modules, the pinned lookup, and the promise around the request. What Node does
  with them follows: a host that is an IP literal is dialled as it is, any other through the lookup
  of the options, and the process-wide agent, which the options do not replace, keeps the sockets of
  answered requests for the next request to the same host and port.
\<close>

section \<open>Requests and responses\<close>

record transport_request =
  tr_url :: url
  tr_query :: "(string \<times> string) list"
  tr_headers :: "(string \<times> string) list"
  tr_pin :: "(string \<times> nat) option"

text \<open>The request of an attempt, as \<open>http.ts\<close> hands it to the transport.\<close>

definition request_of_attempt :: "http_request \<Rightarrow> transport_request" where
  "request_of_attempt rq =
     \<lparr>tr_url = rq_url rq, tr_query = rq_query rq,
      tr_headers = [(''private-token'', rq_token rq), (''accept'', ''application/json''),
        (''user-agent'', ''ReviewPulse-GitLabReadClient/1'')],
      tr_pin = Some (rq_pin rq, rq_pin_family rq)\<rparr>"

datatype header_value = Absent_Value | One_Value string | Many_Values "string list"

definition normalize_headers :: "(string \<times> header_value) list \<Rightarrow> string \<rightharpoonup> string" where
  "normalize_headers raw =
     fold (\<lambda>(key, value) out.
         case value of
           Absent_Value \<Rightarrow> out
         | Many_Values vs \<Rightarrow> out(js_lower key \<mapsto> join_with '', '' vs)
         | One_Value v \<Rightarrow> out(js_lower key \<mapsto> v))
       raw Map.empty"

section \<open>Options\<close>

text \<open>The second argument of a lookup: a family, or an object with the field \<open>all\<close>.\<close>

datatype lookup_options = Family_Option nat | Object_Option "bool option"

datatype lookup_answer = One_Address string nat | All_Addresses "(string \<times> nat) list"

type_synonym lookup = "string \<Rightarrow> lookup_options \<Rightarrow> lookup_answer"

definition pinned_lookup :: "string \<Rightarrow> nat \<Rightarrow> lookup" where
  "pinned_lookup address family _ options =
     (if options = Object_Option (Some True) then All_Addresses [(address, family)]
      else One_Address address family)"

record request_options =
  ro_method :: string
  ro_headers :: "(string \<times> string) list"
  ro_lookup :: "lookup option"
  ro_servername :: "string option"

definition strip_brackets :: "string \<Rightarrow> string" where
  "strip_brackets hostname =
     (if starts_with ''['' hostname \<and> ends_with '']'' hostname then butlast (tl hostname) else hostname)"

definition build_pinned_request_options :: "transport_request \<Rightarrow> url \<Rightarrow> request_options" where
  "build_pinned_request_options request u =
     \<lparr>ro_method = ''GET'', ro_headers = tr_headers request,
      ro_lookup = (case tr_pin request of None \<Rightarrow> None | Some (a, f) \<Rightarrow> Some (pinned_lookup a f)),
      ro_servername =
        (if url_protocol u = ''https:'' then Some (strip_brackets (url_hostname u)) else None)\<rparr>"

section \<open>The promise\<close>

datatype driver = Node_Http | Node_Https

datatype driver_event =
  Driver_Response "int option" "(string \<times> header_value) list" "byte list option list"
| Driver_Error

text \<open>The first event decides; a promise that is settled ignores the others. \<open>None\<close> is a promise
  that nothing has settled yet.\<close>

fun settle :: "driver_event list \<Rightarrow> http_response option option" where
  "settle [] = None"
| "settle (Driver_Response status raw body # _) =
     Some (Some \<lparr>hr_status = (case status of None \<Rightarrow> 0 | Some n \<Rightarrow> n),
       hr_headers = normalize_headers raw, hr_body = body\<rparr>)"
| "settle (Driver_Error # _) = Some None"

definition send_request ::
    "(driver \<Rightarrow> url \<times> (string \<times> string) list \<Rightarrow> request_options \<Rightarrow> driver_event list)
       \<Rightarrow> transport_request \<Rightarrow> http_response option option" where
  "send_request node request =
     (let u = tr_url request;
          options = build_pinned_request_options request u;
          driver = (if url_protocol u = ''https:'' then Node_Https else Node_Http)
      in settle (node driver (u, tr_query request) options))"

section \<open>Waiting between attempts\<close>

text \<open>\<open>defaultSleep\<close>: the timer or the caller's abort, whichever comes first.\<close>

datatype sleep_event = Timer_Fires | Abort_Fires

fun default_sleep :: "bool \<Rightarrow> sleep_event list \<Rightarrow> (gitlab_error + unit) option" where
  "default_sleep True _ = Some (Inl Gl_Aborted)"
| "default_sleep False [] = None"
| "default_sleep False (Timer_Fires # _) = Some (Inr ())"
| "default_sleep False (Abort_Fires # _) = Some (Inl Gl_Aborted)"

section \<open>Disposing of a body\<close>

text \<open>A body of Node has \<open>destroy\<close>, which closes its socket. \<open>drained\<close> tells whether the body was
  read to its end, so that its socket can serve another request.\<close>

datatype body_fate = Destroyed | Closed_Early nat | Drained

definition discard_body :: "bool \<Rightarrow> byte list option list \<Rightarrow> body_fate" where
  "discard_body destroyable chunks =
     (if destroyable then Destroyed
      else case chunks of [] \<Rightarrow> Drained | None # _ \<Rightarrow> Closed_Early 0 | Some _ # _ \<Rightarrow> Closed_Early 1)"

text \<open>The fate of a Node body in \<open>handleResponse\<close>.\<close>

definition body_fate :: "http_response \<Rightarrow> client_limits \<Rightarrow> body_fate" where
  "body_fate r limits =
     (if 200 \<le> hr_status r \<and> hr_status r < 300 then
        (case read_body_with_cap r (max_response_bytes limits) of Inl _ \<Rightarrow> Destroyed | Inr _ \<Rightarrow> Drained)
      else discard_body True (hr_body r))"

section \<open>Node's sockets\<close>

type_synonym socket_key = "string \<times> string \<times> string"

text \<open>The addresses that a connection tries, and the name that its certificate was checked for.\<close>

record socket =
  so_key :: socket_key
  so_addresses :: "string list"
  so_servername :: "string option"

definition effective_port :: "url \<Rightarrow> string" where
  "effective_port u =
     (if url_port u = [] then (case default_port (url_protocol u) of Some p \<Rightarrow> p | None \<Rightarrow> [])
      else url_port u)"

definition socket_key :: "url \<Rightarrow> socket_key" where
  "socket_key u = (url_protocol u, url_hostname u, effective_port u)"

fun answer_addresses :: "lookup_answer \<Rightarrow> string list" where
  "answer_addresses (One_Address a f) = [a]"
| "answer_addresses (All_Addresses xs) = map fst xs"

text \<open>\<open>net.connect\<close>: \<open>is_ip\<close> is \<open>net.isIP\<close>, \<open>dns\<close> the resolver that Node takes without a lookup,
  \<open>every\<close> whether it asks for all addresses.\<close>

definition dialled ::
    "(string \<Rightarrow> bool) \<Rightarrow> (string \<Rightarrow> string list) \<Rightarrow> bool \<Rightarrow> url \<Rightarrow> request_options \<Rightarrow> string list" where
  "dialled is_ip dns every u options =
     (let host = strip_brackets (url_hostname u) in
      if is_ip host then [host]
      else case ro_lookup options of
        Some lk \<Rightarrow> answer_addresses (lk host (Object_Option (Some every)))
      | None \<Rightarrow> dns host)"

definition open_socket ::
    "(string \<Rightarrow> bool) \<Rightarrow> (string \<Rightarrow> string list) \<Rightarrow> bool \<Rightarrow> url \<Rightarrow> request_options \<Rightarrow> socket" where
  "open_socket is_ip dns every u options =
     \<lparr>so_key = socket_key u, so_addresses = dialled is_ip dns every u options,
      so_servername = ro_servername options\<rparr>"

text \<open>The agent takes the newest idle socket of the key, and opens one when there is none.\<close>

definition take_socket ::
    "(string \<Rightarrow> bool) \<Rightarrow> (string \<Rightarrow> string list) \<Rightarrow> bool \<Rightarrow> socket list \<Rightarrow> url \<Rightarrow> request_options
       \<Rightarrow> socket \<times> socket list" where
  "take_socket is_ip dns every idle u options =
     (case find (\<lambda>s. so_key s = socket_key u \<and> so_servername s = ro_servername options) idle of
        Some s \<Rightarrow> (s, remove1 s idle)
      | None \<Rightarrow> (open_socket is_ip dns every u options, idle))"

text \<open>What happens at the agent: a request is sent, with the allowlist of its call, the answer, and
  whether the server keeps the connection open; or an idle socket is closed.\<close>

datatype agent_event =
  Exchange allowlist http_request "http_response option" client_limits bool
| Idle_Close nat

fun run_agent ::
    "(string \<Rightarrow> bool) \<Rightarrow> (string \<Rightarrow> string list) \<Rightarrow> bool \<Rightarrow> agent_event list \<Rightarrow> socket list
       \<Rightarrow> (http_request \<times> socket) list" where
  "run_agent is_ip dns every [] idle = []"
| "run_agent is_ip dns every (Idle_Close i # evs) idle =
     run_agent is_ip dns every evs (take i idle @ drop (Suc i) idle)"
| "run_agent is_ip dns every (Exchange al rq rsp limits keep # evs) idle =
     (case take_socket is_ip dns every idle (rq_url rq)
         (build_pinned_request_options (request_of_attempt rq) (rq_url rq)) of
        (s, rest) \<Rightarrow>
          (rq, s) # run_agent is_ip dns every evs
            (case rsp of
               Some r \<Rightarrow> if keep \<and> body_fate r limits = Drained then s # rest else rest
             | None \<Rightarrow> rest))"

section \<open>Lemmas\<close>

lemma strip_brackets_bracketless: "strip_brackets h = bracketless h"
  by (simp add: strip_brackets_def bracketless_def)

text \<open>Two URLs of the same pool key have the same origin.\<close>

lemma socket_key_origin: "socket_key u = socket_key v \<Longrightarrow> origin_of u = origin_of v"
  by (auto simp: socket_key_def origin_of_def effective_port_def default_port_def split: if_splits)

text \<open>A header is found under its name in lower case, whatever case the server used, and repeated
  values are joined.\<close>

lemma normalize_headers_snoc:
  "normalize_headers (raw @ [(key, value)]) =
     (case value of
        Absent_Value \<Rightarrow> normalize_headers raw
      | Many_Values vs \<Rightarrow> (normalize_headers raw)(js_lower key \<mapsto> join_with '', '' vs)
      | One_Value v \<Rightarrow> (normalize_headers raw)(js_lower key \<mapsto> v))"
  by (simp add: normalize_headers_def split: header_value.split)

lemma normalize_headers_lower: "normalize_headers raw h = Some v \<Longrightarrow> \<exists>key. h = js_lower key"
proof (induction raw rule: rev_induct)
  case Nil
  then show ?case by (simp add: normalize_headers_def)
next
  case (snoc x raw)
  then show ?case
    by (cases x) (auto simp: normalize_headers_snoc split: header_value.splits if_splits)
qed

text \<open>The retry after an error status does not use the socket of the failed attempt again.\<close>

lemma error_destroys_socket:
  "\<not> (200 \<le> hr_status r \<and> hr_status r < 300) \<Longrightarrow> body_fate r limits = Destroyed"
  by (auto simp: body_fate_def discard_body_def)

text \<open>A literal host is dialled as it is written: the lookup with the pinned address is never asked.\<close>

lemma literal_host_not_pinned:
  "is_ip (strip_brackets (url_hostname u)) \<Longrightarrow>
     dialled is_ip dns every u options = [strip_brackets (url_hostname u)]"
  by (simp add: dialled_def Let_def)

lemma name_dials_pin:
  "\<not> is_ip (strip_brackets (url_hostname u)) \<Longrightarrow>
     dialled is_ip dns every u (build_pinned_request_options (request_of_attempt rq) u) = [rq_pin rq]"
  by (simp add: dialled_def build_pinned_request_options_def request_of_attempt_def pinned_lookup_def Let_def)

lemma dials_some:
  "dialled is_ip dns every u (build_pinned_request_options (request_of_attempt rq) u) \<noteq> []"
  by (cases "is_ip (strip_brackets (url_hostname u))") (simp_all add: literal_host_not_pinned name_dials_pin)

text \<open>The abort of the caller during the egress check does not stop the attempt: whatever the signal
  says by then, the request leaves with the token.\<close>

lemma abort_in_check_unnoticed:
  assumes "ssrf_check (he_allow env) (he_resolve env t) (fst target) = Inr d" and "he_token env \<noteq> []"
  shows "\<exists>res rq. attempt (env\<lparr>he_aborted := \<lambda>_. True\<rparr>) target scope t = (res, Some rq) \<and>
    rq_token rq = he_token env"
  using assms by (simp add: attempt_def pat_credential_def Let_def)

section \<open>The requests of calls\<close>

text \<open>A request that some call of the executor sent under the allowlist \<open>al\<close>.\<close>

definition sent_by_call :: "allowlist \<Rightarrow> http_request \<Rightarrow> bool" where
  "sent_by_call al rq \<longleftrightarrow>
     (\<exists>env target scope t l. he_allow env = al \<and>
        l \<in> set (snd (request_json env target scope t)) \<and> lg_request l = Some rq)"

lemma sent_checked:
  assumes "sent_by_call al rq"
  shows "\<exists>resolve d. ssrf_check al resolve (rq_url rq) = Inr d \<and> rq_pin rq = sd_pinned d"
proof -
  obtain env target scope t l where e: "he_allow env = al"
    and l: "l \<in> set (snd (request_json env target scope t))" "lg_request l = Some rq"
    using assms by (auto simp: sent_by_call_def)
  obtain res lg where r: "request_json env target scope t = (res, lg)"
    by (cases "request_json env target scope t")
  from attempts_log [OF r [unfolded request_json_def]] l r
  obtain t0 where "attempt env target scope t0 = (lg_result l, Some rq)"
    by (auto simp: list_all_iff log_entry_ok_def)
  then obtain d where "ssrf_check (he_allow env) (he_resolve env t0) (fst target) = Inr d"
    "rq_pin rq = sd_pinned d" "rq_url rq = fst target" by (rule attempt_request)
  with e show ?thesis by auto
qed

definition address_allowed :: "allowlist \<Rightarrow> url \<Rightarrow> string \<Rightarrow> bool" where
  "address_allowed al u a =
     (case find_entry al (origin_of u) of
        None \<Rightarrow> False
      | Some internal \<Rightarrow> address_permitted internal a)"

lemma dialled_allowed:
  assumes chk: "ssrf_check al resolve u = Inr d" and pin: "rq_pin rq = sd_pinned d"
    and lit: "is_ip (strip_brackets (url_hostname u)) \<Longrightarrow> is_ip_literal (url_hostname u)"
    and low: "js_lower (url_hostname u) = url_hostname u"
  shows "list_all (address_allowed al u)
    (dialled is_ip dns every u (build_pinned_request_options (request_of_attempt rq) u))"
proof (cases "is_ip (strip_brackets (url_hostname u))")
  case True
  obtain internal candidates where al: "find_entry al (origin_of u) = Some internal"
    and c: "candidate_addresses resolve (js_lower (url_hostname u)) = Some candidates"
    and ok: "list_all (\<lambda>r. address_permitted internal (ra_address r)) candidates"
    using chk by (rule ssrf_check_Inr)
  have "is_ip_literal (url_hostname u)" using lit True .
  with c low have "ra_address (hd candidates) = bracketless (url_hostname u)" "candidates \<noteq> []"
    by (auto simp: candidate_addresses_def)
  with ok have "address_permitted internal (bracketless (url_hostname u))"
    by (cases candidates) auto
  with al True show ?thesis
    by (simp add: literal_host_not_pinned address_allowed_def strip_brackets_bracketless)
next
  case False
  with pinned_permitted [OF chk] pin show ?thesis by (auto simp: name_dials_pin address_allowed_def)
qed

section \<open>The sockets of the agent\<close>

text \<open>A socket was opened for a request of the set \<open>S\<close>, to addresses that its allowlist permits.\<close>

definition socket_of :: "(allowlist \<times> http_request) set \<Rightarrow> socket \<Rightarrow> bool" where
  "socket_of S s \<longleftrightarrow>
     (\<exists>(al, rq) \<in> S. so_key s = socket_key (rq_url rq) \<and> so_addresses s \<noteq> [] \<and>
        list_all (address_allowed al (rq_url rq)) (so_addresses s))"

definition exchanges :: "agent_event list \<Rightarrow> (allowlist \<times> http_request) set" where
  "exchanges evs = {(al, rq). \<exists>rsp limits keep. Exchange al rq rsp limits keep \<in> set evs}"

lemma take_socket_of:
  assumes "\<forall>s \<in> set idle. socket_of S s" and "(al, rq) \<in> S" and "sent_by_call al rq"
    and lit: "\<And>h. is_ip (strip_brackets h) \<Longrightarrow> is_ip_literal h"
    and low: "js_lower (url_hostname (rq_url rq)) = url_hostname (rq_url rq)"
    and t: "take_socket is_ip dns every idle (rq_url rq)
      (build_pinned_request_options (request_of_attempt rq) (rq_url rq)) = (s, rest)"
  shows "socket_of S s \<and> so_key s = socket_key (rq_url rq) \<and>
    so_servername s = (if url_protocol (rq_url rq) = ''https:''
      then Some (strip_brackets (url_hostname (rq_url rq))) else None) \<and>
    (\<forall>k \<in> set rest. socket_of S k)"
proof -
  let ?o = "build_pinned_request_options (request_of_attempt rq) (rq_url rq)"
  have name: "ro_servername ?o = (if url_protocol (rq_url rq) = ''https:''
      then Some (strip_brackets (url_hostname (rq_url rq))) else None)"
    by (simp add: build_pinned_request_options_def)
  obtain resolve d where "ssrf_check al resolve (rq_url rq) = Inr d" "rq_pin rq = sd_pinned d"
    using sent_checked [OF assms(3)] by blast
  from dialled_allowed [OF this lit low, of is_ip dns every]
  have fresh: "socket_of S (open_socket is_ip dns every (rq_url rq) ?o)"
    using assms(2) dials_some by (auto simp: socket_of_def open_socket_def)
  show ?thesis
  proof (cases "find (\<lambda>s. so_key s = socket_key (rq_url rq) \<and> so_servername s = ro_servername ?o) idle")
    case None
    with t have "s = open_socket is_ip dns every (rq_url rq) ?o" "rest = idle"
      by (simp_all add: take_socket_def)
    with fresh name assms(1) show ?thesis by (simp add: open_socket_def)
  next
    case (Some k)
    with t have "s = k" "rest = remove1 k idle" by (auto simp: take_socket_def)
    with Some name assms(1) show ?thesis by (auto simp: find_Some_iff dest: notin_set_remove1 in_set_remove1)
  qed
qed

lemma run_agent_sockets:
  assumes "exchanges evs \<subseteq> S" and "\<forall>(al, rq) \<in> S. sent_by_call al rq"
    and "\<forall>s \<in> set idle. socket_of S s"
    and lit: "\<And>h. is_ip (strip_brackets h) \<Longrightarrow> is_ip_literal h"
    and low: "\<forall>(al, rq) \<in> S. js_lower (url_hostname (rq_url rq)) = url_hostname (rq_url rq)"
    and "(rq, s) \<in> set (run_agent is_ip dns every evs idle)"
  shows "socket_of S s \<and> so_key s = socket_key (rq_url rq) \<and>
    so_servername s = (if url_protocol (rq_url rq) = ''https:''
      then Some (strip_brackets (url_hostname (rq_url rq))) else None)"
  using assms(1,3,6)
proof (induction evs arbitrary: idle)
  case (Cons ev evs)
  have "exchanges evs \<subseteq> exchanges (ev # evs)" by (fastforce simp: exchanges_def)
  with Cons.prems(1) have sub: "exchanges evs \<subseteq> S" by (rule subset_trans [rotated])
  show ?case
  proof (cases ev)
    case (Idle_Close i)
    have "\<forall>s \<in> set (take i idle @ drop (Suc i) idle). socket_of S s"
      using Cons.prems(2) by (auto dest: in_set_takeD in_set_dropD)
    from Cons.IH [OF sub this] Cons.prems(3) Idle_Close show ?thesis by simp
  next
    case (Exchange al q rsp limits keep)
    have "(al, q) \<in> exchanges (ev # evs)" by (auto simp: exchanges_def Exchange)
    with Cons.prems(1) have q: "(al, q) \<in> S" by blast
    obtain k rest where t: "take_socket is_ip dns every idle (rq_url q)
        (build_pinned_request_options (request_of_attempt q) (rq_url q)) = (k, rest)"
      by (cases "take_socket is_ip dns every idle (rq_url q)
        (build_pinned_request_options (request_of_attempt q) (rq_url q))")
    have k: "socket_of S k \<and> so_key k = socket_key (rq_url q) \<and>
        so_servername k = (if url_protocol (rq_url q) = ''https:''
          then Some (strip_brackets (url_hostname (rq_url q))) else None) \<and> (\<forall>k \<in> set rest. socket_of S k)"
      by (rule take_socket_of [OF Cons.prems(2) q _ lit _ t]) (use assms(2) low q in auto)
    let ?idle = "case rsp of Some r \<Rightarrow> if keep \<and> body_fate r limits = Drained then k # rest else rest
      | None \<Rightarrow> rest"
    have idle: "\<forall>s \<in> set ?idle. socket_of S s" using k by (auto split: option.splits)
    have "(rq, s) = (q, k) \<or> (rq, s) \<in> set (run_agent is_ip dns every evs ?idle)"
      using Cons.prems(3) by (simp add: Exchange t)
    then show ?thesis using k Cons.IH [OF sub idle] by blast
  qed
qed simp

section \<open>Properties\<close>


text \<open>A sample: two requests to the host \<open>g\<close>, whose name resolves to another address for the second.\<close>

definition sample_rq :: "nat \<Rightarrow> http_request" where
  "sample_rq n = \<lparr>rq_url = sample_url, rq_query = [], rq_token = ''glpat-1'',
     rq_pin = show_ipv4 [1, 2, 3, n], rq_pin_family = 4\<rparr>"

definition sample_agent :: "agent_event list" where
  "sample_agent =
     [Exchange [(''https://g'', False)] (sample_rq 4)
        (Some \<lparr>hr_status = 200, hr_headers = Map.empty, hr_body = [Some [91, 93]]\<rparr>) default_limits True,
      Exchange [(''https://g'', False)] (sample_rq 5) None default_limits True]"

lemma sample_sent:
  assumes "n < 256"
  shows "sent_by_call [(''https://g'', False)] (sample_rq n)"
proof -
  let ?r = "\<lambda>_. Some [\<lparr>ra_address = show_ipv4 [1, 2, 3, n], ra_family = 4\<rparr>]"
  let ?env = "sample_http\<lparr>he_resolve := \<lambda>_. ?r\<rparr>"
  have quad: "quad [1, 2, 3, n]" using assms by (simp add: quad_def)
  have "js_lower ''g'' = ''g''" by (simp add: js_lower_def lower_char_def)
  moreover have "classify_ip_address ''g'' = ip_unknown"
  proof -
    have "js_trim ''g'' = ''g''" by (simp add: js_trim_def js_trim_start_def is_js_space_def)
    then show ?thesis
      by (simp add: classify_ip_address_def bracketless_def starts_with_def parse_ipv4_def parse_ipv6_def
          hex_groups_def expand_groups_def)
  qed
  ultimately have "\<exists>d. ssrf_check [(''https://g'', False)] ?r sample_url = Inr d \<and>
      sd_pinned d = show_ipv4 [1, 2, 3, n] \<and> sd_pinned_family d = 4"
    using classify_show_ipv4 [OF quad]
    by (simp add: ssrf_check_def sample_url_def origin_of_def find_entry_def candidate_addresses_def
        is_ip_literal_def ip_unknown_def address_permitted_def always_denied_def pinned_decision_def)
  then have a: "attempt ?env (sample_url, []) Project_Scope t = (Inl Gl_Unauthorized, Some (sample_rq n))" for t
    by (auto simp: attempt_def sample_http_def pat_credential_def handle_response_def Let_def sample_rq_def)
  have "request_json ?env (sample_url, []) Project_Scope 0 =
      (Inl Gl_Unauthorized, [\<lparr>lg_start = 1, lg_timeout = 15000, lg_request = Some (sample_rq n),
         lg_result = Inl Gl_Unauthorized\<rparr>])"
    using attempts_permanent [of ?env 1 45000 "(sample_url, [])" Project_Scope Gl_Unauthorized
        "Some (sample_rq n)" 3 1 None] a
    by (simp add: request_json_def is_retryable_def sample_http_def default_limits_def)
  then show ?thesis
    unfolding sent_by_call_def
    by (intro exI [of _ ?env] exI [of _ "(sample_url, [])"] exI [of _ Project_Scope] exI [of _ 0]
        exI [of _ "\<lparr>lg_start = 1, lg_timeout = 15000, lg_request = Some (sample_rq n),
          lg_result = Inl Gl_Unauthorized\<rparr>"]) (simp add: sample_http_def)
qed

text \<open>The second request travels on the socket of the first, to an address that its own check did not
  pin.\<close>

lemma sample_agent_run:
  "run_agent (\<lambda>_. False) (\<lambda>_. []) True sample_agent [] =
     (let s = \<lparr>so_key = (''https:'', ''g'', ''443''), so_addresses = [show_ipv4 [1, 2, 3, 4]],
        so_servername = Some ''g''\<rparr> in [(sample_rq 4, s), (sample_rq 5, s)])"
  by (simp add: sample_agent_def take_socket_def open_socket_def sample_rq_def sample_url_def
      dialled_def build_pinned_request_options_def request_of_attempt_def pinned_lookup_def
      strip_brackets_def starts_with_def ends_with_def socket_key_def effective_port_def default_port_def
      body_fate_def read_body_with_cap_def default_limits_def Let_def)

lemma idle_socket_not_pin:
  "\<exists>s. (sample_rq 5, s) \<in> set (run_agent (\<lambda>_. False) (\<lambda>_. []) True sample_agent []) \<and>
     so_addresses s = [show_ipv4 [1, 2, 3, 4]] \<and> rq_pin (sample_rq 5) = show_ipv4 [1, 2, 3, 5]"
  unfolding sample_agent_run Let_def
  by (intro exI [of _ "\<lparr>so_key = (''https:'', ''g'', ''443''), so_addresses = [show_ipv4 [1, 2, 3, 4]],
        so_servername = Some ''g''\<rparr>"]) (simp add: sample_rq_def)


end
