(* ===== verification/WebFrames.thy ===== *)
theory WebFrames
  imports WebActions AuthProperties
begin

text \<open>
  What the services behind the routes leave alone: those of \<open>packages/domain\<close> touch neither users nor
  sessions, and those of \<open>packages/app-auth\<close> only let them evolve.
\<close>

section \<open>Users and sessions\<close>

definition logins :: "database \<Rightarrow> user_row list \<times> session_row list" where
  "logins db = (t_users db, t_sessions db)"

lemma logins_update [simp]:
  "logins (db\<lparr>t_instances := a\<rparr>) = logins db" "logins (db\<lparr>t_emails := b\<rparr>) = logins db"
  "logins (db\<lparr>t_connections := c\<rparr>) = logins db" "logins (db\<lparr>t_credentials := d\<rparr>) = logins db"
  "logins (db\<lparr>t_allowlist := e\<rparr>) = logins db" "logins (db\<lparr>t_enables := f\<rparr>) = logins db"
  "logins (db\<lparr>t_memberships := g\<rparr>) = logins db" "logins (db\<lparr>t_jobs := h\<rparr>) = logins db"
  "logins (db\<lparr>t_audit := i\<rparr>) = logins db"
  by (simp_all add: logins_def)

lemma logins_cache [simp]:
  "logins (invalidate_user_instance u i db) = logins db" "logins (invalidate_user_project u p db) = logins db"
  "logins (write_membership ttls u p ok now db) = logins db" "logins (invalidate_credential now c r db) = logins db"
  by (simp_all add: invalidate_user_instance_def invalidate_user_project_def delete_memberships_def
      write_membership_def put_membership_def invalidate_credential_def Let_def)

lemma logins_provider_snd:
  "logins (snd (store_credential g kl d c pat db)) = logins db"
  "logins (snd (replace_credential g kl d c pat db)) = logins db"
  by (auto simp: store_credential_def replace_credential_def run_tx_def insert_active_def Let_def
      split: sum.splits if_splits prod.splits)

lemma logins_provider:
  "store_credential g kl d c pat db = (r, db') \<Longrightarrow> logins db' = logins db"
  "replace_credential g kl d c pat db = (r, db') \<Longrightarrow> logins db' = logins db"
  using logins_provider_snd [of g kl d c pat db] by simp_all

lemma logins_update_connection: "update_connection cid now f db = Inr db' \<Longrightarrow> logins db' = logins db"
  by (drule update_connection_Inr) simp

lemma logins_email [simp]: "logins (upsert_gitlab_email env u m db) = logins db"
  by (simp add: upsert_gitlab_email_def Let_def)

section \<open>Connections\<close>

lemma logins_link: "link_connection env uid inst idn db = Inr (c, db') \<Longrightarrow> logins db' = logins db"
  by (auto simp: link_connection_def create_connection_def Let_def dest: logins_update_connection
      split: option.splits sum.splits if_splits)

lemma logins_save [simp]: "logins (snd (save_connection env uid url pat rh db)) = logins db"
proof -
  obtain r db' where e: "save_connection env uid url pat rh db = (r, db')" by (cases "save_connection env uid url pat rh db")
  then have "logins db' = logins db"
  proof (cases rule: save_connection_cases)
    case (linked gi idn c db1)
    from save_connection_parts [OF e linked] obtain s db2 where
      s: "store_credential (ce_gcm env) (ce_loader env) (ce_draw env) (cn_id c) pat db1 = (s, db2) \<or>
        replace_credential (ce_gcm env) (ce_loader env) (ce_draw env) (cn_id c) pat db1 = (s, db2)"
      and r: "case s of Inl e \<Rightarrow> r = Inl (Provider_Failed e) \<and> db' = db2
        | Inr ref \<Rightarrow> r = Inr (view_of db' (Some (cref_hint ref)) c) \<and>
           db' = invalidate_user_instance uid (cn_instance c) (case idn_email idn of
             Some m \<Rightarrow> if m = [] then db2 else upsert_gitlab_email env uid m db2 | None \<Rightarrow> db2)"
      by blast
    from s have "logins db2 = logins db" using logins_link [OF linked(2)] by (auto dest: logins_provider)
    with r show ?thesis by (cases s) (simp_all split: option.splits if_splits)
  qed simp_all
  with e show ?thesis by simp
qed

lemma logins_delete [simp]: "logins (snd (delete_connection env uid cid db)) = logins db"
  by (auto simp: delete_connection_def Let_def dest: logins_update_connection split: option.splits sum.splits)

lemma logins_retest [simp]: "logins (snd (retest_stored env uid cid db)) = logins db"
  by (auto simp: retest_stored_def drop_connection_def Let_def dest: logins_update_connection
      split: option.splits sum.splits prod.splits if_splits)

section \<open>Allowlist, aliases, projects\<close>

lemma logins_admin [simp]:
  "logins (snd (add_instance api gid now url l i rh db)) = logins db"
  "logins (snd (remove_instance now gid db)) = logins db"
  "logins (snd (add_project aid now gid p path db)) = logins db"
  "logins (remove_project now aid db) = logins db"
  by (auto simp: add_instance_def remove_instance_def admin_tx_def delete_instance_def add_project_def
      remove_project_def Let_def split: sum.splits option.splits if_splits)

lemma logins_alias [simp]:
  "logins (snd (add_alias nf eid now uid m db)) = logins db" "logins (snd (remove_alias uid eid db)) = logins db"
  by (auto simp: add_alias_def remove_alias_def Let_def split: option.splits)

lemma logins_record: "record_answers env c pr qs out t db = (out', t', db') \<Longrightarrow> logins db' = logins db"
  by (induction qs arbitrary: out t db) (auto split: option.splits)

lemma logins_resolve:
  assumes "resolve_visibility env c ids t db = (r, t', db')" and "ax_invalidate env = invalidate_credential"
  shows "logins db' = logins db"
  using assms by (auto simp: resolve_visibility_def handle_unauthorized_def Let_def dest: logins_record
      split: if_splits sum.splits prod.splits)

lemma logins_keep_paths: "logins (fold (\<lambda>a. keep_path (vis (al_project a)) a) rows db) = logins db"
  by (induction rows arbitrary: db) (auto simp: keep_path_def remember_project_path_def split: option.splits)

lemma logins_list_connections:
  assumes "ax_invalidate env = invalidate_credential"
  shows "list_connections env allowed enabled cs t db = (its, t', db') \<Longrightarrow> logins db' = logins db"
proof (induction cs arbitrary: its t db)
  case (Cons c cs)
  then show ?case
    by (auto simp: Let_def logins_keep_paths dest: logins_resolve [OF _ assms] split: if_splits sum.splits prod.splits)
qed simp

lemma logins_enable:
  assumes "enable_project env uid p t db = (r, t', db')" and "ax_invalidate env = invalidate_credential"
  shows "logins db' = logins db"
  using assms(1) by (auto simp: enable_project_def dest: logins_resolve [OF _ assms(2)] split: if_splits option.splits sum.splits prod.splits)

lemma logins_disable [simp]: "logins (disable_project uid p db) = logins db"
  by (simp add: disable_project_def)

lemma logins_evolves: "logins db' = logins db \<Longrightarrow> db_evolves db db'"
  by (rule db_evolves_refl) (simp_all add: logins_def)

end
