(* ===== verification/WebProperties.thy ===== *)
theory WebProperties
  imports WebFrames
begin

text \<open>
  What holds of every request to the web server: nothing happens without the guards, a deactivated
  user stays out over the web too, the database driver's texts never leave the process, and where the
  redirect after issuing a CSRF token leads.
\<close>

section \<open>What a request without rights may change\<close>

text \<open>Only session rows: the touch of one, or the revocation of an idle one. None is added or lost, none
  changes its user or its token, and none that was revoked comes back.\<close>

definition touches :: "web_state \<Rightarrow> web_state \<Rightarrow> bool" where
  "touches st st' \<longleftrightarrow> (\<exists>ss. st' = with_db ((ws_db st)\<lparr>t_sessions := ss\<rparr>) st \<and>
     map s_id ss = map s_id (t_sessions (ws_db st)) \<and> evolves s_id same_session (t_sessions (ws_db st)) ss)"

lemma with_db_simps [simp]: "ws_db (with_db db st) = db" "with_db (ws_db st) st = st"
  "with_db db (with_db db' st) = with_db db st"
  "ws_tick (with_db db st) = ws_tick st" "as_buckets (ws_auth (with_db db st)) = as_buckets (ws_auth st)"
  by (simp_all add: with_db_def)

lemma touches_refl [simp]: "touches st st"
  by (auto simp: touches_def with_db_def sess.evolves_refl intro!: exI [of _ "t_sessions (ws_db st)"])

lemma touches_evolves: "touches st st' \<Longrightarrow> db_evolves (ws_db st) (ws_db st')"
  by (auto simp: touches_def db_evolves_def users.evolves_refl)

lemma validate_frame:
  assumes "validate_token a tok db = (r, db')"
  shows "\<exists>P f. db' = db \<or> db' = db\<lparr>t_sessions := upd_where P f (t_sessions db)\<rparr> \<and> (\<forall>s. s_id (f s) = s_id s)"
proof -
  have f: "\<forall>s. s_id (s\<lparr>s_revoked_at := x\<rparr>) = s_id s" "\<forall>s. s_id (s\<lparr>s_last_seen := y\<rparr>) = s_id s" for x y by simp_all
  show ?thesis
    using assms f unfolding validate_token_def Let_def
    by (simp split: option.splits if_splits) (metis f)+
qed

lemma validate_touches:
  assumes "validate_token a tok (ws_db st) = (r, db')"
  shows "touches st (with_db db' st)"
proof -
  obtain P f where f: "db' = ws_db st \<or> db' = (ws_db st)\<lparr>t_sessions := upd_where P f (t_sessions (ws_db st))\<rparr> \<and>
      (\<forall>s. s_id (f s) = s_id s)" using validate_frame [OF assms] by blast
  have "evolves s_id same_session (t_sessions (ws_db st)) (t_sessions db')"
    using validate_evolves [of "ws_db st" a tok] assms by (simp add: db_evolves_def)
  moreover have "map s_id (upd_where P f (t_sessions (ws_db st))) = map s_id (t_sessions (ws_db st))"
    if "\<forall>s. s_id (f s) = s_id s" using that by (intro upd_where_map_key) simp
  ultimately have "\<exists>ss. db' = (ws_db st)\<lparr>t_sessions := ss\<rparr> \<and> map s_id ss = map s_id (t_sessions (ws_db st)) \<and>
      evolves s_id same_session (t_sessions (ws_db st)) ss"
    using f by (intro exI [of _ "t_sessions db'"]) auto
  then show ?thesis by (auto simp: touches_def)
qed

section \<open>Guards\<close>

text \<open>The request comes from the application's own origin and carries the token of its CSRF cookie.\<close>

definition genuine :: "web_env \<Rightarrow> services \<Rightarrow> web_request \<Rightarrow> (string \<rightharpoonup> string) \<Rightarrow> bool" where
  "genuine env sx rq form \<longleftrightarrow>
     (\<exists>base. app_origin (we_process env) = Inr base \<and>
        (case trimmed_header (rq_header rq ''origin'') of
           Some o' \<Rightarrow> strip_slash o' = strip_slash base
         | None \<Rightarrow> (\<exists>r. trimmed_header (rq_header rq ''referer'') = Some r \<and> we_url_origin env r = Some (strip_slash base)))) \<and>
     (\<exists>t. t \<noteq> [] \<and> read_cookie (header_text rq ''cookie'') (sp_csrf_cookie (au_policy (sx_auth sx))) = Inr (Some t) \<and>
        submitted_token form rq = Some t)"

text \<open>The session that the cookie of a request names, whatever its state.\<close>

definition session_of :: "services \<Rightarrow> web_request \<Rightarrow> database \<Rightarrow> session_row option" where
  "session_of sx rq db =
     (case read_session_token (au_policy (sx_auth sx)) rq of
        None \<Rightarrow> None
      | Some t \<Rightarrow> find (\<lambda>s. s_token_hash s = au_hmac (sx_auth sx) (sp_secret (au_policy (sx_auth sx))) t) (t_sessions db))"

text \<open>It is neither revoked nor expired, and its user is active.\<close>

definition speaks_for :: "services \<Rightarrow> web_request \<Rightarrow> database \<Rightarrow> auth_user \<Rightarrow> bool" where
  "speaks_for sx rq db u \<longleftrightarrow>
     (\<exists>s w. session_of sx rq db = Some s \<and> w \<in> set (t_users db) \<and> s_user s = u_id w \<and> u = auth_user_of w \<and>
        u_status w = User_Active \<and> s_revoked_at s = None \<and> au_now (sx_auth sx) 0 < s_expires_at s)"

lemma assert_origin_Inr:
  "assert_origin url org ref [base] = Inr () \<Longrightarrow>
     (case trimmed_header org of
        Some o' \<Rightarrow> strip_slash o' = strip_slash base
      | None \<Rightarrow> (\<exists>r. trimmed_header ref = Some r \<and> url r = Some (strip_slash base)))"
  by (auto simp: assert_origin_def Let_def split: option.splits if_splits)

lemma assert_csrf_Inr: "assert_csrf c s = Inr () \<Longrightarrow> \<exists>t. t \<noteq> [] \<and> c = Some t \<and> s = Some t"
  by (auto simp: assert_csrf_def csrf_tokens_equal_iff split: option.splits if_splits)

lemma check_mutation_genuine:
  assumes "check_mutation env (au_policy (sx_auth sx)) rq (submitted_token form rq) = Inr ()"
  shows "genuine env sx rq form"
proof -
  obtain base where b: "app_origin (we_process env) = Inr base"
    using assms by (auto simp: check_mutation_def allowed_origins_def split: sum.splits)
  have o': "assert_origin (we_url_origin env) (rq_header rq ''origin'') (rq_header rq ''referer'') [base] = Inr ()"
    using assms b by (auto simp: check_mutation_def allowed_origins_def split: sum.splits)
  obtain c where c: "read_cookie (header_text rq ''cookie'') (sp_csrf_cookie (au_policy (sx_auth sx))) = Inr c"
    using assms b o' by (auto simp: check_mutation_def allowed_origins_def split: sum.splits)
  have "assert_csrf c (submitted_token form rq) = Inr ()"
    using assms b o' c by (auto simp: check_mutation_def allowed_origins_def split: sum.splits)
  with assert_csrf_Inr assert_origin_Inr [OF o'] b c show ?thesis unfolding genuine_def by blast
qed

lemma require_user_Inr:
  assumes "require_user env (sx_auth sx) rq db = (Inr (u, sid), db')"
  shows "speaks_for sx rq db u"
proof -
  let ?a = "sx_auth sx"
  obtain v where v: "validate_token ?a (read_session_token (au_policy ?a) rq) db = (Inr v, db')" "u = vs_user v"
    using assms by (auto simp: require_user_def split: prod.splits sum.splits)
  obtain t where t: "read_session_token (au_policy ?a) rq = Some t" "t \<noteq> []"
    using v(1) by (cases "read_session_token (au_policy ?a) rq") (auto simp: validate_token_def split: if_splits)
  obtain s where f: "find (\<lambda>s. s_token_hash s = au_hmac ?a (sp_secret (au_policy ?a)) t) (t_sessions db) = Some s"
    using v t by (auto simp: validate_token_def split: option.splits)
  obtain w where w: "find_user (s_user s) db = Some w" using v t f by (auto simp: validate_token_def split: option.splits)
  show ?thesis
    using v t f w find_user_id [OF w]
    by (auto simp: speaks_for_def session_of_def validate_token_def Let_def split: if_splits)
qed

lemma require_user_touches:
  "require_user env a rq (ws_db st) = (r, db') \<Longrightarrow> touches st (with_db db' st)"
  by (auto simp: require_user_def dest: validate_touches split: prod.splits sum.splits)

lemma require_admin_Inr:
  "require_admin env (sx_auth sx) rq db = (Inr (u, sid), db') \<Longrightarrow> speaks_for sx rq db u \<and> ar_role u = Admin"
  by (auto simp: require_admin_def dest: require_user_Inr split: prod.splits sum.splits if_splits)

lemma require_admin_touches:
  "require_admin env a rq (ws_db st) = (r, db') \<Longrightarrow> touches st (with_db db' st)"
  by (auto simp: require_admin_def dest: require_user_touches split: prod.splits sum.splits if_splits)

text \<open>How a route with guards ends: before the action, or in it.\<close>

lemma action_route_cases:
  assumes "action_route env rq admin path act st = (r, st')"
  obtains (stopped) e where "touches st st'" "r = Inl e \<or> r = failed env (wants_json rq) path e"
  | (acted) sx form u db1 x where "get_services env = Inr sx" "parse_form (we_number env) rq = Inr form"
      "genuine env sx rq form" "speaks_for sx rq (ws_db st) u" "admin \<longrightarrow> ar_role u = Admin"
      "touches st (with_db db1 st)"
      "act (sx\<lparr>sx_auth := later 1 (sx_auth sx)\<rparr>) (wants_json rq) form u (with_db db1 st) = (x, st')"
      "r = (case x of Inl e \<Rightarrow> failed env (wants_json rq) path e | Inr y \<Rightarrow> Inr y)"
proof (cases "get_services env")
  case (Inl e)
  with assms show ?thesis by (intro stopped [of e]) (auto simp: action_route_def)
next
  case (Inr sx)
  note sx = this
  show ?thesis
  proof (cases "parse_form (we_number env) rq")
    case (Inl e)
    with assms sx show ?thesis by (intro stopped [of e]) (auto simp: action_route_def Let_def)
  next
    case (Inr form)
    note form = this
    show ?thesis
    proof (cases "check_mutation env (au_policy (sx_auth sx)) rq (submitted_token form rq)")
      case (Inl e)
      with assms sx form show ?thesis by (intro stopped [of e]) (auto simp: action_route_def Let_def)
    next
      case (Inr w)
      obtain q db1 where q: "(if admin then require_admin else require_user) env (sx_auth sx) rq (ws_db st) = (q, db1)"
        by fastforce
      then have t: "touches st (with_db db1 st)"
        using require_user_touches require_admin_touches by (auto split: if_splits)
      show ?thesis
      proof (cases q)
        case (Inl e)
        with assms sx form Inr q t show ?thesis by (intro stopped [of e]) (auto simp: action_route_def Let_def)
      next
        case (Inr y)
        obtain u sid where y: "y = (u, sid)" by (cases y)
        obtain x st2 where x: "act (sx\<lparr>sx_auth := later 1 (sx_auth sx)\<rparr>) (wants_json rq) form u (with_db db1 st) = (x, st2)"
          by fastforce
        have "st2 = st' \<and> r = (case x of Inl e \<Rightarrow> failed env (wants_json rq) path e | Inr y \<Rightarrow> Inr y)"
          using assms sx form \<open>check_mutation _ _ _ _ = Inr w\<close> q Inr y x
          by (auto simp: action_route_def Let_def split: sum.splits)
        with sx form \<open>check_mutation _ _ _ _ = Inr w\<close> q Inr y x t show ?thesis
          using require_user_Inr require_admin_Inr check_mutation_genuine
          by (intro acted [of sx form u db1 x]) (auto split: if_splits)
      qed
    qed
  qed
qed

lemma login_route_cases:
  assumes "login_route env rq st = (r, st')"
  obtains (stopped) "st' = st"
  | (tried) sx form prior db1 x where "get_services env = Inr sx" "parse_form (we_number env) rq = Inr form"
      "genuine env sx rq form" "prior_session (sx_auth sx) rq (ws_db st) = (prior, db1)"
      "login (later 1 (sx_auth sx)) (login_input_of rq form prior) (ws_auth (with_db db1 st)) = (x, ws_auth st')"
      "st' = st\<lparr>ws_auth := ws_auth st'\<rparr>"
proof (cases "get_services env")
  case (Inl e)
  with assms show ?thesis by (intro stopped) (simp add: login_route_def)
next
  case (Inr sx)
  note sx = this
  show ?thesis
  proof (cases "parse_form (we_number env) rq")
    case (Inl e)
    with assms sx show ?thesis by (intro stopped) (simp add: login_route_def)
  next
    case (Inr form)
    note form = this
    show ?thesis
    proof (cases "check_mutation env (au_policy (sx_auth sx)) rq (submitted_token form rq)")
      case (Inl e)
      with assms sx form show ?thesis by (intro stopped) (simp add: login_route_def)
    next
      case (Inr w)
      obtain prior db1 where p: "prior_session (sx_auth sx) rq (ws_db st) = (prior, db1)" by fastforce
      obtain x s where l: "login (later 1 (sx_auth sx)) (login_input_of rq form prior) (ws_auth (with_db db1 st)) = (x, s)"
        by fastforce
      have "st' = st\<lparr>ws_auth := s\<rparr>"
        using assms sx form Inr p l by (cases x) (simp_all add: login_route_def)
      with check_mutation_genuine [of env sx rq form] sx form Inr p l show ?thesis
        by (intro tried [of sx form prior db1 x]) simp_all
    qed
  qed
qed

lemma logout_route_cases:
  assumes "logout_route env rq st = (r, st')"
  obtains (stopped) "touches st st'"
  | (acted) sx form u sid db1 x db2 where "get_services env = Inr sx" "parse_form (we_number env) rq = Inr form"
      "genuine env sx rq form" "speaks_for sx rq (ws_db st) u" "touches st (with_db db1 st)"
      "revoke_session (later 1 (sx_auth sx)) sid (Some (ar_id u)) db1 = (x, db2)" "st' = with_db db2 st"
proof (cases "get_services env")
  case (Inl e)
  with assms show ?thesis by (intro stopped) (simp add: logout_route_def)
next
  case (Inr sx)
  note sx = this
  show ?thesis
  proof (cases "parse_form (we_number env) rq")
    case (Inl e)
    with assms sx show ?thesis by (intro stopped) (simp add: logout_route_def)
  next
    case (Inr form)
    note form = this
    show ?thesis
    proof (cases "check_mutation env (au_policy (sx_auth sx)) rq (submitted_token form rq)")
      case (Inl e)
      with assms sx form show ?thesis by (intro stopped) (simp add: logout_route_def)
    next
      case (Inr w)
      obtain q db1 where q: "require_user env (sx_auth sx) rq (ws_db st) = (q, db1)" by fastforce
      note t = require_user_touches [OF q]
      show ?thesis
      proof (cases q)
        case (Inl e)
        with assms sx form \<open>check_mutation _ _ _ _ = Inr w\<close> q t show ?thesis
          by (intro stopped) (simp add: logout_route_def)
      next
        case (Inr y)
        obtain u sid where y: "y = (u, sid)" by (cases y)
        obtain x db2 where x: "revoke_session (later 1 (sx_auth sx)) sid (Some (ar_id u)) db1 = (x, db2)" by fastforce
        have "st' = with_db db2 st"
          using assms sx form \<open>check_mutation _ _ _ _ = Inr w\<close> q Inr y x
          by (cases x) (simp_all add: logout_route_def)
        with check_mutation_genuine [of env sx rq form] require_user_Inr [of env sx rq "ws_db st" u sid db1]
          sx form \<open>check_mutation _ _ _ _ = Inr w\<close> q Inr y x t
        show ?thesis by (intro acted [of sx form u db1 sid x db2]) simp_all
      qed
    qed
  qed
qed

section \<open>Nothing without the guards\<close>

definition admin_post :: "web_post \<Rightarrow> bool" where
  "admin_post p \<longleftrightarrow> p = Post_Users \<or> p = Post_Allowlist"

lemma serve_post_action:
  assumes "p \<noteq> Post_Login" "p \<noteq> Post_Logout"
  obtains path act where "\<And>env rq. serve_post env p rq = action_route env rq (admin_post p) (path :: string) (act env)"
  using assms
  by (cases p) (simp_all add: serve_post_def admin_post_def users_route_def allowlist_route_def emails_route_def
      projects_route_def gitlab_route_def revoke_all_route_def)

lemma guards_needed:
  assumes "serve_post env p rq st = (r, st')"
  shows "touches st st' \<or>
    (\<exists>sx form. get_services env = Inr sx \<and> parse_form (we_number env) rq = Inr form \<and> genuine env sx rq form \<and>
      (p = Post_Login \<or> (\<exists>u. speaks_for sx rq (ws_db st) u \<and> (\<not> admin_post p \<or> ar_role u = Admin))))"
proof (cases "p = Post_Login \<or> p = Post_Logout")
  case False
  then obtain path act where "\<And>env rq. serve_post env p rq = action_route env rq (admin_post p) (path :: string) (act env)"
    using serve_post_action by blast
  with assms have "action_route env rq (admin_post p) path (act env) st = (r, st')" by simp
  then show ?thesis by (cases rule: action_route_cases) blast+
next
  case True
  then show ?thesis
  proof
    assume p: "p = Post_Login"
    with assms have "login_route env rq st = (r, st')" by (simp add: serve_post_def)
    then show ?thesis using p by (cases rule: login_route_cases) auto
  next
    assume p: "p = Post_Logout"
    with assms have "logout_route env rq st = (r, st')" by (simp add: serve_post_def)
    then show ?thesis
      by (cases rule: logout_route_cases) (use p in \<open>auto simp: admin_post_def\<close>)
  qed
qed

text \<open>C30. A POST to any route of the API leaves the state alone, except for the touch or the idle revocation
  of session rows, unless the request came from the application's own origin with the token of its
  CSRF cookie and, but for the login itself, with the cookie of a live session of an active user,
  who is an administrator on the routes of administration.\<close>

theorem mutations_guarded:
  assumes "serve_post env p rq st = (r, st')"
  shows "touches st st' \<or>
    (\<exists>sx form. get_services env = Inr sx \<and> parse_form (we_number env) rq = Inr form \<and> genuine env sx rq form \<and>
      (p = Post_Login \<or> (\<exists>u. speaks_for sx rq (ws_db st) u \<and> (\<not> admin_post p \<or> ar_role u = Admin))))"
  using assms by (rule guards_needed)

section \<open>Users and sessions over the web\<close>

lemma call_state:
  assumes "\<And>x. P (snd (k x (with_db (snd r) st)))" and "P (with_db (snd r) st)"
  shows "P (snd (call conv r k st))"
  using assms by (cases r; cases "fst r") (auto simp: call_def)

lemma audit_then_db: "logins (ws_db (snd (audit_then env action uid meta resp st))) = logins (ws_db st)"
  unfolding audit_then_def by (rule call_state) (simp_all add: logins_def)

text \<open>Every action lets users and sessions evolve.\<close>

definition evolving :: "web_state \<Rightarrow> route_result \<Rightarrow> bool" where
  "evolving st x \<longleftrightarrow> db_evolves (ws_db st) (ws_db (snd x))"

lemma evolving_call:
  assumes "db_evolves (ws_db st) (snd r)" and "\<And>x st'. evolving st' (k x st')"
  shows "evolving st (call conv r k st)"
  unfolding evolving_def
proof (rule call_state)
  show "db_evolves (ws_db st) (ws_db (snd (k x (with_db (snd r) st))))" for x
    using assms(1) assms(2) [of "with_db (snd r) st" x] by (auto simp: evolving_def intro: db_evolves_trans)
qed (simp add: assms(1))

lemma evolving_audit: "evolving st (audit_then env action uid meta resp st)"
  unfolding evolving_def by (rule logins_evolves) (rule audit_then_db)

lemma evolving_same [simp]: "evolving st (x, st)"
  by (simp add: evolving_def)

lemmas evolving_rules = evolving_call evolving_audit logins_evolves

lemma users_action_evolving: "evolving st (users_action env sx js form u st)"
  by (auto simp: users_action_def Let_def create_user_evolves deactivate_evolves reset_evolves
      intro!: evolving_call split: option.splits)

lemma revoke_all_action_evolving: "evolving st (revoke_all_action env sx js form u st)"
  by (auto simp: revoke_all_action_def revoke_all_evolves intro!: evolving_call)

lemma allowlist_action_evolving: "evolving st (allowlist_action env sx js form u st)"
  by (auto simp: allowlist_action_def Let_def intro!: evolving_rules)

lemma emails_action_evolving: "evolving st (emails_action env sx js form u st)"
  by (auto simp: emails_action_def Let_def intro!: evolving_rules)

lemma gitlab_action_evolving: "evolving st (gitlab_action env sx js form u st)"
  by (auto simp: gitlab_action_def Let_def intro!: evolving_rules)

lemma evolving_tick: "logins db = logins (ws_db st) \<Longrightarrow> evolving ((with_db db st)\<lparr>ws_tick := t\<rparr>) x \<Longrightarrow> evolving st x"
  unfolding evolving_def by (rule db_evolves_trans [OF logins_evolves]) (simp_all add: with_db_def)

lemma projects_action_evolving:
  assumes "get_services env = Inr sx0" "sx_access sx = sx_access sx0"
  shows "evolving st (projects_action env sx js form u st)"
proof -
  have i: "ax_invalidate (sx_access sx) = invalidate_credential"
    using assms by (auto simp: get_services_def split: sum.splits)
  let ?p = "\<lparr>pr_instance = form_text form ''gitlabInstanceId'', pr_project = form_text form ''gitlabProjectId''\<rparr>"
  obtain q t db where e: "enable_project (sx_access sx) (ar_id u) ?p (ws_tick st) (ws_db st) = (q, t, db)"
    by (cases "enable_project (sx_access sx) (ar_id u) ?p (ws_tick st) (ws_db st)")
  have "evolving st (case q of Inl e \<Rightarrow> (Inl (access_thrown e), (with_db db st)\<lparr>ws_tick := t\<rparr>)
      | Inr _ \<Rightarrow> audit_then env a w m resp ((with_db db st)\<lparr>ws_tick := t\<rparr>))" for a w m resp
    by (rule evolving_tick [OF logins_enable [OF e i]]) (auto intro: evolving_audit split: sum.split)
  moreover have "evolving st (audit_then env a w m resp (with_db (disable_project (ar_id u) ?p (ws_db st)) st))" for a w m resp
    unfolding evolving_def by (rule logins_evolves) (simp add: audit_then_db)
  ultimately show ?thesis by (auto simp: projects_action_def Let_def e)
qed

section \<open>Deactivated users\<close>

text \<open>Every request, and whatever else happens that touches neither users nor sessions: the worker, the
  dashboard, the passage of time.\<close>

inductive web_step :: "web_state \<Rightarrow> web_state \<Rightarrow> bool" where
  posted: "serve_post env p rq st = (r, st') \<Longrightarrow> web_step st st'"
| got: "serve_get env g rq st = (r, st') \<Longrightarrow> web_step st st'"
| elsewhere: "logins (ws_db st') = logins (ws_db st) \<Longrightarrow> web_step st st'"

lemma prior_session_touches:
  assumes "prior_session a rq (ws_db st) = (prior, db1)"
  shows "touches st (with_db db1 st)"
proof (cases "read_session_token (au_policy a) rq")
  case None
  with assms have "db1 = ws_db st" by (simp add: prior_session_def)
  then show ?thesis by simp
next
  case (Some t)
  obtain q db2 where q: "validate_token a (Some t) (ws_db st) = (q, db2)" by fastforce
  show ?thesis
  proof (cases "t = []")
    case True
    with assms Some have "db1 = ws_db st" by (simp add: prior_session_def)
    then show ?thesis by simp
  next
    case False
    with assms Some q have "db1 = db2" by (cases q) (simp_all add: prior_session_def)
    with validate_touches [OF q] show ?thesis by simp
  qed
qed

lemma touches_ids:
  assumes "touches st st'"
  shows "s_id ` set (t_sessions (ws_db st')) = s_id ` set (t_sessions (ws_db st))"
proof -
  have "map s_id (t_sessions (ws_db st')) = map s_id (t_sessions (ws_db st))" using assms by (auto simp: touches_def)
  then have "set (map s_id (t_sessions (ws_db st'))) = set (map s_id (t_sessions (ws_db st)))" by (rule arg_cong)
  then show ?thesis by simp
qed

lemma action_route_evolves:
  assumes "action_route env rq admin path act st = (r, st')"
    and "\<And>sx sx' js form u st. get_services env = Inr sx \<Longrightarrow> sx_access sx' = sx_access sx \<Longrightarrow> evolving st (act sx' js form u st)"
  shows "db_evolves (ws_db st) (ws_db st')"
  using assms(1)
proof (cases rule: action_route_cases)
  case (stopped e)
  from stopped(1) show ?thesis by (rule touches_evolves)
next
  case (acted sx form u db1 x)
  have "evolving (with_db db1 st) (act (sx\<lparr>sx_auth := later 1 (sx_auth sx)\<rparr>) (wants_json rq) form u (with_db db1 st))"
    using acted(1) by (rule assms(2)) simp
  with acted(7) have "db_evolves db1 (ws_db st')" by (simp add: evolving_def)
  with touches_evolves [OF acted(6)] show ?thesis by (simp add: db_evolves_trans)
qed

lemma serve_post_evolves:
  assumes "serve_post env p rq st = (r, st')"
  shows "db_evolves (ws_db st) (ws_db st')"
proof (cases p)
  case Post_Login
  with assms have "login_route env rq st = (r, st')" by (simp add: serve_post_def)
  then show ?thesis
  proof (cases rule: login_route_cases)
    case (tried sx form prior db1 x)
    show ?thesis
      using login_evolves [of "ws_auth (with_db db1 st)" "later 1 (sx_auth sx)" "login_input_of rq form prior"] tried(5)
        touches_evolves [OF prior_session_touches [OF tried(4)]] by (auto intro: db_evolves_trans)
  qed simp
next
  case Post_Logout
  with assms have "logout_route env rq st = (r, st')" by (simp add: serve_post_def)
  then show ?thesis
  proof (cases rule: logout_route_cases)
    case (acted sx form u sid db1 x db2)
    then show ?thesis
      using revoke_session_evolves [of db1 "later 1 (sx_auth sx)" sid "Some (ar_id u)"] touches_evolves [OF acted(5)]
      by (auto intro: db_evolves_trans)
  qed (rule touches_evolves)
qed (use assms in \<open>auto simp: serve_post_def users_route_def allowlist_route_def emails_route_def projects_route_def
    gitlab_route_def revoke_all_route_def intro: users_action_evolving allowlist_action_evolving emails_action_evolving
    projects_action_evolving gitlab_action_evolving revoke_all_action_evolving elim!: action_route_evolves\<close>)

lemma read_route_evolves:
  assumes "read_route env rq admin status show_for st = (r, st')"
    and "\<And>sx u st. get_services env = Inr sx \<Longrightarrow> logins (ws_db (snd (show_for sx u st))) = logins (ws_db st)"
  shows "db_evolves (ws_db st) (ws_db st')"
proof (cases "get_services env")
  case (Inl e)
  with assms(1) show ?thesis by (simp add: read_route_def)
next
  case (Inr sx)
  obtain q db1 where q: "(if admin then require_admin else require_user) env (sx_auth sx) rq (ws_db st) = (q, db1)"
    by fastforce
  then have "touches st (with_db db1 st)"
    using require_user_touches require_admin_touches by (auto split: if_splits)
  from touches_evolves [OF this] have t: "db_evolves (ws_db st) db1" by simp
  show ?thesis
  proof (cases q)
    case (Inl e)
    with assms(1) \<open>get_services env = Inr sx\<close> q t show ?thesis by (auto simp: read_route_def)
  next
    case (Inr y)
    obtain u sid where y: "y = (u, sid)" by (cases y)
    obtain x st2 where x: "show_for sx u (with_db db1 st) = (x, st2)" by fastforce
    have "st2 = st'" using assms(1) \<open>get_services env = Inr sx\<close> q Inr y x by (auto simp: read_route_def split: sum.splits)
    then have "logins (ws_db st') = logins db1" using assms(2) [OF \<open>get_services env = Inr sx\<close>, of u "with_db db1 st"] x by simp
    then show ?thesis using t logins_evolves db_evolves_trans by blast
  qed
qed

lemma serve_get_evolves:
  assumes "serve_get env g rq st = (r, st')"
  shows "db_evolves (ws_db st) (ws_db st')"
proof -
  have i: "ax_invalidate (sx_access sx) = invalidate_credential" if "get_services env = Inr sx" for sx
    using that by (auto simp: get_services_def split: sum.splits)
  have l: "logins db' = logins db" if "get_services env = Inr sx" "list_for_user (sx_access sx) uid t db = (its, t', db')" for sx uid t t' its db db'
    using logins_list_connections [OF i [OF that(1)]] that(2) by (simp add: list_for_user_def)
  have "logins (ws_db (snd (case list_for_user (sx_access sx) uid (ws_tick st) (ws_db st) of
      (its, t, db) \<Rightarrow> (v its, (with_db db st)\<lparr>ws_tick := t\<rparr>)))) = logins (ws_db st)"
    if "get_services env = Inr sx" for sx uid st and v :: "project_item list \<Rightarrow> thrown_error + json"
  proof -
    obtain its t' db' where "list_for_user (sx_access sx) uid (ws_tick st) (ws_db st) = (its, t', db')"
      by (cases "list_for_user (sx_access sx) uid (ws_tick st) (ws_db st)")
    with l [OF that this] show ?thesis by (simp add: with_db_def)
  qed
  then obtain admin status show_for where "serve_get env g rq = read_route env rq admin status show_for"
    and "\<And>sx u st. get_services env = Inr sx \<Longrightarrow> logins (ws_db (snd (show_for sx u st))) = logins (ws_db st)"
    by (cases g) (auto simp: serve_get_def users_get_def allowlist_get_def projects_get_def gitlab_get_def)
  with assms show ?thesis by (auto elim: read_route_evolves)
qed

lemma web_steps_evolve: "web_step\<^sup>*\<^sup>* st st' \<Longrightarrow> db_evolves (ws_db st) (ws_db st')"
proof (induction rule: rtranclp_induct)
  case (step y z)
  from step(2) have "db_evolves (ws_db y) (ws_db z)"
    by cases (auto intro: serve_post_evolves serve_get_evolves logins_evolves)
  with step(3) show ?case by (rule db_evolves_trans)
qed simp

lemma failed_status: "failed env True path e = Inr r \<Longrightarrow> wr_status r \<noteq> 200"
  by (auto simp: failed_def json_error_def json_response_def mapped_status_def split: if_splits)

lemma web_deactivation:
  assumes "serve_post env Post_Users rq st = (Inr resp, st1)" and "wants_json rq" and "wr_status resp = 200"
    and "parse_form (we_number env) rq = Inr form" and "form ''action'' = Some ''deactivate''"
  shows "shut_out (form_text form ''userId'') (ws_db st1)"
proof -
  have "action_route env rq True users_path (users_action env) st = (Inr resp, st1)"
    using assms(1) by (simp add: serve_post_def users_route_def)
  then show ?thesis
  proof (cases rule: action_route_cases)
    case (stopped e)
    with failed_status [of env users_path e resp] assms(2,3) show ?thesis by simp
  next
    case (acted sx form' u db1 x)
    have "form' = form" using acted(2) assms(4) by simp
    let ?d = "deactivate_user (later 1 (sx_auth sx)) u (form_text form ''userId'') db1"
    have u: "users_action env (sx\<lparr>sx_auth := later 1 (sx_auth sx)\<rparr>) (wants_json rq) form u (with_db db1 st) =
        call (auth_thrown (we_driver env)) ?d (\<lambda>_ st'. (answer env (wants_json rq) ok_json users_path [], st')) (with_db db1 st)"
      using assms(5) by (simp add: users_action_def form_or_def Let_def)
    have "x = Inr resp"
      using acted(8) assms(2,3) failed_status [of env users_path _ resp] by (cases x) auto
    with acted(7) u \<open>form' = form\<close> obtain db2 where "?d = (Inr (), db2)" "ws_db st1 = db2"
      by (cases ?d; cases "fst ?d") (auto simp: call_def)
    with deactivated_rows show ?thesis by simp
  qed
qed

text \<open>A login opens a session for an active user only.\<close>

lemma create_sessions:
  "s \<in> set (t_sessions (snd (create_session a now uid agent ip prior db))) \<Longrightarrow>
     s_id s \<in> s_id ` set (t_sessions db) \<or> s_user s = uid"
  by (auto simp: create_session_def Let_def revoke_where_def set_upd_where new_session_def image_iff
      split: option.splits if_splits)

lemma open_sessions:
  assumes "s \<in> set (t_sessions (snd (open_session a u i db)))"
  shows "s_id s \<in> s_id ` set (t_sessions db) \<or> s_user s = u_id u"
proof -
  let ?c = "create_session a (au_now a 4) (u_id u) (li_agent i) (li_ip i) (li_prior i) (record_success (au_now a 3) (u_id u) db)"
  have "t_sessions (snd (open_session a u i db)) = t_sessions (snd ?c)"
    by (cases ?c; cases "fst ?c") (auto simp: open_session_def dest: audited_pair split: prod.splits)
  with assms have "s \<in> set (t_sessions (snd ?c))" by simp
  from create_sessions [OF this] show ?thesis by (simp add: record_success_def)
qed

lemma refuse_sessions [simp]: "t_sessions (as_db (snd (refuse_login e w r st))) = t_sessions (as_db st)"
  by (auto simp: refuse_login_def dest: audited_pair split: prod.splits sum.splits)

lemma record_failure_sessions [simp]: "t_sessions (as_db (record_failure a now w ip st)) = t_sessions (as_db st)"
  by (simp add: record_failure_def Let_def split: option.splits)

lemma login_sessions:
  assumes "login a i st = (x, st')" and "s \<in> set (t_sessions (as_db st'))"
  shows "s_id s \<in> s_id ` set (t_sessions (as_db st)) \<or>
    (\<exists>u \<in> set (t_users (as_db st)). u_status u = User_Active \<and> u_id u = s_user s)"
proof (cases "normalize_email (au_nfkc a) (li_email i)")
  case (Inl e)
  have "t_sessions (as_db (snd (login a i st))) = t_sessions (as_db st)" using Inl by (simp add: login_def)
  with assms show ?thesis by simp
next
  case (Inr n)
  show ?thesis
  proof (cases "find (\<lambda>u. u_norm u = n) (t_users (as_db st))")
    case None
    have "t_sessions (as_db (snd (login a i st))) = t_sessions (as_db st)" using Inr None by (simp add: login_def Let_def)
    with assms show ?thesis by simp
  next
    case (Some u)
    have "t_sessions (as_db (snd (login a i st))) = t_sessions (as_db st) \<or>
        u_status u = User_Active \<and> t_sessions (as_db (snd (login a i st))) = t_sessions (snd (open_session a u i (as_db st)))"
      using Inr Some by (auto simp: login_def Let_def split: prod.splits)
    with assms open_sessions [of s a u i "as_db st"] find_SomeD [OF Some] show ?thesis by auto
  qed
qed

text \<open>C31. An administrator's deactivation of a user, once the server has answered it with success, holds for
  ever: whatever is served and happens afterwards, no login opens a session for that user, and a POST
  with the cookie of any session of theirs changes nothing but session rows.\<close>

theorem deactivated_stays_out:
  assumes "serve_post env Post_Users rq st = (Inr resp, st1)" and "wants_json rq" and "wr_status resp = 200"
    and "parse_form (we_number env) rq = Inr form" and "form ''action'' = Some ''deactivate''"
    and "form ''userId'' = Some uid" and "web_step\<^sup>*\<^sup>* st1 st2"
    and "serve_post env' p rq' st2 = (r, st3)"
  shows "if p = Post_Login
    then {s_id s |s. s \<in> set (t_sessions (ws_db st3)) \<and> s_user s = uid} \<subseteq> s_id ` set (t_sessions (ws_db st2))
    else (\<exists>sx s. get_services env' = Inr sx \<and> session_of sx rq' (ws_db st2) = Some s \<and> s_user s = uid) \<longrightarrow> touches st2 st3"
proof -
  have "shut_out uid (ws_db st1)" using web_deactivation [OF assms(1-5)] assms(6) by (simp add: form_text_def)
  then have off: "shut_out uid (ws_db st2)" by (rule shut_out_evolves [OF web_steps_evolve [OF assms(7)]])
  have no: "\<not> speaks_for sx rq' (ws_db st2) u"
    if "session_of sx rq' (ws_db st2) = Some s" "s_user s = uid" for sx s u
    using that off by (auto simp: speaks_for_def shut_out_def)
  show ?thesis
  proof (cases "p = Post_Login")
    case True
    with assms(8) have "login_route env' rq' st2 = (r, st3)" by (simp add: serve_post_def)
    then show ?thesis
    proof (cases rule: login_route_cases)
      case stopped
      with True show ?thesis by auto
    next
      case (tried sx form prior db1 x)
      have d: "db_evolves (ws_db st2) db1" using touches_evolves [OF prior_session_touches [OF tried(4)]] by simp
      have i: "s_id ` set (t_sessions db1) = s_id ` set (t_sessions (ws_db st2))"
        using touches_ids [OF prior_session_touches [OF tried(4)]] by simp
      have "s_id s \<in> s_id ` set (t_sessions (ws_db st2))"
        if "s \<in> set (t_sessions (ws_db st3))" "s_user s = uid" for s
      proof -
        have "\<not> (\<exists>u \<in> set (t_users db1). u_status u = User_Active \<and> u_id u = s_user s)"
          using shut_out_evolves [OF d off] that(2) by (auto simp: shut_out_def)
        with login_sessions [OF tried(5) that(1)] i show ?thesis by simp
      qed
      with True show ?thesis by auto
    qed
  next
    case False
    have "touches st2 st3" if "get_services env' = Inr sx" "session_of sx rq' (ws_db st2) = Some s" "s_user s = uid" for sx s
      using guards_needed [OF assms(8)] False that no by auto
    with False show ?thesis by auto
  qed
qed

end
