(* ===== verification/WebSecrecy.thy ===== *)
theory WebSecrecy
  imports WebProperties
begin

text \<open>
  What the server tells: two servers that differ only in the texts of the database driver answer every
  request alike. The relation between their runs is kept by every combinator of the routes.
\<close>

section \<open>Errors and results that look alike\<close>

definition same_error :: "thrown_error \<Rightarrow> thrown_error \<Rightarrow> bool" where
  "same_error e f \<longleftrightarrow> te_safe e = te_safe f \<and> te_code e = te_code f \<and> (te_safe e \<longrightarrow> te_message e = te_message f)"

definition same_result :: "(thrown_error + 'a) \<times> 's \<Rightarrow> (thrown_error + 'a) \<times> 's \<Rightarrow> bool" where
  "same_result x y \<longleftrightarrow> snd x = snd y \<and> rel_sum same_error (=) (fst x) (fst y)"

named_theorems alike

lemma same_error_refl [simp]: "same_error e e"
  by (simp add: same_error_def)

lemma same_result_refl [simp, alike]: "same_result x x"
  by (cases x; cases "fst x") (auto simp: same_result_def)

lemma same_thrown [simp]:
  "same_error (auth_thrown d e1) (auth_thrown d' e1)" "same_error (connection_thrown d e2) (connection_thrown d' e2)"
  "same_error (admin_thrown d e3) (admin_thrown d' e3)" "same_error (alias_thrown d e4) (alias_thrown d' e4)"
proof -
  show "same_error (auth_thrown d e1) (auth_thrown d' e1)" by (cases e1) (simp_all add: same_error_def thrown_defs)
  show "same_error (connection_thrown d e2) (connection_thrown d' e2)" by (cases e2) (simp_all add: same_error_def thrown_defs)
  show "same_error (admin_thrown d e3) (admin_thrown d' e3)" by (cases e3) (simp_all add: same_error_def thrown_defs)
  show "same_error (alias_thrown d e4) (alias_thrown d' e4)" by (cases e4) (simp_all add: same_error_def thrown_defs)
qed

lemma same_payload: "same_error e f \<Longrightarrow> to_safe_error_payload e = to_safe_error_payload f \<and> error_code e = error_code f"
  by (auto simp: same_error_def to_safe_error_payload_def is_safe_domain_error_def error_code_def split: option.splits)

lemma same_json_error: "same_error e f \<Longrightarrow> json_error e n = json_error f n"
  by (simp add: json_error_def same_payload)

lemma same_failed: "same_error e f \<Longrightarrow> failed env js path e = failed env js path f"
  by (simp add: failed_def same_json_error)

section \<open>The combinators\<close>

lemma same_call [alike]:
  assumes "\<And>e. same_error (conv e) (conv' e)" and "\<And>x st. same_result (k x st) (k' x st)"
  shows "same_result (call conv r k st) (call conv' r k' st)"
  using assms by (cases r; cases "fst r") (auto simp: call_def same_result_def)

abbreviation redrive :: "string \<Rightarrow> web_env \<Rightarrow> web_env" where
  "redrive d env \<equiv> env\<lparr>we_driver := d\<rparr>"

lemma same_audit [alike]: "same_result (audit_then (redrive d env) action uid meta resp st) (audit_then env action uid meta resp st)"
  by (auto simp: audit_then_def intro!: same_call)

lemma redrive_simps [simp]:
  "form_redirect (redrive d env) path q = form_redirect env path q" "answer (redrive d env) js v path q = answer env js v path q"
  "unknown_action (redrive d env) js path = unknown_action env js path" "failed (redrive d env) js path e = failed env js path e"
  "is_production (redrive d env) = is_production env" "connected_json (redrive d env) cv = connected_json env cv"
  "signed_out (redrive d env) = signed_out env" "login_response (redrive d env) p rq lr = login_response env p rq lr"
  by (simp_all add: fun_eq_iff form_redirect_def answer_def unknown_action_def failed_def is_production_def
      connected_json_def signed_out_def login_response_def split: sum.split option.split)

lemma redrive_services [simp]: "get_services (redrive d env) = get_services env"
proof -
  have i: "load_session_policy p = Inl e \<Longrightarrow> e = Invalid_Input" for p e
    by (auto simp: load_session_policy_def Let_def split: if_splits)
  show ?thesis by (auto simp: get_services_def dest!: i split: sum.splits)
qed

lemma redrive_check [simp]: "check_mutation (redrive d env) p rq t = check_mutation env p rq t"
proof -
  have o': "assert_origin u a b l = Inl e \<Longrightarrow> e = Origin_Failed" for u a b l e
    by (auto simp: assert_origin_def Let_def split: option.splits if_splits)
  have c: "assert_csrf a b = Inl e \<Longrightarrow> e = Csrf_Failed" for a b e
    by (auto simp: assert_csrf_def split: option.splits if_splits)
  show ?thesis by (auto simp: check_mutation_def dest!: o' c split: sum.splits)
qed

lemma same_require_user: "same_result (require_user (redrive d env) a rq db) (require_user env a rq db)"
  by (auto simp: require_user_def same_result_def split: prod.splits sum.splits)

lemma same_require_admin: "same_result (require_admin (redrive d env) a rq db) (require_admin env a rq db)"
  using same_require_user [of d env a rq db]
  by (auto simp: require_admin_def same_result_def split: prod.splits sum.splits)

lemma same_resultE:
  assumes "same_result x y"
  obtains (error) e f s where "x = (Inl e, s)" "y = (Inl f, s)" "same_error e f"
  | (result) v s where "x = (Inr v, s)" "y = (Inr v, s)"
  using assms by (cases x; cases y; cases "fst x"; cases "fst y") (auto simp: same_result_def)

lemma redrive_action_route:
  assumes "\<And>sx js form u st. same_result (act (redrive d env) sx js form u st) (act env sx js form u st)"
  shows "action_route (redrive d env) rq admin path (act (redrive d env)) st = action_route env rq admin path (act env) st"
proof -
  have req: "same_result ((if admin then require_admin else require_user) (redrive d env) a rq (ws_db st))
      ((if admin then require_admin else require_user) env a rq (ws_db st))" for a
    by (simp add: same_require_user same_require_admin)
  show ?thesis
  proof (cases "get_services env")
    case (Inr sx)
    note sx = this
    show ?thesis
    proof (cases "parse_form (we_number env) rq")
      case (Inr form)
      note form = this
      show ?thesis
      proof (cases "check_mutation env (au_policy (sx_auth sx)) rq (submitted_token form rq)")
        case (Inr w)
        note w = this
        show ?thesis
        using req [of "sx_auth sx"]
        proof (cases rule: same_resultE)
          case (error e f s)
          then show ?thesis by (simp add: action_route_def sx form w same_failed)
        next
          case (result v s)
          obtain u sid where v: "v = (u, sid)" by (cases v)
          show ?thesis
            using assms [of "sx\<lparr>sx_auth := later 1 (sx_auth sx)\<rparr>" "wants_json rq" form u "with_db s st"]
            by (cases rule: same_resultE) (use result in \<open>simp_all add: action_route_def sx form w v same_failed\<close>)
        qed
      qed (simp add: action_route_def sx form)
    qed (simp add: action_route_def sx)
  qed (simp add: action_route_def)
qed

section \<open>The routes\<close>

lemma same_actions:
  "same_result (users_action (redrive d env) sx js form u st) (users_action env sx js form u st)"
  "same_result (allowlist_action (redrive d env) sx js form u st) (allowlist_action env sx js form u st)"
  "same_result (emails_action (redrive d env) sx js form u st) (emails_action env sx js form u st)"
  "same_result (projects_action (redrive d env) sx js form u st) (projects_action env sx js form u st)"
  "same_result (gitlab_action (redrive d env) sx js form u st) (gitlab_action env sx js form u st)"
  "same_result (revoke_all_action (redrive d env) sx js form u st) (revoke_all_action env sx js form u st)"
  by (auto simp: users_action_def allowlist_action_def emails_action_def projects_action_def gitlab_action_def
      revoke_all_action_def Let_def intro!: alike split: option.splits sum.splits prod.splits)

lemma same_payloads: "same_error e f \<Longrightarrow> login_failed rq e = login_failed rq f" "same_error e f \<Longrightarrow> logout_failed rq e = logout_failed rq f"
  by (simp_all add: login_failed_def logout_failed_def same_payload)

lemma redrive_login: "login_route (redrive d env) rq st = login_route env rq st"
  using same_payloads(1) [OF same_thrown(1)]
  by (auto simp: login_route_def Let_def split: sum.split prod.split)

lemma redrive_logout: "logout_route (redrive d env) rq st = logout_route env rq st"
proof (cases "get_services env")
  case (Inr sx)
  note sx = this
  show ?thesis
  proof (cases "parse_form (we_number env) rq")
    case (Inr form)
    note form = this
    show ?thesis
    proof (cases "check_mutation env (au_policy (sx_auth sx)) rq (submitted_token form rq)")
      case (Inr w)
      note w = this
      show ?thesis
        using same_require_user [of d env "sx_auth sx" rq "ws_db st"]
      proof (cases rule: same_resultE)
        case (error e f s)
        then show ?thesis by (simp add: logout_route_def sx form w same_payloads)
      next
        case (result v s)
        then show ?thesis
          using same_payloads(2) [OF same_thrown(1)]
          by (cases v; cases "revoke_session (later 1 (sx_auth sx)) (snd v) (Some (ar_id (fst v))) s")
            (auto simp: logout_route_def sx form w split: sum.split)
      qed
    qed (simp add: logout_route_def sx form)
  qed (simp add: logout_route_def sx)
qed (simp add: logout_route_def)

lemma redrive_read_route:
  assumes "\<And>sx u st. same_result (show_for' sx u st) (show_for sx u st)"
  shows "read_route (redrive d env) rq admin status show_for' st = read_route env rq admin status show_for st"
proof (cases "get_services env")
  case (Inl e)
  then show ?thesis by (simp add: read_route_def)
next
  case (Inr sx)
  have req: "same_result ((if admin then require_admin else require_user) (redrive d env) (sx_auth sx) rq (ws_db st))
      ((if admin then require_admin else require_user) env (sx_auth sx) rq (ws_db st))"
    by (simp add: same_require_user same_require_admin)
  then show ?thesis
  proof (cases rule: same_resultE)
    case (error e f s)
    then show ?thesis by (simp add: read_route_def Inr same_json_error)
  next
    case (result v s)
    obtain u sid where v: "v = (u, sid)" by (cases v)
    show ?thesis
      using assms [of sx u "with_db s st"]
      by (cases rule: same_resultE) (use result in \<open>simp_all add: read_route_def Inr v same_json_error\<close>)
  qed
qed

section \<open>Properties\<close>

text \<open>C32. The texts of the database driver, which may quote rows, never leave the process: two servers whose
  drivers word their errors differently answer every POST and every GET with the same response and
  leave the same state.\<close>

theorem driver_text_hidden:
  shows "serve_post (env\<lparr>we_driver := d\<rparr>) p rq st = serve_post env p rq st \<and>
    serve_get (env\<lparr>we_driver := d\<rparr>) g rq st = serve_get env g rq st"
proof
  show "serve_post (redrive d env) p rq st = serve_post env p rq st"
    by (cases p) (simp_all add: serve_post_def redrive_login redrive_logout revoke_all_route_def users_route_def
        allowlist_route_def emails_route_def projects_route_def gitlab_route_def redrive_action_route same_actions)
  have u: "same_result (map_sum (auth_thrown d) f (list_users u db), s) (map_sum (auth_thrown (we_driver env)) f (list_users u db), s)"
    for f :: "auth_user list \<Rightarrow> json" and u db and s :: web_state
    by (auto simp: list_users_def same_result_def)
  show "serve_get (redrive d env) g rq st = serve_get env g rq st"
    by (cases g) (auto simp: serve_get_def users_get_def allowlist_get_def projects_get_def gitlab_get_def
        intro!: redrive_read_route u)
qed

text \<open>The code of the driver does leave: \<open>jsonError\<close> prefers the code of any error to that of the payload.\<close>

lemma driver_code_shown: "error_code (driver_error code msg) = code \<and>
    ep_code (to_safe_error_payload (driver_error code msg)) = ''INTERNAL_ERROR''"
  by (simp add: error_code_def driver_error_def to_safe_error_payload_def is_safe_domain_error_def unknown_error_def)

text \<open>C33. The redirect that issues a CSRF token goes to a path that begins with one slash. It stays on the
  application's own origin when the path has no backslash, tab or line break, but the check for a
  second slash does not see that a URL parser reads a backslash as one: \<open>next\<close> set to \<open>/\\<close> and a host leads
  to that host.\<close>

theorem csrf_redirect_target:
  assumes "csrf_route env rq = Inr r" and "app_origin (we_process env) = Inr base" and "we_url_origin env base = Some own"
  shows "\<exists>target path. wr_body r = Body_Redirect target path [] \<and> starts_with ''/'' path \<and> \<not> starts_with ''//'' path \<and>
    (set path \<inter> {CHR 0x5C, CHR 0x09, CHR 0x0A, CHR 0x0D} = {} \<longrightarrow> target = own) \<and>
    (\<forall>host. rq_param rq ''next'' = Some (CHR ''/'' # CHR 0x5C # host) \<longrightarrow>
       we_url_origin env (takeWhile (\<lambda>c. c \<noteq> CHR '':'') own @ '':/'' @ CHR 0x5C # host) = Some target)"
proof -
  let ?p = "safe_next (rq_param rq ''next'')"
  obtain target where t: "resolve_origin (we_url_origin env) base ?p = Some target" "wr_body r = Body_Redirect target ?p []"
    using assms(1,2) by (auto simp: csrf_route_def redirect_to_def split: sum.splits option.splits)
  have p: "starts_with ''/'' ?p" "\<not> starts_with ''//'' ?p"
    by (simp_all add: safe_next_def Let_def starts_with_def split: option.split)
  have "target = own" if s: "set ?p \<inter> {CHR 0x5C, CHR 0x09, CHR 0x0A, CHR 0x0D} = {}"
  proof -
    have "filter (\<lambda>c. c \<notin> {CHR 0x09, CHR 0x0A, CHR 0x0D}) ?p = ?p" using s by (intro filter_True) auto
    moreover have "\<not> names_host ?p" if "filter (\<lambda>c. c \<notin> {CHR 0x09, CHR 0x0A, CHR 0x0D}) ?p = ?p"
      using p s unfolding names_host_def that
      by (cases ?p; cases "tl ?p") (auto simp: starts_with_def url_slash_def)
    ultimately show ?thesis using t assms(3) by (simp add: resolve_origin_def)
  qed
  moreover have "we_url_origin env (takeWhile (\<lambda>c. c \<noteq> CHR '':'') own @ '':/'' @ CHR 0x5C # host) = Some target"
    if n: "rq_param rq ''next'' = Some (CHR ''/'' # CHR 0x5C # host)" for host
  proof -
    have "?p = CHR ''/'' # CHR 0x5C # host" using n by (simp add: safe_next_def starts_with_def)
    then show ?thesis using t(1) assms(3) by (simp add: resolve_origin_def names_host_def url_slash_def)
  qed
  ultimately show ?thesis using t(2) p by blast
qed

end
