(* ===== verification/WebWitness.thy ===== *)
theory WebWitness
  imports WebSecrecy EnvCheck
begin

text \<open>
  One server, one administrator, one user: the properties of \<open>WebProperties\<close> and \<open>WebSecrecy\<close> at concrete
  requests.
\<close>

section \<open>A server\<close>

definition sample_process :: "string \<Rightarrow> string option" where
  "sample_process k =
     (if k = ''SESSION_SECRET'' then Some (replicate 32 CHR ''k'')
      else if k = ''TOKEN_ENCRYPTION_KEY'' then Some (b64_encode (replicate 32 0))
      else if k = ''TOKEN_ENCRYPTION_KEY_VERSION'' then Some ''v1''
      else if k = ''APP_ORIGIN'' then Some ''h:a'' else None)"

definition sample_web_auth :: auth_env where
  "sample_web_auth = sample_auth\<lparr>au_hmac := (\<lambda>k t. t)\<rparr>"

definition sample_web_env :: web_env where
  "sample_web_env = \<lparr>we_process = sample_process, we_auth = sample_web_auth, we_conn = sample_conn_env sample_probe,
     we_clock = int, we_probe = (\<lambda>_ _ _ _. Inl Probe_Other), we_now = int, we_new_id = ''n1'', we_csrf = ''c'',
     we_url_origin = (\<lambda>s. if s = ''h:a'' then Some ''h:a'' else if s = ''h:/'' @ CHR 0x5C # ''e'' then Some ''h:e'' else None),
     we_number = (\<lambda>_. []), we_iso = (\<lambda>_. []), we_driver = []\<rparr>"

definition sample_admin :: user_row where
  "sample_admin = sample_login_user\<lparr>u_id := ''a1'', u_norm := ''b@x'', u_role := Admin\<rparr>"

definition sample_web_state :: web_state where
  "sample_web_state = \<lparr>ws_auth = \<lparr>as_db = empty_db\<lparr>t_users := [sample_admin, sample_login_user],
     t_sessions := [sample_session\<lparr>s_id := ''s0'', s_user := ''a1'', s_token_hash := ''x''\<rparr>, sample_session]\<rparr>,
     as_buckets = Map.empty\<rparr>, ws_tick = 0\<rparr>"

definition sample_policy_web :: session_policy where
  "sample_policy_web = sample_policy\<lparr>sp_secret := replicate 32 CHR ''k''\<rparr>"

definition sample_sx :: services where
  "sample_sx = \<lparr>sx_auth = sample_web_auth\<lparr>au_policy := sample_policy_web\<rparr>,
     sx_conn = (sample_conn_env sample_probe)\<lparr>ce_loader := \<lparr>kl_version = 1, kl_key = replicate 32 0\<rparr>\<rparr>,
     sx_access = \<lparr>ax_ttls = new_membership_cache 300 (Some 30), ax_now = int,
       ax_token = get_access_token sample_gcm \<lparr>kl_version = 1, kl_key = replicate 32 0\<rparr>,
       ax_invalidate = invalidate_credential, ax_probe = (\<lambda>_ _ _ _. Inl Probe_Other)\<rparr>\<rparr>"

lemma sample_services: "get_services sample_web_env = Inr sample_sx"
proof -
  have p: "load_session_policy sample_process = Inr sample_policy_web"
    by (simp add: load_session_policy_def resolve_secure_cookies_def sample_process_def sample_policy_web_def sample_policy_def
        parse_positive_int_def session_abs_ttl_default_def session_idle_ttl_default_def Let_def js_lower_def js_trim_def
        js_trim_start_def is_js_space_def lower_char_def starts_with_def)
  have "decode_key_material (b64_encode (replicate 32 0)) = Inr (replicate 32 0)"
    by (simp add: decode_key_iff key_bytes_def)
  moreover have "parse_key_version_label ''v1'' = Inr 1"
    by (simp add: parse_key_version_label_def Let_def js_trim_def js_trim_start_def is_js_space_def all_digits_def
        is_digit_def digits_val_def digit_val_def max_safe_integer_def)
  moreover have "b64_encode (replicate 32 0) \<noteq> []" by (rule b64_encode_canonical(2)) (simp add: key_bytes_def)
  ultimately have k: "create_env_key_loader sample_process = Inr \<lparr>kl_version = 1, kl_key = replicate 32 0\<rparr>"
    by (simp add: create_env_key_loader_def create_static_key_loader_def sample_process_def)
  have t: "env_cache_ttls sample_process = Inr (new_membership_cache 300 (Some 30))"
    by (simp add: env_cache_ttls_def membership_cache_ttl_from_env_def membership_cache_negative_ttl_from_env_def
        parse_membership_cache_ttl_seconds_def parse_membership_cache_negative_ttl_seconds_def blank_def sample_process_def
        default_membership_cache_ttl_seconds_def default_membership_cache_negative_ttl_seconds_def)
  show ?thesis
    by (simp add: get_services_def sample_web_env_def p k t sample_sx_def sample_conn_env_def)
qed

section \<open>Requests\<close>

definition sample_request :: "string \<Rightarrow> web_request" where
  "sample_request csrf = \<lparr>rq_header = (\<lambda>h. if h = ''origin'' then Some ''h:a'' else if h = ''accept'' then Some ''application/json''
       else if h = ''cookie'' then Some ''rp_csrf=z'' else if h = ''x-csrf-token'' then Some csrf else None),
     rq_jar = (\<lambda>n. if n = ''rp_session'' then Some ''x'' else None),
     rq_body = ''action=deactivate&userId=u1'', rq_origin = ''h:a'',
     rq_param = (\<lambda>n. if n = ''next'' then Some (CHR ''/'' # CHR 0x5C # ''e'') else None)\<rparr>"

lemma sample_wants: "wants_json (sample_request c)"
  by (simp add: wants_json_def header_text_def sample_request_def starts_with_def)

definition sample_form :: "string \<rightharpoonup> string" where
  "sample_form = map_of [(''action'', ''deactivate''), (''userId'', ''u1'')]"

lemma sample_form: "parse_form f (sample_request c) = Inr sample_form"
  by (simp add: parse_form_def header_text_def sample_request_def starts_with_def url_search_params_def form_pair_def
      form_decode_plain sample_form_def)

lemma sample_admin_session:
  "require_admin sample_web_env (sx_auth sample_sx) (sample_request c) (ws_db sample_web_state) =
     (Inr (auth_user_of sample_admin, ''s0''), ws_db sample_web_state)"
  by (simp add: require_admin_def require_user_def validate_token_def Let_def read_session_token_def sample_request_def
      sample_sx_def sample_web_auth_def sample_auth_def sample_policy_web_def sample_policy_def sample_web_state_def
      sample_session_def find_user_def sample_admin_def sample_login_user_def auth_user_of_def)

lemma sample_checks:
  "check_mutation sample_web_env (au_policy (sx_auth sample_sx)) (sample_request ''z'') (submitted_token sample_form (sample_request ''z'')) = Inr ()"
  "check_mutation sample_web_env (au_policy (sx_auth sample_sx)) (sample_request ''y'') (submitted_token sample_form (sample_request ''y'')) =
     Inl (auth_thrown [] Csrf_Failed)"
proof -
  have o': "allowed_origins sample_process = Inr [''h:a'']"
    by (simp add: allowed_origins_def app_origin_def sample_process_def js_trim_def js_trim_start_def is_js_space_def strip_slash_def)
  have h: "trimmed_header (Some ''h:a'') = Some ''h:a''"
    by (simp add: trimmed_header_def js_trim_def js_trim_start_def is_js_space_def)
  have c: "read_cookie ''rp_csrf=z'' ''rp_csrf'' = Inr (Some ''z'')"
    by (simp add: read_cookie_def js_trim_def js_trim_start_def is_js_space_def decode_uri_plain)
  show "check_mutation sample_web_env (au_policy (sx_auth sample_sx)) (sample_request ''z'') (submitted_token sample_form (sample_request ''z'')) = Inr ()"
    "check_mutation sample_web_env (au_policy (sx_auth sample_sx)) (sample_request ''y'') (submitted_token sample_form (sample_request ''y'')) =
       Inl (auth_thrown [] Csrf_Failed)"
    by (simp_all add: check_mutation_def sample_web_env_def o' assert_origin_def sample_request_def h Let_def strip_slash_def
        header_text_def sample_sx_def sample_policy_web_def sample_policy_def c submitted_token_def opt_or_def sample_form_def
        assert_csrf_def csrf_tokens_equal_iff)
qed

section \<open>The properties\<close>

theorem mutations_guarded_witness:
  "touches sample_web_state (snd (serve_post sample_web_env Post_Users (sample_request ''y'') sample_web_state))"
proof -
  obtain r st' where p: "serve_post sample_web_env Post_Users (sample_request ''y'') sample_web_state = (r, st')" by fastforce
  have "\<not> genuine sample_web_env sample_sx (sample_request ''y'') sample_form"
    by (simp add: genuine_def sample_request_def header_text_def sample_sx_def sample_policy_web_def sample_policy_def
        read_cookie_def js_trim_def js_trim_start_def is_js_space_def decode_uri_plain submitted_token_def opt_or_def sample_form_def)
  with mutations_guarded [OF p] show ?thesis by (auto simp: sample_services sample_form p)
qed

theorem deactivated_stays_out_witness:
  "\<exists>st1 r. serve_post sample_web_env Post_Users (sample_request ''z'') sample_web_state = (Inr r, st1) \<and> wr_status r = 200 \<and>
     {s_id s |s. s \<in> set (t_sessions (ws_db (snd (serve_post sample_web_env Post_Login (sample_request ''z'') st1)))) \<and>
       s_user s = ''u1''} \<subseteq> s_id ` set (t_sessions (ws_db st1))"
proof -
  let ?db = "ws_db sample_web_state" and ?a = "later 1 (sx_auth sample_sx)"
  have a: "ar_role (auth_user_of sample_admin) = Admin" "ar_id (auth_user_of sample_admin) = ''a1''"
    by (simp_all add: auth_user_of_def sample_admin_def)
  have f: "find_user ''u1'' ?db \<noteq> None"
    by (simp add: find_user_def sample_web_state_def sample_admin_def)
  have m: "\<exists>n db1. revoke_all_for_user now u w db = (Inr n, db1)" for now u w db
    by (simp add: revoke_all_for_user_def Let_def audited_def audit_write_def audit_key_def forbidden_meta_keys_def
        js_lower_def lower_char_def)
  have "\<exists>db1. revoke_and_audit ?a ''user_deactivated'' (auth_user_of sample_admin) ''u1'' db = (Inr (), db1)" for db
  proof -
    obtain n db1 where "revoke_all_for_user (au_now ?a 0) ''u1'' (Some (ar_id (auth_user_of sample_admin))) db = (Inr n, db1)"
      using m by blast
    then show ?thesis
      by (simp add: revoke_and_audit_def audited_def audit_write_def audit_key_def forbidden_meta_keys_def js_lower_def lower_char_def)
  qed
  then obtain db1 where d: "deactivate_user ?a (auth_user_of sample_admin) ''u1'' ?db = (Inr (), db1)"
    using a f by (auto simp: deactivate_user_def)
  let ?st = "with_db db1 sample_web_state"
  have p: "serve_post sample_web_env Post_Users (sample_request ''z'') sample_web_state = (Inr (json_response ok_json 200), ?st)"
    by (simp add: serve_post_def users_route_def action_route_def sample_services sample_form sample_checks sample_admin_session
        users_action_def form_or_def form_text_def call_def d answer_def sample_wants Let_def)
      (simp add: sample_form_def d [unfolded One_nat_def])
  obtain r st3 where l: "serve_post sample_web_env Post_Login (sample_request ''z'') ?st = (r, st3)" by fastforce
  from deactivated_stays_out [OF p sample_wants _ sample_form _ _ rtranclp.rtrancl_refl l]
  have "{s_id s |s. s \<in> set (t_sessions (ws_db st3)) \<and> s_user s = ''u1''} \<subseteq> s_id ` set (t_sessions (ws_db ?st))"
    by (auto simp: json_response_def sample_form_def)
  with p l show ?thesis by (auto simp: json_response_def)
qed

theorem csrf_redirect_target_witness:
  "\<exists>r. csrf_route sample_web_env (sample_request ''z'') = Inr r \<and> (\<exists>path. wr_body r = Body_Redirect ''h:e'' path [])"
proof -
  have b: "app_origin (we_process sample_web_env) = Inr ''h:a''"
    by (simp add: app_origin_def sample_web_env_def sample_process_def js_trim_def js_trim_start_def is_js_space_def strip_slash_def)
  have u: "we_url_origin sample_web_env ''h:a'' = Some ''h:a''" by (simp add: sample_web_env_def)
  have n: "rq_param (sample_request ''z'') ''next'' = Some (CHR ''/'' # CHR 0x5C # ''e'')" by (simp add: sample_request_def)
  have e: "we_url_origin sample_web_env (takeWhile (\<lambda>c. c \<noteq> CHR '':'') ''h:a'' @ '':/'' @ CHR 0x5C # ''e'') = Some ''h:e''"
    by (simp add: sample_web_env_def)
  obtain r where r: "csrf_route sample_web_env (sample_request ''z'') = Inr r"
    using b u n e by (simp add: csrf_route_def sample_services resolve_origin_def safe_next_def names_host_def url_slash_def
        starts_with_def)
  from csrf_redirect_target [OF r b u] n e show ?thesis using r by auto
qed

section \<open>The preflight of a configuration\<close>

definition sample_env_config :: "string \<Rightarrow> string option" where
  "sample_env_config = sample_process(''DATABASE_URL'' \<mapsto> ''postgres://'')"

definition sample_new_url :: "string \<Rightarrow> env_url option" where
  "sample_new_url s = (if s = ''h:a'' then Some \<lparr>eu_origin = ''h:a'', eu_protocol = ''h:'', eu_pathname = []\<rparr> else None)"

lemma sample_config_ok: "er_issues (validate_runtime_env sample_new_url sample_env_config) = []"
proof -
  have k: "decode_canonical_key (b64_encode (replicate 32 0)) = Some (replicate 32 0)" "b64_encode (replicate 32 0) \<noteq> []"
    using canonical_key_material [of "b64_encode (replicate 32 0)" "replicate 32 0"]
      b64_encode_canonical(2) [of "replicate 32 0"] by (simp_all add: decode_key_iff key_bytes_def)
  have t: "env_text sample_env_config ''DATABASE_URL'' = ''postgres://''" "env_text sample_env_config ''APP_ORIGIN'' = ''h:a''"
    "env_text sample_env_config ''TOKEN_ENCRYPTION_KEY_VERSION'' = ''v1''" "env_text sample_env_config ''GITLAB_URL_ALLOWLIST'' = []"
    "env_text sample_env_config ''MEMBERSHIP_CACHE_TTL_SECONDS'' = []"
    "env_text sample_env_config ''MEMBERSHIP_CACHE_NEGATIVE_TTL_SECONDS'' = []"
    "env_text sample_env_config ''COMMIT_LOOKBACK_OVERLAP_SECONDS'' = []" "env_text sample_env_config ''SYNC_POLL_INTERVAL_SECONDS'' = []"
    "env_text sample_env_config ''SYNC_JOB_BUDGET_SECONDS'' = []" "env_text sample_env_config ''SYNC_STALE_CLAIM_SECONDS'' = []"
    by (simp_all add: env_text_def env_raw_def sample_env_config_def sample_process_def js_trim_def js_trim_start_def is_js_space_def)
  have r: "env_raw sample_env_config ''SESSION_SECRET'' = replicate 32 CHR ''k''"
    "env_raw sample_env_config ''TOKEN_ENCRYPTION_KEY'' = b64_encode (replicate 32 0)"
    by (simp_all add: env_raw_def sample_env_config_def sample_process_def)
  show ?thesis
    by (simp add: validate_runtime_env_def env_result_def Let_def t r k key_issues_def database_issues_def starts_with_def
        key_version_label_def is_digit_def origin_issues_def sample_new_url_def strip_slash_def positive_issues_def
        sync_runtime_keys_def runtime_env_defaults_def)
qed

theorem preflight_sound_witness:
  "\<exists>sx. get_services (sample_web_env\<lparr>we_process := sample_env_config,
       we_url_origin := (\<lambda>s. map_option eu_origin (sample_new_url s))\<rparr>) = Inr sx \<and> loader_ok (ce_loader (sx_conn sx))"
proof -
  have "env_text sample_env_config ''TOKEN_ENCRYPTION_KEY_VERSION'' = ''v1''"
    by (simp add: env_text_def env_raw_def sample_env_config_def sample_process_def js_trim_def js_trim_start_def is_js_space_def)
  then have "int (digits_val (tl (env_text sample_env_config ''TOKEN_ENCRYPTION_KEY_VERSION''))) \<le> max_safe_integer"
    by (simp add: digits_val_def digit_val_def max_safe_integer_def)
  moreover have "\<And>s u. sample_new_url s = Some u \<Longrightarrow> eu_origin u \<noteq> ''null'' \<Longrightarrow>
      \<exists>v. sample_new_url (eu_origin u) = Some v \<and> eu_origin v = eu_origin u"
    by (auto simp: sample_new_url_def split: if_splits)
  moreover have "sample_new_url ''null'' = None" "sample_new_url ''null/'' = None"
    by (simp_all add: sample_new_url_def)
  ultimately show ?thesis
    using preflight_sound [OF sample_config_ok, of "sample_web_env\<lparr>we_process := sample_env_config,
      we_url_origin := (\<lambda>s. map_option eu_origin (sample_new_url s))\<rparr>"] by (simp del: fun_upd_apply) blast
qed

end
