(* ===== verification/WebPageProperties.thy ===== *)
theory WebPageProperties
  imports WebPages WebWitness
begin

text \<open>
  What the pages guarantee: they show nothing without a live session, the forms they offer pass the guards of the
  routes they are sent to and ask for actions that these know; and what the filter of the dashboard does
  when it is sent back as it was shown.
\<close>

section \<open>Sessions\<close>

definition admin_page :: "web_page \<Rightarrow> bool" where
  "admin_page g \<longleftrightarrow> g = Users_Page \<or> g = Allowlist_Page"

text \<open>Whose session a cookie names; that does not change while a page is made.\<close>

definition cookie_user :: "auth_env \<Rightarrow> web_request \<Rightarrow> database \<Rightarrow> auth_user option" where
  "cookie_user a rq db = Option.bind (read_session_token (au_policy a) rq) (\<lambda>t.
     Option.bind (map_option s_user
         (find (\<lambda>s. s_token_hash s = au_hmac a (sp_secret (au_policy a)) t) (t_sessions db)))
       (\<lambda>i. map_option auth_user_of (find_user i db)))"

lemma find_seen [simp]:
  "map_option s_user (find (\<lambda>s. s_token_hash s = h) (upd_where P (\<lambda>x. x\<lparr>s_last_seen := n\<rparr>) xs)) =
     map_option s_user (find (\<lambda>s. s_token_hash s = h) xs)"
  by (induction xs) auto

lemma cookie_user_later [simp]: "cookie_user (later k a) rq db = cookie_user a rq db"
  by (simp add: cookie_user_def later_def cong: option.map_cong)

lemma cookie_user_logins: "logins db' = logins db \<Longrightarrow> cookie_user a rq db' = cookie_user a rq db"
  by (simp add: cookie_user_def logins_def find_user_def)

lemma validate_session:
  assumes "validate_token a tok db = (Inr v, db')"
  shows "t_users db' = t_users db" and "map_option s_user (find (\<lambda>s. s_token_hash s = h) (t_sessions db')) =
    map_option s_user (find (\<lambda>s. s_token_hash s = h) (t_sessions db))"
  using assms by (auto simp: validate_token_def Let_def split: option.splits if_splits)

lemma require_user_cookie:
  assumes "require_user env a rq db = (Inr (u, sid), db')"
  shows "cookie_user a rq db = Some u" and "cookie_user a rq db' = Some u" and "t_users db' = t_users db"
proof -
  obtain v where v: "validate_token a (read_session_token (au_policy a) rq) db = (Inr v, db')" "u = vs_user v"
    using assms by (auto simp: require_user_def split: prod.splits sum.splits)
  then show u: "cookie_user a rq db = Some u"
    by (auto simp: cookie_user_def validate_token_def Let_def split: option.splits if_splits)
  show t: "t_users db' = t_users db" using v(1) by (rule validate_session)
  show "cookie_user a rq db' = Some u"
    using u t validate_session(2) [OF v(1)] by (simp add: cookie_user_def find_user_def)
qed

lemma guard_user:
  "(if admin then require_admin else require_user) env a rq db = (Inr (u, sid), db') \<Longrightarrow>
     require_user env a rq db = (Inr (u, sid), db')"
  by (auto simp: require_admin_def split: prod.splits sum.splits if_splits)

lemma framed_page_cases:
  assumes "framed_page env rq admin path alerts content st = (r, st')"
  obtains (early) "st' = st" "\<And>pg. r \<noteq> Page_Shown pg"
  | (refused) e db1 where "r = Page_Failed e" "st' = with_db db1 st" "touches st st'"
  | (failed) sx csrf u db1 e where "get_services env = Inr sx" "speaks_for sx rq (ws_db st) u" "admin \<longrightarrow> ar_role u = Admin"
      "content sx csrf u (with_db db1 st) = (Inl e, st')" "r = Page_Failed e"
  | (shown) sx csrf u db1 its st2 where "get_services env = Inr sx" "rq_jar rq (sp_csrf_cookie (au_policy (sx_auth sx))) = Some csrf"
      "csrf \<noteq> []" "speaks_for sx rq (ws_db st) u" "admin \<longrightarrow> ar_role u = Admin" "touches st (with_db db1 st)"
      "cookie_user (sx_auth sx) rq db1 = Some u" "t_users db1 = t_users (ws_db st)"
      "content sx csrf u (with_db db1 st) = (Inr its, st2)"
      "app_shell env (later 1 (sx_auth sx)) rq path csrf (alerts @ its) st2 = (r, st')"
proof (cases "get_services env")
  case (Inl e)
  with assms early show ?thesis by (auto simp: framed_page_def)
next
  case sx: (Inr sx)
  show ?thesis
  proof (cases "rq_jar rq (sp_csrf_cookie (au_policy (sx_auth sx)))")
    case None
    with assms sx early show ?thesis by (auto simp: framed_page_def)
  next
    case c: (Some csrf)
    show ?thesis
    proof (cases "csrf = []")
      case True
      with assms sx c early show ?thesis by (auto simp: framed_page_def)
    next
      case False
      obtain w db1 where u: "(if admin then require_admin else require_user) env (sx_auth sx) rq (ws_db st) = (w, db1)"
        by fastforce
      have t: "touches st (with_db db1 st)"
        using u require_admin_touches require_user_touches by (auto split: if_splits)
      show ?thesis
      proof (cases w)
        case (Inl e)
        with assms sx c False u t refused [of e db1] show ?thesis by (simp add: framed_page_def)
      next
        case (Inr x)
        obtain v sid where x: "x = (v, sid)" by fastforce
        have s: "speaks_for sx rq (ws_db st) v" "admin \<longrightarrow> ar_role v = Admin"
          using u Inr x require_admin_Inr require_user_Inr by (auto split: if_splits)
        have ck: "cookie_user (sx_auth sx) rq db1 = Some v" "t_users db1 = t_users (ws_db st)"
          using require_user_cookie [OF guard_user [of admin env "sx_auth sx" rq "ws_db st" v sid db1]] u Inr x by simp_all
        obtain y st2 where k: "content sx csrf v (with_db db1 st) = (y, st2)" by fastforce
        show ?thesis
        proof (cases y)
          case (Inl e)
          with assms sx c False u Inr x k s failed [of sx v csrf db1 e] show ?thesis by (simp add: framed_page_def)
        next
          case its: (Inr its)
          with assms sx c False u Inr x k s t ck shown [of sx csrf v db1 its st2] show ?thesis by (simp add: framed_page_def)
        qed
      qed
    qed
  qed
qed

section \<open>Forms\<close>

definition page_forms :: "page \<Rightarrow> page_form set" where
  "page_forms pg = {f. Form f \<in> set (pg_items pg)}"

text \<open>The file routing of the API, and the actions that a route knows; \<open>None\<close> is a form without the field.\<close>

definition post_at :: "string \<Rightarrow> web_post option" where
  "post_at = map_of [(''/api/auth/login'', Post_Login), (''/api/auth/logout'', Post_Logout),
     (''/api/auth/sessions/revoke-all'', Post_Revoke_All), (''/api/admin/users'', Post_Users),
     (''/api/admin/allowlist'', Post_Allowlist), (''/api/settings/emails'', Post_Emails),
     (''/api/settings/projects'', Post_Projects), (''/api/settings/gitlab'', Post_Gitlab)]"

definition known_actions :: "web_post \<Rightarrow> string list" where
  "known_actions p =
     (case p of Post_Users \<Rightarrow> [''create'', ''invite'', ''deactivate'', ''reset_password'']
      | Post_Allowlist \<Rightarrow> [''add_instance'', ''remove_instance'', ''add_project'', ''remove_project'']
      | Post_Emails \<Rightarrow> [''add'', ''remove''] | Post_Projects \<Rightarrow> [''enable'', ''disable'']
      | Post_Gitlab \<Rightarrow> [''save'', ''replace'', ''test'', ''retest'', ''delete''] | _ \<Rightarrow> [])"

definition takes_action :: "web_post \<Rightarrow> bool" where
  "takes_action p \<longleftrightarrow> known_actions p \<noteq> []"

definition action_of :: "web_post \<Rightarrow> web_action" where
  "action_of p = (case p of Post_Users \<Rightarrow> users_action | Post_Allowlist \<Rightarrow> allowlist_action | Post_Emails \<Rightarrow> emails_action
     | Post_Projects \<Rightarrow> projects_action | _ \<Rightarrow> gitlab_action)"

text \<open>Exactly these are not answered as unknown.\<close>

definition answered_unknown :: "web_env \<Rightarrow> bool \<Rightarrow> route_result \<Rightarrow> bool" where
  "answered_unknown env js x \<longleftrightarrow> (\<exists>path r. unknown_action env js path = Inr r \<and> fst x = Inr r)"

lemma not_unknown_call:
  "(\<And>y s. \<not> answered_unknown env js (k y s)) \<Longrightarrow> \<not> answered_unknown env js (call conv r k st)"
  by (auto simp: call_def answered_unknown_def split: prod.splits sum.splits)

lemma not_unknown_answer:
  "\<forall>v. (''error'', v) \<notin> set query \<Longrightarrow> \<not> answered_unknown env js (answer env js x path query, st)"
  by (auto simp: answered_unknown_def unknown_action_def answer_def form_redirect_def redirect_to_def json_response_def
      split: sum.splits option.splits)

lemma not_unknown_audit:
  "\<forall>v. (''error'', v) \<notin> set query \<Longrightarrow>
     \<not> answered_unknown env js (audit_then env action uid meta (answer env js x path query) st)"
  unfolding audit_then_def by (intro not_unknown_call not_unknown_answer)

lemma not_unknown_Inl [simp]: "\<not> answered_unknown env js (Inl e, st)"
  by (simp add: answered_unknown_def)

lemmas not_unknown = not_unknown_call not_unknown_audit not_unknown_answer

lemmas action_simps = form_or_def form_text_def Let_def

lemma users_action_run:
  assumes "form ''action'' = Some a" and "a = ''create'' \<or> a = ''invite'' \<or> a = ''deactivate'' \<or> a = ''reset_password''"
  shows "\<not> answered_unknown env js (users_action env sx js form u st)"
proof (cases "role_of_text (form_or form ''role'' ''developer'')")
  case None
  with assms show ?thesis by (elim disjE) (simp_all add: users_action_def action_simps not_unknown)
next
  case (Some r)
  with assms show ?thesis by (elim disjE) (simp_all add: users_action_def action_simps not_unknown)
qed

lemma projects_action_run:
  assumes "form ''action'' = Some a" and "a = ''enable'' \<or> a = ''disable''"
  shows "\<not> answered_unknown env js (projects_action env sx js form u st)"
proof (cases "a = ''enable''")
  case True
  let ?p = "\<lparr>pr_instance = form_text form ''gitlabInstanceId'', pr_project = form_text form ''gitlabProjectId''\<rparr>"
  obtain r t db where "enable_project (sx_access sx) (ar_id u) ?p (ws_tick st) (ws_db st) = (r, t, db)"
    by (cases "enable_project (sx_access sx) (ar_id u) ?p (ws_tick st) (ws_db st)")
  with True assms(1) show ?thesis
    by (cases r) (simp_all add: projects_action_def form_or_def Let_def not_unknown)
next
  case False
  with assms show ?thesis by (simp add: projects_action_def form_or_def Let_def not_unknown)
qed

lemma known_actions_run:
  assumes "takes_action p" and "form ''action'' = Some a" and "a \<in> set (known_actions p)"
  shows "\<not> answered_unknown env js (action_of p env sx js form u st)"
proof (cases p)
  case Post_Users
  with assms users_action_run show ?thesis by (simp add: known_actions_def action_of_def)
next
  case Post_Projects
  with assms projects_action_run show ?thesis by (simp add: known_actions_def action_of_def)
next
  case Post_Allowlist
  then have "a = ''add_instance'' \<or> a = ''remove_instance'' \<or> a = ''add_project'' \<or> a = ''remove_project''"
    using assms(3) by (simp add: known_actions_def)
  with assms(2) Post_Allowlist show ?thesis
    by (elim disjE) (simp_all add: action_of_def allowlist_action_def action_simps not_unknown)
next
  case Post_Emails
  then have "a = ''add'' \<or> a = ''remove''" using assms(3) by (simp add: known_actions_def)
  with assms(2) Post_Emails show ?thesis
    by (elim disjE) (simp_all add: action_of_def emails_action_def action_simps not_unknown)
next
  case Post_Gitlab
  then have "a = ''save'' \<or> a = ''replace'' \<or> a = ''test'' \<or> a = ''retest'' \<or> a = ''delete''"
    using assms(3) by (simp add: known_actions_def)
  with assms(2) Post_Gitlab show ?thesis
    by (elim disjE) (simp_all add: action_of_def gitlab_action_def action_simps not_unknown split_def)
qed (use assms in \<open>simp_all add: takes_action_def known_actions_def\<close>)

lemma other_actions_unknown:
  assumes "takes_action p" and "form ''action'' = Some a" and "a \<notin> set (known_actions p)"
  shows "\<exists>path. action_of p env sx js form u st = (unknown_action env js path, st)"
  using assms
  by (cases p) (auto simp: takes_action_def known_actions_def action_of_def users_action_def allowlist_action_def
      emails_action_def projects_action_def gitlab_action_def form_or_def form_text_def)

text \<open>A form that its route takes, and whose row is one that its action is meant for.\<close>

definition form_ok :: "string \<Rightarrow> page_form \<Rightarrow> bool" where
  "form_ok csrf f \<longleftrightarrow> (''csrf'', csrf) \<in> set (pf_fixed f) \<and>
     (\<exists>p. post_at (pf_action f) = Some p \<and>
        (takes_action p \<longrightarrow> (\<exists>a \<in> set (known_actions p). (''action'', a) \<in> set (pf_fixed f))))"

definition form_for :: "database \<Rightarrow> auth_user \<Rightarrow> page_form \<Rightarrow> bool" where
  "form_for db u f \<longleftrightarrow>
     (\<forall>x. (''emailId'', x) \<in> set (pf_fixed f) \<longrightarrow>
        (\<exists>e \<in> set (t_emails db). e_id e = x \<and> e_user e = ar_id u \<and> e_source e = User_Alias)) \<and>
     (\<forall>x. (''connectionId'', x) \<in> set (pf_fixed f) \<longrightarrow>
        (\<exists>c \<in> set (t_connections db). cn_id c = x \<and> cn_user c = ar_id u \<and> is_live c)) \<and>
     (\<forall>x. (''userId'', x) \<in> set (pf_fixed f) \<longrightarrow> ar_role u = Admin \<and>
        (\<exists>w \<in> set (t_users db). u_id w = x \<and> u_status w = User_Active) \<and>
        ((''action'', ''deactivate'') \<in> set (pf_fixed f) \<longrightarrow> x \<noteq> ar_id u))"

definition forms_all :: "(page_form \<Rightarrow> bool) \<Rightarrow> page_item list \<Rightarrow> bool" where
  "forms_all P is \<longleftrightarrow> (\<forall>f. Form f \<in> set is \<longrightarrow> P f)"

abbreviation forms_ok :: "string \<Rightarrow> auth_user \<Rightarrow> web_state \<Rightarrow> page_item list \<Rightarrow> bool" where
  "forms_ok csrf u st \<equiv> forms_all (\<lambda>f. form_ok csrf f \<and> form_for (ws_db st) u f)"

lemma forms_all_simps [simp]:
  "forms_all P []"
  "forms_all P (Text t # is) \<longleftrightarrow> forms_all P is"
  "forms_all P (Label t # is) \<longleftrightarrow> forms_all P is"
  "forms_all P (Link t # is) \<longleftrightarrow> forms_all P is"
  "forms_all P (Search t fs # is) \<longleftrightarrow> forms_all P is"
  "forms_all P (Form f # is) \<longleftrightarrow> P f \<and> forms_all P is"
  "forms_all P (xs @ ys) \<longleftrightarrow> forms_all P xs \<and> forms_all P ys"
  "forms_all P (concat xss) \<longleftrightarrow> (\<forall>xs \<in> set xss. forms_all P xs)"
  by (auto simp: forms_all_def)

lemma forms_all_labels [simp]:
  "forms_all P (text_or_dash v # is) \<longleftrightarrow> forms_all P is"
  "forms_all P (format_date_time pe d # is) \<longleftrightarrow> forms_all P is"
  "forms_all P (source_label s # is) \<longleftrightarrow> forms_all P is"
  "forms_all P (verification_label w # is) \<longleftrightarrow> forms_all P is"
  "forms_all P (option_label w # is) \<longleftrightarrow> forms_all P is"
  "forms_all P (url_link l # is) \<longleftrightarrow> forms_all P is"
  "forms_all P (format_metric_value m # is) \<longleftrightarrow> forms_all P is"
  "forms_all P (form_error_message code)"
  by (auto simp: text_or_dash_def format_date_time_def source_label_def verification_label_def option_label_def
      url_link_def format_metric_value_def form_error_message_def split: option.split)

lemma forms_all_post [simp]: "forms_all P (post_form csrf act fixed inputs # is) \<longleftrightarrow>
    P \<lparr>pf_action = act, pf_fixed = (''csrf'', csrf) # fixed, pf_inputs = inputs, pf_enabled = True\<rparr> \<and> forms_all P is"
  by (simp add: post_form_def)

lemmas form_simps = form_ok_def form_for_def post_at_def takes_action_def known_actions_def

lemma security_forms: "fst (security_content env sx csrf u st) = Inr its \<Longrightarrow> forms_ok csrf u st its"
  by (auto simp: security_content_def Let_def email_items_def form_simps list_emails_def email_view_of_def)

lemma gitlab_forms: "fst (gitlab_content pe rq sx csrf u st) = Inr its \<Longrightarrow> forms_ok csrf u st its"
  by (auto simp: gitlab_content_def Let_def connection_items_def form_simps list_connections_for_user_def view_of_def
      split: option.splits)

lemma projects_forms: "fst (projects_content sx csrf u st) = Inr its \<Longrightarrow> forms_ok csrf u st its"
  by (auto simp: projects_content_def Let_def project_items_def form_simps split: prod.splits option.splits)

lemma users_forms: "fst (users_content env sx csrf u st) = Inr its \<Longrightarrow> forms_ok csrf u st its"
  by (auto simp: users_content_def user_items_def form_simps list_users_def auth_user_of_def split: if_splits)

lemma allowlist_forms: "fst (allowlist_content sx csrf u st) = Inr its \<Longrightarrow> forms_ok csrf u st its"
  by (auto simp: allowlist_content_def Let_def instance_items_def allow_items_def form_simps)

lemma dashboard_forms: "fst (dashboard_content pe rq sx csrf u st) = Inr its \<Longrightarrow> forms_ok csrf u st its"
  by (auto simp: dashboard_content_def Let_def dashboard_items_def metric_items_def metric_hint_def commit_items_def
      mr_items_def split: option.splits policy_note.splits prod.splits if_splits)

definition content_of :: "page_env \<Rightarrow> web_page \<Rightarrow> web_request \<Rightarrow> page_content" where
  "content_of pe g rq =
     (case g of Dashboard_Page \<Rightarrow> dashboard_content pe rq | Security_Page \<Rightarrow> security_content (pe_web pe)
      | Gitlab_Page \<Rightarrow> gitlab_content pe rq | Projects_Page \<Rightarrow> projects_content | Users_Page \<Rightarrow> users_content (pe_web pe)
      | Allowlist_Page \<Rightarrow> allowlist_content)"

lemma content_forms: "content_of pe g rq sx csrf u st = (Inr its, st2) \<Longrightarrow> forms_ok csrf u st its"
  using security_forms gitlab_forms projects_forms users_forms allowlist_forms dashboard_forms
  by (cases g) (auto simp: content_of_def dest!: arg_cong [of _ _ fst])

lemma show_page_framed:
  "\<exists>path code. show_page pe g rq =
     framed_page (pe_web pe) rq (admin_page g) path (form_error_message code) (content_of pe g rq)"
proof -
  have "[] = form_error_message None" by (simp add: form_error_message_def)
  then show ?thesis
    by (cases g) (simp_all add: show_page_def dashboard_page_def security_page_def gitlab_page_def projects_page_def
        users_page_def allowlist_page_def admin_page_def content_of_def, metis+)
qed

text \<open>The content of a page leaves users and sessions alone.\<close>

lemma content_logins:
  assumes "content_of pe g rq sx csrf u st = (y, st2)" and "ax_invalidate (sx_access sx) = invalidate_credential"
  shows "logins (ws_db st2) = logins (ws_db st)"
proof -
  have l: "logins db' = logins db" if "list_for_user (sx_access sx) uid t db = (its, t', db')" for uid t its t' db db'
    using that logins_list_connections [OF assms(2)] by (simp add: list_for_user_def)
  have p: "logins (fold (persist_snapshot uid sc s e) ms db) = logins db" for uid sc s e ms db
    by (induction ms arbitrary: db) (simp_all add: persist_snapshot_def logins_def)
  show ?thesis
  proof (cases g)
    case Dashboard_Page
    obtain its t' db1 where a: "list_for_user (sx_access sx) (ar_id u) (ws_tick st) (ws_db st) = (its, t', db1)"
      by (cases "list_for_user (sx_access sx) (ar_id u) (ws_tick st) (ws_db st)")
    from Dashboard_Page assms(1) l [OF a] p show ?thesis
      by (auto simp: content_of_def dashboard_content_def dashboard_query_def authorized_project_ids_def a persist_snapshots_def
          Let_def with_db_def split: option.splits if_splits prod.splits)
  next
    case Projects_Page
    with assms(1) l show ?thesis
      by (auto simp: content_of_def projects_content_def Let_def with_db_def split: prod.splits)
  qed (use assms(1) in \<open>auto simp: content_of_def security_content_def gitlab_content_def users_content_def
      allowlist_content_def Let_def\<close>)
qed

lemma services_invalidate: "get_services env = Inr sx \<Longrightarrow> ax_invalidate (sx_access sx) = invalidate_credential"
  by (auto simp: get_services_def split: sum.splits)

text \<open>A page that is shown: one user throughout.\<close>

lemma shown_page_cases:
  assumes "show_page pe g rq st = (Page_Shown pg, st')"
  obtains sx csrf u db1 its st2 where "get_services (pe_web pe) = Inr sx"
    "rq_jar rq (sp_csrf_cookie (au_policy (sx_auth sx))) = Some csrf" "csrf \<noteq> []"
    "speaks_for sx rq (ws_db st) u" "admin_page g \<longrightarrow> ar_role u = Admin" "touches st (with_db db1 st)"
    "content_of pe g rq sx csrf u (with_db db1 st) = (Inr its, st2)" "forms_ok csrf u (with_db db1 st) its"
    "pg_viewer pg = u" "pg_nav pg = main_items @ (if ar_role u = Admin then admin_items else [])"
    "\<exists>code. pg_items pg = post_form csrf ''/api/auth/logout'' [] [] # form_error_message code @ its"
    "logins (ws_db st2) = logins db1" "t_users (ws_db st') = t_users (ws_db st)"
proof -
  obtain path code where "show_page pe g rq =
      framed_page (pe_web pe) rq (admin_page g) path (form_error_message code) (content_of pe g rq)"
    using show_page_framed by blast
  with assms have f: "framed_page (pe_web pe) rq (admin_page g) path (form_error_message code) (content_of pe g rq) st =
      (Page_Shown pg, st')" by simp
  then show thesis
  proof (cases rule: framed_page_cases)
    case (shown sx csrf u db1 its st2)
    have lg: "logins (ws_db st2) = logins db1"
      using content_logins [OF shown(9) services_invalidate [OF shown(1)]] by simp
    obtain v sid db3 where v: "require_user (pe_web pe) (later 1 (sx_auth sx)) rq (ws_db st2) = (Inr (v, sid), db3)"
      and st': "st' = with_db db3 st2"
      and pg: "pg = \<lparr>pg_active = path, pg_nav = main_items @ (if ar_role v = Admin then admin_items else []),
         pg_viewer = v, pg_items = post_form csrf ''/api/auth/logout'' [] [] # form_error_message code @ its\<rparr>"
      using shown(10) by (auto simp: app_shell_def split: prod.splits sum.splits)
    have "v = u" using require_user_cookie(1) [OF v] cookie_user_logins [OF lg] shown(7) by simp
    moreover have "t_users (ws_db st') = t_users (ws_db st)"
      using require_user_cookie(3) [OF v] lg shown(8) by (simp add: st' logins_def)
    ultimately show thesis
      using that [OF shown(1-6,9) content_forms [OF shown(9)] _ _ _ lg] by (auto simp: pg)
  qed auto
qed

section \<open>What is guaranteed of a page\<close>

text \<open>C34. A page is shown only to the user of a live session, an administrator where the page is one of
  administration; it is framed for that same user, whose links lead to the pages of administration
  exactly if it is an administrator; and showing it changes no user.\<close>

theorem page_needs_session:
  assumes "show_page pe g rq st = (Page_Shown pg, st')"
  shows "\<exists>sx. get_services (pe_web pe) = Inr sx \<and> speaks_for sx rq (ws_db st) (pg_viewer pg) \<and>
    (admin_page g \<longrightarrow> ar_role (pg_viewer pg) = Admin) \<and>
    (if ar_role (pg_viewer pg) = Admin then set admin_items \<subseteq> set (pg_nav pg)
     else set admin_items \<inter> set (pg_nav pg) = {}) \<and>
    t_users (ws_db st') = t_users (ws_db st)"
  using assms
proof (cases rule: shown_page_cases)
  case (1 sx csrf u db1 its st2)
  then show ?thesis by (auto simp: admin_items_def main_items_def)
qed

lemma form_ok_sent:
  assumes "form_ok csrf f" and "\<forall>(k, v) \<in> set (pf_fixed f). form k = Some v"
  shows "form ''csrf'' = Some csrf \<and> (\<exists>p. post_at (pf_action f) = Some p \<and>
    (takes_action p \<longrightarrow> \<not> answered_unknown env js (action_of p env sx js form u st)))"
proof -
  obtain p where p: "post_at (pf_action f) = Some p"
    "takes_action p \<Longrightarrow> \<exists>a \<in> set (known_actions p). form ''action'' = Some a"
    using assms by (fastforce simp: form_ok_def)
  moreover have "\<not> answered_unknown env js (action_of p env sx js form u st)" if "takes_action p"
    using p(2) [OF that] known_actions_run [OF that] by blast
  ultimately show ?thesis using assms by (fastforce simp: form_ok_def)
qed

lemma touches_sessions:
  assumes "touches st (with_db db1 st)"
  shows "\<exists>ss. db1 = (ws_db st)\<lparr>t_sessions := ss\<rparr>"
proof -
  from assms obtain ss where "with_db db1 st = with_db ((ws_db st)\<lparr>t_sessions := ss\<rparr>) st" by (auto simp: touches_def)
  then have "ws_db (with_db db1 st) = ws_db (with_db ((ws_db st)\<lparr>t_sessions := ss\<rparr>) st)" by (rule arg_cong)
  then show ?thesis by auto
qed

lemma same_origin_accepted:
  assumes "app_origin (we_process env) = Inr base" and "trimmed_header (rq_header rq ''origin'') = Some base"
    and "read_cookie (header_text rq ''cookie'') (sp_csrf_cookie p) = Inr (Some t)" and "t \<noteq> []"
  shows "check_mutation env p rq (Some t) = Inr ()"
  using assms by (simp add: check_mutation_def allowed_origins_def assert_origin_def Let_def assert_csrf_def csrf_tokens_equal_iff)

text \<open>C35. Every form of a page that is shown, sent back from it while the CSRF cookie is the same, passes the origin and
  token checks of the route at its address and asks for an action that the route does not answer as
  unknown; and it concerns what its action is meant for: an alias or a live connection of the viewer, an
  active user, and for a deactivation one that is not the viewer.\<close>

theorem page_forms_accepted:
  assumes "show_page pe g rq st = (Page_Shown pg, st')" and "get_services (pe_web pe) = Inr sx"
    and "f \<in> page_forms pg"
    and "app_origin (we_process (pe_web pe)) = Inr base" and "trimmed_header (rq_header rq2 ''origin'') = Some base"
    and "read_cookie (header_text rq2 ''cookie'') (sp_csrf_cookie (au_policy (sx_auth sx))) =
      Inr (rq_jar rq (sp_csrf_cookie (au_policy (sx_auth sx))))"
    and "\<forall>(k, v) \<in> set (pf_fixed f). form k = Some v"
  shows "check_mutation (pe_web pe) (au_policy (sx_auth sx)) rq2 (submitted_token form rq2) = Inr () \<and>
    (\<exists>p. post_at (pf_action f) = Some p \<and>
      (takes_action p \<longrightarrow> \<not> answered_unknown (pe_web pe) js (action_of p (pe_web pe) sx2 js form u2 st2))) \<and>
    form_for (ws_db st) (pg_viewer pg) f"
  using assms(1)
proof (cases rule: shown_page_cases)
  case (1 sx' csrf u db1 its st1)
  have sx: "sx' = sx" using 1(1) assms(2) by simp
  have l: "form_ok csrf g \<and> form_for db g' g" if "Form g \<in> set [post_form csrf ''/api/auth/logout'' [] []]" for g db g'
    using that by (simp add: post_form_def form_simps)
  have m: "Form g \<notin> set (form_error_message code)" for g code
    by (simp add: form_error_message_def split: option.split)
  have "form_ok csrf f \<and> form_for db1 u f"
    using 1(8,11) l m assms(3) by (auto simp: page_forms_def forms_all_def)
  moreover have "form_for db1 u f = form_for (ws_db st) u f"
    using touches_sessions [OF 1(6)] by (auto simp: form_for_def)
  ultimately have f: "form_ok csrf f" "form_for (ws_db st) (pg_viewer pg) f" using 1(9) by simp_all
  from form_ok_sent [OF f(1) assms(7)] have "form ''csrf'' = Some csrf" by blast
  then have "check_mutation (pe_web pe) (au_policy (sx_auth sx)) rq2 (submitted_token form rq2) = Inr ()"
    using same_origin_accepted [OF assms(4,5)] assms(6) 1(2,3) by (simp add: sx submitted_token_def opt_or_def)
  with f(2) form_ok_sent [OF f(1) assms(7)] show ?thesis by blast
qed

section \<open>The filter of the dashboard\<close>

definition day_floor :: "instant \<Rightarrow> instant" where
  "day_floor t = t div day_ms * day_ms"

text \<open>C36. The filter form shows the window as days, from that of its start to that of its last instant. Sent back as it
  was shown, it asks for the window from the beginning of the first of these days to the beginning of
  the last one, so that the commits and merge requests of the last day shown are no longer in it. The
  hypotheses say that a date as the form shows it is read as midnight UTC.\<close>

theorem dashboard_filter_loses_day:
  assumes "parse_date_param pe (Some (to_input_date pe start)) = Some (day_floor start)"
    and "parse_date_param pe (Some (to_input_date pe (stop - 1))) = Some (day_floor (stop - 1))"
    and "dashboard_window (filters_of pe (map_of (filter_inputs pe author start stop))) now = (start2, stop2)"
  shows "stop2 < stop \<and> stop \<le> stop2 + day_ms \<and> start2 \<le> start \<and>
    window_commits ps start2 stop2 want db =
      filter (\<lambda>c. cc_authored_at c < day_floor (stop - 1)) (window_commits ps (day_floor start) stop want db) \<and>
    window_mrs ps start2 stop2 want db =
      filter (\<lambda>m. mr_updated_at m < day_floor (stop - 1)) (window_mrs ps (day_floor start) stop want db)"
proof -
  have "day_floor t \<le> t" "t < day_floor t + day_ms" for t
    using pos_mod_bound [of day_ms t] pos_mod_sign [of day_ms t] div_mult_mod_eq [of t day_ms]
    by (simp_all add: day_floor_def day_ms_def)
  from this(1) [of start] this(1) [of "stop - 1"] this(2) [of "stop - 1"]
  have b: "day_floor start \<le> start" "day_floor (stop - 1) < stop" "stop \<le> day_floor (stop - 1) + day_ms" by simp_all
  have w: "start2 = day_floor start" "stop2 = day_floor (stop - 1)"
    using assms by (auto simp: dashboard_window_def filters_of_def filter_inputs_def split: prod.splits)
  have "window_commits ps start2 stop2 want db =
      filter (\<lambda>c. cc_authored_at c < day_floor (stop - 1)) (window_commits ps (day_floor start) stop want db)"
    "window_mrs ps start2 stop2 want db =
      filter (\<lambda>m. mr_updated_at m < day_floor (stop - 1)) (window_mrs ps (day_floor start) stop want db)"
    unfolding w window_commits_def window_mrs_def filter_filter using b by (auto intro!: filter_cong)
  with b w show ?thesis by simp
qed

section \<open>At concrete requests\<close>

definition sample_pages :: page_env where
  "sample_pages = \<lparr>pe_web = sample_web_env\<lparr>we_iso := (\<lambda>t. if t < day_ms then ''1970-01-01T'' else ''1970-01-02T'')\<rparr>,
     pe_format = (\<lambda>_. []),
     pe_date = (\<lambda>s. if s = ''1970-01-01'' then Some 0 else if s = ''1970-01-02'' then Some day_ms else None)\<rparr>"

definition sample_visit :: web_request where
  "sample_visit = (sample_request ''z'')\<lparr>rq_jar := [''rp_session'' \<mapsto> ''x'', ''rp_csrf'' \<mapsto> ''z''], rq_param := Map.empty\<rparr>"

lemma sample_page_services: "get_services (pe_web sample_pages) = Inr sample_sx"
proof -
  have "get_services (env\<lparr>we_iso := f\<rparr>) = get_services env" for env f
    by (simp add: get_services_def split: sum.split)
  with sample_services show ?thesis by (simp add: sample_pages_def)
qed

text \<open>The administrator looks at the users.\<close>

lemma sample_page_user:
  "require_user (pe_web sample_pages) (sx_auth sample_sx) sample_visit (ws_db sample_web_state) =
     (Inr (auth_user_of sample_admin, ''s0''), ws_db sample_web_state)"
  "require_user (pe_web sample_pages) (later (Suc 0) (sx_auth sample_sx)) sample_visit (ws_db sample_web_state) =
     (Inr (auth_user_of sample_admin, ''s0''), ws_db sample_web_state)"
proof -
  let ?a = "sx_auth sample_sx"
  have t: "read_session_token (au_policy ?a) sample_visit = Some ''x''"
    by (simp add: read_session_token_def sample_visit_def sample_sx_def sample_policy_web_def sample_policy_def)
  have "fst (validate_token a (Some ''x'') (ws_db sample_web_state)) = Inr \<lparr>vs_id = ''s0'', vs_user_id = ''a1'',
      vs_expires = 43200000, vs_last_seen = 0, vs_created = 0, vs_user = auth_user_of sample_admin, vs_touched = False\<rparr> \<and>
      snd (validate_token a (Some ''x'') (ws_db sample_web_state)) = ws_db sample_web_state"
    if "a = ?a \<or> a = later (Suc 0) ?a" for a
    using that
    by (elim disjE) (simp_all add: validate_token_def Let_def later_def sample_sx_def sample_web_auth_def sample_auth_def
        sample_policy_web_def sample_policy_def sample_web_state_def sample_session_def find_user_def sample_admin_def
        sample_login_user_def)
  then have "validate_token ?a (Some ''x'') (ws_db sample_web_state) = (Inr \<lparr>vs_id = ''s0'', vs_user_id = ''a1'',
      vs_expires = 43200000, vs_last_seen = 0, vs_created = 0, vs_user = auth_user_of sample_admin, vs_touched = False\<rparr>,
      ws_db sample_web_state)"
    "validate_token (later (Suc 0) ?a) (Some ''x'') (ws_db sample_web_state) = (Inr \<lparr>vs_id = ''s0'', vs_user_id = ''a1'',
      vs_expires = 43200000, vs_last_seen = 0, vs_created = 0, vs_user = auth_user_of sample_admin, vs_touched = False\<rparr>,
      ws_db sample_web_state)"
    by (simp_all add: prod_eq_iff)
  then show "require_user (pe_web sample_pages) ?a sample_visit (ws_db sample_web_state) =
     (Inr (auth_user_of sample_admin, ''s0''), ws_db sample_web_state)"
    "require_user (pe_web sample_pages) (later (Suc 0) ?a) sample_visit (ws_db sample_web_state) =
     (Inr (auth_user_of sample_admin, ''s0''), ws_db sample_web_state)"
    using t by (simp_all add: require_user_def) (simp_all add: later_def)
qed

lemma sample_users_page:
  "\<exists>pg. show_page sample_pages Users_Page sample_visit sample_web_state = (Page_Shown pg, sample_web_state) \<and>
     \<lparr>pf_action = ''/api/admin/users'', pf_fixed = [(''csrf'', ''z''), (''action'', ''deactivate''), (''userId'', ''u1'')],
       pf_inputs = [], pf_enabled = True\<rparr> \<in> page_forms pg"
proof -
  have c: "rq_jar sample_visit (sp_csrf_cookie (au_policy (sx_auth sample_sx))) = Some ''z''"
    by (simp add: sample_visit_def sample_sx_def sample_policy_web_def sample_policy_def)
  have a: "require_admin (pe_web sample_pages) (sx_auth sample_sx) sample_visit (ws_db sample_web_state) =
      (Inr (auth_user_of sample_admin, ''s0''), ws_db sample_web_state)"
    by (simp add: require_admin_def sample_page_user) (simp add: auth_user_of_def sample_admin_def)
  have "sort_key u_created_at (t_users (ws_db sample_web_state)) = [sample_admin, sample_login_user]"
    by (simp add: sample_web_state_def sample_admin_def sample_login_user_def)
  then show ?thesis
    by (simp add: show_page_def users_page_def framed_page_def sample_page_services Let_def c a users_content_def list_users_def
        app_shell_def sample_page_user page_forms_def)
      (simp add: auth_user_of_def sample_admin_def sample_login_user_def user_items_def post_form_def)
qed

theorem page_needs_session_witness:
  "\<exists>pg. show_page sample_pages Users_Page sample_visit sample_web_state = (Page_Shown pg, sample_web_state) \<and>
     ar_role (pg_viewer pg) = Admin"
proof -
  obtain pg where p: "show_page sample_pages Users_Page sample_visit sample_web_state = (Page_Shown pg, sample_web_state)"
    using sample_users_page by blast
  with page_needs_session [OF p] show ?thesis by (auto simp: admin_page_def)
qed

theorem page_forms_accepted_witness:
  "check_mutation (pe_web sample_pages) (au_policy (sx_auth sample_sx)) (sample_request ''y'')
     (submitted_token [''csrf'' \<mapsto> ''z'', ''action'' \<mapsto> ''deactivate'', ''userId'' \<mapsto> ''u1''] (sample_request ''y'')) = Inr ()"
proof -
  obtain pg f where p: "show_page sample_pages Users_Page sample_visit sample_web_state = (Page_Shown pg, sample_web_state)"
    and f: "f \<in> page_forms pg" "pf_fixed f = [(''csrf'', ''z''), (''action'', ''deactivate''), (''userId'', ''u1'')]"
    using sample_users_page by force
  have b: "app_origin (we_process (pe_web sample_pages)) = Inr ''h:a''"
    by (simp add: sample_pages_def app_origin_def sample_web_env_def sample_process_def js_trim_def js_trim_start_def is_js_space_def
        strip_slash_def)
  have o': "trimmed_header (rq_header (sample_request ''y'') ''origin'') = Some ''h:a''"
    by (simp add: sample_request_def trimmed_header_def js_trim_def js_trim_start_def is_js_space_def)
  have c: "read_cookie (header_text (sample_request ''y'') ''cookie'') (sp_csrf_cookie (au_policy (sx_auth sample_sx))) =
      Inr (rq_jar sample_visit (sp_csrf_cookie (au_policy (sx_auth sample_sx))))"
    by (simp add: sample_request_def header_text_def sample_visit_def sample_sx_def sample_policy_web_def sample_policy_def
        read_cookie_def js_trim_def js_trim_start_def is_js_space_def decode_uri_plain)
  show ?thesis
    using page_forms_accepted [OF p sample_page_services f(1) b o' c,
        of "[''csrf'' \<mapsto> ''z'', ''action'' \<mapsto> ''deactivate'', ''userId'' \<mapsto> ''u1'']"] by (simp add: f(2))
qed

definition day_db :: database where
  "day_db = empty_db\<lparr>t_commits := [sample_commit\<lparr>cc_authored_at := 86400005\<rparr>]\<rparr>"

theorem dashboard_filter_loses_day_witness:
  "window_commits [sample_project] 0 (2 * day_ms) None day_db = t_commits day_db \<and>
   (\<exists>start stop. dashboard_window (filters_of sample_pages (map_of (filter_inputs sample_pages None 0 (2 * day_ms)))) 0 = (start, stop) \<and>
      window_commits [sample_project] start stop None day_db = [])"
proof -
  have d: "parse_date_param sample_pages (Some (to_input_date sample_pages 0)) = Some (day_floor 0)"
    "parse_date_param sample_pages (Some (to_input_date sample_pages (2 * day_ms - 1))) = Some (day_floor (2 * day_ms - 1))"
    by (simp_all add: parse_date_param_def to_input_date_def sample_pages_def day_ms_def day_floor_def js_trim_def
        js_trim_start_def is_js_space_def)
  obtain start stop where w:
    "dashboard_window (filters_of sample_pages (map_of (filter_inputs sample_pages None 0 (2 * day_ms)))) 0 = (start, stop)"
    by fastforce
  have "window_commits [sample_project] 0 (2 * day_ms) None day_db = t_commits day_db"
    by (simp add: window_commits_def day_db_def sample_commit_def commit_project_def sample_project_def day_ms_def)
  with dashboard_filter_loses_day [OF d w, of "[sample_project]" None day_db] w show ?thesis
    by (simp add: day_floor_def day_ms_def day_db_def)
qed

end
