(* ===== verification/Worker.thy ===== *)
theory Worker
  imports Scheduler
begin

text \<open>
  The sync worker of \<open>apps/worker/src/worker-loop.ts\<close>: one iteration recovers stale claims,
  schedules due projects, claims one job, runs it while a timer renews the claim, and finishes it
  according to the outcome. The sync itself is a parameter (\<open>WorkerRuntime\<close> puts the orchestrator
  there): the outcome it returns, or that it threw, and the database it leaves. What other
  transactions do to the queue during the run, and the instants of the heartbeats, are the list of
  events of the run; they concern the job rows alone, which the sync does not touch.
\<close>

section \<open>Outcomes and results\<close>

datatype sync_outcome =
    Outcome_Completed nat nat
  | Outcome_Paused nat nat string
  | Outcome_Blocked

datatype exec_result = Returned sync_outcome | Threw

datatype iteration_result =
    Idle
  | Iter_Completed string
  | Iter_Paused string
  | Iter_Blocked string
  | Iter_Lost_Claim string
  | Iter_Retry string instant
  | Iter_Failed string

datatype worker_error = Queue_Error queue_error | Bad_Attempt | Bad_Heartbeat_Interval

definition max_job_attempts :: nat where
  "max_job_attempts = max_sync_job_attempts"

definition initial_retry_delay_ms :: int where
  "initial_retry_delay_ms = 30000"

definition max_retry_delay_ms :: int where
  "max_retry_delay_ms = 15 * 60000"

definition retry_delay_ms :: "int \<Rightarrow> worker_error + int" where
  "retry_delay_ms attempt =
     (if attempt \<le> 0 \<or> max_safe_integer < attempt then Inl Bad_Attempt
      else Inr (min max_retry_delay_ms (initial_retry_delay_ms * 2 ^ nat (attempt - 1))))"

section \<open>Audit\<close>

text \<open>Object spread \<open>{...base, ...more}\<close>: a repeated key keeps its place and takes the later value.\<close>

definition spread :: "('k \<times> 'v) list \<Rightarrow> ('k \<times> 'v) list \<Rightarrow> ('k \<times> 'v) list" where
  "spread base extra = fold (\<lambda>(k, v). AList.update k v) extra base"

text \<open>\<open>PrismaWorkerAudit.write\<close> of \<open>apps/worker/src/runtime.ts\<close>: the audit row of a job event.\<close>

definition worker_audit_row :: "string \<Rightarrow> sync_job \<Rightarrow> (string \<times> json) list \<Rightarrow> audit_row" where
  "worker_audit_row action job metadata =
     \<lparr>au_actor = None, au_action = action,
      au_meta = JObj (spread [(''jobId'', JStr (sj_id job)), (''jobType'', JStr project_sync_job_type),
        (''gitlabInstanceId'', JStr (sj_instance job)),
        (''gitlabProjectId'', JStr (sj_project job)),
        (''attempts'', JNum (of_nat (sj_attempts job)))] metadata)\<rparr>"

text \<open>\<open>safeAudit\<close>: a failed write is swallowed.\<close>

definition safe_audit ::
    "bool \<Rightarrow> string \<Rightarrow> sync_job \<Rightarrow> (string \<times> json) list \<Rightarrow> database \<Rightarrow> database" where
  "safe_audit audit_ok action job metadata db =
     (if audit_ok then db\<lparr>t_audit := t_audit db @ [worker_audit_row action job metadata]\<rparr> else db)"

section \<open>Heartbeats during the run\<close>

datatype exec_event =
    Others "job_row list \<Rightarrow> job_row list"
  | Beat instant
  | Beat_Error

text \<open>A beat that finds the claim gone, or that fails, marks the lease as lost for good.\<close>

fun run_events ::
    "string \<Rightarrow> string \<Rightarrow> exec_event list \<Rightarrow> bool \<times> job_row list \<Rightarrow> bool \<times> job_row list" where
  "run_events jid w [] s = s"
| "run_events jid w (Others f # es) (lost, jobs) = run_events jid w es (lost, f jobs)"
| "run_events jid w (Beat t # es) (lost, jobs) =
     (let (kept, jobs') = heartbeat t jid w jobs in run_events jid w es (lost \<or> \<not> kept, jobs'))"
| "run_events jid w (Beat_Error # es) (lost, jobs) = run_events jid w es (True, jobs)"

section \<open>Finishing a job\<close>

definition with_jobs :: "database \<Rightarrow> bool \<times> job_row list \<Rightarrow> bool \<times> database" where
  "with_jobs db r = (fst r, db\<lparr>t_jobs := snd r\<rparr>)"

definition finish_returned ::
    "instant \<Rightarrow> string \<Rightarrow> bool \<Rightarrow> sync_job \<Rightarrow> sync_outcome \<Rightarrow> database
       \<Rightarrow> iteration_result \<times> database" where
  "finish_returned now w audit_ok job outcome db =
     (let jid = sj_id job in
      case outcome of
        Outcome_Blocked \<Rightarrow>
          (let (changed, db') = with_jobs db (sync_blocked now jid w [] (t_jobs db)) in
           if \<not> changed then (Iter_Lost_Claim jid, db')
           else (Iter_Blocked jid, safe_audit audit_ok ''sync_blocked'' job [] db'))
      | Outcome_Paused commits mrs next_branch \<Rightarrow>
          (let (changed, db') = with_jobs db (reschedule now jid w now (t_jobs db)) in
           if \<not> changed then (Iter_Lost_Claim jid, db')
           else (Iter_Paused jid,
             safe_audit audit_ok ''sync_paused'' job [(''nextBranch'', JStr next_branch)] db'))
      | Outcome_Completed commits mrs \<Rightarrow>
          (let (changed, db') = with_jobs db (complete now jid w (t_jobs db)) in
           if \<not> changed then (Iter_Lost_Claim jid, db')
           else (Iter_Completed jid,
             safe_audit audit_ok ''sync_completed'' job
               [(''commitsUpserted'', JNum (of_nat commits)),
                (''mergeRequestsUpserted'', JNum (of_nat mrs))] db')))"

definition finish_threw ::
    "instant \<Rightarrow> string \<Rightarrow> bool \<Rightarrow> sync_job \<Rightarrow> database
       \<Rightarrow> (worker_error + iteration_result) \<times> database" where
  "finish_threw now w audit_ok job db =
     (let jid = sj_id job; err = ''Job execution failed'' in
      if max_job_attempts \<le> sj_attempts job then
        (let (changed, db') = with_jobs db (fail now jid w err None (t_jobs db)) in
         if \<not> changed then (Inr (Iter_Lost_Claim jid), db')
         else (Inr (Iter_Failed jid),
           safe_audit audit_ok ''sync_failed'' job
             [(''attempts'', JNum (of_nat (sj_attempts job)))] db'))
      else case retry_delay_ms (int (sj_attempts job)) of
        Inl e \<Rightarrow> (Inl e, db)
      | Inr delay \<Rightarrow>
          (let retry_at = now + delay;
               (changed, db') = with_jobs db (fail now jid w err (Some retry_at) (t_jobs db)) in
           if \<not> changed then (Inr (Iter_Lost_Claim jid), db')
           else (Inr (Iter_Retry jid retry_at),
             safe_audit audit_ok ''sync_retry_scheduled'' job
               [(''attempts'', JNum (of_nat (sj_attempts job))),
                (''retryAtEpochMs'', JNum (of_int retry_at))] db')))"

definition worker_finish ::
    "instant \<Rightarrow> string \<Rightarrow> bool \<Rightarrow> sync_job \<Rightarrow> exec_result \<Rightarrow> bool \<Rightarrow> database
       \<Rightarrow> (worker_error + iteration_result) \<times> database" where
  "worker_finish now w audit_ok job result lease_lost db =
     (if lease_lost then (Inr (Iter_Lost_Claim (sj_id job)), db)
      else case result of
        Returned outcome \<Rightarrow>
          (let (r, db') = finish_returned now w audit_ok job outcome db in (Inr r, db'))
      | Threw \<Rightarrow> finish_threw now w audit_ok job db)"

section \<open>One iteration\<close>

definition worker_begin ::
    "(string list \<Rightarrow> string) \<Rightarrow> int \<Rightarrow> int \<Rightarrow> instant \<Rightarrow> string set \<Rightarrow> string \<Rightarrow> database
       \<Rightarrow> (queue_error + sync_job option) \<times> database" where
  "worker_begin new_id stale interval now locked w db =
     (let db1 = db\<lparr>t_jobs := snd (recover_stale_claims now stale (t_jobs db))\<rparr>;
          db2 = snd (schedule new_id interval now db1);
          (r, jobs) = claim now locked w (t_jobs db2)
      in (r, db2\<lparr>t_jobs := jobs\<rparr>))"

definition run_worker_iteration ::
    "(string list \<Rightarrow> string) \<Rightarrow> int \<Rightarrow> int \<Rightarrow> int \<Rightarrow> instant \<Rightarrow> string set \<Rightarrow> string \<Rightarrow> bool
       \<Rightarrow> (sync_job \<Rightarrow> exec_event list) \<Rightarrow> (sync_job \<Rightarrow> database \<Rightarrow> exec_result \<times> database)
       \<Rightarrow> instant \<Rightarrow> database \<Rightarrow> (worker_error + iteration_result) \<times> database" where
  "run_worker_iteration new_id stale interval beat_ms now locked w audit_ok events execute end_now db =
     (if beat_ms \<le> 0 \<or> max_safe_integer < beat_ms then (Inl Bad_Heartbeat_Interval, db)
      else case worker_begin new_id stale interval now locked w db of
        (Inl e, db1) \<Rightarrow> (Inl (Queue_Error e), db1)
      | (Inr None, db1) \<Rightarrow> (Inr Idle, db1)
      | (Inr (Some job), db1) \<Rightarrow>
          (let db2 = safe_audit audit_ok ''sync_started'' job [] db1;
               (result, db3) = execute job db2;
               (lost, jobs) = run_events (sj_id job) w (events job) (False, t_jobs db3)
           in worker_finish end_now w audit_ok job result lost (db3\<lparr>t_jobs := jobs\<rparr>)))"

section \<open>Lemmas\<close>

lemma t_jobs_safe_audit [simp]: "t_jobs (safe_audit ok a job m db) = t_jobs db"
  by (simp add: safe_audit_def)

lemma with_jobs_simps [simp]:
  "fst (with_jobs db r) = fst r" "t_jobs (snd (with_jobs db r)) = snd r"
  by (simp_all add: with_jobs_def)

lemma jobs_ok_worker_begin:
  assumes "fresh_ids new_id" and "jobs_ok (t_jobs db)"
  shows "jobs_ok (t_jobs (snd (worker_begin new_id stale interval now locked w db)))"
proof -
  let ?db1 = "db\<lparr>t_jobs := snd (recover_stale_claims now stale (t_jobs db))\<rparr>"
  have "jobs_ok (t_jobs ?db1)" using assms(2) by (simp add: jobs_ok_recover)
  then have "jobs_ok (t_jobs (snd (schedule new_id interval now ?db1)))"
    using assms(1) by (rule jobs_ok_schedule [rotated])
  then show ?thesis
    by (simp add: worker_begin_def Let_def jobs_ok_claim split: prod.split)
      (metis jobs_ok_claim snd_conv)
qed

lemma retry_delay_value:
  assumes "1 \<le> a" "a < max_job_attempts"
  shows "retry_delay_ms (int a) = Inr (30000 * 2 ^ (a - 1))"
proof -
  from assms consider "a = 1" | "a = 2" | "a = 3" | "a = 4"
    unfolding max_job_attempts_def max_sync_job_attempts_def by linarith
  then show ?thesis
    by cases (simp_all add: retry_delay_ms_def max_safe_integer_def max_retry_delay_ms_def
        initial_retry_delay_ms_def)
qed

text \<open>The row a finished job ends in, given that the worker still holds the claim on row \<open>j\<close>.\<close>

fun finished_row :: "instant \<Rightarrow> sync_job \<Rightarrow> exec_result \<Rightarrow> job_row \<Rightarrow> job_row" where
  "finished_row now job (Returned (Outcome_Completed c m)) = complete_row now"
| "finished_row now job (Returned (Outcome_Paused c m b)) = reschedule_row now now"
| "finished_row now job (Returned Outcome_Blocked) = blocked_row now ''Project sync blocked''"
| "finished_row now job Threw =
     fail_row now ''Job execution failed''
       (if max_job_attempts \<le> sj_attempts job then None
        else Some (now + 30000 * 2 ^ (sj_attempts job - 1)))"

fun finished_result :: "instant \<Rightarrow> sync_job \<Rightarrow> exec_result \<Rightarrow> iteration_result" where
  "finished_result now job (Returned (Outcome_Completed c m)) = Iter_Completed (sj_id job)"
| "finished_result now job (Returned (Outcome_Paused c m b)) = Iter_Paused (sj_id job)"
| "finished_result now job (Returned Outcome_Blocked) = Iter_Blocked (sj_id job)"
| "finished_result now job Threw =
     (if max_job_attempts \<le> sj_attempts job then Iter_Failed (sj_id job)
      else Iter_Retry (sj_id job) (now + 30000 * 2 ^ (sj_attempts job - 1)))"

lemma sanitize_values:
  "sanitize_job_error e Cat_Failed = ''Job execution failed''"
  "sanitize_job_error e Cat_Blocked = ''Project sync blocked''"
  by (simp_all add: sanitize_job_error_def max_safe_job_error_length_def)

text \<open>The queue operation each outcome comes down to.\<close>

fun finish_op :: "instant \<Rightarrow> string \<Rightarrow> sync_job \<Rightarrow> exec_result \<Rightarrow> job_row list \<Rightarrow> bool \<times> job_row list" where
  "finish_op now w job (Returned (Outcome_Completed c m)) = complete now (sj_id job) w"
| "finish_op now w job (Returned (Outcome_Paused c m b)) = reschedule now (sj_id job) w now"
| "finish_op now w job (Returned Outcome_Blocked) = sync_blocked now (sj_id job) w []"
| "finish_op now w job Threw =
     fail now (sj_id job) w ''Job execution failed''
       (if max_job_attempts \<le> sj_attempts job then None
        else Some (now + 30000 * 2 ^ (sj_attempts job - 1)))"

lemma worker_finish_op:
  assumes "1 \<le> sj_attempts job"
  shows "fst (worker_finish now w ok job result False db) =
      Inr (if fst (finish_op now w job result (t_jobs db)) then finished_result now job result
           else Iter_Lost_Claim (sj_id job))"
    and "t_jobs (snd (worker_finish now w ok job result False db)) =
      snd (finish_op now w job result (t_jobs db))"
  using assms
  by (cases "(now, job, result)" rule: finished_result.cases;
      auto simp: worker_finish_def finish_returned_def finish_threw_def Let_def with_jobs_def
        retry_delay_value not_le split: prod.splits)+

lemma finish_op_contract:
  "releasing_op row_of jobs_ok
     (\<lambda>jid w. finish_op now w (job\<lparr>sj_id := jid\<rparr>) result) (finished_row now job result)"
proof (cases "(now, job, result)" rule: finished_result.cases)
  case (1 now job c m)
  then show ?thesis using complete_q.releasing_op_axioms [of now] by simp
next
  case (2 now job c m b)
  then show ?thesis using reschedule_q.releasing_op_axioms [of now now] by simp
next
  case (3 now job)
  then show ?thesis
    using blocked_q.releasing_op_axioms [of now "[]"] by (simp add: sanitize_values)
next
  case (4 now job)
  then show ?thesis
    using fail_q.releasing_op_axioms [of now "''Job execution failed''"]
    by (simp add: sanitize_values)
qed

interpretation finish_q: releasing_op row_of jobs_ok
    "\<lambda>jid w. finish_op now w (job\<lparr>sj_id := jid\<rparr>) result" "finished_row now job result"
  for now job result
  by (rule finish_op_contract)

lemma sj_id_self: "job\<lparr>sj_id := sj_id job\<rparr> = job"
  by simp

lemmas finish_accepted = finish_q.accepted_row [where jid = "sj_id job" and job = job for job,
    unfolded sj_id_self]
lemmas finish_refused = finish_q.refused_no_effect [where jid = "sj_id job" and job = job for job,
    unfolded sj_id_self]
lemmas finish_result = finish_q.oper_result [where jid = "sj_id job" and job = job for job,
    unfolded sj_id_self]
lemmas finish_invar = finish_q.oper_invar [where jid = "sj_id job" and job = job for job,
    unfolded sj_id_self]


section \<open>Jobs whose sync keeps failing\<close>

text \<open>A worker polls at the given instants and every sync it runs throws. The number of claims
  made is counted.\<close>

fun failing_iterations :: "instant list \<Rightarrow> string \<Rightarrow> database \<Rightarrow> nat \<times> database" where
  "failing_iterations [] w db = (0, db)"
| "failing_iterations (t # ts) w db =
     (case claim t {} w (t_jobs db) of
        (Inr (Some job), js) \<Rightarrow>
          (let (k, db') = failing_iterations ts w
             (snd (worker_finish t w True job Threw False (db\<lparr>t_jobs := js\<rparr>))) in (Suc k, db'))
      | _ \<Rightarrow> failing_iterations ts w db)"

definition attempts_left :: "job_row \<Rightarrow> nat" where
  "attempts_left j = (if j_status j = Pending then max_job_attempts - j_attempts j else 0)"

definition attempt_budget :: "job_row list \<Rightarrow> nat" where
  "attempt_budget js = sum_list (map attempts_left js)"

lemma sum_upd_one:
  assumes "distinct (map j_id js)" "j \<in> set js"
  shows "sum_list (map g (upd_where (\<lambda>k. j_id k = j_id j) f js)) + g j =
    sum_list (map g js) + (g (f j) :: nat)"
  using assms
proof (induction js)
  case (Cons k js)
  show ?case
  proof (cases "k = j")
    case True
    with Cons.prems have "upd_where (\<lambda>k. j_id k = j_id j) f js = js"
      by (intro upd_where_none) (auto simp: image_iff)
    with True show ?thesis by simp
  next
    case False
    with Cons.prems have "j \<in> set js" "j_id k \<noteq> j_id j" by auto
    with Cons show ?thesis by simp
  qed
qed simp

lemma own_after_claim:
  "upd_where (owned i w) f (upd_where (\<lambda>k. j_id k = i) (claim_row t w) js) =
     upd_where (\<lambda>k. j_id k = i) (f \<circ> claim_row t w) js"
  by (induction js) (auto simp: owned_def claim_row_def)

lemma threw_row:
  assumes "j_status j = Pending" "j_attempts j < max_job_attempts" "sj_attempts job = j_attempts j + 1"
  shows "attempts_left (finished_row t job Threw (claim_row t w j)) = attempts_left j - 1"
  using assms by (simp add: attempts_left_def fail_row_def claim_row_def max_job_attempts_def)

lemma failing_iteration_step:
  assumes ok: "jobs_ok (t_jobs db)" and c: "claim t {} w (t_jobs db) = (Inr (Some job), js)"
  defines "db' \<equiv> snd (worker_finish t w True job Threw False (db\<lparr>t_jobs := js\<rparr>))"
  shows "jobs_ok (t_jobs db') \<and> Suc (attempt_budget (t_jobs db')) = attempt_budget (t_jobs db)"
proof -
  have w: "js_trim w \<noteq> []" using c by (auto simp: claim_def)
  have ok1: "jobs_ok js" using jobs_ok_claim [OF ok, of t "{}" w] c by simp
  obtain j where j: "earliest t {} (t_jobs db) j" "to_sync_job (claim_row t w j) = Inr job"
    "js = upd_where (\<lambda>k. j_id k = j_id j) (claim_row t w) (t_jobs db)"
    by (rule claim_cases [OF ok w, of t "{}"]) (use c in auto)
  have job: "sj_id job = j_id j" "sj_attempts job = j_attempts j + 1"
    using to_sync_job_Inr [OF j(2)] by (simp_all add: claim_row_def)
  have st: "j_status j = Pending" "j_attempts j < max_job_attempts" "j \<in> set (t_jobs db)"
    using j(1) by (simp_all add: earliest_def claimable_def max_job_attempts_def)
  have jobs: "t_jobs db' = snd (finish_op t w job Threw js)"
    unfolding db'_def using worker_finish_op(2) [of job t w True Threw "db\<lparr>t_jobs := js\<rparr>"] job
    by simp
  have ok': "jobs_ok (t_jobs db')" unfolding jobs by (rule finish_invar [OF ok1])
  from jobs have "t_jobs db' = upd_where (\<lambda>k. j_id k = j_id j)
      (finished_row t job Threw \<circ> claim_row t w) (t_jobs db)"
    by (simp add: fail_def own_update_def sanitize_values j(3) job(1) own_after_claim)
  then have "attempt_budget (t_jobs db') + attempts_left j =
      attempt_budget (t_jobs db) + attempts_left (finished_row t job Threw (claim_row t w j))"
    using sum_upd_one [of "t_jobs db" j attempts_left "finished_row t job Threw \<circ> claim_row t w"]
      ok st(3) by (simp add: attempt_budget_def jobs_ok_def)
  then have "Suc (attempt_budget (t_jobs db')) = attempt_budget (t_jobs db)"
    using threw_row [OF st(1,2) job(2), of t w] st(1,2) by (simp add: attempts_left_def)
  with ok' show ?thesis by blast
qed

lemma failing_iterations_budget:
  "jobs_ok (t_jobs db) \<Longrightarrow>
     fst (failing_iterations ts w db) + attempt_budget (t_jobs (snd (failing_iterations ts w db))) =
       attempt_budget (t_jobs db)"
proof (induction ts arbitrary: db)
  case (Cons t ts)
  show ?case
  proof (cases "\<exists>job js. claim t {} w (t_jobs db) = (Inr (Some job), js)")
    case True
    then obtain job js where c: "claim t {} w (t_jobs db) = (Inr (Some job), js)" by blast
    from failing_iteration_step [OF Cons.prems c]
      Cons.IH [of "snd (worker_finish t w True job Threw False (db\<lparr>t_jobs := js\<rparr>))"] c
    show ?thesis by (simp split: prod.split) auto
  next
    case False
    then have "failing_iterations (t # ts) w db = failing_iterations ts w db"
      by (auto split: prod.splits sum.splits option.splits)
    with Cons show ?thesis by simp
  qed
qed simp

lemma attempt_budget_bound: "attempt_budget js \<le> max_job_attempts * length js"
  by (induction js) (auto simp: attempt_budget_def attempts_left_def)

section \<open>Properties\<close>

definition sample_job :: sync_job where
  "sample_job = \<lparr>sj_id = ''j1'', sj_instance = ''gi1'', sj_project = ''42'', sj_status = Running,
     sj_attempts = 1, sj_last_error = None, sj_run_after = 5, sj_claimed_by = Some ''w1'',
     sj_claimed_at = Some 9\<rparr>"

definition sample_running_db :: database where
  "sample_running_db = sample_db\<lparr>t_jobs := qs_jobs sample_running\<rparr>"

lemma sample_running_jobs:
  "t_jobs sample_running_db = [claim_row 9 ''w1'' (new_job ''j1'' sample_project 5 5)]"
  "jobs_ok (t_jobs sample_running_db)"
proof -
  show "t_jobs sample_running_db = [claim_row 9 ''w1'' (new_job ''j1'' sample_project 5 5)]"
    by (simp add: sample_running_db_def sample_running_def sample_claim)
  show "jobs_ok (t_jobs sample_running_db)"
    using reachable_queue_inv [OF sample_running_reachable]
    by (simp add: sample_running_db_def queue_inv_def)
qed

text \<open>C7. What a worker reports when it finishes a job is what the queue holds: it reports the
  outcome's result exactly when it still holds the claim, and then the job's row is the one that
  outcome calls for (completed, pending again without a charged attempt, blocked, failed, or
  pending at the retry instant); otherwise it reports a lost claim and no row changes.\<close>

theorem finish_reports_row:
  assumes "jobs_ok (t_jobs db)" and "1 \<le> sj_attempts job"
    and "worker_finish now w audit_ok job result False db = (res, db')"
  shows "(case row_of (t_jobs db) (sj_id job) of
      Some j \<Rightarrow> if owned (sj_id job) w j
        then res = Inr (finished_result now job result) \<and>
          row_of (t_jobs db') (sj_id job) = Some (finished_row now job result j)
        else res = Inr (Iter_Lost_Claim (sj_id job)) \<and> row_of (t_jobs db') = row_of (t_jobs db)
    | None \<Rightarrow> res = Inr (Iter_Lost_Claim (sj_id job)) \<and> row_of (t_jobs db') = row_of (t_jobs db)) \<and>
    jobs_ok (t_jobs db')"
proof -
  let ?r = "finish_op now w job result (t_jobs db)"
  have res: "res = Inr (if fst ?r then finished_result now job result
        else Iter_Lost_Claim (sj_id job))" and jobs: "t_jobs db' = snd ?r"
    using worker_finish_op [OF assms(2), of now w audit_ok result db] assms(3) by simp_all
  have held: "fst ?r \<longleftrightarrow>
      (\<exists>j. row_of (t_jobs db) (sj_id job) = Some j \<and> owned (sj_id job) w j)"
    by (rule finish_result [OF assms(1)])
  have "jobs_ok (t_jobs db')" unfolding jobs by (rule finish_invar [OF assms(1)])
  then show ?thesis
    using finish_accepted [OF assms(1), of now w job result]
      finish_refused [OF assms(1), of now w job result] held
    by (auto simp: res jobs split: option.splits)
qed

theorem finish_reports_row_witness:
  "\<exists>db'. worker_finish 20 ''w1'' True sample_job (Returned (Outcome_Completed 3 1)) False
      sample_running_db = (Inr (Iter_Completed ''j1''), db') \<and>
    map_option j_status (row_of (t_jobs db') ''j1'') = Some Completed"
proof -
  obtain res db' where eq: "worker_finish 20 ''w1'' True sample_job
      (Returned (Outcome_Completed 3 1)) False sample_running_db = (res, db')" by fastforce
  have "1 \<le> sj_attempts sample_job" by (simp add: sample_job_def)
  from finish_reports_row [OF sample_running_jobs(2) this eq] show ?thesis
    unfolding eq by (simp add: sample_running_jobs(1) sample_job_def row_of_def owned_def
        claim_row_def new_job_def complete_row_def)
qed

text \<open>A job is finished once: after a worker has finished it with any outcome, no worker, with
  any outcome, can finish it again without a new claim.\<close>

theorem finished_once:
  assumes "jobs_ok (t_jobs db)" and "1 \<le> sj_attempts job"
    and "worker_finish now w ok job result False db = (Inr res, db')"
    and "res \<noteq> Iter_Lost_Claim (sj_id job)"
  shows "fst (worker_finish now2 v ok2 job result2 lost db') = Inr (Iter_Lost_Claim (sj_id job)) \<and>
    row_of (t_jobs (snd (worker_finish now2 v ok2 job result2 lost db'))) = row_of (t_jobs db')"
proof -
  let ?r = "finish_op now w job result (t_jobs db)"
  have fin: "fst ?r" and jobs: "t_jobs db' = snd ?r"
    using worker_finish_op [OF assms(2), of now w ok result db] assms(3,4)
    by (simp_all split: if_splits)
  have inv: "jobs_ok (t_jobs db')" unfolding jobs by (rule finish_invar [OF assms(1)])
  obtain j where j: "row_of (t_jobs db') (sj_id job) = Some (finished_row now job result j)"
    using finish_accepted [OF assms(1) fin] by (auto simp: jobs)
  have "j_status (finished_row now job result j) \<noteq> Running"
    by (rule finish_q.releases)
  with j have "\<not> fst (finish_op now2 v job result2 (t_jobs db'))"
    by (simp add: finish_result [OF inv] owned_def)
  then show ?thesis
    using worker_finish_op [OF assms(2), of now2 v ok2 result2 db'] finish_refused [OF inv]
    by (cases lost) (simp_all add: worker_finish_def)
qed

theorem finished_once_witness:
  "fst (worker_finish 30 ''w1'' True sample_job Threw False
      (snd (worker_finish 20 ''w1'' True sample_job Threw False sample_running_db))) =
   Inr (Iter_Lost_Claim ''j1'')"
proof -
  have a: "1 \<le> sj_attempts sample_job" by (simp add: sample_job_def)
  have "fst (finish_op 20 ''w1'' sample_job Threw (t_jobs sample_running_db))"
    by (simp add: fail_def own_update_def sample_running_jobs(1) owned_def claim_row_def
        new_job_def count_where_def sample_job_def)
  then have "worker_finish 20 ''w1'' True sample_job Threw False sample_running_db =
      (Inr (Iter_Retry ''j1'' 30020),
       snd (worker_finish 20 ''w1'' True sample_job Threw False sample_running_db))"
    using worker_finish_op(1) [OF a, of 20 "''w1''" True Threw sample_running_db]
    by (simp add: prod_eq_iff sample_job_def max_job_attempts_def max_sync_job_attempts_def)
  from finished_once [OF sample_running_jobs(2) a this, of 30 "''w1''" True Threw False]
  show ?thesis by (simp add: sample_job_def)
qed

text \<open>C8. Retries are bounded: while every sync throws, a worker that polls at any sequence of
  instants makes exactly as many claims as the attempts it uses up, so never more than five per
  job, after which nothing is claimed any more.\<close>

theorem failing_jobs_bounded:
  assumes "jobs_ok (t_jobs db)" and "failing_iterations ts w db = (k, db')"
  shows "k + attempt_budget (t_jobs db') = attempt_budget (t_jobs db) \<and>
    k \<le> 5 * length (t_jobs db)"
  using failing_iterations_budget [OF assms(1), of ts w] attempt_budget_bound [of "t_jobs db"]
    assms(2) by (auto simp: max_job_attempts_def max_sync_job_attempts_def)

theorem failing_jobs_bounded_witness:
  "fst (failing_iterations [10, 20] ''w1'' (sample_db\<lparr>t_jobs := qs_jobs sample_queue\<rparr>)) \<le> 5"
proof -
  have "jobs_ok (t_jobs (sample_db\<lparr>t_jobs := qs_jobs sample_queue\<rparr>))"
    using reachable_queue_inv [OF sample_reachable] by (simp add: queue_inv_def)
  from failing_jobs_bounded [OF this surjective_pairing, of "[10, 20]" "''w1''"] show ?thesis
    by (simp add: sample_queue_def)
qed

end
