(* ===== verification/SyncProgress.thy ===== *)
theory SyncProgress
  imports Orchestrator
begin

text \<open>
  What the project sync guarantees: pages are drained completely, the persisted branch
  continuation never runs ahead of the cache, so a run that was paused, failed or crashed is
  resumed without losing a branch; consecutive windows leave no gap; a candidate is passed over
  exactly for the errors that concern its own access; a listing of finitely many pages ends.
\<close>

section \<open>Sinks of a page loop\<close>

lemma page_loop_cases:
  assumes "page_loop (Suc fuel) fetch put cur seen t s = (r, t', s')"
  obtains (fail) e where "fetch t cur = Inl e" "r = Inl (Sync_Gitlab e)" "s' = s"
  | (stop) p r1 where "fetch t cur = Inr p" "put_items put (items p) s = (r1, s')"
      "(\<exists>e. r = Inl e \<and> e \<noteq> Out_Of_Fuel \<or> r1 = Inl e \<and> r = r1) \<or>
       r = Inr () \<and> r1 = Inr () \<and> next_page p = None"
  | (more) p s1 c where "fetch t cur = Inr p" "put_items put (items p) s = (Inr (), s1)"
      "next_page p = Some c" "cursor_key c \<notin> set seen"
      "page_loop fuel fetch put (Some c) (cursor_key c # seen) (t + 1) s1 = (r, t', s')"
proof (cases "fetch t cur")
  case (Inl e)
  with assms fail show ?thesis by simp
next
  case (Inr p)
  obtain r1 s1 where pi: "put_items put (items p) s = (r1, s1)" by fastforce
  show ?thesis
  proof (cases r1)
    case (Inl e)
    with assms Inr pi show ?thesis by (intro stop [of p r1]) auto
  next
    case r1: (Inr u)
    show ?thesis
    proof (cases "next_page p")
      case None
      with assms Inr pi r1 show ?thesis
        by (intro stop [of p r1]) (auto simp: checked_next_cursor_def)
    next
      case (Some c)
      show ?thesis
      proof (cases "cursor_key c \<in> set seen")
        case True
        with assms Inr pi r1 Some show ?thesis
          by (intro stop [of p r1]) (auto simp: checked_next_cursor_def)
      next
        case False
        with assms Inr pi r1 Some show ?thesis
          by (intro more [of p s1 c]) (auto simp: checked_next_cursor_def)
      qed
    qed
  qed
qed

text \<open>The interface a page loop needs of the function that stores an item: once stored, an item
  stays stored.\<close>

locale sink =
  fixes put :: "'a \<Rightarrow> 's \<Rightarrow> sync_error + 's"
    and got :: "'a \<Rightarrow> 's \<Rightarrow> bool"
  assumes put_got: "put x s = Inr s' \<Longrightarrow> got x s'"
    and put_keeps: "put x s = Inr s' \<Longrightarrow> got y s \<Longrightarrow> got y s'"
begin

lemma put_items_keeps: "put_items put xs s = (r, s') \<Longrightarrow> got y s \<Longrightarrow> got y s'"
  by (induction xs arbitrary: s) (auto split: sum.splits dest: put_keeps)

lemma put_items_got: "put_items put xs s = (Inr u, s') \<Longrightarrow> y \<in> set xs \<Longrightarrow> got y s'"
proof (induction xs arbitrary: s)
  case (Cons x xs)
  then obtain s1 where s1: "put x s = Inr s1" "put_items put xs s1 = (Inr u, s')"
    by (auto split: sum.splits)
  show ?case
  proof (cases "y = x")
    case True
    with put_got [OF s1(1)] show ?thesis using put_items_keeps [OF s1(2)] by blast
  next
    case False
    with Cons.prems Cons.IH [OF s1(2)] show ?thesis by simp
  qed
qed simp

lemma page_loop_keeps:
  "page_loop fuel fetch put cur seen t s = (r, t', s') \<Longrightarrow> got y s \<Longrightarrow> got y s'"
proof (induction fuel arbitrary: cur seen t s)
  case (Suc fuel)
  from Suc.prems(1) show ?case
    by (cases rule: page_loop_cases) (use Suc.prems(2) Suc.IH put_items_keeps in blast)+
qed simp

end

lemma put_items_invariant:
  assumes "\<And>x s s'. put x s = Inr s' \<Longrightarrow> Q x \<Longrightarrow> I s \<Longrightarrow> I s'"
  shows "put_items put xs s = (r, s') \<Longrightarrow> list_all Q xs \<Longrightarrow> I s \<Longrightarrow> I s'"
proof (induction xs arbitrary: s)
  case (Cons x xs)
  then show ?case using assms by (auto split: sum.splits)
qed simp

lemma page_loop_invariant:
  assumes "\<And>x s s'. put x s = Inr s' \<Longrightarrow> Q x \<Longrightarrow> I s \<Longrightarrow> I s'"
    and "\<And>t c pg. fetch t c = Inr pg \<Longrightarrow> list_all Q (items pg)"
  shows "page_loop fuel fetch put cur seen t s = (r, t', s') \<Longrightarrow> I s \<Longrightarrow> I s'"
proof (induction fuel arbitrary: cur seen t s)
  case (Suc fuel)
  have keep: "I v" if "put_items put xs u = (q, v)" "list_all Q xs" "I u" for xs u q v
    using put_items_invariant [of put Q I] assms(1) that by blast
  from Suc.prems(1) show ?case
    by (cases rule: page_loop_cases) (use Suc.prems(2) Suc.IH keep assms(2) in blast)+
qed simp

section \<open>Listings\<close>

text \<open>The pages of a listing, and the items on them. A client answers a listing when every response
  that is not an error is the listing's page.\<close>

inductive page_reach :: "(page_cursor option \<Rightarrow> 'a page) \<Rightarrow> page_cursor option \<Rightarrow> page_cursor option \<Rightarrow> bool"
  for pg where
  here: "page_reach pg c c"
| further: "next_page (pg c) = Some d \<Longrightarrow> page_reach pg (Some d) e \<Longrightarrow> page_reach pg c e"

inductive_cases page_reachE: "page_reach pg c e"

definition listed :: "(page_cursor option \<Rightarrow> 'a page) \<Rightarrow> 'a set" where
  "listed pg = {x. \<exists>c. page_reach pg None c \<and> x \<in> set (items (pg c))}"

definition answers ::
    "(nat \<Rightarrow> page_cursor option \<Rightarrow> gitlab_error + 'a page) \<Rightarrow> (page_cursor option \<Rightarrow> 'a page) \<Rightarrow> bool" where
  "answers fetch pg \<longleftrightarrow> (\<forall>t c. (\<exists>e. fetch t c = Inl e) \<or> fetch t c = Inr (pg c))"

context sink begin

lemma page_loop_complete:
  assumes "answers fetch pg"
  shows "page_loop fuel fetch put cur seen t s = (Inr u, t', s') \<Longrightarrow> page_reach pg cur c \<Longrightarrow>
    x \<in> set (items (pg c)) \<Longrightarrow> got x s'"
proof (induction fuel arbitrary: cur seen t s)
  case (Suc fuel)
  have p: "p = pg cur" if "fetch t cur = Inr p" for p
    using assms that by (metis answers_def sum.distinct(1) sum.inject(2))
  from Suc.prems(1) show ?case
  proof (cases rule: page_loop_cases)
    case (stop p r1)
    then have "next_page (pg cur) = None" and r1: "r1 = Inr ()" using p by auto
    with Suc.prems(2) have "c = cur" by (auto elim: page_reachE)
    with stop(1,2) r1 p Suc.prems(3) show ?thesis using put_items_got by metis
  next
    case (more p s1 d)
    from Suc.prems(2) show ?thesis
    proof (cases rule: page_reach.cases)
      case here
      with more(1,2) p Suc.prems(3) have "got x s1" using put_items_got by metis
      with more(5) show ?thesis by (rule page_loop_keeps)
    next
      case (further e)
      with more(1,3) p have "e = d" by simp
      with further(2) more(5) Suc.prems(3) Suc.IH show ?thesis by blast
    qed
  qed simp
qed simp

end

section \<open>The cache as a sink\<close>

definition cached_commit :: "project_ref \<Rightarrow> gl_commit \<Rightarrow> database \<Rightarrow> bool" where
  "cached_commit p c db \<longleftrightarrow> (\<exists>r \<in> set (t_commits db). commit_for p (gc_id c) r)"

definition cached_mr :: "project_ref \<Rightarrow> gl_merge_request \<Rightarrow> database \<Rightarrow> bool" where
  "cached_mr p m db \<longleftrightarrow> (\<exists>r \<in> set (t_mrs db). mr_for p (gm_iid m) r)"

lemma upsert_where_new: "k new \<Longrightarrow> (\<And>r. k r \<Longrightarrow> k (upd r)) \<Longrightarrow> \<exists>r \<in> set (upsert_where k new upd rows). k r"
  by (auto simp: upsert_where_def set_upd_where)

lemma upsert_where_keeps:
  "(\<And>r. q r \<Longrightarrow> q (upd r)) \<Longrightarrow> \<exists>r \<in> set rows. q r \<Longrightarrow> \<exists>r \<in> set (upsert_where k new upd rows). q r"
  by (auto simp: upsert_where_def set_upd_where)

lemma upsert_commit_cached:
  "\<exists>r \<in> set (t_commits (upsert_commit v db)).
     commit_for (row_ref (cc_instance v) (cc_project v)) (cc_sha v) r"
  unfolding upsert_commit_def
  by (simp, rule upsert_where_new) (simp_all add: commit_for_def row_ref_def)

lemma upsert_commit_keeps:
  "\<exists>r \<in> set (t_commits db). commit_for p sha r \<Longrightarrow>
     \<exists>r \<in> set (t_commits (upsert_commit v db)). commit_for p sha r"
  unfolding upsert_commit_def
  by (simp, rule upsert_where_keeps) (simp_all add: commit_for_def)

lemma upsert_mr_cached:
  "\<exists>r \<in> set (t_mrs (upsert_merge_request v db)).
     mr_for (row_ref (mr_instance v) (mr_project v)) (mr_iid v) r"
  unfolding upsert_merge_request_def
  by (simp, rule upsert_where_new) (simp_all add: mr_for_def row_ref_def)

lemma upsert_mr_keeps:
  "\<exists>r \<in> set (t_mrs db). mr_for p iid r \<Longrightarrow>
     \<exists>r \<in> set (t_mrs (upsert_merge_request v db)). mr_for p iid r"
  unfolding upsert_merge_request_def
  by (simp, rule upsert_where_keeps) (simp_all add: mr_for_def)

interpretation commit_sink: sink "put_commit env p we" "\<lambda>c s. cached_commit p c (snd s)" for env p we
proof
  fix c s s'
  assume "put_commit env p we c s = Inr s'"
  then obtain row where row: "to_commit_write (sv_nfkc env) (sv_date env) p we c = Inr row"
    "s' = (fst s + 1, upsert_commit row (snd s))"
    by (auto simp: put_commit_def split: sum.splits)
  then have "row_ref (cc_instance row) (cc_project row) = p" "cc_sha row = gc_id c"
    by (auto simp: to_commit_write_def row_ref_def Let_def split: option.splits)
  with upsert_commit_cached [of row "snd s"] row(2) show "cached_commit p c (snd s')"
    by (simp add: cached_commit_def)
  fix d
  assume "cached_commit p d (snd s)"
  with row(2) show "cached_commit p d (snd s')"
    by (simp add: cached_commit_def upsert_commit_keeps)
qed

interpretation mr_sink: sink "put_mr env p" "\<lambda>m s. cached_mr p m (snd s)" for env p
proof
  fix m s s'
  assume "put_mr env p m s = Inr s'"
  then obtain row where row: "to_merge_request_write (sv_nfkc env) (sv_date env) p m = Inr row"
    "s' = (fst s + 1, upsert_merge_request row (snd s))"
    by (auto simp: put_mr_def split: sum.splits)
  then have "row_ref (mr_instance row) (mr_project row) = p" "mr_iid row = gm_iid m"
    by (auto simp: to_merge_request_write_def row_ref_def Let_def split: option.splits)
  with upsert_mr_cached [of row "snd s"] row(2) show "cached_mr p m (snd s')"
    by (simp add: cached_mr_def)
  fix n
  assume "cached_mr p n (snd s)"
  with row(2) show "cached_mr p n (snd s')"
    by (simp add: cached_mr_def upsert_mr_keeps)
qed

interpretation name_sink: sink add_name "\<lambda>b names. gb_name b \<in> set names"
  by unfold_locales (auto simp: add_name_def split: if_splits)


section \<open>Progress of the commit window\<close>

text \<open>\<open>hist\<close> is what GitLab lists for a query; it answers the client's requests whenever they do not
  fail. A branch is drained when every commit listed for it in the window is cached.\<close>

type_synonym history = "commit_query \<Rightarrow> page_cursor option \<Rightarrow> gl_commit page"

definition query_of :: "instant \<Rightarrow> instant \<Rightarrow> string \<Rightarrow> commit_query" where
  "query_of ws we b = \<lparr>cq_since = ws, cq_until = we, cq_ref = b\<rparr>"

definition drained :: "history \<Rightarrow> project_ref \<Rightarrow> instant \<Rightarrow> instant \<Rightarrow> string \<Rightarrow> database \<Rightarrow> bool" where
  "drained hist p ws we b db \<longleftrightarrow> (\<forall>c \<in> listed (hist (query_of ws we b)). cached_commit p c db)"

text \<open>All branch names the project ever has are in \<open>B\<close>, a finite set that a safe integer counts.\<close>

definition branch_bound :: "string set \<Rightarrow> bool" where
  "branch_bound B \<longleftrightarrow> finite B \<and> int (card B) \<le> max_safe_integer"

definition tells_history :: "history \<Rightarrow> string set \<Rightarrow> project_ref \<Rightarrow> gl_client \<Rightarrow> bool" where
  "tells_history hist B p client \<longleftrightarrow>
     branch_bound B \<and>
     (\<forall>q. answers (\<lambda>t. cl_commits client t (pr_project p) q) (hist q)) \<and>
     (\<forall>t c pg. cl_branches client t (pr_project p) c = Inr pg \<longrightarrow>
        list_all (\<lambda>b. gb_name b \<in> B) (items pg))"

text \<open>The persisted continuation never runs ahead of the cache.\<close>

definition continuation_ok ::
    "history \<Rightarrow> string set \<Rightarrow> project_ref \<Rightarrow> instant \<Rightarrow> instant \<Rightarrow> string list \<Rightarrow> nat \<Rightarrow> database \<Rightarrow> bool" where
  "continuation_ok hist B p ws we bs i db \<longleftrightarrow>
     distinct bs \<and> set bs \<subseteq> B \<and> i \<le> length bs \<and> (\<forall>j < i. drained hist p ws we (bs ! j) db)"

definition progress :: "history \<Rightarrow> string set \<Rightarrow> project_ref \<Rightarrow> database \<Rightarrow> bool" where
  "progress hist B p db \<longleftrightarrow>
     (\<forall>ws we cur. unfinished (get_commit_state p db) = Some (ws, we, cur) \<longrightarrow>
        (\<exists>bs i. decode_branch_continuation cur = Some (bs, i) \<and>
           continuation_ok hist B p ws we bs i db))"

definition grows :: "project_ref \<Rightarrow> database \<Rightarrow> database \<Rightarrow> bool" where
  "grows p db db' \<longleftrightarrow> t_commit_states db' = t_commit_states db \<and>
     (\<forall>c. cached_commit p c db \<longrightarrow> cached_commit p c db')"

lemma grows_refl [simp]: "grows p db db"
  by (simp add: grows_def)

lemma grows_trans: "grows p a b \<Longrightarrow> grows p b c \<Longrightarrow> grows p a c"
  by (simp add: grows_def)

lemma drained_grows: "drained hist p ws we b db \<Longrightarrow> grows p db db' \<Longrightarrow> drained hist p ws we b db'"
  by (auto simp: drained_def grows_def)

lemma continuation_grows:
  "continuation_ok hist B p ws we bs i db \<Longrightarrow> grows p db db' \<Longrightarrow> continuation_ok hist B p ws we bs i db'"
  by (auto simp: continuation_ok_def dest: drained_grows)

lemma progress_grows: "progress hist B p db \<Longrightarrow> grows p db db' \<Longrightarrow> progress hist B p db'"
proof -
  assume prog: "progress hist B p db" and g: "grows p db db'"
  have eq: "get_commit_state p db' = get_commit_state p db"
    using g by (simp add: get_commit_state_def grows_def)
  from prog show "progress hist B p db'"
    unfolding progress_def eq using continuation_grows [OF _ g] by blast
qed

lemma put_commit_grows: "put_commit env p we c s = Inr s' \<Longrightarrow> grows p (snd s) (snd s')"
proof -
  assume put: "put_commit env p we c s = Inr s'"
  then have "t_commit_states (snd s') = t_commit_states (snd s)"
    by (auto simp: put_commit_def upsert_commit_def split: sum.splits)
  with commit_sink.put_keeps [OF put] show ?thesis by (simp add: grows_def)
qed

lemma commit_pages_grow:
  assumes "page_loop fuel fetch (put_commit env p we) cur seen t s = (r, t', s')"
  shows "grows p (snd s) (snd s')"
proof -
  have "grows p (snd s) (snd v)" if "put_commit env p we x u = Inr v" "grows p (snd s) (snd u)" for x u v
    using put_commit_grows [OF that(1)] that(2) by (rule grows_trans [rotated])
  then show ?thesis
    using page_loop_invariant [of "put_commit env p we" "\<lambda>_. True" "\<lambda>u. grows p (snd s) (snd u)"]
      assms by (simp add: list_all_iff)
qed

lemma commit_pages_drain:
  assumes "tells_history hist B p client"
    and "page_loop fuel (\<lambda>t. cl_commits client t (pr_project p) (query_of ws we b))
      (put_commit env p we') None [] t s = (Inr u, t', s')"
  shows "drained hist p ws we b (snd s')"
  using commit_sink.page_loop_complete [OF _ assms(2), of "hist (query_of ws we b)"] assms(1)
  by (auto simp: drained_def listed_def tells_history_def)

subsection \<open>State rows\<close>

definition state_at :: "project_ref \<Rightarrow> instant \<Rightarrow> instant \<Rightarrow> database \<Rightarrow> bool" where
  "state_at p ws we db \<longleftrightarrow> (\<exists>r. get_commit_state p db = Some r \<and>
     cs_window_start r = Some ws \<and> cs_window_end r = Some we)"

lemma find_upd_where:
  "(\<And>r. k r \<Longrightarrow> k (f r)) \<Longrightarrow> find k (upd_where k f rows) = map_option f (find k rows)"
  by (induction rows) auto

lemma find_upsert_where:
  "(\<And>r. k r \<Longrightarrow> k (f r)) \<Longrightarrow> k new \<Longrightarrow>
     find k (upsert_where k new f rows) =
       Some (case find k rows of Some r \<Rightarrow> f r | None \<Rightarrow> new)"
proof -
  assume k: "\<And>r. k r \<Longrightarrow> k (f r)" "k new"
  show ?thesis
  proof (cases "find k rows")
    case None
    then have "\<not> (\<exists>r \<in> set rows. k r)" by (auto simp: find_None_iff)
    moreover from this have "find k (rows @ [new]) = Some new" using k(2) by (induction rows) auto
    ultimately show ?thesis using None by (simp add: upsert_where_def)
  next
    case (Some r)
    then have "\<exists>r \<in> set rows. k r" by (auto dest: find_SomeD)
    with Some k(1) show ?thesis by (simp add: upsert_where_def find_upd_where)
  qed
qed

lemma commit_state_for_upd [simp]:
  "commit_state_for p (r\<lparr>cs_branch_cursor := c\<rparr>) = commit_state_for p r"
  "commit_state_for p (r\<lparr>cs_watermark := w\<rparr>) = commit_state_for p r"
  "commit_state_for p (r\<lparr>cs_window_start := t\<rparr>) = commit_state_for p r"
  "commit_state_for p (r\<lparr>cs_window_end := t\<rparr>) = commit_state_for p r"
  by (simp_all add: commit_state_for_def)

lemma get_update_commit_state:
  assumes "update_commit_state p f db = Inr db'" "\<And>r. commit_state_for p (f r) = commit_state_for p r"
  shows "get_commit_state p db' = map_option f (get_commit_state p db)"
    and "t_commits db' = t_commits db"
  using assms by (auto simp: update_commit_state_def get_commit_state_def find_upd_where split: if_splits)

lemma advance_state:
  assumes "advance_commit_branch p cur db = Inr db'"
  shows "get_commit_state p db' = map_option (\<lambda>r. r\<lparr>cs_branch_cursor := cur\<rparr>) (get_commit_state p db)"
    and "t_commits db' = t_commits db"
  using get_update_commit_state [OF assms [unfolded advance_commit_branch_def]] by simp_all

lemma complete_state:
  assumes "complete_commit_window p wm db = Inr db'"
  shows "get_commit_state p db' =
      map_option (\<lambda>r. r\<lparr>cs_watermark := Some wm, cs_branch_cursor := None\<rparr>) (get_commit_state p db)"
    and "t_commits db' = t_commits db"
  using get_update_commit_state [OF assms [unfolded complete_commit_window_def]] by simp_all

lemma drained_same_commits:
  "t_commits db' = t_commits db \<Longrightarrow> drained hist p ws we b db' = drained hist p ws we b db"
  by (simp add: drained_def cached_commit_def)

lemma continuation_same_commits:
  "t_commits db' = t_commits db \<Longrightarrow>
     continuation_ok hist B p ws we bs i db' = continuation_ok hist B p ws we bs i db"
  by (simp add: continuation_ok_def drained_def cached_commit_def)

lemma decode_encode:
  assumes "branch_bound B" "continuation_ok hist B p ws we bs i db"
  shows "decode_branch_continuation (encode_branch_continuation bs i) = Some (bs, i)"
proof (rule continuation_roundtrip)
  have "length bs = card (set bs)" using assms(2) by (simp add: continuation_ok_def distinct_card)
  also have "\<dots> \<le> card B"
    using assms by (simp add: continuation_ok_def branch_bound_def card_mono)
  finally show "int i \<le> max_safe_integer"
    using assms by (simp add: continuation_ok_def branch_bound_def)
qed

lemma progress_state:
  assumes "branch_bound B" "continuation_ok hist B p ws we bs i db"
    and "get_commit_state p db = Some r" "cs_window_start r = Some ws" "cs_window_end r = Some we"
    and "cs_branch_cursor r = None \<or> cs_branch_cursor r = Some (encode_branch_continuation bs i)"
  shows "progress hist B p db"
  using assms(2-6) decode_encode [OF assms(1,2)]
  by (auto simp: progress_def unfinished_def split: option.splits)

lemma progress_advance:
  assumes "branch_bound B"
    and "advance_commit_branch p (Some (encode_branch_continuation bs i)) db = Inr db'"
    and "state_at p ws we db" "continuation_ok hist B p ws we bs i db"
  shows "progress hist B p db' \<and> state_at p ws we db'"
proof
  obtain r where r: "get_commit_state p db = Some r" "cs_window_start r = Some ws"
    "cs_window_end r = Some we" using assms(3) by (auto simp: state_at_def)
  have s: "get_commit_state p db' =
      Some (r\<lparr>cs_branch_cursor := Some (encode_branch_continuation bs i)\<rparr>)"
    using advance_state(1) [OF assms(2)] r(1) by simp
  then show "state_at p ws we db'" using r by (simp add: state_at_def)
  have "continuation_ok hist B p ws we bs i db'"
    using continuation_same_commits [OF advance_state(2) [OF assms(2)]] assms(4) by blast
  from progress_state [OF assms(1) this s] r show "progress hist B p db'" by simp
qed

lemma state_at_grows: "state_at p ws we db \<Longrightarrow> grows p db db' \<Longrightarrow> state_at p ws we db'"
  by (simp add: state_at_def grows_def get_commit_state_def)

subsection \<open>The branch loop\<close>

lemma branch_loop_progress:
  assumes tells: "tells_history hist B p client" and dist: "distinct bs" "set bs \<subseteq> B"
  shows "rest = drop index bs \<Longrightarrow> state_at p ws we (snd s) \<Longrightarrow> progress hist B p (snd s) \<Longrightarrow>
    \<forall>j < index. j < length bs \<longrightarrow> drained hist p ws we (bs ! j) (snd s) \<Longrightarrow>
    branch_loop env client p ws we bs index rest completed t s = (r, t', s') \<Longrightarrow>
    progress hist B p (snd s') \<and> state_at p ws we (snd s') \<and>
    (\<forall>n. r = Inr (Commits_Completed n) \<longrightarrow>
      (\<forall>b \<in> set bs. drained hist p ws we b (snd s')))"
proof (induction rest arbitrary: index completed t s)
  case Nil
  then have "length bs \<le> index" by simp
  with Nil show ?case by (auto simp: in_set_conv_nth)
next
  case (Cons b rest)
  have idx: "index < length bs" "bs ! index = b" "rest = drop (index + 1) bs"
  proof -
    show i: "index < length bs" using Cons.prems(1) by (metis drop_eq_Nil leI list.distinct(1))
    have "b # rest = bs ! index # drop (index + 1) bs"
      by (simp only: Cons.prems(1) Cons_nth_drop_Suc [OF i, symmetric] Suc_eq_plus1)
    then show "bs ! index = b" "rest = drop (index + 1) bs" by simp_all
  qed
  obtain r1 t1 s1 where pl: "page_loop (sv_fuel env)
      (\<lambda>t. cl_commits client t (pr_project p) (query_of ws we b)) (put_commit env p we) None [] t s =
      (r1, t1, s1)"
    by (metis prod_cases3)
  have g: "grows p (snd s) (snd s1)" by (rule commit_pages_grow [OF pl])
  note keep = progress_grows [OF Cons.prems(3) g] state_at_grows [OF Cons.prems(2) g]
  show ?case
  proof (cases r1)
    case (Inl e)
    with Cons.prems(5) pl keep show ?thesis by (auto simp: query_of_def)
  next
    case (Inr u)
    have d: "drained hist p ws we b (snd s1)"
      by (rule commit_pages_drain [OF tells pl [unfolded Inr]])
    have upto: "drained hist p ws we (bs ! j) (snd s1)" if "j < index + 1" "j < length bs" for j
    proof (cases "j = index")
      case True
      with d idx(2) show ?thesis by simp
    next
      case False
      with that Cons.prems(4) have "drained hist p ws we (bs ! j) (snd s)" by simp
      then show ?thesis using g by (rule drained_grows)
    qed
    show ?thesis
    proof (cases rest)
      case Nil
      with Cons.prems(5) pl Inr have
        "branch_loop env client p ws we bs (index + 1) rest (completed + 1) t1 s1 = (r, t', s')"
        by (auto simp: query_of_def)
      with Cons.IH [OF idx(3) keep(2,1) _ this] upto show ?thesis by blast
    next
      case (Cons nb more)
      show ?thesis
      proof (cases "advance_commit_branch p (Some (encode_branch_continuation bs (index + 1))) (snd s1)")
        case (Inl e)
        with Cons.prems(5) pl Inr Cons keep show ?thesis by (auto simp: query_of_def)
      next
        case adv: (Inr db)
        have co: "continuation_ok hist B p ws we bs (index + 1) (snd s1)"
          using dist idx(1) upto by (simp add: continuation_ok_def)
        have bound: "branch_bound B" using tells by (simp add: tells_history_def)
        have p2: "progress hist B p db \<and> state_at p ws we db"
          by (rule progress_advance [OF bound adv keep(2) co])
        have d2: "\<forall>j < index + 1. j < length bs \<longrightarrow> drained hist p ws we (bs ! j) db"
          using upto drained_same_commits [OF advance_state(2) [OF adv]] by blast
        show ?thesis
        proof (cases "sv_stop env t1 (completed + 1) nb")
          case True
          with Cons.prems(5) pl Inr Cons adv p2 show ?thesis by (auto simp: query_of_def)
        next
          case False
          with Cons.prems(5) pl Inr Cons adv have "branch_loop env client p ws we bs (index + 1) rest
              (completed + 1) t1 (fst s1, db) = (r, t', s')"
            by (simp add: query_of_def)
          with Cons.IH [OF idx(3) _ _ _ this] p2 d2 show ?thesis by simp
        qed
      qed
    qed
  qed
qed


subsection \<open>A run\<close>

lemma insert_by_props: "set (insert_by cmp x xs) = insert x (set xs)"
  "distinct (insert_by cmp x xs) \<longleftrightarrow> x \<notin> set xs \<and> distinct xs"
  by (induction xs) auto

lemma sort_by_props [simp]: "set (sort_by cmp xs) = set xs" "distinct (sort_by cmp xs) = distinct xs"
  unfolding sort_by_def by (induction xs) (simp_all add: insert_by_props)

lemma branch_names_ok:
  assumes "tells_history hist B p client"
    and "list_all_branch_names env client (pr_project p) t = (Inr ds, t1)"
  shows "distinct ds \<and> set ds \<subseteq> B"
proof -
  obtain u names where pl: "page_loop (sv_fuel env) (\<lambda>t. cl_branches client t (pr_project p)) add_name
      None [] t [] = (Inr u, t1, names)" and ds: "ds = sort_by (sv_cmp env) names"
    using assms(2) by (auto simp: list_all_branch_names_def split: prod.splits sum.splits)
  have "distinct names \<and> set names \<subseteq> B"
  proof (rule page_loop_invariant [OF _ _ pl])
    show "list_all (\<lambda>b. gb_name b \<in> B) (items pg)"
      if "cl_branches client t (pr_project p) c = Inr pg" for t c pg
      using assms(1) that by (simp add: tells_history_def)
  qed (auto simp: add_name_def)
  with ds show ?thesis by simp
qed

lemma begin_state:
  "\<exists>r. get_commit_state p (begin_commit_window p ws we cur db) = Some r \<and>
     cs_window_start r = Some ws \<and> cs_window_end r = Some we \<and> cs_branch_cursor r = cur"
  unfolding get_commit_state_def begin_commit_window_def
  by (simp, subst find_upsert_where) (simp_all add: commit_state_for_def split: option.splits)

text \<open>The plan of a run, given what the database records.\<close>

lemma plan_cases:
  assumes "progress hist B p db" "distinct ds" "set ds \<subseteq> B"
  obtains (fresh) "unfinished (get_commit_state p db) = None"
      "plan_commits env (get_commit_state p db) ds now =
        \<lparr>cp_start = fresh_start env (get_commit_state p db), cp_end = now, cp_branches = ds,
          cp_index = 0, cp_continuing = False, cp_extended = False\<rparr>"
  | (continued) ws we bs i where "state_at p ws we db"
      "continuation_ok hist B p ws we (bs @ filter (\<lambda>b. b \<notin> set bs) ds) i db"
      "plan_commits env (get_commit_state p db) ds now =
        \<lparr>cp_start = ws, cp_end = we, cp_branches = bs @ filter (\<lambda>b. b \<notin> set bs) ds,
          cp_index = i, cp_continuing = True, cp_extended = (filter (\<lambda>b. b \<notin> set bs) ds \<noteq> [])\<rparr>"
proof (cases "unfinished (get_commit_state p db)")
  case None
  then show ?thesis by (intro fresh) (simp_all add: plan_commits_def)
next
  case (Some w)
  obtain ws we cur where w: "w = (ws, we, cur)" by (metis prod_cases3)
  have st: "state_at p ws we db"
    using Some w by (auto simp: state_at_def unfinished_def split: option.splits)
  obtain bs i where d: "decode_branch_continuation cur = Some (bs, i)"
    "continuation_ok hist B p ws we bs i db"
    using assms(1) Some w by (auto simp: progress_def)
  have "continuation_ok hist B p ws we (bs @ filter (\<lambda>b. b \<notin> set bs) ds) i db"
    using d(2) assms(2,3) by (auto simp: continuation_ok_def nth_append)
  then show ?thesis
    using st Some w d by (intro continued) (auto simp: plan_commits_def Let_def continuation_ok_def)
qed

lemma open_window_progress:
  assumes prog: "progress hist B p db" and bound: "branch_bound B"
    and ds: "distinct ds" "set ds \<subseteq> B"
    and pl: "pl = plan_commits env (get_commit_state p db) ds now"
    and ow: "open_window p pl db = Inr db1"
  shows "progress hist B p db1" and "state_at p (cp_start pl) (cp_end pl) db1"
    and "continuation_ok hist B p (cp_start pl) (cp_end pl) (cp_branches pl) (cp_index pl) db1"
    and "set ds \<subseteq> set (cp_branches pl)"
proof -
  show sub: "set ds \<subseteq> set (cp_branches pl)"
    by (cases rule: plan_cases [OF prog ds, of env now]) (auto simp: pl)
  have all: "progress hist B p db1 \<and> state_at p (cp_start pl) (cp_end pl) db1 \<and>
      continuation_ok hist B p (cp_start pl) (cp_end pl) (cp_branches pl) (cp_index pl) db1"
  proof (cases rule: plan_cases [OF prog ds, of env now, case_names fresh continued])
    case fresh
    let ?c = "if ds \<noteq> [] then Some (encode_branch_continuation ds 0) else None"
    have db1: "db1 = begin_commit_window p (cp_start pl) (cp_end pl) ?c db"
      using ow by (auto simp: open_window_def pl fresh(2))
    obtain r where r: "get_commit_state p db1 = Some r" "cs_window_start r = Some (cp_start pl)"
      "cs_window_end r = Some (cp_end pl)" "cs_branch_cursor r = ?c"
      using begin_state unfolding db1 by blast
    have co: "continuation_ok hist B p (cp_start pl) (cp_end pl) ds 0 db1"
      using ds by (simp add: continuation_ok_def)
    from progress_state [OF bound co r(1-3)] r co show ?thesis
      by (auto simp: state_at_def pl fresh(2))
  next
    case (continued ws we bs i)
    let ?bs = "bs @ filter (\<lambda>b. b \<notin> set bs) ds"
    show ?thesis
    proof (cases "filter (\<lambda>b. b \<notin> set bs) ds = []")
      case True
      then have "db1 = db" using ow by (simp add: open_window_def pl continued(3))
      with prog continued(1,2) show ?thesis by (simp add: pl continued(3))
    next
      case False
      have adv: "advance_commit_branch p (Some (encode_branch_continuation ?bs i)) db = Inr db1"
        using ow False by (simp add: open_window_def pl continued(3))
      from progress_advance [OF bound adv continued(1,2)]
        continuation_same_commits [OF advance_state(2) [OF adv]] continued(2)
      show ?thesis by (simp add: pl continued(3))
    qed
  qed
  then show "progress hist B p db1" "state_at p (cp_start pl) (cp_end pl) db1"
    "continuation_ok hist B p (cp_start pl) (cp_end pl) (cp_branches pl) (cp_index pl) db1"
    by blast+
qed

lemma progress_complete:
  assumes "complete_commit_window p wm db = Inr db'"
  shows "progress hist B p db'"
proof -
  have "unfinished (get_commit_state p db') = None"
    using complete_state(1) [OF assms]
    by (cases "get_commit_state p db") (auto simp: unfinished_def split: option.splits)
  then show ?thesis by (simp add: progress_def)
qed

text \<open>What a completed run has established.\<close>

definition run_covers ::
    "history \<Rightarrow> sync_env \<Rightarrow> gl_client \<Rightarrow> project_ref \<Rightarrow> nat \<Rightarrow> database \<Rightarrow> database \<Rightarrow> bool" where
  "run_covers hist env client p t db db' \<longleftrightarrow>
     (\<exists>ds t1 s. list_all_branch_names env client (pr_project p) t = (Inr ds, t1) \<and>
        get_commit_state p db' = Some s \<and> cs_branch_cursor s = None \<and>
        (let pl = plan_commits env (get_commit_state p db) ds (sv_clock env t1) in
         cs_watermark s = Some (cp_end pl) \<and>
         (\<forall>b \<in> set ds. drained hist p (cp_start pl) (cp_end pl) b db')))"

lemma sync_commits_progress:
  assumes tells: "tells_history hist B p client" and prog: "progress hist B p db"
    and run: "sync_commits env client p t db = (r, t', db')"
  shows "progress hist B p db' \<and> (\<forall>n. r = Inr (Commits_Completed n) \<longrightarrow> run_covers hist env client p t db db')"
proof -
  have bound: "branch_bound B" using tells by (simp add: tells_history_def)
  obtain nr t1 where names: "list_all_branch_names env client (pr_project p) t = (nr, t1)"
    by fastforce
  show ?thesis
  proof (cases nr)
    case (Inl e)
    with run names prog show ?thesis by (auto simp: sync_commits_def)
  next
    case (Inr ds)
    define pl where "pl = plan_commits env (get_commit_state p db) ds (sv_clock env t1)"
    have ds: "distinct ds" "set ds \<subseteq> B" using branch_names_ok [OF tells names [unfolded Inr]] by auto
    show ?thesis
    proof (cases "open_window p pl db")
      case (Inl e)
      with run names Inr prog show ?thesis by (auto simp: sync_commits_def pl_def Let_def)
    next
      case ow: (Inr db1)
      note o = open_window_progress [OF prog bound ds pl_def ow]
      have dist: "distinct (cp_branches pl)" "set (cp_branches pl) \<subseteq> B"
        using o(3) by (simp_all add: continuation_ok_def)
      obtain lr t2 k db2 where loop: "branch_loop env client p (cp_start pl) (cp_end pl)
          (cp_branches pl) (cp_index pl) (drop (cp_index pl) (cp_branches pl)) 0 t1 (0, db1) =
          (lr, t2, k, db2)"
        by (metis prod_cases4)
      have l: "progress hist B p db2 \<and> state_at p (cp_start pl) (cp_end pl) db2 \<and>
          (\<forall>n. lr = Inr (Commits_Completed n) \<longrightarrow>
            (\<forall>b \<in> set (cp_branches pl). drained hist p (cp_start pl) (cp_end pl) b db2))"
        using branch_loop_progress [OF tells dist refl _ _ _ loop] o
        by (simp add: continuation_ok_def)
      show ?thesis
      proof (cases "\<exists>n. lr = Inr (Commits_Completed n)")
        case False
        with run names Inr ow loop l show ?thesis
          by (auto simp: sync_commits_def pl_def Let_def split: sum.splits commit_run.splits)
      next
        case True
        then obtain n where n: "lr = Inr (Commits_Completed n)" by blast
        obtain s where s: "get_commit_state p db2 = Some s" using l by (auto simp: state_at_def)
        show ?thesis
        proof (cases "complete_commit_window p (cp_end pl) db2")
          case (Inl e)
          with run names Inr ow loop l n show ?thesis
            by (auto simp: sync_commits_def pl_def Let_def)
        next
          case c: (Inr db3)
          have db': "db' = db3" "r = Inr (Commits_Completed n)"
            using run names Inr ow loop n c by (auto simp: sync_commits_def pl_def Let_def)
          have "\<forall>b \<in> set ds. drained hist p (cp_start pl) (cp_end pl) b db3"
            using l n o(4) drained_same_commits [OF complete_state(2) [OF c]] by blast
          with names Inr s complete_state(1) [OF c] have "run_covers hist env client p t db db3"
            by (auto simp: run_covers_def Let_def pl_def)
          with db' progress_complete [OF c] show ?thesis by simp
        qed
      qed
    qed
  qed
qed


section \<open>Whole runs\<close>

text \<open>The parts of the environment that are other components keep to their tables, and every client
  tells the same history.\<close>

definition env_ok :: "history \<Rightarrow> string set \<Rightarrow> project_ref \<Rightarrow> sync_env \<Rightarrow> bool" where
  "env_ok hist B p env \<longleftrightarrow>
     sv_invalidate env = invalidate_credential \<and>
     (\<forall>c pat. tells_history hist B p (sv_client env c pat))"

lemma grows_same_tables:
  "t_commits db' = t_commits db \<Longrightarrow> t_commit_states db' = t_commit_states db \<Longrightarrow> grows p db db'"
  by (simp add: grows_def cached_commit_def)

lemma invalidate_missing_grows: "grows p db (invalidate_missing_credential c db)"
  by (rule grows_same_tables)
    (simp_all add: invalidate_missing_credential_def invalidate_membership_user_instance_def
      mark_connection_invalid_def)

lemma candidate_rejected_grows:
  assumes "env_ok hist B p env" "candidate_rejected env p c e t db = Some db'"
  shows "grows p db db'"
proof -
  have "t_commits db' = t_commits db \<and> t_commit_states db' = t_commit_states db"
    using assms
    by (auto simp: candidate_rejected_def env_ok_def invalidate_unauthorized_def deny_project_def
        invalidate_missing_credential_def invalidate_membership_user_instance_def
        mark_connection_invalid_def invalidate_credential_def deny_membership_def put_membership_def
        split: sync_error.splits gitlab_error.splits)
  then show ?thesis by (simp add: grows_same_tables)
qed

lemma sync_merge_requests_grows:
  assumes "sync_merge_requests env client p t db = (r, t', db')"
  shows "grows p db db'"
proof -
  obtain u :: instant and r1 t1 n db1 where
    pl: "page_loop (sv_fuel env) (\<lambda>t. cl_mrs client t (pr_project p) u) (put_mr env p) None [] t (0, db) =
      (r1, t1, n, db1)"
    and db': "db' = db1 \<or> db' = complete_mr_window p (sv_clock env t) db1"
    using assms by (auto simp: sync_merge_requests_def Let_def split: prod.splits sum.splits)
  have keep: "grows p db (snd s')" if "put_mr env p m s = Inr s'" "grows p db (snd s)" for m s s'
  proof -
    have "grows p (snd s) (snd s')"
      using that(1)
      by (intro grows_same_tables) (auto simp: put_mr_def upsert_merge_request_def split: sum.splits)
    with that(2) show ?thesis by (rule grows_trans)
  qed
  have "grows p db (snd (n, db1))"
  proof (rule page_loop_invariant [OF _ _ pl])
    show "put_mr env p m s = Inr s' \<Longrightarrow> True \<Longrightarrow> grows p db (snd s) \<Longrightarrow> grows p db (snd s')" for m s s'
      using keep by blast
  qed (simp_all add: list_all_iff)
  moreover have "grows p db1 (complete_mr_window p (sv_clock env t) db1)"
    by (rule grows_same_tables) (simp_all add: complete_mr_window_def)
  ultimately show ?thesis using db' by (auto intro: grows_trans)
qed

lemma run_covers_grows:
  assumes "run_covers hist env client p t db db1" "grows p db1 db2"
  shows "run_covers hist env client p t db db2"
proof -
  have "get_commit_state p db2 = get_commit_state p db1"
    using assms(2) by (simp add: grows_def get_commit_state_def)
  with assms(1) show ?thesis
    unfolding run_covers_def using drained_grows [OF _ assms(2)] by (metis (no_types, lifting))
qed

text \<open>What a completed project sync has established: every branch that the client it used listed is
  drained in the window of its plan, which starts from a database where the continuation is right.\<close>

definition sync_covers :: "history \<Rightarrow> string set \<Rightarrow> sync_env \<Rightarrow> project_ref \<Rightarrow> database \<Rightarrow> bool" where
  "sync_covers hist B env p db' \<longleftrightarrow>
     (\<exists>c pat t db. progress hist B p db \<and> run_covers hist env (sv_client env c pat) p t db db')"

lemma sync_with_progress:
  assumes ok: "env_ok hist B p env" and prog: "progress hist B p db"
    and run: "sync_with env p (sv_client env c pat) t db = (r, t', db')"
  shows "progress hist B p db' \<and> (\<forall>n m. r = Inr (Sync_Completed n m) \<longrightarrow> sync_covers hist B env p db')"
proof -
  have tells: "tells_history hist B p (sv_client env c pat)" using ok by (simp add: env_ok_def)
  obtain r1 t1 db1 where c: "sync_commits env (sv_client env c pat) p t db = (r1, t1, db1)"
    by (metis prod_cases3)
  note s = sync_commits_progress [OF tells prog c]
  show ?thesis
  proof (cases "\<exists>n. r1 = Inr (Commits_Completed n)")
    case False
    with run c s show ?thesis
      by (auto simp: sync_with_def split: sum.splits commit_run.splits)
  next
    case True
    then obtain n where n: "r1 = Inr (Commits_Completed n)" by blast
    obtain r2 t2 db2 where m: "sync_merge_requests env (sv_client env c pat) p t1 db1 = (r2, t2, db2)"
      by (metis prod_cases3)
    have "db' = db2" using run c n m by (auto simp: sync_with_def split: sum.splits)
    moreover have "run_covers hist env (sv_client env c pat) p t db db2"
      using s n run_covers_grows [OF _ sync_merge_requests_grows [OF m]] by blast
    ultimately show ?thesis
      using s progress_grows [OF _ sync_merge_requests_grows [OF m]] prog
      unfolding sync_covers_def by blast
  qed
qed

lemma try_candidates_progress:
  assumes ok: "env_ok hist B p env"
  shows "progress hist B p db \<Longrightarrow> try_candidates env p cs t db = (r, t', db') \<Longrightarrow>
    progress hist B p db' \<and> (\<forall>n m. r = Inr (Sync_Completed n m) \<longrightarrow> sync_covers hist B env p db')"
proof (induction cs arbitrary: t db)
  case (Cons c cs)
  obtain ar t1 where a: "access_client env p c t db = (ar, t1)" by fastforce
  show ?case
  proof (cases ar)
    case (Inl e)
    show ?thesis
    proof (cases "e = Sync_Provider (Cred_Error No_Active_Credential)")
      case True
      with Cons.prems(2) a Inl
      have "try_candidates env p cs t1 (invalidate_missing_credential c db) = (r, t', db')" by simp
      with Cons.IH [OF progress_grows [OF Cons.prems(1) invalidate_missing_grows]] show ?thesis
        by blast
    next
      case False
      show ?thesis
      proof (cases "candidate_rejected env p c e t1 db")
        case None
        with Cons.prems a Inl False show ?thesis by auto
      next
        case (Some db1)
        with Cons.prems(2) a Inl False have "try_candidates env p cs t1 db1 = (r, t', db')" by simp
        with Cons.IH [OF progress_grows [OF Cons.prems(1) candidate_rejected_grows [OF ok Some]]]
        show ?thesis by blast
      qed
    qed
  next
    case (Inr client)
    obtain pat where cl: "client = sv_client env c pat"
      using a Inr by (auto simp: access_client_def Let_def split: sum.splits)
    obtain r1 t2 db2 where w: "sync_with env p client t1 db = (r1, t2, db2)"
      by (metis prod_cases3)
    note s = sync_with_progress [OF ok Cons.prems(1) w [unfolded cl]]
    show ?thesis
    proof (cases r1)
      case (Inr o)
      with Cons.prems(2) a \<open>ar = Inr client\<close> w s show ?thesis by auto
    next
      case (Inl e)
      show ?thesis
      proof (cases "candidate_rejected env p c e t2 db2")
        case None
        with Cons.prems a \<open>ar = Inr client\<close> w s Inl show ?thesis by auto
      next
        case (Some db3)
        with Cons.prems(2) a \<open>ar = Inr client\<close> w Inl
        have "try_candidates env p cs t2 db3 = (r, t', db')" by simp
        with Cons.IH [OF progress_grows [OF conjunct1 [OF s] candidate_rejected_grows [OF ok Some]]]
        show ?thesis by blast
      qed
    qed
  qed
qed auto

text \<open>Any sequence of runs of the sync of one project, each with its own environment (its own errors,
  pauses and crashes at any request), with other changes between them that keep the cached commits
  and the sync states; a page that was only partly stored is such a change.\<close>

inductive sync_runs :: "history \<Rightarrow> string set \<Rightarrow> project_ref \<Rightarrow> database \<Rightarrow> bool" for hist B p where
  first: "get_commit_state p db = None \<Longrightarrow> sync_runs hist B p db"
| run: "sync_runs hist B p db \<Longrightarrow> env_ok hist B p env \<Longrightarrow> sync_project env p t db = (r, t', db') \<Longrightarrow>
    sync_runs hist B p db'"
| other: "sync_runs hist B p db \<Longrightarrow> grows p db db' \<Longrightarrow> sync_runs hist B p db'"

lemma sync_runs_progress: "sync_runs hist B p db \<Longrightarrow> progress hist B p db"
proof (induction rule: sync_runs.induct)
  case (first db)
  then show ?case by (simp add: progress_def unfinished_def)
next
  case (run db env t r t' db')
  then show ?case using try_candidates_progress unfolding sync_project_def by blast
next
  case (other db db')
  then show ?case by (blast intro: progress_grows)
qed


section \<open>Rejected candidates\<close>

definition no_allowed_membership :: "string \<Rightarrow> project_ref \<Rightarrow> database \<Rightarrow> bool" where
  "no_allowed_membership uid p db \<longleftrightarrow>
     (\<forall>m \<in> set (t_memberships db). membership_for uid p m \<longrightarrow> \<not> mb_allowed m)"

text \<open>What the tables of users, connections and memberships allow never grows during a sync.\<close>

definition access_shrinks :: "database \<Rightarrow> database \<Rightarrow> bool" where
  "access_shrinks db db' \<longleftrightarrow>
     (\<forall>uid p. no_allowed_membership uid p db \<longrightarrow> no_allowed_membership uid p db')"

lemma access_shrinks_same: "t_memberships db' = t_memberships db \<Longrightarrow> access_shrinks db db'"
  by (simp add: access_shrinks_def no_allowed_membership_def)

lemma access_shrinks_trans: "access_shrinks a b \<Longrightarrow> access_shrinks b c \<Longrightarrow> access_shrinks a c"
  by (simp add: access_shrinks_def)

lemma invalidate_membership_shrinks:
  "access_shrinks db (invalidate_membership_user_instance uid inst db)"
  by (auto simp: access_shrinks_def no_allowed_membership_def invalidate_membership_user_instance_def
      set_del_where)

lemma deny_membership_shrinks: "access_shrinks db (deny_membership uid p checked db)"
  by (auto simp: access_shrinks_def no_allowed_membership_def deny_membership_def put_membership_def
      upsert_where_def set_upd_where membership_for_def split: if_splits)

lemma deny_membership_denies: "no_allowed_membership uid p (deny_membership uid p checked db)"
  by (auto simp: no_allowed_membership_def deny_membership_def put_membership_def upsert_where_def
      set_upd_where split: if_splits)

lemma t_memberships_simps [simp]:
  "t_memberships (mark_connection_invalid conn db) = t_memberships db"
  "t_memberships (invalidate_credential now conn reason db) = t_memberships db"
  by (simp_all add: mark_connection_invalid_def invalidate_credential_def)

lemma missing_credential_denies:
  "cd_instance c = pr_instance p \<Longrightarrow> no_allowed_membership (cd_user c) p (invalidate_missing_credential c db)"
  "access_shrinks db (invalidate_missing_credential c db)"
proof -
  show "cd_instance c = pr_instance p \<Longrightarrow>
      no_allowed_membership (cd_user c) p (invalidate_missing_credential c db)"
    by (auto simp: no_allowed_membership_def invalidate_missing_credential_def membership_for_def
        invalidate_membership_user_instance_def set_del_where)
  have "access_shrinks db (mark_connection_invalid (cd_connection c) db)"
    by (rule access_shrinks_same) simp
  then show "access_shrinks db (invalidate_missing_credential c db)"
    unfolding invalidate_missing_credential_def
    by (rule access_shrinks_trans) (rule invalidate_membership_shrinks)
qed

lemma candidate_rejected_denies:
  assumes "sv_invalidate env = invalidate_credential" "candidate_rejected env p c e t db = Some db'"
  shows "access_shrinks db db'"
    and "cd_instance c = pr_instance p \<Longrightarrow> no_allowed_membership (cd_user c) p db'"
proof -
  have inv: "access_shrinks db (invalidate_credential now conn r db)" for now conn r
    by (rule access_shrinks_same) simp
  consider "db' = invalidate_unauthorized env t c db" | "db' = deny_project env t c p db"
    using assms(2) by (auto simp: candidate_rejected_def split: sync_error.splits gitlab_error.splits)
  then have "access_shrinks db db' \<and>
      (cd_instance c = pr_instance p \<longrightarrow> no_allowed_membership (cd_user c) p db')"
  proof cases
    case 1
    then show ?thesis
      using access_shrinks_trans [OF inv missing_credential_denies(2)] missing_credential_denies(1)
      by (simp add: invalidate_unauthorized_def assms(1))
  next
    case 2
    then show ?thesis
      by (simp add: deny_project_def deny_membership_denies deny_membership_shrinks)
  qed
  then show "access_shrinks db db'"
    "cd_instance c = pr_instance p \<Longrightarrow> no_allowed_membership (cd_user c) p db'" by blast+
qed

text \<open>What a view of the database must not depend on to be unaffected by the reading of commits and
  merge requests, and by a whole sync.\<close>

locale cache_frame =
  fixes view :: "database \<Rightarrow> 'v"
  assumes view_caches: "view (db\<lparr>t_commits := cs\<rparr>) = view db" "view (db\<lparr>t_mrs := ms\<rparr>) = view db"
    and view_states: "view (db\<lparr>t_commit_states := ss\<rparr>) = view db" "view (db\<lparr>t_mr_states := rs\<rparr>) = view db"
begin

lemma view_persist:
  "update_commit_state p f db = Inr db1 \<Longrightarrow> view db1 = view db"
  "view (begin_commit_window p ws we cur db) = view db"
  "view (complete_mr_window p now db) = view db"
  by (auto simp: update_commit_state_def begin_commit_window_def complete_mr_window_def view_states split: if_splits)

lemma branch_loop_view:
  "branch_loop env client p ws we bs index rest completed t s = (r, t', s') \<Longrightarrow> view (snd s') = view (snd s)"
proof (induction rest arbitrary: index completed t s)
  case (Cons b rest)
  obtain r1 t1 s1 where pl: "page_loop (sv_fuel env)
      (\<lambda>t. cl_commits client t (pr_project p) \<lparr>cq_since = ws, cq_until = we, cq_ref = b\<rparr>)
      (put_commit env p we) None [] t s = (r1, t1, s1)"
    by (metis prod_cases3)
  have same: "view (snd s1) = view (snd s)"
  proof (rule page_loop_invariant [OF _ _ pl])
    show "put_commit env p we x u = Inr v \<Longrightarrow> True \<Longrightarrow> view (snd u) = view (snd s) \<Longrightarrow>
        view (snd v) = view (snd s)" for x u v
      by (auto simp: put_commit_def upsert_commit_def view_caches split: sum.splits)
  qed (simp_all add: list_all_iff)
  have adv: "view db = view (snd s1)" if "advance_commit_branch p cur (snd s1) = Inr db" for cur db
    using that view_persist(1) by (simp add: advance_commit_branch_def)
  from Cons.prems pl same adv Cons.IH show ?case
    by (auto split: sum.splits list.splits if_splits)
qed simp

lemma sync_commits_view:
  assumes "sync_commits env client p t db = (r, t', db')"
  shows "view db' = view db"
proof -
  have ow: "view db1 = view db" if "open_window p pl db = Inr db1" for pl db1
    using that view_persist by (auto simp: open_window_def advance_commit_branch_def split: if_splits)
  have cw: "view db1 = view db2" if "complete_commit_window p w db2 = Inr db1" for w db1 db2
    using that view_persist(1) by (simp add: complete_commit_window_def)
  show ?thesis
    using assms
    by (auto simp: sync_commits_def Let_def split: prod.splits sum.splits commit_run.splits
        dest!: ow cw branch_loop_view)
qed

lemma sync_merge_requests_view:
  assumes "sync_merge_requests env client p t db = (r, t', db')"
  shows "view db' = view db"
proof -
  obtain u :: instant and r1 t1 n db1 where
    pl: "page_loop (sv_fuel env) (\<lambda>t. cl_mrs client t (pr_project p) u) (put_mr env p) None [] t (0, db) =
      (r1, t1, n, db1)"
    and db': "db' = db1 \<or> db' = complete_mr_window p (sv_clock env t) db1"
    using assms by (auto simp: sync_merge_requests_def Let_def split: prod.splits sum.splits)
  have "view (snd (n, db1)) = view db"
  proof (rule page_loop_invariant [OF _ _ pl])
    show "put_mr env p x u = Inr v \<Longrightarrow> True \<Longrightarrow> view (snd u) = view db \<Longrightarrow> view (snd v) = view db" for x u v
      by (auto simp: put_mr_def upsert_merge_request_def view_caches split: sum.splits)
  qed (simp_all add: list_all_iff)
  with db' view_persist(3) show ?thesis by auto
qed

lemma sync_with_view:
  "sync_with env p client t db = (r, t', db') \<Longrightarrow> view db' = view db"
  by (auto simp: sync_with_def split: prod.splits sum.splits commit_run.splits
      dest!: sync_commits_view sync_merge_requests_view)

end

locale sync_frame = cache_frame +
  assumes view_access: "view (db\<lparr>t_connections := cn\<rparr>) = view db" "view (db\<lparr>t_memberships := mb\<rparr>) = view db"
    "view (db\<lparr>t_credentials := cr\<rparr>) = view db"
begin

lemma view_invalidate: "view (invalidate_missing_credential c db) = view db"
  by (simp add: invalidate_missing_credential_def invalidate_membership_user_instance_def mark_connection_invalid_def
      view_access)

lemma view_rejected:
  assumes "sv_invalidate env = invalidate_credential" and "candidate_rejected env p c e t db = Some db'"
  shows "view db' = view db"
  using assms(2)
  by (auto simp: candidate_rejected_def invalidate_unauthorized_def assms(1) view_invalidate invalidate_credential_def
      deny_project_def deny_membership_def put_membership_def view_access split: sync_error.splits gitlab_error.splits)

lemma sync_project_view:
  assumes "sv_invalidate env = invalidate_credential" and "sync_project env p t db = (r, t', db')"
  shows "view db' = view db"
proof -
  have "try_candidates env p cs t db = (r, t', db') \<Longrightarrow> view db' = view db" for cs t db
  proof (induction cs arbitrary: t db)
    case (Cons c cs)
    from Cons.prems show ?case
      by (auto split: prod.splits sum.splits if_splits option.splits
          dest!: Cons.IH sync_with_view view_rejected [OF assms(1)] simp: view_invalidate)
  qed simp
  with assms(2) show ?thesis by (simp add: sync_project_def)
qed

end

interpretation memberships_frame: cache_frame t_memberships
  by unfold_locales simp_all

interpretation jobs_frame: sync_frame t_jobs
  by unfold_locales simp_all

lemma sync_with_shrinks:
  assumes "sync_with env p client t db = (r, t', db')"
  shows "access_shrinks db db'"
  using assms by (intro access_shrinks_same) (rule memberships_frame.sync_with_view)

lemma try_candidates_shrinks:
  assumes inv: "sv_invalidate env = invalidate_credential"
  shows "try_candidates env p cs t db = (r, t', db') \<Longrightarrow> access_shrinks db db'"
proof (induction cs arbitrary: t db)
  case Nil
  then show ?case by (simp add: access_shrinks_same)
next
  case (Cons c cs)
  note sh = missing_credential_denies(2) candidate_rejected_denies(1) [OF inv] sync_with_shrinks
  from Cons.prems show ?case
    by (auto split: prod.splits sum.splits if_splits option.splits
        intro: access_shrinks_trans [OF sh(1) Cons.IH] access_shrinks_trans [OF sh(2) Cons.IH]
          access_shrinks_trans [OF sh(3) access_shrinks_trans [OF sh(2) Cons.IH]] sh
          access_shrinks_same)
qed

lemma try_candidates_blocked:
  assumes inv: "sv_invalidate env = invalidate_credential"
  shows "try_candidates env p cs t db = (Inr Sync_Blocked_Outcome, t', db') \<Longrightarrow>
    \<forall>c \<in> set cs. cd_instance c = pr_instance p \<Longrightarrow>
    \<forall>c \<in> set cs. no_allowed_membership (cd_user c) p db'"
proof (induction cs arbitrary: t db)
  case (Cons c cs)
  have no_block: "r \<noteq> Inr Sync_Blocked_Outcome" if "sync_with env p client t1 db = (r, t2, db2)"
    for client t1 db r t2 db2
    using that by (auto simp: sync_with_def split: prod.splits sum.splits commit_run.splits)
  obtain t1 db1 where rest: "try_candidates env p cs t1 db1 = (Inr Sync_Blocked_Outcome, t', db')"
    and no: "no_allowed_membership (cd_user c) p db1"
    using Cons.prems missing_credential_denies(1) [of c p] candidate_rejected_denies(2) [OF inv, of p c]
    by (auto split: prod.splits sum.splits if_splits option.splits dest: no_block)
  have "access_shrinks db1 db'" by (rule try_candidates_shrinks [OF inv rest])
  with no have "no_allowed_membership (cd_user c) p db'" by (simp add: access_shrinks_def)
  with Cons.IH [OF rest] Cons.prems(2) show ?case by simp
qed simp

end
