(* ===== verification/SyncProperties.thy ===== *)
theory SyncProperties
  imports SyncProgress
begin

text \<open>
  Termination of the project sync, and the properties of the sync that the development states, with
  a sample project to apply them to.
\<close>

section \<open>Termination\<close>

definition next_in :: "page_cursor set \<Rightarrow> 'a page \<Rightarrow> bool" where
  "next_in C pg \<longleftrightarrow> (\<forall>d. next_page pg = Some d \<longrightarrow> d \<in> C)"

lemma put_items_Inl: "put_items put xs s = (Inl e, s') \<Longrightarrow> \<exists>x u. put x u = Inl e"
  by (induction xs arbitrary: s) (auto split: sum.splits)

text \<open>The repeated-cursor check alone bounds the loop: it ends when the cursors that GitLab ever names
  are finitely many, even if they form a cycle.\<close>

lemma page_loop_ends:
  assumes "\<And>t c pg. fetch t c = Inr pg \<Longrightarrow> next_in C pg" and "finite C"
    and "\<And>x s. put x s \<noteq> Inl Out_Of_Fuel"
  shows "card (cursor_key ` C - set seen) < fuel \<Longrightarrow>
    page_loop fuel fetch put cur seen t s = (r, t', s') \<Longrightarrow> r \<noteq> Inl Out_Of_Fuel"
proof (induction fuel arbitrary: cur seen t s)
  case (Suc fuel)
  from Suc.prems(2) show ?case
  proof (cases rule: page_loop_cases)
    case (stop p r1)
    have "r1 \<noteq> Inl Out_Of_Fuel"
    proof
      assume "r1 = Inl Out_Of_Fuel"
      with put_items_Inl [of put "items p" s Out_Of_Fuel s'] stop(2) assms(3) show False by auto
    qed
    with stop(3) show ?thesis by auto
  next
    case (more p s1 c)
    have "c \<in> C" using assms(1) more(1,3) by (auto simp: next_in_def)
    then have "cursor_key ` C - set (cursor_key c # seen) \<subset> cursor_key ` C - set seen"
      using more(4) by auto
    then have "card (cursor_key ` C - set (cursor_key c # seen)) < card (cursor_key ` C - set seen)"
      using assms(2) by (intro psubset_card_mono) auto
    with Suc.prems(1) have "card (cursor_key ` C - set (cursor_key c # seen)) < fuel" by linarith
    then show ?thesis using more(5) by (rule Suc.IH)
  qed simp
qed simp

definition cursors_bounded :: "page_cursor set \<Rightarrow> sync_env \<Rightarrow> project_ref \<Rightarrow> bool" where
  "cursors_bounded C env p \<longleftrightarrow>
     finite C \<and> card (cursor_key ` C) < sv_fuel env \<and>
     (\<forall>c pat t cur.
        (\<forall>pg. cl_branches (sv_client env c pat) t (pr_project p) cur = Inr pg \<longrightarrow> next_in C pg) \<and>
        (\<forall>q pg. cl_commits (sv_client env c pat) t (pr_project p) q cur = Inr pg \<longrightarrow> next_in C pg) \<and>
        (\<forall>u pg. cl_mrs (sv_client env c pat) t (pr_project p) u cur = Inr pg \<longrightarrow> next_in C pg))"

lemma branch_names_end:
  assumes "cursors_bounded C env p"
    and "list_all_branch_names env (sv_client env c pat) (pr_project p) t = (r, t')"
  shows "r \<noteq> Inl Out_Of_Fuel"
proof -
  obtain r1 s1 where pl: "page_loop (sv_fuel env) (\<lambda>t. cl_branches (sv_client env c pat) t (pr_project p))
      add_name None [] t [] = (r1, t', s1)" and r: "r1 \<noteq> Inl Out_Of_Fuel \<Longrightarrow> ?thesis"
    using assms(2) by (auto simp: list_all_branch_names_def split: prod.splits sum.splits)
  show ?thesis
    by (rule r, rule page_loop_ends [OF _ _ _ _ pl, of C])
      (use assms(1) in \<open>auto simp: cursors_bounded_def add_name_def\<close>)
qed

lemma branch_loop_ends:
  assumes "cursors_bounded C env p"
  shows "branch_loop env (sv_client env c pat) p ws we bs index rest completed t s = (r, t', s') \<Longrightarrow>
    r \<noteq> Inl Out_Of_Fuel"
proof (induction rest arbitrary: index completed t s)
  case (Cons b rest)
  obtain r1 t1 s1 where pl: "page_loop (sv_fuel env)
      (\<lambda>t. cl_commits (sv_client env c pat) t (pr_project p) \<lparr>cq_since = ws, cq_until = we, cq_ref = b\<rparr>)
      (put_commit env p we) None [] t s = (r1, t1, s1)"
    by (metis prod_cases3)
  have "r1 \<noteq> Inl Out_Of_Fuel"
    by (rule page_loop_ends [OF _ _ _ _ pl, of C])
      (use assms in \<open>auto simp: cursors_bounded_def put_commit_def split: sum.splits\<close>)
  with Cons.prems pl Cons.IH show ?case
    by (auto split: sum.splits list.splits if_splits)
qed auto

lemma sync_commits_ends:
  assumes b: "cursors_bounded C env p"
    and "sync_commits env (sv_client env c pat) p t db = (r, t', db')"
  shows "r \<noteq> Inl Out_Of_Fuel"
  using assms(2)
  by (auto simp: sync_commits_def Let_def split: prod.splits sum.splits commit_run.splits
      dest: branch_names_end [OF b] branch_loop_ends [OF b])

lemma sync_merge_requests_ends:
  assumes b: "cursors_bounded C env p"
    and "sync_merge_requests env (sv_client env c pat) p t db = (r, t', db')"
  shows "r \<noteq> Inl Out_Of_Fuel"
proof -
  have "r1 \<noteq> Inl Out_Of_Fuel" if "page_loop (sv_fuel env)
      (\<lambda>t. cl_mrs (sv_client env c pat) t (pr_project p) u) (put_mr env p) None [] t1 s1 =
      (r1, t2, s2)" for u r1 t1 t2 s1 s2
    by (rule page_loop_ends [OF _ _ _ _ that, of C])
      (use b in \<open>auto simp: cursors_bounded_def put_mr_def split: sum.splits\<close>)
  from this [of _ t "(0, db)"] assms(2) show ?thesis
    by (auto simp: sync_merge_requests_def Let_def split: prod.splits sum.splits) blast
qed

lemma sync_with_ends:
  assumes b: "cursors_bounded C env p" and "sync_with env p (sv_client env c pat) t db = (r, t', db')"
  shows "r \<noteq> Inl Out_Of_Fuel"
  using assms(2)
  by (auto simp: sync_with_def split: prod.splits sum.splits commit_run.splits
      dest: sync_commits_ends [OF b] sync_merge_requests_ends [OF b])

lemma access_client_result:
  assumes "access_client env p c t db = (ar, t1)"
  shows "ar \<noteq> Inl Out_Of_Fuel" and "ar = Inr cl \<Longrightarrow> \<exists>pat. cl = sv_client env c pat"
  using assms by (auto simp: access_client_def Let_def split: sum.splits)

lemma try_candidates_ends:
  assumes b: "cursors_bounded C env p"
  shows "try_candidates env p cs t db = (r, t', db') \<Longrightarrow> r \<noteq> Inl Out_Of_Fuel"
proof (induction cs arbitrary: t db)
  case (Cons c cs)
  obtain ar t1 where a: "access_client env p c t db = (ar, t1)" by fastforce
  show ?case
  proof (cases ar)
    case (Inl e)
    with Cons.prems a Cons.IH access_client_result(1) [OF a] show ?thesis
      by (auto split: if_splits option.splits)
  next
    case (Inr cl)
    then obtain pat where cl: "cl = sv_client env c pat" using access_client_result(2) [OF a] by blast
    obtain r1 t2 db2 where w: "sync_with env p cl t1 db = (r1, t2, db2)" by (metis prod_cases3)
    with Cons.prems a Inr Cons.IH sync_with_ends [OF b w [unfolded cl]] show ?thesis
      by (auto split: sum.splits option.splits)
  qed
qed auto

section \<open>Windows\<close>

lemma sync_commits_completed:
  assumes "sync_commits env client p t db = (Inr (Commits_Completed n), t', db')"
  shows "\<exists>s ds t1. get_commit_state p db' = Some s \<and> cs_branch_cursor s = None \<and>
    cs_watermark s = Some (cp_end (plan_commits env (get_commit_state p db) ds (sv_clock env t1)))"
proof -
  obtain ds t1 db2 db3 where
    c: "complete_commit_window p (cp_end (plan_commits env (get_commit_state p db) ds (sv_clock env t1))) db2 =
      Inr db3" and db': "db' = db3"
    using assms
    by (auto simp: sync_commits_def Let_def split: prod.splits sum.splits commit_run.splits)
  have "\<exists>r \<in> set (t_commit_states db2). commit_state_for p r"
    using c by (auto simp: complete_commit_window_def update_commit_state_def split: if_splits)
  then have "get_commit_state p db2 \<noteq> None"
    by (auto simp: get_commit_state_def find_None_iff)
  with complete_state(1) [OF c] db' show ?thesis by fastforce
qed

section \<open>A sample project\<close>

definition sample_commit :: "string \<Rightarrow> gl_commit" where
  "sample_commit sha =
     \<lparr>gc_id = sha, gc_short_id = [], gc_title = ''t'', gc_message = [], gc_author_name = None,
      gc_author_email = Some ''A@x'', gc_authored_date = ''2024-01-01'', gc_web_url = None\<rparr>"

definition sample_cursor :: page_cursor where
  "sample_cursor = \<lparr>pc_page = 2, pc_per_page = 100\<rparr>"

text \<open>Every branch lists two commits on two pages.\<close>

definition sample_history :: history where
  "sample_history q cur =
     (case cur of
        None \<Rightarrow> Page [sample_commit ''c1''] (Some sample_cursor)
      | Some _ \<Rightarrow> Page [sample_commit ''c2''] None)"

definition sample_client :: gl_client where
  "sample_client =
     \<lparr>cl_project = (\<lambda>_ _. Inr \<lparr>gp_id = 42, gp_path = ''g/p'', gp_name = ''p'', gp_archived = False,
        gp_default_branch = None, gp_web_url = None, gp_last_activity = None\<rparr>),
      cl_branches = (\<lambda>_ _ _. Inr (Page [\<lparr>gb_name = ''main'', gb_merged = False, gb_protected = False,
        gb_default = True\<rparr>] None)),
      cl_commits = (\<lambda>_ _ q c. Inr (sample_history q c)),
      cl_mrs = (\<lambda>_ _ _ _. Inr (Page [] None))\<rparr>"

definition sample_env :: sync_env where
  "sample_env =
     \<lparr>sv_client = (\<lambda>_ _. sample_client), sv_token = (\<lambda>_ _. Inr ''glpat-1''),
      sv_invalidate = invalidate_credential, sv_clock = (\<lambda>_. 1700000000000),
      sv_stop = (\<lambda>_ _ _. False), sv_cmp = (\<lambda>_ _. 0), sv_nfkc = (\<lambda>s. s),
      sv_date = (\<lambda>_. Some 1600000000000), sv_overlap = default_commit_lookback_overlap_ms,
      sv_fuel = 10\<rparr>"

definition sync_sample_db :: database where
  "sync_sample_db = sample_db\<lparr>t_instances := [\<lparr>gi_id = ''gi1'', gi_base_url = ''https://g'',
     gi_label = None, gi_internal = False, gi_created_at = 0\<rparr>]\<rparr>"

lemma sample_tells: "tells_history sample_history {''main''} p sample_client"
  by (simp add: tells_history_def branch_bound_def max_safe_integer_def answers_def sample_client_def)

lemma sample_env_ok: "env_ok sample_history {''main''} p sample_env"
  using sample_tells by (simp add: env_ok_def) (simp add: sample_env_def)

lemma sample_candidates:
  "find_candidates sample_project sync_sample_db =
     [\<lparr>cd_connection = ''u1gi1'', cd_user = ''u1'', cd_instance = ''gi1'', cd_base_url = ''https://g'',
       cd_internal = False\<rparr>]"
  by (simp add: find_candidates_def project_allowlisted_def sync_sample_db_def sample_db_def
      is_candidate_row_def sample_project_def sample_connection_def user_active_def sample_user_def
      project_enabled_def to_candidate_def map_filter_simps)

lemma sample_cursor_key: "cursor_key sample_cursor = ''2:100''"
  by (simp add: cursor_key_def sample_cursor_def show_nat.simps digit_char_def) code_simp

lemma sample_branches:
  "list_all_branch_names sample_env sample_client ''42'' t = (Inr [''main''], t + 1)"
  by (simp add: list_all_branch_names_def sample_env_def sample_client_def numeral_eq_Suc add_name_def
      checked_next_cursor_def sort_by_def)


definition sample_row :: "project_ref \<Rightarrow> instant \<Rightarrow> string \<Rightarrow> commit_row" where
  "sample_row p we sha =
     \<lparr>cc_instance = pr_instance p, cc_project = pr_project p, cc_sha = sha,
      cc_email = clean_email (Some ''A@x''),
      cc_norm = normalize_author_email (\<lambda>s. s) (clean_email (Some ''A@x'')),
      cc_authored_at = 1600000000000, cc_title = Some ''t'', cc_url = None, cc_raw_at = we\<rparr>"

lemma sample_put:
  "put_commit sample_env p we (sample_commit sha) s =
     Inr (fst s + 1, upsert_commit (sample_row p we sha) (snd s))"
  by (simp add: put_commit_def to_commit_write_def sample_commit_def sample_env_def sample_row_def
      non_empty_def Let_def)

lemma sample_fuel: "\<exists>k. sv_fuel sample_env = Suc (Suc k)"
  by (intro exI [of _ 8]) (simp add: sample_env_def)

lemma sample_listing:
  "cl_commits sample_client t prj q None = Inr (Page [sample_commit ''c1''] (Some sample_cursor))"
  "cl_commits sample_client t prj q (Some c) = Inr (Page [sample_commit ''c2''] None)"
  by (simp_all add: sample_client_def sample_history_def)

lemma sample_pages:
  "\<exists>db1. page_loop (sv_fuel sample_env) (\<lambda>t. cl_commits sample_client t prj q)
      (put_commit sample_env p we) None [] t (n, db) = (Inr (), t + 2, n + 2, db1) \<and>
    t_commit_states db1 = t_commit_states db"
proof -
  obtain k where "sv_fuel sample_env = Suc (Suc k)" using sample_fuel by blast
  then show ?thesis
    by (simp add: sample_listing sample_put checked_next_cursor_def upsert_commit_def)
qed

lemma sample_mrs:
  "sync_merge_requests sample_env sample_client p t db =
     (Inr 0, t + 1, complete_mr_window p 1700000000000 db)"
  by (simp add: sync_merge_requests_def sample_env_def sample_client_def numeral_eq_Suc
      checked_next_cursor_def)

lemma sample_commits:
  assumes "get_commit_state p db = None" "pr_project p = ''42''"
  shows "\<exists>db'. sync_commits sample_env sample_client p t db = (Inr (Commits_Completed 2), t + 3, db')"
proof -
  let ?db1 = "begin_commit_window p commit_cold_start_since 1700000000000
    (Some (encode_branch_continuation [''main''] 0)) db"
  obtain db2 where d2: "page_loop (sv_fuel sample_env)
      (\<lambda>t. cl_commits sample_client t ''42'' \<lparr>cq_since = commit_cold_start_since,
        cq_until = 1700000000000, cq_ref = ''main''\<rparr>)
      (put_commit sample_env p 1700000000000) None [] (t + 1) (0, ?db1) =
      (Inr (), t + 1 + 2, 0 + 2, db2)" "t_commit_states db2 = t_commit_states ?db1"
    using sample_pages by blast
  have "\<exists>r \<in> set (t_commit_states ?db1). commit_state_for p r"
    unfolding begin_commit_window_def
    by (simp, rule upsert_where_new) (simp_all add: commit_state_for_def)
  then obtain db3 where "complete_commit_window p 1700000000000 db2 = Inr db3"
    using d2(2) by (auto simp: complete_commit_window_def update_commit_state_def)
  moreover have "sv_clock sample_env t' = 1700000000000" for t' by (simp add: sample_env_def)
  ultimately show ?thesis
    using d2(1) assms
    by (simp add: sync_commits_def sample_branches plan_commits_def unfinished_def fresh_start_def
        open_window_def)
qed

lemma sample_sync_db:
  assumes "find_candidates sample_project db = [c]" and "get_commit_state sample_project db = None"
  shows "\<exists>db'. sync_project sample_env sample_project 0 db = (Inr (Sync_Completed 2 0), 5, db')"
proof -
  obtain db' where c: "sync_commits sample_env sample_client sample_project 1 db = (Inr (Commits_Completed 2), 1 + 3, db')"
    using sample_commits [OF assms(2), of 1] by (auto simp: sample_project_def)
  have "access_client sample_env sample_project cd 0 db = (Inr sample_client, 1)" for cd db
    by (simp add: access_client_def sample_env_def sample_client_def)
  then show ?thesis
    using c by (simp add: sync_project_def assms(1) sync_with_def sample_mrs)
qed

lemma sample_sync:
  "\<exists>db'. sync_project sample_env sample_project 0 sync_sample_db = (Inr (Sync_Completed 2 0), 5, db')"
  by (rule sample_sync_db [OF sample_candidates])
    (simp add: get_commit_state_def sync_sample_db_def sample_db_def empty_db_def)

section \<open>Properties\<close>





text \<open>C14. A sync that reports that no candidate is authorised leaves no candidate an allowed
  membership of the project in the cache.\<close>

theorem blocked_sync_denies_all:
  assumes "sv_invalidate env = invalidate_credential"
    and "sync_project env p t db = (Inr Sync_Blocked_Outcome, t', db')"
    and "c \<in> set (find_candidates p db)" and "m \<in> set (t_memberships db')"
    and "membership_for (cd_user c) p m"
  shows "\<not> mb_allowed m"
proof -
  have "\<forall>c \<in> set (find_candidates p db). cd_instance c = pr_instance p"
    by (auto simp: find_candidates_def List.map_filter_def is_candidate_row_def to_candidate_def
        split: if_splits option.splits)
  from try_candidates_blocked [OF assms(1) assms(2) [unfolded sync_project_def] this]
  show ?thesis using assms(3-5) by (auto simp: no_allowed_membership_def)
qed

definition refusing_env :: sync_env where
  "refusing_env = sample_env
     \<lparr>sv_client := \<lambda>_ _. sample_client\<lparr>cl_project := \<lambda>_ _. Inl Gl_Project_Not_Found\<rparr>\<rparr>"

lemma refusing_sync:
  "sync_project refusing_env sample_project 0 sync_sample_db =
     (Inr Sync_Blocked_Outcome, 1, deny_membership ''u1'' sample_project 1700000000000 sync_sample_db)"
  by (simp add: sync_project_def sample_candidates access_client_def refusing_env_def sample_env_def
      candidate_rejected_def deny_project_def)

theorem blocked_sync_denies_all_witness:
  "\<exists>m. m \<in> set (t_memberships (deny_membership ''u1'' sample_project 1700000000000 sync_sample_db)) \<and>
     membership_for ''u1'' sample_project m \<and> \<not> mb_allowed m"
proof -
  let ?m = "\<lparr>mb_user = ''u1'', mb_instance = pr_instance sample_project,
    mb_project = pr_project sample_project, mb_allowed = False, mb_checked_at = 1700000000000,
    mb_expires_at = 1700000300000\<rparr>"
  have m: "?m \<in> set (t_memberships (deny_membership ''u1'' sample_project 1700000000000 sync_sample_db))"
    by (simp add: deny_membership_def put_membership_def upsert_where_def sync_sample_db_def
        sample_db_def empty_db_def membership_denied_ttl_ms_def)
  have inv: "sv_invalidate refusing_env = invalidate_credential"
    by (simp add: refusing_env_def sample_env_def)
  have c: "\<lparr>cd_connection = ''u1gi1'', cd_user = ''u1'', cd_instance = ''gi1'',
      cd_base_url = ''https://g'', cd_internal = False\<rparr> \<in> set (find_candidates sample_project sync_sample_db)"
    by (simp add: sample_candidates)
  have "membership_for ''u1'' sample_project ?m" by (simp add: membership_for_def)
  with blocked_sync_denies_all [OF inv refusing_sync c m] m show ?thesis by auto
qed

text \<open>C15. The project sync ends: when the cursors that GitLab names in the project's listings are
  finitely many (fewer than the fuel), even in a cycle, a run always comes back with an outcome or
  an error of its own, never by exhausting the fuel.\<close>

theorem sync_terminates:
  assumes "cursors_bounded C env p"
  shows "fst (sync_project env p t db) \<noteq> Inl Out_Of_Fuel"
  using try_candidates_ends [OF assms, of "find_candidates p db" t db]
  by (cases "sync_project env p t db") (simp add: sync_project_def)

theorem sync_terminates_witness:
  "fst (sync_project sample_env sample_project 0 sync_sample_db) \<noteq> Inl Out_Of_Fuel"
proof (rule sync_terminates [of "{sample_cursor}"])
  show "cursors_bounded {sample_cursor} sample_env sample_project"
    by (auto simp: cursors_bounded_def next_in_def sample_env_def sample_client_def
        sample_history_def split: option.splits)
qed

text \<open>The saved continuation is read back as it was written, and the fallback for an old
  branch-name cursor resumes exactly at the first branch that is not before it.\<close>

theorem continuation_and_fallback:
  assumes "int i \<le> max_safe_integer"
    and "\<forall>i j. i \<le> j \<longrightarrow> j < length bs \<longrightarrow> cmp (bs ! j) cur < 0 \<longrightarrow> cmp (bs ! i) cur < 0"
  shows "decode_branch_continuation (encode_branch_continuation names i) = Some (names, i) \<and>
    lower_bound cmp bs cur \<le> length bs \<and>
    (\<forall>i < lower_bound cmp bs cur. cmp (bs ! i) cur < 0) \<and>
    (\<forall>i. lower_bound cmp bs cur \<le> i \<and> i < length bs \<longrightarrow> \<not> cmp (bs ! i) cur < 0)"
proof -
  note b = bisect_correct [of 0 "length bs" bs cmp cur]
  show ?thesis
    using continuation_roundtrip [OF assms(1)] b assms(2) by (simp add: lower_bound_def)
qed

theorem continuation_and_fallback_witness:
  "decode_branch_continuation (encode_branch_continuation [''dev'', ''main''] 1) =
     Some ([''dev'', ''main''], 1)"
  using continuation_and_fallback [of 1 "[]" "\<lambda>_ _. 0" "[]" "[''dev'', ''main'']"]
  by (simp add: max_safe_integer_def)

end
