(* ===== verification/WorkerRuntime.thy ===== *)
theory WorkerRuntime
  imports Worker SyncProperties GitLabClient EnvCheck
begin

text \<open>
  The worker process: \<open>apps/worker/src/runtime.ts\<close> puts the orchestrator, the queue, the scheduler and the
  audit together from the environment, \<open>runWorkerLoop\<close> of \<open>worker-loop.ts\<close> repeats the iteration until the
  process is told to stop, and \<open>main\<close> of \<open>index.ts\<close> runs the preflight first. What a turn of the loop sees
  of the outside (clock, network, other transactions, signals) is a record.
\<close>

section \<open>The GitLab client of a job\<close>

record run_world =
  rw_api :: url_api
  rw_param_of :: "url \<Rightarrow> string \<Rightarrow> string option"
  rw_iso :: "instant \<Rightarrow> string"
  rw_http :: "nat \<Rightarrow> http_env"
  rw_clock :: "nat \<Rightarrow> instant"
  rw_cmp :: "string \<Rightarrow> string \<Rightarrow> int"
  rw_nfkc :: "string \<Rightarrow> string"
  rw_date :: "string \<Rightarrow> instant option"
  rw_fuel :: nat

text \<open>The client for one candidate: its allowlist has one entry, the candidate's own instance, and its
  credential is the candidate's token. \<open>rw_http\<close> at a call is the outside during that call.\<close>

definition candidate_client :: "run_world \<Rightarrow> candidate \<Rightarrow> string \<Rightarrow> gitlab_error + (nat \<Rightarrow> read_client)" where
  "candidate_client w c pat =
     bind_err (create_gitlab_allowlist (rw_api w) True [(cd_base_url c, cd_internal c)]) (\<lambda>al.
     bind_err (create_read_client (rw_api w) (rw_param_of w) (rw_iso w) (cd_base_url c) (rw_http w 0)) (\<lambda>rc.
       Inr (\<lambda>t. rc\<lparr>rc_env := (rw_http w t)\<lparr>he_allow := al, he_token := pat\<rparr>\<rparr>)))"

text \<open>A factory that throws ends the attempt with this candidate as a first call that throws does.\<close>

definition throwing_client :: "gitlab_error \<Rightarrow> gl_client" where
  "throwing_client e = \<lparr>cl_project = (\<lambda>_ _. Inl e), cl_branches = (\<lambda>_ _ _. Inl e),
     cl_commits = (\<lambda>_ _ _ _. Inl e), cl_mrs = (\<lambda>_ _ _ _. Inl e)\<rparr>"

definition default_sync_client :: "run_world \<Rightarrow> candidate \<Rightarrow> string \<Rightarrow> gl_client" where
  "default_sync_client w c pat =
     (case candidate_client w c pat of Inl e \<Rightarrow> throwing_client e | Inr rc \<Rightarrow> sync_client rc)"

section \<open>The runtime\<close>

record worker_deps =
  wk_config :: sync_runtime_config
  wk_id :: string
  wk_gcm :: aead
  wk_loader :: key_loader

datatype runtime_error = Runtime_Config string | Runtime_Key crypto_error | Runtime_Queue queue_error | Runtime_Interval

definition create_worker_runtime :: "aead \<Rightarrow> string \<Rightarrow> env \<Rightarrow> runtime_error + worker_deps" where
  "create_worker_runtime g wid env =
     (case parse_sync_runtime_config env of
        Inl e \<Rightarrow> Inl (Runtime_Config e)
      | Inr cfg \<Rightarrow>
          (case create_env_key_loader env of
             Inl e \<Rightarrow> Inl (Runtime_Key e)
           | Inr kl \<Rightarrow>
               (case new_job_queue (Some (sc_stale cfg)) of
                  Inl e \<Rightarrow> Inl (Runtime_Queue e)
                | Inr _ \<Rightarrow>
                    if sc_poll cfg \<le> 0 \<or> max_safe_integer < sc_poll cfg then Inl Runtime_Interval
                    else Inr \<lparr>wk_config = cfg, wk_id = wid, wk_gcm = g, wk_loader = kl\<rparr>)))"

text \<open>\<open>ElapsedSyncBudget\<close>, and the orchestrator built for one job; \<open>startedAtMs\<close> is the clock before its first
  call.\<close>

definition should_stop_between_branches :: "instant \<Rightarrow> int \<Rightarrow> instant \<Rightarrow> bool" where
  "should_stop_between_branches started budget now \<longleftrightarrow> budget \<le> now - started"

definition job_sync_env :: "worker_deps \<Rightarrow> run_world \<Rightarrow> sync_env" where
  "job_sync_env d w = \<lparr>sv_client = default_sync_client w, sv_token = get_access_token (wk_gcm d) (wk_loader d),
     sv_invalidate = invalidate_credential, sv_clock = rw_clock w,
     sv_stop = (\<lambda>t _ _. should_stop_between_branches (rw_clock w 0) (sc_budget (wk_config d) * 1000) (rw_clock w t)),
     sv_cmp = rw_cmp w, sv_nfkc = rw_nfkc w, sv_date = rw_date w, sv_overlap = sc_overlap (wk_config d) * 1000,
     sv_fuel = rw_fuel w\<rparr>"

fun job_outcome :: "project_outcome \<Rightarrow> sync_outcome" where
  "job_outcome (Sync_Completed c m) = Outcome_Completed c m"
| "job_outcome (Sync_Paused c m b) = Outcome_Paused c m b"
| "job_outcome Sync_Blocked_Outcome = Outcome_Blocked"

definition job_ref :: "sync_job \<Rightarrow> project_ref" where
  "job_ref job = \<lparr>pr_instance = sj_instance job, pr_project = sj_project job\<rparr>"

definition execute_sync :: "sync_env \<Rightarrow> sync_job \<Rightarrow> database \<Rightarrow> exec_result \<times> database" where
  "execute_sync env job db =
     (case sync_project env (job_ref job) 0 db of
        (Inl _, _, db') \<Rightarrow> (Threw, db')
      | (Inr r, _, db') \<Rightarrow> (Returned (job_outcome r), db'))"

section \<open>The loop\<close>

record turn =
  tn_aborted :: bool
  tn_now :: instant
  tn_locked :: "string set"
  tn_new_id :: "string list \<Rightarrow> string"
  tn_audit_ok :: bool
  tn_events :: "sync_job \<Rightarrow> exec_event list"
  tn_world :: run_world
  tn_end :: instant

definition heartbeat_interval_ms :: int where
  "heartbeat_interval_ms = 60000"

definition iterate :: "worker_deps \<Rightarrow> turn \<Rightarrow> database \<Rightarrow> (worker_error + iteration_result) \<times> database" where
  "iterate d tn db =
     run_worker_iteration (tn_new_id tn) (sc_stale (wk_config d)) (sc_poll (wk_config d)) heartbeat_interval_ms (tn_now tn)
       (tn_locked tn) (wk_id d) (tn_audit_ok tn) (tn_events tn) (execute_sync (job_sync_env d (tn_world tn))) (tn_end tn) db"

text \<open>Where the turns run out the loop is still running. The log is of the results, an idle one being followed
  by the sleep.\<close>

datatype loop_end = Loop_Stopped | Loop_Crashed worker_error | Loop_Running

fun run_worker_loop ::
    "(turn \<Rightarrow> database \<Rightarrow> (worker_error + iteration_result) \<times> database) \<Rightarrow> turn list \<Rightarrow> database \<Rightarrow>
     loop_end \<times> iteration_result list \<times> database" where
  "run_worker_loop iter [] db = (Loop_Running, [], db)"
| "run_worker_loop iter (tn # tns) db =
     (if tn_aborted tn then (Loop_Stopped, [], db)
      else case iter tn db of
        (Inl e, db1) \<Rightarrow> (Loop_Crashed e, [], db1)
      | (Inr r, db1) \<Rightarrow> (case run_worker_loop iter tns db1 of (st, rs, db2) \<Rightarrow> (st, r # rs, db2)))"

section \<open>The process\<close>

text \<open>\<open>main\<close> and its \<open>catch\<close>, in the environment that \<open>loadMonorepoEnv\<close> leaves: the exit code (\<open>None\<close> while it runs), the lines printed and the database.\<close>

definition banner :: "bool \<Rightarrow> string" where
  "banner db_ok = json_stringify (JObj [(''service'', JStr ''reviewpulse-worker''), (''milestone'', JStr ''M1''),
     (''workPackage'', JStr ''WP6''), (''database'', JStr (if db_ok then ''ok'' else ''fail'')), (''mode'', JStr ''sync'')])"

definition fatal_line :: string where
  "fatal_line = ''[reviewpulse-worker] fatal worker error''"

definition worker_main ::
    "(string \<Rightarrow> env_url option) \<Rightarrow> aead \<Rightarrow> string \<Rightarrow> env \<Rightarrow> bool \<Rightarrow> turn list \<Rightarrow> database \<Rightarrow>
     nat option \<times> string list \<times> database" where
  "worker_main new_url g wid env db_ok tns db =
     (case assert_runtime_env new_url env of
        (Inl _, ls) \<Rightarrow> (Some 1, ls @ [fatal_line], db)
      | (Inr _, ls) \<Rightarrow>
          if \<not> db_ok then (Some 1, ls @ [banner False, fatal_line], db)
          else case create_worker_runtime g wid env of
            Inl _ \<Rightarrow> (Some 1, ls @ [banner True, fatal_line], db)
          | Inr d \<Rightarrow>
              (case run_worker_loop (iterate d) tns db of
                 (Loop_Running, _, db1) \<Rightarrow> (None, ls @ [banner True], db1)
               | (Loop_Stopped, _, db1) \<Rightarrow> (Some 0, ls @ [banner True], db1)
               | (Loop_Crashed _, _, db1) \<Rightarrow> (Some 1, ls @ [banner True, fatal_line], db1)))"

end
