(* ===== verification/WorkerProperties.thy ===== *)
theory WorkerProperties
  imports WorkerRuntime
begin

text \<open>
  What the worker process guarantees: a turn of the loop leaves no claim of the worker behind, so that a
  worker that is told to stop strands no job; a job is completed only when its project's window is closed;
  a token is sent to its own instance only.
\<close>

section \<open>Claims of a worker\<close>

definition claims :: "string \<Rightarrow> job_row \<Rightarrow> bool" where
  "claims w j \<longleftrightarrow> j_status j = Running \<and> j_claimed_by j = Some w"

definition no_claims :: "string \<Rightarrow> job_row list \<Rightarrow> bool" where
  "no_claims w js \<longleftrightarrow> (\<forall>j \<in> set js. \<not> claims w j)"

definition claims_only :: "string \<Rightarrow> string \<Rightarrow> job_row list \<Rightarrow> bool" where
  "claims_only w jid js \<longleftrightarrow> (\<forall>j \<in> set js. claims w j \<longrightarrow> j_id j = jid)"

text \<open>What the others do to the queue keeps its invariant and claims nothing in the worker's name, and the
  worker's heartbeats get through to the database.\<close>

definition honest :: "string \<Rightarrow> exec_event list \<Rightarrow> bool" where
  "honest w es \<longleftrightarrow> Beat_Error \<notin> set es \<and>
     (\<forall>f js. Others f \<in> set es \<longrightarrow> jobs_ok js \<longrightarrow> jobs_ok (f js) \<and>
        (\<forall>j \<in> set (f js). claims w j \<longrightarrow> (\<exists>k \<in> set js. claims w k \<and> j_id k = j_id j)))"

lemma no_claims_only: "no_claims w js \<Longrightarrow> claims_only w jid js"
  by (simp add: no_claims_def claims_only_def)

lemma owned_claims: "owned jid w j \<longleftrightarrow> j_id j = jid \<and> claims w j"
  by (auto simp: owned_def claims_def)

lemma no_claims_iff: "claims_only w jid js \<Longrightarrow> no_claims w js \<longleftrightarrow> count_where (owned jid w) js = 0"
  by (auto simp: no_claims_def claims_only_def owned_claims count_where_def filter_empty_conv)

section \<open>The start of a turn\<close>

lemma no_claims_upd: "no_claims w js \<Longrightarrow> (\<And>j. P j \<Longrightarrow> \<not> claims w (f j)) \<Longrightarrow> no_claims w (upd_where P f js)"
  by (auto simp: no_claims_def set_upd_where)

lemma no_claims_recover: "no_claims w js \<Longrightarrow> no_claims w (snd (recover_stale_claims now stale js))"
  by (simp add: recover_stale_claims_def) (rule no_claims_upd, auto simp: claims_def recover_row_def Let_def)

lemma no_claims_schedule_loop:
  "no_claims w js \<Longrightarrow> no_claims w (snd (snd (schedule_loop new_id interval now ps (a, b, js))))"
proof (induction ps arbitrary: a b js)
  case (Cons p ps)
  have "no_claims w (snd (schedule_target new_id interval now p js))"
    by (rule schedule_target_cases [of new_id interval now p js])
      (use Cons.prems in \<open>auto simp: no_claims_def claims_def new_job_def\<close>)
  with Cons.IH show ?case by (auto split: prod.split bool.split)
qed simp

lemma begin_claims:
  assumes ok: "jobs_ok (t_jobs db)" and no: "no_claims w (t_jobs db)" and fresh: "fresh_ids new_id" and w: "js_trim w \<noteq> []"
    and b: "worker_begin new_id stale interval now locked w db = (r, db')"
  obtains (idle) "r = Inr None" "no_claims w (t_jobs db')"
  | (job) job where "r = Inr (Some job)" "claims_only w (sj_id job) (t_jobs db')" "1 \<le> sj_attempts job"
      "\<exists>j \<in> set (t_jobs db'). to_sync_job j = Inr job"
proof -
  define db1 where "db1 = db\<lparr>t_jobs := snd (recover_stale_claims now stale (t_jobs db))\<rparr>"
  define js where "js = t_jobs (snd (schedule new_id interval now db1))"
  have no1: "no_claims w js"
    using no_claims_schedule_loop [OF no_claims_recover [OF no]]
    by (simp add: js_def db1_def schedule_def Let_def split: prod.split) (metis snd_conv)
  have ok1: "jobs_ok js" unfolding js_def
    by (rule jobs_ok_schedule) (use fresh ok in \<open>simp_all add: db1_def jobs_ok_recover\<close>)
  have r: "r = fst (claim now locked w js)" and db': "t_jobs db' = snd (claim now locked w js)"
    using b by (auto simp: worker_begin_def Let_def js_def db1_def split: prod.splits)
  from ok1 w show thesis
  proof (cases rule: claim_cases [where now = now and locked = locked])
    case none
    with no1 r db' show thesis by (intro idle) simp_all
  next
    case (some j s)
    have s: "sj_id s = j_id j" "1 \<le> sj_attempts s"
      using to_sync_job_Inr [OF some(3)] by (simp_all add: claim_row_def)
    have "claims_only w (sj_id s) (t_jobs db')"
      using no1 by (auto simp: db' some(1) claims_only_def no_claims_def set_upd_where s claim_row_def)
    moreover have "\<exists>i \<in> set (t_jobs db'). to_sync_job i = Inr s"
      using some(2,3) by (auto simp: db' some(1) set_upd_where earliest_def)
    ultimately show thesis using r some(1) s(2) by (intro job [of s]) simp_all
  qed
qed

section \<open>The run and its end\<close>

lemma run_events_claims:
  assumes "honest w es" and "jobs_ok js" and "claims_only w jid js" and "lost \<longrightarrow> no_claims w js"
    and "run_events jid w es (lost, js) = (lost', js')"
  shows "jobs_ok js' \<and> claims_only w jid js' \<and> (lost' \<longrightarrow> no_claims w js')"
  using assms
proof (induction es arbitrary: lost js)
  case (Cons e es)
  have h: "honest w es" using Cons.prems(1) by (auto simp: honest_def)
  show ?case
  proof (cases e)
    case (Others f)
    have f: "jobs_ok (f js)" "\<forall>j \<in> set (f js). claims w j \<longrightarrow> (\<exists>k \<in> set js. claims w k \<and> j_id k = j_id j)"
      using Cons.prems(1,2) Others by (auto simp: honest_def)
    from f(2) Cons.prems(3,4) have "claims_only w jid (f js)" "lost \<longrightarrow> no_claims w (f js)"
      by (fastforce simp: claims_only_def no_claims_def)+
    from Cons.IH [OF h f(1) this] Cons.prems(5) Others show ?thesis by simp
  next
    case (Beat t)
    obtain kept js1 where b: "heartbeat t jid w js = (kept, js1)" by fastforce
    have ok1: "jobs_ok js1" using heartbeat_q.oper_invar [OF Cons.prems(2), of t jid w] b by simp
    have js1: "js1 = upd_where (owned jid w) (heartbeat_row t) js" and k: "kept \<longleftrightarrow> 0 < count_where (owned jid w) js"
      using b by (auto simp: heartbeat_def own_update_def)
    have only: "claims_only w jid js1"
      using Cons.prems(3) by (auto simp: js1 claims_only_def set_upd_where owned_claims heartbeat_row_def claims_def)
    have "lost \<or> \<not> kept \<longrightarrow> no_claims w js1"
    proof
      assume "lost \<or> \<not> kept"
      then have "no_claims w js" using Cons.prems(3,4) k no_claims_iff by auto
      moreover from this have "js1 = js"
        unfolding js1 by (intro upd_where_none) (auto simp: no_claims_def owned_claims)
      ultimately show "no_claims w js1" by simp
    qed
    from Cons.IH [OF h ok1 only this] Cons.prems(5) Beat b show ?thesis by simp
  next
    case Beat_Error
    with Cons.prems(1) show ?thesis by (simp add: honest_def)
  qed
qed simp

lemma finish_op_upd:
  "snd (finish_op now w job result js) = upd_where (owned (sj_id job) w) (finished_row now job result) js"
  by (cases "(now, job, result)" rule: finished_result.cases) (auto simp: own_ops own_update_def sanitize_values)

lemma finish_claims:
  assumes "claims_only w (sj_id job) js"
  shows "no_claims w (snd (finish_op now w job result js))"
  using assms finish_q.releases
  by (auto simp: finish_op_upd no_claims_def claims_only_def set_upd_where owned_claims claims_def)

text \<open>One turn of a worker whose execution leaves the queue alone.\<close>

lemma iteration_claims:
  assumes ok: "jobs_ok (t_jobs db)" and no: "no_claims w (t_jobs db)" and fresh: "fresh_ids new_id" and w: "js_trim w \<noteq> []"
    and honest: "\<And>job. honest w (events job)" and frame: "\<And>job db r db'. execute job db = (r, db') \<Longrightarrow> t_jobs db' = t_jobs db"
    and run: "run_worker_iteration new_id stale interval heartbeat_interval_ms now locked w audit_ok events execute end_now db = (res, db')"
  shows "jobs_ok (t_jobs db') \<and> no_claims w (t_jobs db') \<and> (\<exists>r. res = Inr r)"
proof -
  obtain r db1 where b: "worker_begin new_id stale interval now locked w db = (r, db1)" by fastforce
  have ok1: "jobs_ok (t_jobs db1)"
    using jobs_ok_worker_begin [OF fresh ok, of stale interval now locked w] b by simp
  have beat: "\<not> (heartbeat_interval_ms \<le> 0 \<or> max_safe_integer < heartbeat_interval_ms)"
    by (simp add: heartbeat_interval_ms_def max_safe_integer_def)
  from ok no fresh w b show ?thesis
  proof (cases rule: begin_claims)
    case idle
    with run beat b ok1 show ?thesis by (auto simp: run_worker_iteration_def)
  next
    case (job job)
    define db2 where "db2 = safe_audit audit_ok ''sync_started'' job [] db1"
    obtain result db3 where e: "execute job db2 = (result, db3)" by fastforce
    have js3: "t_jobs db3 = t_jobs db1" using frame [OF e] by (simp add: db2_def)
    obtain lost js where ev: "run_events (sj_id job) w (events job) (False, t_jobs db3) = (lost, js)" by fastforce
    have ev': "jobs_ok js \<and> claims_only w (sj_id job) js \<and> (lost \<longrightarrow> no_claims w js)"
      by (rule run_events_claims [OF honest _ _ _ ev]) (use js3 ok1 job(2) in simp_all)
    have f: "worker_finish end_now w audit_ok job result lost (db3\<lparr>t_jobs := js\<rparr>) = (res, db')"
      using run beat b job(1) e ev by (simp add: run_worker_iteration_def db2_def)
    show ?thesis
    proof (cases lost)
      case True
      with f ev' show ?thesis by (auto simp: worker_finish_def)
    next
      case False
      note op = worker_finish_op [OF job(3), of end_now w audit_ok result "db3\<lparr>t_jobs := js\<rparr>"]
      from f False have "t_jobs db' = snd (finish_op end_now w job result js)" "\<exists>r. res = Inr r"
        using op by auto
      with ev' show ?thesis
        using finish_claims [of w job js end_now result] finish_invar [of js end_now w job result] by auto
    qed
  qed
qed

lemma execute_sync_jobs:
  "sv_invalidate env = invalidate_credential \<Longrightarrow> execute_sync env job db = (r, db') \<Longrightarrow> t_jobs db' = t_jobs db"
  using jobs_frame.sync_project_view [of env "job_ref job" 0 db]
  by (auto simp: execute_sync_def split: prod.splits sum.splits)

lemma job_sync_invalidate: "sv_invalidate (job_sync_env d wd) = invalidate_credential"
  by (simp add: job_sync_env_def)

definition turn_ok :: "string \<Rightarrow> turn \<Rightarrow> bool" where
  "turn_ok w tn \<longleftrightarrow> fresh_ids (tn_new_id tn) \<and> (\<forall>job. honest w (tn_events tn job))"

lemma loop_leaves_no_claim:
  assumes "jobs_ok (t_jobs db)" and "no_claims (wk_id d) (t_jobs db)" and "js_trim (wk_id d) \<noteq> []"
    and "list_all (turn_ok (wk_id d)) tns" and "run_worker_loop (iterate d) tns db = (st, rs, db')"
  shows "no_claims (wk_id d) (t_jobs db') \<and> jobs_ok (t_jobs db') \<and>
    st = (if list_ex tn_aborted tns then Loop_Stopped else Loop_Running)"
  using assms
proof (induction tns arbitrary: db rs)
  case (Cons tn tns)
  show ?case
  proof (cases "tn_aborted tn")
    case False
    obtain res db1 where i: "iterate d tn db = (res, db1)" by fastforce
    have t: "turn_ok (wk_id d) tn" using Cons.prems(4) by simp
    have 1: "jobs_ok (t_jobs db1) \<and> no_claims (wk_id d) (t_jobs db1) \<and> (\<exists>r. res = Inr r)"
      by (rule iteration_claims [OF Cons.prems(1,2) _ Cons.prems(3) _ execute_sync_jobs [OF job_sync_invalidate] i [unfolded iterate_def]])
        (use t in \<open>simp_all add: turn_ok_def\<close>)
    then obtain r where r: "res = Inr r" by blast
    obtain rs' where l: "run_worker_loop (iterate d) tns db1 = (st, rs', db')"
      using Cons.prems(5) False i r by (auto split: prod.splits)
    with Cons.IH [OF _ _ Cons.prems(3) _ l] 1 Cons.prems(4) False show ?thesis by simp
  qed (use Cons.prems in auto)
qed simp

section \<open>A completed sync\<close>

definition window_closed :: "project_ref \<Rightarrow> database \<Rightarrow> bool" where
  "window_closed p db \<longleftrightarrow>
     (\<exists>s m. get_commit_state p db = Some s \<and> cs_branch_cursor s = None \<and> cs_watermark s \<noteq> None \<and>
        get_mr_state p db = Some m \<and> ms_updated_after m \<noteq> None)"

lemma sync_commits_closed:
  assumes "sync_commits env client p t db = (Inr (Commits_Completed n), t', db')"
  shows "\<exists>s. get_commit_state p db' = Some s \<and> cs_branch_cursor s = None \<and> cs_watermark s \<noteq> None"
proof -
  obtain wm db2 where c: "complete_commit_window p wm db2 = Inr db'"
    using assms by (auto simp: sync_commits_def Let_def split: prod.splits sum.splits commit_run.splits)
  then have "get_commit_state p db2 \<noteq> None"
    by (auto simp: complete_commit_window_def update_commit_state_def get_commit_state_def find_None_iff split: if_splits)
  with complete_state(1) [OF c] show ?thesis by auto
qed

lemma sync_merge_requests_closed:
  assumes "sync_merge_requests env client p t db = (Inr n, t', db')"
  shows "get_commit_state p db' = get_commit_state p db \<and> (\<exists>m. get_mr_state p db' = Some m \<and> ms_updated_after m \<noteq> None)"
proof -
  have "grows p db db'" by (rule sync_merge_requests_grows [OF assms])
  moreover obtain db1 now where "db' = complete_mr_window p now db1"
    using assms by (auto simp: sync_merge_requests_def Let_def split: prod.splits sum.splits)
  moreover have "\<exists>m. get_mr_state p (complete_mr_window p now db1) = Some m \<and> ms_updated_after m \<noteq> None" for now db1
    unfolding get_mr_state_def complete_mr_window_def
    by (simp, subst find_upsert_where) (auto simp: mr_state_for_def split: option.split)
  ultimately show ?thesis by (auto simp: grows_def get_commit_state_def)
qed

lemma sync_closed:
  assumes "sync_project env p t db = (Inr (Sync_Completed n m), t', db')"
  shows "window_closed p db'"
proof -
  have "window_closed p db'" if "sync_with env p client t1 db1 = (Inr (Sync_Completed n m), t', db')" for client t1 db1
    using that sync_commits_closed sync_merge_requests_closed
    by (fastforce simp: sync_with_def window_closed_def split: prod.splits sum.splits commit_run.splits)
  then have "try_candidates env p cs t1 db1 = (Inr (Sync_Completed n m), t', db') \<Longrightarrow> window_closed p db'" for cs t1 db1
    by (induction cs arbitrary: t1 db1) (auto split: prod.splits sum.splits if_splits option.splits)
  with assms show ?thesis by (simp add: sync_project_def)
qed

section \<open>The token and the instance\<close>

lemma normalize_https:
  "normalize_gitlab_base_url api True raw = Inr origin \<Longrightarrow> \<exists>u. origin = origin_of u \<and> url_protocol u = ''https:''"
  by (auto simp: normalize_gitlab_base_url_def Let_def split: if_splits option.splits)

lemma candidate_client_env:
  assumes "candidate_client w c pat = Inr rc"
  obtains origin where "normalize_gitlab_base_url (rw_api w) True (cd_base_url c) = Inr origin"
    and "he_allow (rc_env (rc t)) = [(origin, cd_internal c)]" and "he_token (rc_env (rc t)) = pat"
  using assms
  by (auto simp: candidate_client_def create_gitlab_allowlist_def create_read_client_def find_entry_def
      split: sum.splits if_splits)

section \<open>Properties\<close>

text \<open>C11. The worker's GitLab client sends a user's token to that user's own instance only: whatever the call,
  the paging and the retries, every request that leaves carries the candidate's token, goes to the one
  origin of the candidate's instance, over HTTPS, and to an address that its egress check has admitted
  under the instance's own flag for private networks.\<close>

theorem token_stays_with_instance:
  assumes "candidate_client w c pat = Inr rc" and "get_json (rc t) path query scope k = (r, lg)"
    and "l \<in> set lg" and "lg_request l = Some rq"
  shows "rq_token rq = pat \<and> address_permitted (cd_internal c) (rq_pin rq) \<and>
    normalize_gitlab_base_url (rw_api w) True (cd_base_url c) = Inr (origin_of (rq_url rq)) \<and>
    (\<exists>u. origin_of (rq_url rq) = origin_of u \<and> url_protocol u = ''https:'')"
proof -
  obtain origin where o': "normalize_gitlab_base_url (rw_api w) True (cd_base_url c) = Inr origin"
    "he_allow (rc_env (rc t)) = [(origin, cd_internal c)]" "he_token (rc_env (rc t)) = pat"
    by (rule candidate_client_env [OF assms(1)])
  obtain target where "request_json (rc_env (rc t)) target scope k = (r, lg)"
    using assms(2,3) by (auto simp: get_json_def split: sum.splits)
  note lg = attempts_log [OF this [unfolded request_json_def]]
  obtain t0 where "log_entry_ok (rc_env (rc t)) target scope t0 l" using lg assms(3) by (auto simp: list_all_iff)
  then obtain t1 r1 where a: "attempt (rc_env (rc t)) target scope t1 = (r1, Some rq)"
    using assms(4) by (auto simp: log_entry_ok_def)
  have tok: "rq_token rq = pat" and url: "rq_url rq = fst target"
    using attempt_request [OF a] o'(3) by metis+
  obtain d internal where "ssrf_check [(origin, cd_internal c)] (he_resolve (rc_env (rc t)) t1) (fst target) = Inr d"
    "rq_pin rq = sd_pinned d" "find_entry [(origin, cd_internal c)] (origin_of (fst target)) = Some internal"
    "address_permitted internal (sd_pinned d)"
    using attempt_request [OF a] pinned_permitted o'(2) by metis
  then have "address_permitted (cd_internal c) (rq_pin rq)" "origin_of (rq_url rq) = origin"
    by (auto simp: find_entry_def url split: if_splits)
  with tok o'(1) normalize_https [OF o'(1)] show ?thesis by auto
qed

text \<open>C10. A job is reported as completed only when its project is in sync: the sync that the job ran for its
  project came to its end, the window of the commits is closed, with the watermark set and no branch left, the
  merge requests have their cursor, and the job's row is completed.\<close>

theorem completed_job_in_sync:
  assumes "jobs_ok (t_jobs db)" and "no_claims w (t_jobs db)" and "fresh_ids new_id" and "js_trim w \<noteq> []"
    and "\<And>job. honest w (events job)" and "sv_invalidate env = invalidate_credential"
    and "run_worker_iteration new_id stale interval heartbeat_interval_ms now locked w audit_ok events (execute_sync env)
      end_now db = (Inr (Iter_Completed jid), db')"
  shows "\<exists>job db1 n m t db2 row. fst (worker_begin new_id stale interval now locked w db) = Inr (Some job) \<and> sj_id job = jid \<and>
    sync_project env (job_ref job) 0 db1 = (Inr (Sync_Completed n m), t, db2) \<and> window_closed (job_ref job) db' \<and>
    row_of (t_jobs db') jid = Some row \<and> j_status row = Completed"
proof -
  obtain r db1 where b: "worker_begin new_id stale interval now locked w db = (r, db1)" by fastforce
  have ok1: "jobs_ok (t_jobs db1)"
    using jobs_ok_worker_begin [OF assms(3,1), of stale interval now locked w] b by simp
  have beat: "\<not> (heartbeat_interval_ms \<le> 0 \<or> max_safe_integer < heartbeat_interval_ms)"
    by (simp add: heartbeat_interval_ms_def max_safe_integer_def)
  from assms(1-4) b show ?thesis
  proof (cases rule: begin_claims)
    case idle
    with assms(7) beat b show ?thesis by (simp add: run_worker_iteration_def)
  next
    case (job job)
    define db2 where "db2 = safe_audit audit_ok ''sync_started'' job [] db1"
    obtain result db3 where e: "execute_sync env job db2 = (result, db3)" by fastforce
    obtain lost js where ev: "run_events (sj_id job) w (events job) (False, t_jobs db3) = (lost, js)" by fastforce
    have js3: "t_jobs db3 = t_jobs db1" using execute_sync_jobs [OF assms(6) e] by (simp add: db2_def)
    have okj: "jobs_ok js"
      using run_events_claims [OF assms(5) _ _ _ ev] js3 ok1 job(2) by simp
    have f: "worker_finish end_now w audit_ok job result lost (db3\<lparr>t_jobs := js\<rparr>) = (Inr (Iter_Completed jid), db')"
      using assms(7) beat b job(1) e ev by (simp add: run_worker_iteration_def db2_def)
    then have l: "\<not> lost" by (auto simp: worker_finish_def)
    note op = worker_finish_op [OF job(3), of end_now w audit_ok result "db3\<lparr>t_jobs := js\<rparr>"]
    from f l op(1) have acc: "fst (finish_op end_now w job result js)" and res: "finished_result end_now job result = Iter_Completed jid"
      by (auto split: if_splits)
    from res obtain n m where result: "result = Returned (Outcome_Completed n m)" "sj_id job = jid"
      by (cases "(end_now, job, result)" rule: finished_result.cases) (auto split: if_splits)
    then obtain t where s: "sync_project env (job_ref job) 0 db2 = (Inr (Sync_Completed n m), t, db3)"
      using e by (auto simp: execute_sync_def split: prod.splits sum.splits elim!: job_outcome.elims)
    have same: "window_closed p db' = window_closed p db3" for p
      using f l by (auto simp: result(1) worker_finish_def finish_returned_def with_jobs_def safe_audit_def Let_def
          window_closed_def get_commit_state_def get_mr_state_def split: prod.splits if_splits)
    obtain j where "row_of (t_jobs db') jid = Some (finished_row end_now job result j)"
      using finish_accepted [OF okj acc] op(2) f l result(2) by auto
    then have "\<exists>row. row_of (t_jobs db') jid = Some row \<and> j_status row = Completed"
      by (simp add: result(1) complete_row_def)
    with b job(1) result(2) s sync_closed [OF s] same show ?thesis by (metis fst_conv)
  qed
qed

text \<open>C9. A worker with a configuration that passes the preflight (and a key version that is a safe integer), whose
  database answers and whose heartbeats get through, never dies of its own: it runs until it is told to
  stop, then leaves with exit code 0, and at every moment between two jobs it holds no claim, so that
  stopping it strands no job.\<close>

theorem worker_stops_clean:
  assumes "er_issues (validate_runtime_env new_url env) = []"
    and "int (digits_val (tl (env_text env ''TOKEN_ENCRYPTION_KEY_VERSION''))) \<le> max_safe_integer"
    and "js_trim wid \<noteq> []" and "jobs_ok (t_jobs db)" and "no_claims wid (t_jobs db)" and "list_all (turn_ok wid) tns"
    and "worker_main new_url g wid env True tns db = (code, ls, db')"
  shows "code = (if list_ex tn_aborted tns then Some 0 else None) \<and> no_claims wid (t_jobs db') \<and> jobs_ok (t_jobs db')"
proof -
  note q = preflight_parts [OF assms(1)]
  obtain cfg where cfg: "parse_sync_runtime_config env = Inr cfg" "0 < sc_poll cfg" "sc_poll cfg \<le> max_safe_integer"
    "0 < sc_stale cfg" "sc_stale cfg \<le> max_safe_integer" using parse_sync_ok [OF q(8)] by blast
  from q(3) obtain m where "key_issues m (env_raw env ''TOKEN_ENCRYPTION_KEY'') = []" by blast
  from env_loader [OF q(2) this q(4)] assms(2) obtain kl where kl: "create_env_key_loader env = Inr kl" by auto
  define d where "d = \<lparr>wk_config = cfg, wk_id = wid, wk_gcm = g, wk_loader = kl\<rparr>"
  have d: "create_worker_runtime g wid env = Inr d"
    using cfg kl by (simp add: create_worker_runtime_def new_job_queue_def d_def)
  obtain ls' where pre: "assert_runtime_env new_url env = (Inr (), ls')"
    using assms(1) by (simp add: assert_runtime_env_def summarize_env_issues_def summarize_def Let_def)
  obtain st rs db1 where loop: "run_worker_loop (iterate d) tns db = (st, rs, db1)" by (metis prod_cases3)
  have "no_claims wid (t_jobs db1) \<and> jobs_ok (t_jobs db1) \<and> st = (if list_ex tn_aborted tns then Loop_Stopped else Loop_Running)"
    using loop_leaves_no_claim [OF assms(4) _ _ _ loop] assms(3,5,6) by (simp add: d_def)
  with assms(7) show ?thesis
    by (auto simp: worker_main_def pre d loop split: if_splits)
qed

end
