(* ===== verification/WorkerWitness.thy ===== *)
theory WorkerWitness
  imports WorkerProperties WebWitness
begin

text \<open>The properties of \<open>WorkerProperties\<close> at concrete inputs.\<close>

section \<open>One request\<close>

definition sample_world :: run_world where
  "sample_world = \<lparr>rw_api = \<lparr>ua_parse = (\<lambda>_. Some sample_url), ua_set_pathname = (\<lambda>_ u. u)\<rparr>, rw_param_of = (\<lambda>_ _. None),
     rw_iso = (\<lambda>_. []), rw_http = (\<lambda>_. sample_http), rw_clock = int, rw_cmp = (\<lambda>_ _. 0), rw_nfkc = (\<lambda>s. s),
     rw_date = (\<lambda>_. None), rw_fuel = 10\<rparr>"

definition sample_candidate :: candidate where
  "sample_candidate = \<lparr>cd_connection = ''c1'', cd_user = ''u1'', cd_instance = ''gi1'', cd_base_url = ''https://g'',
     cd_internal = False\<rparr>"

theorem token_stays_with_instance_witness:
  "\<exists>rc rq lg. candidate_client sample_world sample_candidate ''glpat-1'' = Inr rc \<and>
     get_json (rc 0) ''/api/v4/user'' [] Global_Scope 0 = (Inl Gl_Unauthorized, lg) \<and> lg_request (hd lg) = Some rq \<and>
     address_permitted False (rq_pin rq)"
proof -
  let ?rc = "\<lparr>rc_api = rw_api sample_world, rc_param_of = rw_param_of sample_world, rc_iso = rw_iso sample_world,
    rc_origin = ''https://g'', rc_env = sample_http\<rparr>"
  have n: "normalize_gitlab_base_url (rw_api sample_world) True ''https://g'' = Inr ''https://g''"
    by (simp add: normalize_gitlab_base_url_def sample_world_def sample_url_def origin_of_def default_port_def js_lower_def
        lower_char_def js_trim_def js_trim_start_def is_js_space_def has_scheme_def scheme_char_def is_letter_def
        is_digit_def starts_with_def Let_def)
  have h: "sample_http\<lparr>he_allow := [(''https://g'', False)], he_token := ''glpat-1''\<rparr> = sample_http"
    by (simp add: sample_http_def)
  have w: "rw_http sample_world k = sample_http" for k by (simp add: sample_world_def)
  have c: "candidate_client sample_world sample_candidate ''glpat-1'' = Inr (\<lambda>_. ?rc)"
    by (simp add: candidate_client_def sample_candidate_def create_gitlab_allowlist_def create_read_client_def n find_entry_def
        w h)
  obtain rq where q: "request_json sample_http (sample_url, []) Global_Scope 0 =
      (Inl Gl_Unauthorized, [\<lparr>lg_start = 1, lg_timeout = 15000, lg_request = Some rq, lg_result = Inl Gl_Unauthorized\<rparr>])"
    (is "_ = (_, [?l])") using sample_request [of Global_Scope] by blast
  have "build_api_url (rw_api sample_world) ''https://g'' ''/api/v4/user'' [] = Inr (sample_url, [])"
    by (simp add: build_api_url_def sample_world_def sample_url_def starts_with_def)
  with q have g: "get_json ?rc ''/api/v4/user'' [] Global_Scope 0 = (Inl Gl_Unauthorized, [?l])"
    by (simp add: get_json_def)
  from token_stays_with_instance [OF c g, of ?l rq] c g show ?thesis by (auto simp: sample_candidate_def)
qed

section \<open>One turn\<close>

lemma schedule_loop_busy:
  "(\<And>p. p \<in> set ps \<Longrightarrow> find (active_for p) js \<noteq> None) \<Longrightarrow> snd (snd (schedule_loop new_id interval now ps (a, b, js))) = js"
proof (induction ps arbitrary: b)
  case (Cons p ps)
  from Cons.prems [of p] obtain y where "find (active_for p) js = Some y" by auto
  then have "schedule_target new_id interval now p js = (False, js)" by (simp add: schedule_target_def)
  with Cons show ?case by simp
qed simp

definition queued_db :: database where
  "queued_db = sync_sample_db\<lparr>t_jobs := qs_jobs sample_queue\<rparr>"

lemma queued_jobs: "jobs_ok (t_jobs queued_db)" "no_claims ''w1'' (t_jobs queued_db)"
  using reachable_queue_inv [OF sample_reachable]
  by (simp_all add: queued_db_def queue_inv_def no_claims_def claims_def sample_queue_def new_job_def)

lemma queued_candidates:
  "find_candidates sample_project (queued_db\<lparr>t_jobs := js\<rparr>) = find_candidates sample_project sync_sample_db"
  by (simp add: find_candidates_def project_allowlisted_def queued_db_def sync_sample_db_def sample_db_def
      is_candidate_row_def sample_project_def sample_connection_def user_active_def sample_user_def
      project_enabled_def to_candidate_def map_filter_simps)

lemma queued_begin:
  "worker_begin sample_new_id 300 60 9 {} ''w1'' queued_db =
     (fst (claim 9 {} ''w1'' (qs_jobs sample_queue)), queued_db\<lparr>t_jobs := snd (claim 9 {} ''w1'' (qs_jobs sample_queue))\<rparr>)"
proof -
  have js: "t_jobs queued_db = qs_jobs sample_queue" by (simp add: queued_db_def)
  have r: "snd (recover_stale_claims 9 300 (qs_jobs sample_queue)) = qs_jobs sample_queue"
    by (simp add: recover_stale_claims_def sample_queue_def stale_claim_def new_job_def)
  have nul: "no_nul_ids queued_db"
    using sample_db_no_nul by (simp add: no_nul_ids_def queued_db_def sync_sample_db_def)
  have "p = sample_project" if "p \<in> set (schedule_targets queued_db)" for p
    using that unfolding set_schedule_targets [OF nul]
    by (cases p) (auto simp: is_target_def enables_target_def queued_db_def sync_sample_db_def sample_db_def
        sample_project_def)
  then have "find (active_for p) (t_jobs queued_db) \<noteq> None" if "p \<in> set (schedule_targets queued_db)" for p
    using that by (simp add: js sample_queue_def active_new_job)
  then have "snd (snd (schedule_loop sample_new_id 60 9 (schedule_targets queued_db) (0, 0, t_jobs queued_db))) = t_jobs queued_db"
    by (rule schedule_loop_busy)
  then have sched: "snd (schedule sample_new_id 60 9 queued_db) = queued_db"
    unfolding schedule_def by (auto simp: Let_def split: prod.split)
  have same: "queued_db\<lparr>t_jobs := qs_jobs sample_queue\<rparr> = queued_db" by (simp add: queued_db_def)
  show ?thesis by (simp add: worker_begin_def js r same sched Let_def split: prod.split)
qed

theorem completed_job_in_sync_witness:
  "\<exists>db'. run_worker_iteration sample_new_id 300 60 heartbeat_interval_ms 9 {} ''w1'' False (\<lambda>_. []) (execute_sync sample_env) 20
     queued_db = (Inr (Iter_Completed ''j1''), db') \<and> window_closed sample_project db' \<and>
     map_option j_status (row_of (t_jobs db') ''j1'') = Some Completed"
proof -
  let ?row = "claim_row 9 ''w1'' (new_job ''j1'' sample_project 5 5)"
  let ?db1 = "queued_db\<lparr>t_jobs := [?row]\<rparr>"
  have j: "fst (claim 9 {} ''w1'' (qs_jobs sample_queue)) = Inr (Some sample_job)"
    "snd (claim 9 {} ''w1'' (qs_jobs sample_queue)) = [?row]" "job_ref sample_job = sample_project"
    by (simp_all add: sample_claim sample_job_def job_ref_def sample_project_def)
  obtain c where "find_candidates sample_project ?db1 = [c]" using sample_candidates queued_candidates by simp
  moreover have "get_commit_state sample_project ?db1 = None"
    by (simp add: get_commit_state_def queued_db_def sync_sample_db_def sample_db_def empty_db_def)
  ultimately obtain db2 where s: "sync_project sample_env sample_project 0 ?db1 = (Inr (Sync_Completed 2 0), 5, db2)"
    using sample_sync_db by blast
  have inv: "sv_invalidate sample_env = invalidate_credential" by (simp add: sample_env_def)
  have js: "t_jobs db2 = [?row]" using jobs_frame.sync_project_view [OF inv s] by simp
  have a: "1 \<le> sj_attempts sample_job" by (simp add: sample_job_def)
  have "fst (finish_op 20 ''w1'' sample_job (Returned (Outcome_Completed 2 0)) [?row])"
    by (simp add: complete_def own_update_def owned_def claim_row_def new_job_def count_where_def sample_job_def)
  then obtain db' where f: "worker_finish 20 ''w1'' False sample_job (Returned (Outcome_Completed 2 0)) False db2 =
      (Inr (Iter_Completed ''j1''), db')"
    using worker_finish_op(1) [OF a, of 20 "''w1''" False "Returned (Outcome_Completed 2 0)" db2] js
    by (cases "worker_finish 20 ''w1'' False sample_job (Returned (Outcome_Completed 2 0)) False db2")
      (simp add: sample_job_def)
  have w: "js_trim ''w1'' \<noteq> []" using js_trim_w1 by simp
  have "execute_sync sample_env sample_job ?db1 = (Returned (Outcome_Completed 2 0), db2)"
    by (simp add: execute_sync_def j s)
  moreover have "db2\<lparr>t_jobs := [?row]\<rparr> = db2" using js by simp
  ultimately have run: "run_worker_iteration sample_new_id 300 60 heartbeat_interval_ms 9 {} ''w1'' False (\<lambda>_. [])
      (execute_sync sample_env) 20 queued_db = (Inr (Iter_Completed ''j1''), db')"
    using f js by (simp add: run_worker_iteration_def queued_begin j safe_audit_def heartbeat_interval_ms_def
        max_safe_integer_def)
  have h: "honest ''w1'' []" by (simp add: honest_def)
  from completed_job_in_sync [OF queued_jobs sample_new_id_fresh w h inv run] run j show ?thesis
    by (auto simp: queued_begin)
qed

section \<open>A process\<close>

definition sample_turn :: turn where
  "sample_turn = \<lparr>tn_aborted = False, tn_now = 9, tn_locked = {}, tn_new_id = sample_new_id, tn_audit_ok = True,
     tn_events = (\<lambda>_. [Beat 12]), tn_world = sample_world, tn_end = 20\<rparr>"

theorem worker_stops_clean_witness:
  "fst (worker_main sample_new_url sample_gcm ''w1'' sample_env_config True [sample_turn, sample_turn\<lparr>tn_aborted := True\<rparr>]
     queued_db) = Some 0"
proof -
  obtain code ls db' where m: "worker_main sample_new_url sample_gcm ''w1'' sample_env_config True
      [sample_turn, sample_turn\<lparr>tn_aborted := True\<rparr>] queued_db = (code, ls, db')" by (metis prod_cases3)
  have "env_text sample_env_config ''TOKEN_ENCRYPTION_KEY_VERSION'' = ''v1''"
    by (simp add: env_text_def env_raw_def sample_env_config_def sample_process_def js_trim_def js_trim_start_def is_js_space_def)
  then have v: "int (digits_val (tl (env_text sample_env_config ''TOKEN_ENCRYPTION_KEY_VERSION''))) \<le> max_safe_integer"
    by (simp add: digits_val_def digit_val_def max_safe_integer_def)
  have w: "js_trim ''w1'' \<noteq> []" using js_trim_w1 by simp
  have t: "list_all (turn_ok ''w1'') [sample_turn, sample_turn\<lparr>tn_aborted := True\<rparr>]"
    by (simp add: turn_ok_def sample_turn_def honest_def sample_new_id_fresh)
  from worker_stops_clean [OF sample_config_ok v w queued_jobs t m] m show ?thesis by (simp add: sample_turn_def)
qed

end
