(* ===== verification/Spec2Isabelle.thy ===== *)
theory Spec2Isabelle
  imports AllowlistAdmin Interface LiveProbe QueueLifecycle Setup Transport WebPageProperties WorkerWitness
begin

text \<open>
  ReviewPulse shows engineering teams their GitLab commits, merge requests and two reference metrics.
  Users log in with a local account, connect a GitLab account with a personal access token (PAT) and
  enable projects from an administrator's allowlist; a worker synchronises the enabled projects into
  PostgreSQL, and a dashboard reads what a user may see. This development models the TypeScript code of
  the packages, of the worker process and of the web server's API and pages, from the bytes of an envelope and of an
  IP address up to the handlers of the routes and the loop of the worker.

  \<^bold>\<open>Parts and how they interact.\<close>
  The scheduler enqueues a job for every enabled, allowlisted project with an active connection; the
  worker claims a job, asks the orchestrator to synchronise its project and reports the outcome to the
  queue. The orchestrator tries the users who enabled the project one after the other: it opens the
  user's token (credential provider, over envelope encryption), checks with GitLab that the user still
  sees the project, and reads commits and merge requests page by page through the read client, whose
  every request passes the allowlist, the SSRF guard and the request executor. The dashboard asks
  project access which enabled projects the user sees now (membership cache, then live probes), reads
  the cached rows of those projects and stores the metrics as snapshots. Logins, sessions, lockout and
  user administration are the services of \<open>packages/app-auth\<close>. A request to the web server passes the
  guards (origin, CSRF token, session, role) before its route calls a service, and every error becomes a
  safe payload. All services share one database.

  \<^bold>\<open>State.\<close>
  \<open>Database\<close> has a record for each table of \<open>packages/db/prisma/schema.prisma\<close> and the record
  \<open>database\<close> of the tables as lists of rows; an operation takes the database and returns its result
  with the new database. A transaction that throws returns the database it was given. Times are integers
  in milliseconds, strings are lists of characters, bytes are 8-bit words. The lists are in the order
  of insertion, which is the order PostgreSQL's answer has in the model where the code gives none.

  \<^bold>\<open>Theories.\<close>
  \<^item> \<open>Prelude\<close>: updates, deletions and upserts on tables, JavaScript's string functions, sorting.
  \<^item> \<open>JobQueue\<close>, \<open>QueueProtocol\<close>, \<open>QueueLifecycle\<close> (\<open>domain/src/job-queue.ts\<close>): the methods of the queue,
    its protocol as a step relation (one active job a project, row invariants, ownership, liveness), and
    the automaton of a project (idle, waiting, held) that the protocol refines.
  \<^item> \<open>Scheduler\<close> (\<open>sync-scheduler.ts\<close>), \<open>Worker\<close> (\<open>apps/worker/src/worker-loop.ts\<close>): targets and
    spacing; an iteration, its retries and the bound on failing jobs.
  \<^item> \<open>WorkerRuntime\<close>, \<open>WorkerProperties\<close>, \<open>WorkerWitness\<close> (\<open>apps/worker/src/runtime.ts\<close>, \<open>index.ts\<close>):
    the worker over the orchestrator and the GitLab client, its loop and its process; a worker that is
    told to stop holds no claim, a completed job is in sync, a token goes to its own instance only.
  \<^item> \<open>Json\<close>, \<open>JsNumber\<close>: JSON text and \<open>Number(s)\<close>, which several components parse with.
  \<^item> \<open>Crypto\<close>, \<open>Credentials\<close> (\<open>packages/crypto\<close>, \<open>packages/credentials\<close>): keys, additional data,
    envelopes (round trip, binding), the PAT store and its refinement to a map from connections to tokens.
  \<^item> \<open>IpAddress\<close>, \<open>Url\<close>, \<open>Ssrf\<close>, \<open>Http\<close>, \<open>Transport\<close>, \<open>Pagination\<close>, \<open>GitLabTypes\<close>,
    \<open>GitLabClient\<close> (\<open>packages/gitlab-client\<close>): which addresses a request may reach, also on a socket that
    Node's agent uses again, how often it is tried and what its result may say, when paging stops, and
    what each call of the client returns.
  \<^item> \<open>SyncStore\<close>, \<open>Orchestrator\<close>, \<open>SyncProgress\<close>, \<open>SyncProperties\<close>
    (\<open>domain/src/sync-orchestrator.ts\<close>): the persistence, the orchestrator, and windows of commits that an
    interruption at any page loses nothing of.
  \<^item> \<open>Membership\<close>, \<open>ProbePool\<close>, \<open>ProjectAccess\<close>, \<open>LiveProbe\<close> (\<open>membership-cache.ts\<close>,
    \<open>project-access.ts\<close>): the cache, the concurrent probes as a step relation whose outcome does not depend
    on the order, the evidence behind every project that is reported visible, and the HTTP answers that
    this evidence and every row of the cache come from.
  \<^item> \<open>Connections\<close>, \<open>AllowlistAdmin\<close>, \<open>EmailAlias\<close> (\<open>gitlab-connection.ts\<close>, \<open>allowlist-admin.ts\<close>,
    \<open>email-alias.ts\<close>): identities, saved and revoked connections, removal of projects and instances.
  \<^item> \<open>Metrics\<close>, \<open>Dashboard\<close> (\<open>domain/src/metrics\<close>, \<open>kpi-rules.ts\<close>, \<open>dashboard-query.ts\<close>).
  \<^item> \<open>Redact\<close>, \<open>AuthPolicy\<close>, \<open>Sessions\<close>, \<open>UserAdmin\<close>, \<open>AuthProperties\<close> (\<open>crypto/src/redact.ts\<close>,
    \<open>packages/app-auth\<close>): redaction and audit, policies, sessions, lockout, login, administration, and
    what holds over any sequence of calls.
  \<^item> \<open>WebErrors\<close>, \<open>WebHttp\<close> (\<open>apps/web/src/server\<close>): the error classes as a route sees them, the wiring
    of the services, forms, cookies, guards and responses. \<open>WebRoutes\<close>, \<open>WebActions\<close>
    (\<open>apps/web/src/app/api\<close>): the handlers. \<open>WebFrames\<close>, \<open>WebProperties\<close>, \<open>WebSecrecy\<close>,
    \<open>WebWitness\<close>: which tables a handler may touch, what no request gets past the guards, what a
    deactivated user can no longer do, and what an answer does not tell.
  \<^item> \<open>WebPages\<close>, \<open>WebPageProperties\<close> (\<open>apps/web/src/app/**/page.tsx\<close>, \<open>components/layout/app-shell.tsx\<close>):
    the server side of the pages, whom they are shown to, that the routes take the forms they offer, and
    what the filter of the dashboard does when it is applied unchanged.
  \<^item> \<open>Interface\<close> (\<open>components/ui\<close>): the element trees of the components; a confirmation dialog posts nothing
    but its form, and only when it was opened and confirmed.
  \<^item> \<open>EnvCheck\<close> (\<open>packages/db/src/env.ts\<close>, \<open>load-env.ts\<close>): the preflight, and what a process that passes
    it may rely on. \<open>Setup\<close> (\<open>packages/db/src/index.ts\<close>, the scripts): the handles of the database connection,
    readiness, the seed of the reference rules and the first administrator, who can log in.

  \<^bold>\<open>Interfaces.\<close>
  A contract that one component relies on is a locale, interpreted on the definitions of the component
  that provides it: \<open>owner_op\<close> and \<open>releasing_op\<close> (what a worker may do to a job it claimed),
  \<open>credential_store\<close> (what connections and access rely on in the PAT provider), \<open>sink\<close> (what a page
  loop needs of the function that stores an item), \<open>cache_frame\<close> and \<open>sync_frame\<close> (which parts of the
  database a sync leaves alone), \<open>table_history\<close> (how the rows of a table may change over time).

  \<^bold>\<open>Parameters.\<close>
  Code that is not in the repository is an argument: AES-256-GCM, HMAC, Argon2, Unicode NFKC, the WHATWG
  URL parser, the resolver, the socket, GitLab's answers, clocks and random draws. Laws of theirs that a
  property needs (decryption inverts encryption, the parser keeps an origin) are its hypotheses, and
  its witness instantiates the parameter.

  \<^bold>\<open>Loops and fuel.\<close>
  The loops of the orchestrator end only when GitLab stops naming further pages: \<open>page_loop\<close> has
  \<open>sv_fuel\<close> pages of fuel, running out of it is an error value that no handler of the code catches, and
  \<open>sync_terminates\<close> shows that it does not happen when the listings name fewer distinct cursors than
  that, because the code rejects a cursor that it has seen. The probe pool runs for as many completions as it has projects, which \<open>run_pool_outcome\<close> shows to be
  enough. \<open>drainPages\<close> and the retries of the request
  executor recurse on the pages and attempts that the code's own limits leave. The JSON parser has the
  length of its text as fuel, which no grammatical text exhausts.

  \<^bold>\<open>Not modelled.\<close>
  The texts, layout and styles of the web application (a page is the list of what it shows of the data,
  with its forms and links), the paths of the icons, the static home page and layout, the bytes on a
  socket and TLS, timers (the sleep of the worker's loop, the clock of the heartbeat), test support, migrations other than the partial unique index that \<open>Connections\<close> uses, and
  tests. Interleavings inside one service call are modelled where the code itself is concurrent (the
  probe pool, the queue under several workers); other calls are atomic.
\<close>

end
